(* ===== verification/Prelude.thy ===== *)
theory Prelude
  imports Main "HOL-Library.Word" "HOL-Library.Char_ord" "HOL-Library.List_Lexorder"
    "HOL-Library.Product_Lexorder" "HOL-Library.Option_ord"
begin

text \<open>
  What every component of the development shares.

  \<^item> Rust's \<open>Result\<close> is the sum type \<open>'e + 'a\<close>, with \<open>Inl\<close> for \<open>Err\<close>; \<open>?\<close> is \<open>bindR\<close>.
  \<^item> An \<open>async fn\<close> that reads and changes something outside itself is an action of type
    \<open>('w, 'e, 'a) io\<close>: it takes the world and returns the answer and the world it leaves.
    \<open>?\<close> in such a function is \<open>bindE\<close>, which stops at the first error and keeps the world of
    the step that failed.
  \<^item> A Rust string is its UTF-8 bytes: a \<open>char\<close> of HOL is one byte, so \<open>length\<close> is \<open>str::len\<close>
    and the lexicographic order of \<open>List_Lexorder\<close> is the order of \<open>String\<close>.
  \<^item> \<open>split_on\<close>, \<open>split_once\<close> and \<open>splitn\<close> are the methods of \<open>str\<close> of these names for a
    one-byte separator; \<open>dec_nat\<close> and \<open>dec_int\<close> are what \<open>Display\<close> prints of an integer.
\<close>

named_theorems io_simps \<open>evaluation of actions\<close>

type_synonym byte = "8 word"
type_synonym bytes = "byte list"

section \<open>Results\<close>

definition bindR :: "'e + 'a \<Rightarrow> ('a \<Rightarrow> 'e + 'b) \<Rightarrow> 'e + 'b" where
  "bindR r k = (case r of Inl e \<Rightarrow> Inl e | Inr a \<Rightarrow> k a)"

definition map_err :: "('e \<Rightarrow> 'f) \<Rightarrow> 'e + 'a \<Rightarrow> 'f + 'a" where
  "map_err f r = (case r of Inl e \<Rightarrow> Inl (f e) | Inr a \<Rightarrow> Inr a)"

definition ok_or :: "'a option \<Rightarrow> 'e \<Rightarrow> 'e + 'a" where
  "ok_or x e = (case x of None \<Rightarrow> Inl e | Some a \<Rightarrow> Inr a)"

definition res_ok :: "'e + 'a \<Rightarrow> 'a option" where
  "res_ok r = (case r of Inl _ \<Rightarrow> None | Inr a \<Rightarrow> Some a)"

text \<open>\<open>Iterator::try_for_each\<close>: the first error stops the iteration.\<close>

fun try_for_each :: "('a \<Rightarrow> 'e + unit) \<Rightarrow> 'a list \<Rightarrow> 'e + unit" where
  "try_for_each f [] = Inr ()"
| "try_for_each f (x # xs) = bindR (f x) (\<lambda>_. try_for_each f xs)"

lemma bindR_simps [simp]:
  "bindR (Inl e) k = Inl e" "bindR (Inr a) k = k a"
  by (simp_all add: bindR_def)

lemma bindR_eq_Inr [simp]: "bindR r k = Inr b \<longleftrightarrow> (\<exists>a. r = Inr a \<and> k a = Inr b)"
  by (cases r) simp_all

lemma bindR_eq_Inl: "bindR r k = Inl e \<longleftrightarrow> r = Inl e \<or> (\<exists>a. r = Inr a \<and> k a = Inl e)"
  by (cases r) auto

lemma map_err_simps [simp]:
  "map_err f (Inl e) = Inl (f e)" "map_err f (Inr a) = Inr a"
  by (simp_all add: map_err_def)

lemma map_err_eq_Inr [simp]: "map_err f r = Inr a \<longleftrightarrow> r = Inr a"
  by (cases r) simp_all

lemma map_err_eq_Inl: "map_err f r = Inl e \<longleftrightarrow> (\<exists>e'. r = Inl e' \<and> e = f e')"
  by (cases r) auto

lemma ok_or_simps [simp]: "ok_or None e = Inl e" "ok_or (Some a) e = Inr a"
  by (simp_all add: ok_or_def)

lemma ok_or_eq_Inr [simp]: "ok_or x e = Inr a \<longleftrightarrow> x = Some a"
  by (cases x) simp_all

lemma res_ok_simps [simp]: "res_ok (Inl e) = None" "res_ok (Inr a) = Some a"
  by (simp_all add: res_ok_def)

lemma res_ok_eq_Some [simp]: "res_ok r = Some a \<longleftrightarrow> r = Inr a"
  by (cases r) simp_all

lemma try_for_each_ok: "try_for_each f xs = Inr () \<longleftrightarrow> (\<forall>x \<in> set xs. f x = Inr ())"
  by (induction xs) auto

text \<open>The answer is that of the first element that is refused.\<close>

lemma try_for_each_find:
  "try_for_each f xs = (case find (\<lambda>x. f x \<noteq> Inr ()) xs of None \<Rightarrow> Inr () | Some x \<Rightarrow> f x)"
  by (induction xs) (auto simp: bindR_def split: sum.split)

section \<open>Actions\<close>

type_synonym ('w, 'e, 'a) io = "'w \<Rightarrow> ('e + 'a) \<times> 'w"

definition retE :: "'a \<Rightarrow> ('w, 'e, 'a) io" where
  "retE a = (\<lambda>w. (Inr a, w))"

definition failE :: "'e \<Rightarrow> ('w, 'e, 'a) io" where
  "failE e = (\<lambda>w. (Inl e, w))"

definition liftE :: "'e + 'a \<Rightarrow> ('w, 'e, 'a) io" where
  "liftE r = (\<lambda>w. (r, w))"

definition bindE :: "('w, 'e, 'a) io \<Rightarrow> ('a \<Rightarrow> ('w, 'e, 'b) io) \<Rightarrow> ('w, 'e, 'b) io" where
  "bindE m k = (\<lambda>w. case m w of (Inl e, w') \<Rightarrow> (Inl e, w') | (Inr a, w') \<Rightarrow> k a w')"

definition map_errE :: "('e \<Rightarrow> 'f) \<Rightarrow> ('w, 'e, 'a) io \<Rightarrow> ('w, 'f, 'a) io" where
  "map_errE f m = (\<lambda>w. case m w of (r, w') \<Rightarrow> (map_err f r, w'))"

text \<open>An action that changes only a part of the world, read by \<open>g\<close> and written by \<open>p\<close>.\<close>

definition zoomE :: "('w \<Rightarrow> 's) \<Rightarrow> ('s \<Rightarrow> 'w \<Rightarrow> 'w) \<Rightarrow> ('s, 'e, 'a) io \<Rightarrow> ('w, 'e, 'a) io" where
  "zoomE g p m = (\<lambda>w. case m (g w) of (r, s) \<Rightarrow> (r, p s w))"

lemma retE_apply [simp, io_simps]: "retE a w = (Inr a, w)"
  by (simp add: retE_def)

lemma failE_apply [simp, io_simps]: "failE e w = (Inl e, w)"
  by (simp add: failE_def)

lemma liftE_apply [simp, io_simps]: "liftE r w = (r, w)"
  by (simp add: liftE_def)

lemma bindE_apply: "bindE m k w =
  (case m w of (Inl e, w') \<Rightarrow> (Inl e, w') | (Inr a, w') \<Rightarrow> k a w')"
  by (simp add: bindE_def)

lemma bindE_Inl [simp, io_simps]: "m w = (Inl e, w') \<Longrightarrow> bindE m k w = (Inl e, w')"
  by (simp add: bindE_def)

lemma bindE_Inr [simp, io_simps]: "m w = (Inr a, w') \<Longrightarrow> bindE m k w = k a w'"
  by (simp add: bindE_def)

lemma bindE_retE [simp]: "bindE (retE a) k = k a"
  by (simp add: bindE_def retE_def)

lemma bindE_failE [simp]: "bindE (failE e) k = failE e"
  by (simp add: bindE_def failE_def)

lemma bindE_liftE_Inr [simp]: "bindE (liftE (Inr a)) k = k a"
  by (simp add: bindE_def liftE_def)

lemma bindE_liftE_Inl [simp]: "bindE (liftE (Inl e)) k = failE e"
  by (simp add: bindE_def liftE_def failE_def)

lemma bindE_assoc: "bindE (bindE m k) h = bindE m (\<lambda>a. bindE (k a) h)"
  by (rule ext) (simp add: bindE_def split: prod.split sum.split)

lemma bindE_eq_Inr:
  "bindE m k w = (Inr b, w'') \<longleftrightarrow> (\<exists>a w'. m w = (Inr a, w') \<and> k a w' = (Inr b, w''))"
  by (auto simp: bindE_def split: prod.splits sum.splits)

lemma bindE_eq_Inl:
  "bindE m k w = (Inl e, w'') \<longleftrightarrow>
     m w = (Inl e, w'') \<or> (\<exists>a w'. m w = (Inr a, w') \<and> k a w' = (Inl e, w''))"
  by (auto simp: bindE_def split: prod.splits sum.splits)

lemma map_errE_apply [simp, io_simps]:
  "map_errE f m w = (map_err f (fst (m w)), snd (m w))"
  by (simp add: map_errE_def split: prod.split)

lemma map_errE_eq_Inr: "map_errE f m w = (Inr a, w') \<longleftrightarrow> m w = (Inr a, w')"
  by (cases "m w") (auto simp: map_errE_def)

lemma map_errE_eq_Inl: "map_errE f m w = (Inl e', w') \<longleftrightarrow> (\<exists>e. m w = (Inl e, w') \<and> e' = f e)"
  by (cases "m w") (auto simp: map_errE_def map_err_def split: sum.splits)

lemma zoomE_apply: "zoomE g p m w = (fst (m (g w)), p (snd (m (g w))) w)"
  by (simp add: zoomE_def split: prod.split)

text \<open>\<open>collect\<close> into a \<open>Result\<close>: the first error is the answer.\<close>

fun try_map :: "('a \<Rightarrow> 'e + 'b) \<Rightarrow> 'a list \<Rightarrow> 'e + 'b list" where
  "try_map f [] = Inr []"
| "try_map f (x # xs) = bindR (f x) (\<lambda>y. bindR (try_map f xs) (\<lambda>ys. Inr (y # ys)))"

text \<open>A \<open>for\<close> loop whose body may return early with an error.\<close>

fun for_each :: "('a \<Rightarrow> ('w, 'e, unit) io) \<Rightarrow> 'a list \<Rightarrow> ('w, 'e, unit) io" where
  "for_each f [] = retE ()"
| "for_each f (x # xs) = bindE (f x) (\<lambda>_. for_each f xs)"

lemma try_map_map: "(\<And>x. x \<in> set xs \<Longrightarrow> f x = Inr (g x)) \<Longrightarrow> try_map f xs = Inr (map g xs)"
  by (induction xs) simp_all

section \<open>Strings\<close>

fun split_on :: "char \<Rightarrow> string \<Rightarrow> string list" where
  "split_on c [] = [[]]"
| "split_on c (x # xs) =
     (if x = c then [] # split_on c xs
      else case split_on c xs of [] \<Rightarrow> [[x]] | p # ps \<Rightarrow> (x # p) # ps)"

fun join :: "char \<Rightarrow> string list \<Rightarrow> string" where
  "join c [] = []"
| "join c [p] = p"
| "join c (p # q # ps) = p @ c # join c (q # ps)"

definition split_once :: "char \<Rightarrow> string \<Rightarrow> (string \<times> string) option" where
  "split_once c s =
     (case dropWhile (\<lambda>x. x \<noteq> c) s of [] \<Rightarrow> None | _ # r \<Rightarrow> Some (takeWhile (\<lambda>x. x \<noteq> c) s, r))"

fun splitn :: "nat \<Rightarrow> char \<Rightarrow> string \<Rightarrow> string list" where
  "splitn 0 c s = []"
| "splitn (Suc 0) c s = [s]"
| "splitn (Suc (Suc n)) c s =
     (case split_once c s of None \<Rightarrow> [s] | Some (a, b) \<Rightarrow> a # splitn (Suc n) c b)"

lemma split_on_nonempty [simp]: "split_on c s \<noteq> []"
  by (induction s) (auto split: list.splits)

lemma split_on_no_sep: "c \<notin> set s \<Longrightarrow> split_on c s = [s]"
  by (induction s) auto

lemma split_on_pieces: "p \<in> set (split_on c s) \<Longrightarrow> c \<notin> set p"
proof (induction s arbitrary: p)
  case Nil
  then show ?case by simp
next
  case (Cons x xs)
  obtain q qs where q: "split_on c xs = q # qs"
    by (cases "split_on c xs") auto
  with Cons.IH have "c \<notin> set q" "\<And>r. r \<in> set qs \<Longrightarrow> c \<notin> set r"
    by auto
  with Cons.prems q show ?case by (auto split: if_splits)
qed

lemma join_Cons: "ps \<noteq> [] \<Longrightarrow> join c (p # ps) = p @ c # join c ps"
  by (cases ps) simp_all

lemma join_split_on: "join c (split_on c s) = s"
proof (induction s)
  case Nil
  then show ?case by simp
next
  case (Cons x xs)
  obtain q qs where "split_on c xs = q # qs"
    by (cases "split_on c xs") auto
  with Cons.IH show ?case by (cases qs) (auto simp: join_Cons)
qed

lemma split_on_append_sep: "c \<notin> set p \<Longrightarrow> split_on c (p @ c # s) = p # split_on c s"
  by (induction p) auto

lemma split_on_join:
  "ps \<noteq> [] \<Longrightarrow> (\<forall>p \<in> set ps. c \<notin> set p) \<Longrightarrow> split_on c (join c ps) = ps"
proof (induction ps)
  case Nil
  then show ?case by simp
next
  case (Cons p ps)
  show ?case
  proof (cases "ps = []")
    case True
    with Cons.prems show ?thesis by (simp add: split_on_no_sep)
  next
    case False
    with Cons show ?thesis by (simp add: join_Cons split_on_append_sep)
  qed
qed

lemma split_once_sep [simp]: "c \<notin> set a \<Longrightarrow> split_once c (a @ c # b) = Some (a, b)"
proof -
  assume a: "c \<notin> set a"
  then have "dropWhile (\<lambda>x. x \<noteq> c) (a @ c # b) = c # b"
    by (induction a) auto
  moreover from a have "takeWhile (\<lambda>x. x \<noteq> c) (a @ c # b) = a"
    by (induction a) auto
  ultimately show ?thesis by (simp add: split_once_def)
qed

lemma split_once_None [simp]: "split_once c s = None \<longleftrightarrow> c \<notin> set s"
proof (cases "c \<in> set s")
  case True
  then obtain a b where "s = a @ c # b" "c \<notin> set a"
    by (blast dest: split_list_first)
  with True show ?thesis by simp
next
  case False
  then have d: "dropWhile (\<lambda>x. x \<noteq> c) s = []"
    by auto
  show ?thesis
    unfolding split_once_def d using False by simp
qed

lemma split_once_Some: "split_once c s = Some (a, b) \<longleftrightarrow> s = a @ c # b \<and> c \<notin> set a"
proof
  assume s: "split_once c s = Some (a, b)"
  then have "c \<in> set s"
    by (metis split_once_None option.distinct(1))
  then obtain a' b' where "s = a' @ c # b'" "c \<notin> set a'"
    by (blast dest: split_list_first)
  with s show "s = a @ c # b \<and> c \<notin> set a" by simp
qed auto

section \<open>Decimal text\<close>

definition digit :: "nat \<Rightarrow> char" where
  "digit d = char_of (48 + d)"

fun dec_nat :: "nat \<Rightarrow> string" where
  "dec_nat n = (if n < 10 then [digit n] else dec_nat (n div 10) @ [digit (n mod 10)])"

declare dec_nat.simps [simp del]

definition dec_int :: "int \<Rightarrow> string" where
  "dec_int i = (if i < 0 then CHR ''-'' # dec_nat (nat (- i)) else dec_nat (nat i))"

definition undigits :: "string \<Rightarrow> nat" where
  "undigits s = foldl (\<lambda>n c. 10 * n + (of_char c - 48)) 0 s"

lemma of_char_digit: "d < 10 \<Longrightarrow> of_char (digit d) = 48 + d"
  by (simp add: digit_def)

lemma undigits_dec_nat: "undigits (dec_nat n) = n"
proof (induction n rule: dec_nat.induct)
  case (1 n)
  show ?case
  proof (cases "n < 10")
    case True
    then show ?thesis
      by (simp add: dec_nat.simps [of n] undigits_def of_char_digit)
  next
    case False
    with 1 have "undigits (dec_nat (n div 10)) = n div 10" by simp
    with False show ?thesis
      by (simp add: dec_nat.simps [of n] undigits_def of_char_digit)
  qed
qed

lemma dec_nat_inject [simp]: "dec_nat m = dec_nat n \<longleftrightarrow> m = n"
  by (metis undigits_dec_nat)

lemma dec_nat_chars: "x \<in> set (dec_nat n) \<Longrightarrow> 48 \<le> (of_char x :: nat) \<and> (of_char x :: nat) \<le> 57"
proof (induction n rule: dec_nat.induct)
  case (1 n)
  have m: "(of_char (digit (n mod 10)) :: nat) = 48 + n mod 10"
    by (simp add: of_char_digit)
  show ?case
  proof (cases "n < 10")
    case True
    with "1.prems" show ?thesis by (auto simp: dec_nat.simps [of n] of_char_digit)
  next
    case False
    then have "x \<in> set (dec_nat (n div 10)) \<or> x = digit (n mod 10)"
      using "1.prems" by (auto simp: dec_nat.simps [of n])
    then show ?thesis
      using "1.IH" False m by (auto simp: less_Suc_eq_le [symmetric])
  qed
qed

lemma dec_nat_no_minus: "CHR ''-'' \<notin> set (dec_nat n)"
  using dec_nat_chars [of "CHR ''-''" n] by auto

lemma dec_int_inject [simp]: "dec_int i = dec_int j \<longleftrightarrow> i = j"
proof
  assume e: "dec_int i = dec_int j"
  have c: "\<And>n xs. dec_nat n \<noteq> CHR ''-'' # xs"
    using dec_nat_no_minus by (metis list.set_intros(1))
  show "i = j"
    using e by (cases "i < 0"; cases "j < 0") (auto simp: dec_int_def c c [symmetric])
qed simp

lemma dec_int_chars: "x \<in> set (dec_int i) \<Longrightarrow> x = CHR ''-'' \<or> 48 \<le> (of_char x :: nat)"
  using dec_nat_chars by (fastforce simp: dec_int_def split: if_splits)

section \<open>Bytes\<close>

text \<open>\<open>str::as_bytes\<close>.\<close>

definition str_bytes :: "string \<Rightarrow> bytes" where
  "str_bytes s = map (\<lambda>c. word_of_nat (of_char c)) s"

lemma byte_of_char_inject: "(word_of_nat (of_char c) :: byte) = word_of_nat (of_char d) \<longleftrightarrow> c = d"
proof -
  have "(word_of_nat (of_char c) :: byte) = word_of_nat (of_char d) \<longleftrightarrow>
      (of_char c :: nat) mod 256 = of_char d mod 256"
    by (simp add: word_of_nat_eq_iff take_bit_eq_mod)
  also have "\<dots> \<longleftrightarrow> (of_char c :: nat) = of_char d"
    by simp
  finally show ?thesis by simp
qed

lemma str_bytes_inject [simp]: "str_bytes s = str_bytes t \<longleftrightarrow> s = t"
  unfolding str_bytes_def
  by (rule inj_map_eq_map) (simp add: inj_def byte_of_char_inject)

lemma length_str_bytes [simp]: "length (str_bytes s) = length s"
  by (simp add: str_bytes_def)

lemma str_bytes_append [simp]: "str_bytes (s @ t) = str_bytes s @ str_bytes t"
  by (simp add: str_bytes_def)

end
