(* ===== verification/Ordered_Map.thy ===== *)
theory Ordered_Map
  imports Prelude
begin

text \<open>
  \<open>std::collections::BTreeMap\<close>: an association list with strictly ascending keys, so that
  iteration (\<open>iter\<close>, \<open>into_iter\<close>, \<open>keys\<close>) is the list itself. \<open>map_of\<close> reads it;
  \<open>bt_insert\<close> and \<open>bt_remove\<close> return, as the methods of Rust do, the previous value with the
  new map. The lemmas give their meaning on \<open>map_of\<close> and that they keep the order of the keys,
  which makes a map equal to another exactly when they hold the same pairs.
\<close>

type_synonym ('k, 'v) btree = "('k \<times> 'v) list"

definition bt_wf :: "('k::linorder, 'v) btree \<Rightarrow> bool" where
  "bt_wf m \<longleftrightarrow> sorted_wrt (<) (map fst m)"

fun bt_put :: "'k::linorder \<Rightarrow> 'v \<Rightarrow> ('k, 'v) btree \<Rightarrow> ('k, 'v) btree" where
  "bt_put k v [] = [(k, v)]"
| "bt_put k v (e # m) =
     (if k < fst e then (k, v) # e # m
      else if fst e < k then e # bt_put k v m
      else (k, v) # m)"

definition bt_del :: "'k::linorder \<Rightarrow> ('k, 'v) btree \<Rightarrow> ('k, 'v) btree" where
  "bt_del k m = filter (\<lambda>e. fst e \<noteq> k) m"

definition bt_insert :: "'k::linorder \<Rightarrow> 'v \<Rightarrow> ('k, 'v) btree \<Rightarrow> 'v option \<times> ('k, 'v) btree" where
  "bt_insert k v m = (map_of m k, bt_put k v m)"

definition bt_remove :: "'k::linorder \<Rightarrow> ('k, 'v) btree \<Rightarrow> 'v option \<times> ('k, 'v) btree" where
  "bt_remove k m = (map_of m k, bt_del k m)"

definition bt_contains :: "'k::linorder \<Rightarrow> ('k, 'v) btree \<Rightarrow> bool" where
  "bt_contains k m \<longleftrightarrow> map_of m k \<noteq> None"

text \<open>\<open>FromIterator\<close> and \<open>extend\<close>: later pairs replace earlier ones.\<close>

definition bt_from :: "('k::linorder \<times> 'v) list \<Rightarrow> ('k, 'v) btree" where
  "bt_from kvs = foldl (\<lambda>m e. bt_put (fst e) (snd e) m) [] kvs"

lemma bt_wf_Nil [simp]: "bt_wf []"
  by (simp add: bt_wf_def)

lemma bt_wf_Cons: "bt_wf (e # m) \<longleftrightarrow> (\<forall>x \<in> set m. fst e < fst x) \<and> bt_wf m"
  by (auto simp: bt_wf_def)

lemma set_bt_put: "x \<in> set (bt_put k v m) \<Longrightarrow> x = (k, v) \<or> x \<in> set m"
  by (induction m) (auto split: if_splits)

lemma bt_wf_put [simp]: "bt_wf m \<Longrightarrow> bt_wf (bt_put k v m)"
  by (induction m) (auto simp: bt_wf_Cons dest!: set_bt_put)

lemma bt_wf_del [simp]: "bt_wf m \<Longrightarrow> bt_wf (bt_del k m)"
  by (induction m) (auto simp: bt_del_def bt_wf_Cons)

lemma map_of_bt_put [simp]: "bt_wf m \<Longrightarrow> map_of (bt_put k v m) = (map_of m)(k \<mapsto> v)"
  by (induction m) (auto simp: bt_wf_Cons fun_eq_iff)

lemma map_of_bt_del [simp]: "map_of (bt_del k m) = (map_of m)(k := None)"
  by (induction m) (auto simp: bt_del_def fun_eq_iff)

lemma bt_wf_distinct: "bt_wf m \<Longrightarrow> distinct (map fst m)"
  by (auto simp: bt_wf_def strict_sorted_iff)

lemma bt_mem_iff: "bt_wf m \<Longrightarrow> (k, v) \<in> set m \<longleftrightarrow> map_of m k = Some v"
  by (simp add: bt_wf_distinct)

lemma bt_keys_map_of: "k \<in> fst ` set m \<longleftrightarrow> map_of m k \<noteq> None"
  by (simp add: map_of_eq_None_iff)

lemma bt_eqI: "bt_wf m \<Longrightarrow> bt_wf n \<Longrightarrow> map_of m = map_of n \<Longrightarrow> m = n"
proof -
  assume w: "bt_wf m" "bt_wf n" and e: "map_of m = map_of n"
  have "set (map fst m) = set (map fst n)"
    using e by (metis dom_map_of_conv_image_fst list.set_map)
  with w have k: "map fst m = map fst n"
    by (metis bt_wf_def strict_sorted_equal)
  show "m = n"
  proof (rule nth_equalityI)
    show l: "length m = length n"
      using k by (metis length_map)
    fix i assume i: "i < length m"
    then have "map_of m (fst (m ! i)) = Some (snd (m ! i))"
      using w(1) by (simp add: bt_mem_iff [symmetric])
    moreover have "map_of n (fst (n ! i)) = Some (snd (n ! i))"
      using w(2) i l by (simp add: bt_mem_iff [symmetric])
    moreover have "fst (m ! i) = fst (n ! i)"
      using k i l by (metis nth_map)
    ultimately show "m ! i = n ! i"
      using e by (simp add: prod_eq_iff)
  qed
qed

lemma bt_contains_iff [simp]: "bt_contains k m \<longleftrightarrow> map_of m k \<noteq> None"
  by (simp add: bt_contains_def)

lemma foldl_bt_put:
  assumes "bt_wf m"
  shows "bt_wf (foldl (\<lambda>m e. bt_put (fst e) (snd e) m) m kvs)"
    and "map_of (foldl (\<lambda>m e. bt_put (fst e) (snd e) m) m kvs) = map_of (rev kvs @ m)"
  using assms by (induction kvs arbitrary: m) (auto simp: map_add_upd)

lemma bt_from_wf [simp]: "bt_wf (bt_from kvs)"
  by (simp add: bt_from_def foldl_bt_put)

lemma map_of_bt_from [simp]: "map_of (bt_from kvs) = map_of (rev kvs)"
  by (simp add: bt_from_def foldl_bt_put)

lemma bt_from_self [simp]: "bt_wf m \<Longrightarrow> bt_from m = m"
proof (rule bt_eqI)
  assume m: "bt_wf m"
  then have "distinct (map fst m)" by (rule bt_wf_distinct)
  then have "map_of (rev m) = map_of m"
    by (simp add: map_of_inject_set rev_map [symmetric])
  then show "map_of (bt_from m) = map_of m" by simp
qed simp_all

lemmas bt_simps = bt_insert_def bt_remove_def

end
