(* ===== verification/Storage_Port.thy ===== *)
theory Storage_Port
  imports Ordered_Map
begin

text \<open>
  The \<open>secrets.storage\<close> port (\<open>crates/secrets-core/src/storage.rs\<close>): the refusal codes, the
  grammar of names, scopes and addresses, backends with their capabilities, values, and the trait
  \<open>SecretStorage\<close> as a record of its methods over a world \<open>'w\<close> (a \<open>dyn SecretStorage\<close> is a
  table of methods; whatever a backend keeps behind \<open>&self\<close> is in the world).

  The private fields of \<open>SecretName\<close> and \<open>ScopeName\<close> make every value of these types one that
  \<open>parse\<close> returned. The datatypes here do not say so; \<open>wf_secret_name\<close>, \<open>wf_scope_name\<close> and
  \<open>wf_address\<close> do. The orders Rust derives for the types that are keys or are sorted are
  instances of \<open>linorder\<close>.
\<close>

section \<open>Refusals\<close>

datatype storage_error =
  NotFound | Denied | Unsupported | Unavailable | InvalidName | TooLarge | Conflict

definition storage_errors :: "storage_error list" where
  "storage_errors = [NotFound, Denied, Unsupported, Unavailable, InvalidName, TooLarge, Conflict]"

fun error_code :: "storage_error \<Rightarrow> string" where
  "error_code NotFound = ''not-found''"
| "error_code Denied = ''denied''"
| "error_code Unsupported = ''unsupported''"
| "error_code Unavailable = ''unavailable''"
| "error_code InvalidName = ''invalid-name''"
| "error_code TooLarge = ''too-large''"
| "error_code Conflict = ''conflict''"

definition from_code :: "string \<Rightarrow> storage_error option" where
  "from_code code = find (\<lambda>e. error_code e = code) storage_errors"

datatype name_error = TooLong | SegmentTooLong | EmptySegment | BadStart | BadCharacter

fun name_error_code :: "name_error \<Rightarrow> string" where
  "name_error_code TooLong = ''too-long''"
| "name_error_code SegmentTooLong = ''segment-too-long''"
| "name_error_code EmptySegment = ''empty-segment''"
| "name_error_code BadStart = ''bad-start''"
| "name_error_code BadCharacter = ''bad-character''"

definition storage_error_of_name :: "name_error \<Rightarrow> storage_error" where
  "storage_error_of_name e = InvalidName"

section \<open>Names\<close>

definition max_name_bytes :: nat where "max_name_bytes = 128"
definition max_segment_bytes :: nat where "max_segment_bytes = 64"
definition max_value_bytes :: nat where "max_value_bytes = 1024 * 1024"

definition is_ascii_lowercase :: "char \<Rightarrow> bool" where
  "is_ascii_lowercase c \<longleftrightarrow> CHR ''a'' \<le> c \<and> c \<le> CHR ''z''"

definition is_ascii_digit :: "char \<Rightarrow> bool" where
  "is_ascii_digit c \<longleftrightarrow> CHR ''0'' \<le> c \<and> c \<le> CHR ''9''"

definition is_punctuation :: "char \<Rightarrow> bool" where
  "is_punctuation c \<longleftrightarrow> c = CHR ''.'' \<or> c = CHR ''_'' \<or> c = CHR ''-''"

definition segment :: "string \<Rightarrow> name_error + unit" where
  "segment s =
     (case s of
        [] \<Rightarrow> Inl EmptySegment
      | first # bytes \<Rightarrow>
          if length s > max_segment_bytes then Inl SegmentTooLong
          else if \<not> (is_ascii_lowercase first \<or> is_ascii_digit first) then
            Inl (if is_punctuation first then BadStart else BadCharacter)
          else if list_all (\<lambda>b. is_ascii_lowercase b \<or> is_ascii_digit b \<or> is_punctuation b) bytes
            then Inr ()
          else Inl BadCharacter)"

datatype secret_name = SecretName (name_str: string)

definition check_length :: "string \<Rightarrow> name_error + unit" where
  "check_length name = (if length name > max_name_bytes then Inl TooLong else Inr ())"

definition secret_name_parse :: "string \<Rightarrow> name_error + secret_name" where
  "secret_name_parse name =
     bindR (check_length name) (\<lambda>_.
     bindR (try_for_each segment (split_on CHR ''/'' name)) (\<lambda>_.
     Inr (SecretName name)))"

datatype scope_name = ScopeName (scope_str: string)

definition default_text :: string where "default_text = ''default''"

definition scope_name_parse :: "string \<Rightarrow> name_error + scope_name" where
  "scope_name_parse name =
     (if length name > max_segment_bytes then Inl TooLong
      else bindR (segment name) (\<lambda>_. Inr (ScopeName name)))"

definition default_name :: scope_name where "default_name = ScopeName default_text"

definition is_default :: "scope_name \<Rightarrow> bool" where
  "is_default n \<longleftrightarrow> scope_str n = default_text"

section \<open>Scopes and addresses\<close>

record scope =
  sc_tenant :: scope_name
  sc_namespace :: scope_name
  sc_user :: scope_name

definition local_scope :: scope where
  "local_scope = \<lparr>sc_tenant = default_name, sc_namespace = default_name, sc_user = default_name\<rparr>"

record namespace_key =
  nk_tenant :: scope_name
  nk_namespace :: scope_name

datatype part = Tenant | Namespace | User | Name | NewName

record address_error =
  ae_part :: part
  ae_reason :: name_error

definition address_error :: "part \<Rightarrow> name_error \<Rightarrow> address_error" where
  "address_error p e = \<lparr>ae_part = p, ae_reason = e\<rparr>"

definition storage_error_of_address :: "address_error \<Rightarrow> storage_error" where
  "storage_error_of_address e = InvalidName"

definition namespace_key_parse :: "string \<Rightarrow> string \<Rightarrow> address_error + namespace_key" where
  "namespace_key_parse tenant namespace =
     (if length namespace > max_segment_bytes then Inl (address_error Namespace TooLong)
      else bindR (map_err (address_error Tenant) (scope_name_parse tenant)) (\<lambda>t.
           bindR (map_err (address_error Namespace) (scope_name_parse namespace)) (\<lambda>n.
           Inr \<lparr>nk_tenant = t, nk_namespace = n\<rparr>)))"

record address =
  ad_scope :: scope
  ad_name :: secret_name

definition parse_checked :: "string \<Rightarrow> string \<Rightarrow> string \<Rightarrow> string \<Rightarrow> address_error + address" where
  "parse_checked tenant namespace user name =
     bindR (map_err (address_error Tenant) (scope_name_parse tenant)) (\<lambda>t.
     bindR (map_err (address_error Namespace) (scope_name_parse namespace)) (\<lambda>n.
     bindR (map_err (address_error User) (scope_name_parse user)) (\<lambda>u.
     bindR (map_err (address_error Name) (secret_name_parse name)) (\<lambda>m.
     Inr \<lparr>ad_scope = \<lparr>sc_tenant = t, sc_namespace = n, sc_user = u\<rparr>, ad_name = m\<rparr>))))"

definition address_parse :: "string \<Rightarrow> string \<Rightarrow> string \<Rightarrow> string \<Rightarrow> address_error + address" where
  "address_parse tenant namespace user name =
     bindR (map_err (address_error Name) (check_length name)) (\<lambda>_.
     parse_checked tenant namespace user name)"

definition parse_rename ::
  "string \<Rightarrow> string \<Rightarrow> string \<Rightarrow> string \<Rightarrow> string \<Rightarrow> address_error + (address \<times> secret_name)" where
  "parse_rename tenant namespace user name new_name =
     bindR (map_err (address_error Name) (check_length name)) (\<lambda>_.
     bindR (map_err (address_error NewName) (check_length new_name)) (\<lambda>_.
     bindR (parse_checked tenant namespace user name) (\<lambda>a.
     bindR (map_err (address_error NewName) (secret_name_parse new_name)) (\<lambda>n.
     Inr (a, n)))))"

section \<open>Backends, values and the trait\<close>

datatype backend_kind = Keychain | Onepassword | Remote

datatype capability = CapRead | CapWrite | CapDelete | CapList

definition all_capabilities :: "capability list" where
  "all_capabilities = [CapRead, CapWrite, CapDelete, CapList]"

fun kind_capabilities :: "backend_kind \<Rightarrow> capability list" where
  "kind_capabilities Onepassword = [CapRead]"
| "kind_capabilities Keychain = all_capabilities"
| "kind_capabilities Remote = all_capabilities"

record backend_ref =
  br_kind :: backend_kind
  br_label :: scope_name

definition default_mount :: backend_ref where
  "default_mount = \<lparr>br_kind = Keychain, br_label = default_name\<rparr>"

datatype action = ActRead | ActWrite | ActDelete | ActList | ManageNamespace

datatype locator = Locator (locator_str: string)
datatype version = Version (version_str: string)
datatype secret_value = SecretValue (expose: bytes)

definition secret_value_new :: "bytes \<Rightarrow> storage_error + secret_value" where
  "secret_value_new v = (if length v > max_value_bytes then Inl TooLarge else Inr (SecretValue v))"

record target =
  tg_address :: address
  tg_locator :: "locator option"

definition unbound :: "address \<Rightarrow> target" where
  "unbound a = \<lparr>tg_address = a, tg_locator = None\<rparr>"

record revealed =
  rv_value :: secret_value
  rv_version :: "version option"

datatype written = Created "version option" | Replaced "version option"

record secret_metadata =
  sm_address :: address
  sm_version :: "version option"

record 'w storage =
  capabilities :: "capability list"
  requires_binding :: bool
  st_read :: "target \<Rightarrow> ('w, storage_error, revealed) io"
  st_write :: "target \<Rightarrow> secret_value \<Rightarrow> ('w, storage_error, written) io"
  st_delete :: "target \<Rightarrow> ('w, storage_error, unit) io"
  st_rename :: "target \<Rightarrow> secret_name \<Rightarrow> ('w, storage_error, unit) io"
  st_list :: "scope \<Rightarrow> ('w, storage_error, secret_metadata list) io"

text \<open>The provided methods: a backend that overrides only the two required ones.\<close>

definition provided_storage ::
  "capability list \<Rightarrow> (target \<Rightarrow> ('w, storage_error, revealed) io) \<Rightarrow> 'w storage" where
  "provided_storage caps rd =
     \<lparr>capabilities = caps, requires_binding = False, st_read = rd,
      st_write = (\<lambda>_ _. failE Unsupported), st_delete = (\<lambda>_. failE Unsupported),
      st_rename = (\<lambda>_ _. failE Unsupported), st_list = (\<lambda>_. failE Unsupported)\<rparr>"

definition renamed :: "address \<Rightarrow> secret_name \<Rightarrow> address" where
  "renamed a n = \<lparr>ad_scope = ad_scope a, ad_name = n\<rparr>"

lemma renamed_simps [simp]:
  "ad_scope (renamed a n) = ad_scope a" "ad_name (renamed a n) = n"
  by (simp_all add: renamed_def)

lemma renamed_eq_iff [simp]: "renamed a n = a \<longleftrightarrow> n = ad_name a"
  by (cases a) (auto simp: renamed_def)

end
