(* ===== verification/Storage_Orders.thy ===== *)
theory Storage_Orders
  imports Storage_Port
begin

text \<open>
  The orders Rust derives (\<open>PartialOrd, Ord\<close>) for the types of the storage port: newtypes as the
  text they hold, enums by the position of the variant, structs field by field in the order they
  are declared. They order the keys of every \<open>BTreeMap\<close> and the rows a listing sorts.
\<close>

fun kind_index :: "backend_kind \<Rightarrow> nat" where
  "kind_index Keychain = 0"
| "kind_index Onepassword = 1"
| "kind_index Remote = 2"

lemma kind_index_inject [simp]: "kind_index a = kind_index b \<longleftrightarrow> a = b"
  by (cases a; cases b) simp_all

instantiation backend_kind :: linorder
begin

definition less_eq_backend_kind :: "backend_kind \<Rightarrow> backend_kind \<Rightarrow> bool" where
  "less_eq_backend_kind a b \<longleftrightarrow> kind_index a \<le> kind_index b"

definition less_backend_kind :: "backend_kind \<Rightarrow> backend_kind \<Rightarrow> bool" where
  "less_backend_kind a b \<longleftrightarrow> kind_index a < kind_index b"

instance
  by standard (auto simp: less_eq_backend_kind_def less_backend_kind_def dest: antisym)

end

instantiation secret_name :: linorder
begin

definition less_eq_secret_name :: "secret_name \<Rightarrow> secret_name \<Rightarrow> bool" where
  "less_eq_secret_name a b \<longleftrightarrow> name_str a \<le> name_str b"

definition less_secret_name :: "secret_name \<Rightarrow> secret_name \<Rightarrow> bool" where
  "less_secret_name a b \<longleftrightarrow> name_str a < name_str b"

instance
  by standard (auto simp: less_eq_secret_name_def less_secret_name_def intro: secret_name.expand)

end

instantiation scope_name :: linorder
begin

definition less_eq_scope_name :: "scope_name \<Rightarrow> scope_name \<Rightarrow> bool" where
  "less_eq_scope_name a b \<longleftrightarrow> scope_str a \<le> scope_str b"

definition less_scope_name :: "scope_name \<Rightarrow> scope_name \<Rightarrow> bool" where
  "less_scope_name a b \<longleftrightarrow> scope_str a < scope_str b"

instance
  by standard (auto simp: less_eq_scope_name_def less_scope_name_def intro: scope_name.expand)

end

instantiation locator :: linorder
begin

definition less_eq_locator :: "locator \<Rightarrow> locator \<Rightarrow> bool" where
  "less_eq_locator a b \<longleftrightarrow> locator_str a \<le> locator_str b"

definition less_locator :: "locator \<Rightarrow> locator \<Rightarrow> bool" where
  "less_locator a b \<longleftrightarrow> locator_str a < locator_str b"

instance
  by standard (auto simp: less_eq_locator_def less_locator_def intro: locator.expand)

end

instantiation version :: linorder
begin

definition less_eq_version :: "version \<Rightarrow> version \<Rightarrow> bool" where
  "less_eq_version a b \<longleftrightarrow> version_str a \<le> version_str b"

definition less_version :: "version \<Rightarrow> version \<Rightarrow> bool" where
  "less_version a b \<longleftrightarrow> version_str a < version_str b"

instance
  by standard (auto simp: less_eq_version_def less_version_def intro: version.expand)

end

instantiation scope_ext :: (linorder) linorder
begin

definition scope_key :: "'a scope_scheme \<Rightarrow> scope_name \<times> scope_name \<times> scope_name \<times> 'a" where
  "scope_key s = (sc_tenant s, sc_namespace s, sc_user s, scope.more s)"

definition less_eq_scope_ext :: "'a scope_scheme \<Rightarrow> 'a scope_scheme \<Rightarrow> bool" where
  "less_eq_scope_ext a b \<longleftrightarrow> scope_key a \<le> scope_key b"

definition less_scope_ext :: "'a scope_scheme \<Rightarrow> 'a scope_scheme \<Rightarrow> bool" where
  "less_scope_ext a b \<longleftrightarrow> scope_key a < scope_key b"

instance
proof
  fix a b :: "'a scope_scheme"
  assume "a \<le> b" "b \<le> a"
  then have "scope_key a = scope_key b"
    unfolding less_eq_scope_ext_def by (rule antisym)
  then show "a = b"
    by (cases a; cases b) (simp add: scope_key_def)
qed (unfold less_eq_scope_ext_def less_scope_ext_def, auto)

end

instantiation namespace_key_ext :: (linorder) linorder
begin

definition ns_order_key :: "'a namespace_key_scheme \<Rightarrow> scope_name \<times> scope_name \<times> 'a" where
  "ns_order_key k = (nk_tenant k, nk_namespace k, namespace_key.more k)"

definition less_eq_namespace_key_ext :: "'a namespace_key_scheme \<Rightarrow> 'a namespace_key_scheme \<Rightarrow> bool" where
  "less_eq_namespace_key_ext a b \<longleftrightarrow> ns_order_key a \<le> ns_order_key b"

definition less_namespace_key_ext :: "'a namespace_key_scheme \<Rightarrow> 'a namespace_key_scheme \<Rightarrow> bool" where
  "less_namespace_key_ext a b \<longleftrightarrow> ns_order_key a < ns_order_key b"

instance
proof
  fix a b :: "'a namespace_key_scheme"
  assume "a \<le> b" "b \<le> a"
  then have "ns_order_key a = ns_order_key b"
    unfolding less_eq_namespace_key_ext_def by (rule antisym)
  then show "a = b"
    by (cases a; cases b) (simp add: ns_order_key_def)
qed (unfold less_eq_namespace_key_ext_def less_namespace_key_ext_def, auto)

end

instantiation address_ext :: (linorder) linorder
begin

definition address_key :: "'a address_scheme \<Rightarrow> scope \<times> secret_name \<times> 'a" where
  "address_key x = (ad_scope x, ad_name x, address.more x)"

definition less_eq_address_ext :: "'a address_scheme \<Rightarrow> 'a address_scheme \<Rightarrow> bool" where
  "less_eq_address_ext a b \<longleftrightarrow> address_key a \<le> address_key b"

definition less_address_ext :: "'a address_scheme \<Rightarrow> 'a address_scheme \<Rightarrow> bool" where
  "less_address_ext a b \<longleftrightarrow> address_key a < address_key b"

instance
proof
  fix a b :: "'a address_scheme"
  assume "a \<le> b" "b \<le> a"
  then have "address_key a = address_key b"
    unfolding less_eq_address_ext_def by (rule antisym)
  then show "a = b"
    by (cases a; cases b) (simp add: address_key_def)
qed (unfold less_eq_address_ext_def less_address_ext_def, auto)

end

instantiation backend_ref_ext :: (linorder) linorder
begin

definition backend_key :: "'a backend_ref_scheme \<Rightarrow> backend_kind \<times> scope_name \<times> 'a" where
  "backend_key b = (br_kind b, br_label b, backend_ref.more b)"

definition less_eq_backend_ref_ext :: "'a backend_ref_scheme \<Rightarrow> 'a backend_ref_scheme \<Rightarrow> bool" where
  "less_eq_backend_ref_ext a b \<longleftrightarrow> backend_key a \<le> backend_key b"

definition less_backend_ref_ext :: "'a backend_ref_scheme \<Rightarrow> 'a backend_ref_scheme \<Rightarrow> bool" where
  "less_backend_ref_ext a b \<longleftrightarrow> backend_key a < backend_key b"

instance
proof
  fix a b :: "'a backend_ref_scheme"
  assume "a \<le> b" "b \<le> a"
  then have "backend_key a = backend_key b"
    unfolding less_eq_backend_ref_ext_def by (rule antisym)
  then show "a = b"
    by (cases a; cases b) (simp add: backend_key_def)
qed (unfold less_eq_backend_ref_ext_def less_backend_ref_ext_def, auto)

end

instantiation secret_metadata_ext :: (linorder) linorder
begin

definition metadata_key :: "'a secret_metadata_scheme \<Rightarrow> address \<times> version option \<times> 'a" where
  "metadata_key m = (sm_address m, sm_version m, secret_metadata.more m)"

definition less_eq_secret_metadata_ext ::
  "'a secret_metadata_scheme \<Rightarrow> 'a secret_metadata_scheme \<Rightarrow> bool" where
  "less_eq_secret_metadata_ext a b \<longleftrightarrow> metadata_key a \<le> metadata_key b"

definition less_secret_metadata_ext ::
  "'a secret_metadata_scheme \<Rightarrow> 'a secret_metadata_scheme \<Rightarrow> bool" where
  "less_secret_metadata_ext a b \<longleftrightarrow> metadata_key a < metadata_key b"

instance
proof
  fix a b :: "'a secret_metadata_scheme"
  assume "a \<le> b" "b \<le> a"
  then have "metadata_key a = metadata_key b"
    unfolding less_eq_secret_metadata_ext_def by (rule antisym)
  then show "a = b"
    by (cases a; cases b) (simp add: metadata_key_def)
qed (unfold less_eq_secret_metadata_ext_def less_secret_metadata_ext_def, auto)

end

lemmas order_defs =
  less_eq_backend_kind_def less_backend_kind_def less_eq_secret_name_def less_secret_name_def
  less_eq_scope_name_def less_scope_name_def less_eq_locator_def less_locator_def
  less_eq_version_def less_version_def
  less_eq_scope_ext_def less_scope_ext_def scope_key_def
  less_eq_namespace_key_ext_def less_namespace_key_ext_def ns_order_key_def
  less_eq_address_ext_def less_address_ext_def address_key_def
  less_eq_backend_ref_ext_def less_backend_ref_ext_def backend_key_def
  less_eq_secret_metadata_ext_def less_secret_metadata_ext_def metadata_key_def

end
