(* ===== verification/Storage_Names.thy ===== *)
theory Storage_Names
  imports Storage_Port
begin

text \<open>
  The grammar of names, stated without a parser, and the parsers of \<open>Storage_Port\<close> against it:
  what they accept, which rule they report first, and that an accepted text parses back to itself.
\<close>

definition name_start :: "char \<Rightarrow> bool" where
  "name_start c \<longleftrightarrow> is_ascii_lowercase c \<or> is_ascii_digit c"

definition name_char :: "char \<Rightarrow> bool" where
  "name_char c \<longleftrightarrow> name_start c \<or> c \<in> {CHR ''.'', CHR ''_'', CHR ''-''}"

text \<open>\<open>[a-z0-9][a-z0-9._-]*\<close>, at most 64 bytes.\<close>

definition segment_grammar :: "string \<Rightarrow> bool" where
  "segment_grammar s \<longleftrightarrow>
     (\<exists>c cs. s = c # cs \<and> name_start c \<and> (\<forall>x \<in> set cs. name_char x)) \<and> length s \<le> 64"

text \<open>\<open>/\<close>-separated segments, at most 128 bytes in all.\<close>

definition secret_name_grammar :: "string \<Rightarrow> bool" where
  "secret_name_grammar s \<longleftrightarrow>
     length s \<le> 128 \<and>
     (\<exists>segs. segs \<noteq> [] \<and> (\<forall>p \<in> set segs. segment_grammar p) \<and> s = join CHR ''/'' segs)"

definition wf_secret_name :: "secret_name \<Rightarrow> bool" where
  "wf_secret_name n \<longleftrightarrow> secret_name_grammar (name_str n)"

definition wf_scope_name :: "scope_name \<Rightarrow> bool" where
  "wf_scope_name n \<longleftrightarrow> segment_grammar (scope_str n)"

definition wf_scope :: "scope \<Rightarrow> bool" where
  "wf_scope s \<longleftrightarrow>
     wf_scope_name (sc_tenant s) \<and> wf_scope_name (sc_namespace s) \<and> wf_scope_name (sc_user s)"

definition wf_address :: "address \<Rightarrow> bool" where
  "wf_address a \<longleftrightarrow> wf_scope (ad_scope a) \<and> wf_secret_name (ad_name a)"

lemmas bounds = max_name_bytes_def max_segment_bytes_def max_value_bytes_def

lemma name_char_iff:
  "name_char c \<longleftrightarrow> is_ascii_lowercase c \<or> is_ascii_digit c \<or> is_punctuation c"
  by (auto simp: name_char_def name_start_def is_punctuation_def)

lemma name_start_char: "name_start c \<Longrightarrow> name_char c"
  by (simp add: name_char_def)

lemma slash_not_name_char: "\<not> name_char CHR ''/''"
  by (simp add: name_char_iff is_ascii_lowercase_def is_ascii_digit_def is_punctuation_def)

lemma nul_not_name_char: "\<not> name_char (CHR 0x00)"
  by (simp add: name_char_iff is_ascii_lowercase_def is_ascii_digit_def is_punctuation_def)

lemma segment_ok: "segment s = Inr () \<longleftrightarrow> segment_grammar s"
  by (cases s)
    (auto simp: segment_def segment_grammar_def bounds name_start_def name_char_iff list_all_iff)

lemma segment_grammar_chars: "segment_grammar s \<Longrightarrow> x \<in> set s \<Longrightarrow> name_char x"
  by (auto simp: segment_grammar_def name_start_char)

lemma segment_grammar_no_slash: "segment_grammar s \<Longrightarrow> CHR ''/'' \<notin> set s"
  using segment_grammar_chars slash_not_name_char by blast

lemma segment_grammar_nonempty: "segment_grammar s \<Longrightarrow> s \<noteq> []"
  by (auto simp: segment_grammar_def)

lemma segments_ok:
  "(\<forall>p \<in> set (split_on CHR ''/'' s). segment_grammar p) \<longleftrightarrow>
     (\<exists>segs. segs \<noteq> [] \<and> (\<forall>p \<in> set segs. segment_grammar p) \<and> s = join CHR ''/'' segs)"
proof
  assume "\<forall>p \<in> set (split_on CHR ''/'' s). segment_grammar p"
  then show "\<exists>segs. segs \<noteq> [] \<and> (\<forall>p \<in> set segs. segment_grammar p) \<and> s = join CHR ''/'' segs"
    by (intro exI [of _ "split_on CHR ''/'' s"]) (simp add: join_split_on)
next
  assume "\<exists>segs. segs \<noteq> [] \<and> (\<forall>p \<in> set segs. segment_grammar p) \<and> s = join CHR ''/'' segs"
  then obtain segs where "segs \<noteq> []" "\<forall>p \<in> set segs. segment_grammar p" "s = join CHR ''/'' segs"
    by blast
  then show "\<forall>p \<in> set (split_on CHR ''/'' s). segment_grammar p"
    by (simp add: split_on_join segment_grammar_no_slash)
qed

lemma check_length_simps:
  "check_length s = Inr () \<longleftrightarrow> length s \<le> 128"
  "check_length s = Inl e \<longleftrightarrow> 128 < length s \<and> e = TooLong"
  by (auto simp: check_length_def bounds)

lemma secret_name_parse_ok:
  "secret_name_parse s = Inr n \<longleftrightarrow> n = SecretName s \<and> secret_name_grammar s"
  by (auto simp: secret_name_parse_def secret_name_grammar_def check_length_simps try_for_each_ok
      segment_ok segments_ok [symmetric])

lemma scope_name_parse_ok:
  "scope_name_parse s = Inr n \<longleftrightarrow> n = ScopeName s \<and> segment_grammar s"
  by (auto simp: scope_name_parse_def segment_ok bounds segment_grammar_def)

lemma secret_name_parse_too_long: "secret_name_parse s = Inl TooLong \<longleftrightarrow> 128 < length s"
proof -
  have "segment p \<noteq> Inl TooLong" for p
    by (simp add: segment_def split: list.split)
  then have "try_for_each segment ps \<noteq> Inl TooLong" for ps
    by (induction ps) (auto simp: bindR_eq_Inl)
  then show ?thesis
    by (auto simp: secret_name_parse_def bindR_eq_Inl check_length_simps)
qed

lemma wf_secret_name_parse: "wf_secret_name n \<longleftrightarrow> secret_name_parse (name_str n) = Inr n"
  by (cases n) (simp add: wf_secret_name_def secret_name_parse_ok)

lemma wf_scope_name_parse: "wf_scope_name n \<longleftrightarrow> scope_name_parse (scope_str n) = Inr n"
  by (cases n) (simp add: wf_scope_name_def scope_name_parse_ok)

lemma default_name_wf [simp]: "wf_scope_name default_name"
  by (simp add: wf_scope_name_def default_name_def default_text_def segment_grammar_def
      name_start_def name_char_def is_ascii_lowercase_def)

lemma wf_scope_name_no_slash: "wf_scope_name n \<Longrightarrow> CHR ''/'' \<notin> set (scope_str n)"
  by (simp add: wf_scope_name_def segment_grammar_no_slash)

lemma is_default_iff: "is_default n \<longleftrightarrow> n = default_name"
  by (cases n) (simp add: is_default_def default_name_def)

text \<open>An accepted scope name is an accepted secret name of one segment.\<close>

lemma segment_is_secret_name: "segment_grammar s \<Longrightarrow> secret_name_grammar s"
  unfolding secret_name_grammar_def
  by (intro conjI exI [of _ "[s]"]) (auto simp: segment_grammar_def)

text \<open>A secret name has no byte a NUL-separated or \<open>/\<close>-prefixed key would confuse.\<close>

lemma join_chars: "x \<in> set (join c ps) \<Longrightarrow> x = c \<or> (\<exists>p \<in> set ps. x \<in> set p)"
  by (induction c ps rule: join.induct) auto

lemma secret_name_chars:
  "secret_name_grammar s \<Longrightarrow> x \<in> set s \<Longrightarrow> x = CHR ''/'' \<or> name_char x"
  unfolding secret_name_grammar_def using join_chars segment_grammar_chars by blast

lemma secret_name_nonempty: "secret_name_grammar s \<Longrightarrow> s \<noteq> []"
proof -
  assume "secret_name_grammar s"
  then obtain p ps where "segment_grammar p" "s = join CHR ''/'' (p # ps)"
    by (auto simp: secret_name_grammar_def neq_Nil_conv)
  then show ?thesis
    by (cases ps) (auto dest: segment_grammar_nonempty)
qed

section \<open>Addresses\<close>

lemma parse_checked_ok:
  "parse_checked t n u m = Inr a \<longleftrightarrow>
     wf_address a \<and> t = scope_str (sc_tenant (ad_scope a)) \<and> n = scope_str (sc_namespace (ad_scope a)) \<and>
     u = scope_str (sc_user (ad_scope a)) \<and> m = name_str (ad_name a)"
proof (cases a)
  case (fields sc nm)
  then show ?thesis
    by (cases sc)
      (auto simp: parse_checked_def scope_name_parse_ok secret_name_parse_ok wf_address_def wf_scope_def
        wf_scope_name_def wf_secret_name_def)
qed

lemma address_parse_ok:
  "address_parse t n u m = Inr a \<longleftrightarrow>
     wf_address a \<and> t = scope_str (sc_tenant (ad_scope a)) \<and> n = scope_str (sc_namespace (ad_scope a)) \<and>
     u = scope_str (sc_user (ad_scope a)) \<and> m = name_str (ad_name a)"
  by (auto simp: address_parse_def check_length_simps parse_checked_ok wf_address_def wf_secret_name_def
      secret_name_grammar_def)

lemma address_parse_name_too_long:
  "address_parse t n u m = Inl (address_error Name TooLong) \<longleftrightarrow> 128 < length m"
proof -
  have "parse_checked t n u m \<noteq> Inl (address_error Name TooLong)" if "length m \<le> 128"
    using that secret_name_parse_too_long [of m]
    by (auto simp: parse_checked_def bindR_eq_Inl map_err_eq_Inl address_error_def)
  then show ?thesis
    by (auto simp: address_parse_def bindR_eq_Inl map_err_eq_Inl check_length_simps address_error_def)
qed

lemma parse_rename_ok:
  "parse_rename t n u m m' = Inr (a, b) \<longleftrightarrow>
     address_parse t n u m = Inr a \<and> secret_name_parse m' = Inr b"
  by (auto simp: parse_rename_def address_parse_def check_length_simps secret_name_parse_ok
      secret_name_grammar_def)

lemma map_err_name_too_long: "map_err (address_error NewName) (secret_name_parse m') = Inl (address_error NewName TooLong)
   \<longleftrightarrow> 128 < length m'"
  by (auto simp: map_err_eq_Inl secret_name_parse_too_long address_error_def)

lemma parse_checked_part: "parse_checked t n u m = Inl e \<Longrightarrow> ae_part e \<noteq> NewName"
  by (auto simp: parse_checked_def bindR_eq_Inl map_err_eq_Inl address_error_def)

lemma parse_rename_new_too_long:
  "parse_rename t n u m m' = Inl (address_error NewName TooLong) \<longleftrightarrow> length m \<le> 128 \<and> 128 < length m'"
proof -
  have c: "parse_checked t n u m \<noteq> Inl (address_error NewName TooLong)"
    using parse_checked_part by (fastforce simp: address_error_def)
  then show ?thesis
    by (auto simp: parse_rename_def bindR_eq_Inl check_length_simps map_err_name_too_long)
       (auto simp: map_err_eq_Inl check_length_simps address_error_def)
qed

lemma parse_rename_name_too_long:
  "parse_rename t n u m m' = Inl (address_error Name TooLong) \<longleftrightarrow> 128 < length m"
proof -
  have e: "address_parse t n u m = Inl (address_error Name TooLong) \<longleftrightarrow> 128 < length m"
    by (rule address_parse_name_too_long)
  show ?thesis
  proof (cases "128 < length m")
    case True
    then show ?thesis by (simp add: parse_rename_def check_length_def bounds)
  next
    case False
    with e have "parse_checked t n u m \<noteq> Inl (address_error Name TooLong)"
      by (simp add: address_parse_def check_length_def bounds)
    with False show ?thesis
      by (auto simp: parse_rename_def bindR_eq_Inl check_length_simps map_err_eq_Inl address_error_def)
  qed
qed

section \<open>Properties\<close>

text \<open>C17: \<open>SecretName::parse\<close> accepts exactly the documented grammar, and keeps the text.\<close>

theorem secret_name_parse_grammar:
  "secret_name_parse s = Inr n \<longleftrightarrow> n = SecretName s \<and> secret_name_grammar s"
  by (rule secret_name_parse_ok)

text \<open>
  C18: \<open>Address::parse\<close> and the printed parts of an address are inverse: parsing answers the
  address \<open>a\<close> exactly when \<open>a\<close> is well formed and the four texts are its parts; a name over the
  bound is refused as such whatever the other parts are.
\<close>

theorem address_parse_inverse:
  "(address_parse t n u m = Inr a \<longleftrightarrow>
      wf_address a \<and> t = scope_str (sc_tenant (ad_scope a)) \<and>
      n = scope_str (sc_namespace (ad_scope a)) \<and> u = scope_str (sc_user (ad_scope a)) \<and>
      m = name_str (ad_name a)) \<and>
   (address_parse t n u m = Inl (address_error Name TooLong) \<longleftrightarrow> 128 < length m)"
  using address_parse_ok address_parse_name_too_long by simp

text \<open>
  \<open>Address::parse_rename\<close> succeeds exactly when the address and the new name parse each on
  its own, with their results; and the length of both names is judged before any grammar.
\<close>

theorem parse_rename_precedence:
  "(parse_rename t n u m m' = Inr (a, b) \<longleftrightarrow>
      address_parse t n u m = Inr a \<and> secret_name_parse m' = Inr b) \<and>
   (parse_rename t n u m m' = Inl (address_error Name TooLong) \<longleftrightarrow> 128 < length m) \<and>
   (parse_rename t n u m m' = Inl (address_error NewName TooLong) \<longleftrightarrow>
      length m \<le> 128 \<and> 128 < length m')"
  using parse_rename_ok parse_rename_name_too_long parse_rename_new_too_long by simp

end
