(* ===== verification/Namespace_Config.thy ===== *)
theory Namespace_Config
  imports Storage_Orders Storage_Names
begin

text \<open>
  The namespace configuration store (\<open>crates/secrets-federation/src/config.rs\<close>): every namespace
  with its mount, and every binding. \<open>'w namespace_config\<close> is the trait \<open>NamespaceConfig\<close>,
  \<open>mem_config_store\<close> the store \<open>InMemoryConfig\<close>. The locale \<open>config_contract\<close> is what mount
  routing relies on: the mounts and bindings a store shows, what each method answers and changes
  of them while the store is up, that a store that is down answers \<open>Unavailable\<close>, and that a
  method leaves the rest of the world alone. It is interpreted on \<open>InMemoryConfig\<close>, alone and as
  a part of a larger world.
\<close>

record namespace =
  ns_key :: namespace_key
  ns_mount :: "backend_ref option"

definition effective_mount :: "namespace \<Rightarrow> backend_ref" where
  "effective_mount n = (case ns_mount n of None \<Rightarrow> default_mount | Some b \<Rightarrow> b)"

record 'w namespace_config =
  cfg_namespace :: "namespace_key \<Rightarrow> ('w, storage_error, namespace option) io"
  cfg_namespaces :: "('w, storage_error, namespace list) io"
  cfg_insert_namespace :: "namespace \<Rightarrow> ('w, storage_error, unit) io"
  cfg_remove_namespace :: "namespace_key \<Rightarrow> ('w, storage_error, unit) io"
  cfg_set_mount :: "namespace_key \<Rightarrow> backend_ref \<Rightarrow> ('w, storage_error, unit) io"
  cfg_binding :: "address \<Rightarrow> ('w, storage_error, locator option) io"
  cfg_has_bindings :: "namespace_key \<Rightarrow> ('w, storage_error, bool) io"
  cfg_insert_binding :: "address \<Rightarrow> locator \<Rightarrow> ('w, storage_error, unit) io"
  cfg_remove_binding :: "address \<Rightarrow> ('w, storage_error, unit) io"

definition in_namespace :: "namespace_key \<Rightarrow> address \<Rightarrow> bool" where
  "in_namespace k a \<longleftrightarrow>
     sc_tenant (ad_scope a) = nk_tenant k \<and> sc_namespace (ad_scope a) = nk_namespace k"

definition local_default :: namespace_key where
  "local_default = \<lparr>nk_tenant = default_name, nk_namespace = default_name\<rparr>"

section \<open>The store in memory\<close>

record mem_config =
  mc_unavailable :: bool
  mc_poisoned :: bool
  mc_namespaces :: "(namespace_key, backend_ref option) btree"
  mc_bindings :: "(address, locator) btree"

definition mem_new :: mem_config where
  "mem_new = \<lparr>mc_unavailable = False, mc_poisoned = False, mc_namespaces = [], mc_bindings = []\<rparr>"

definition mem_local :: mem_config where
  "mem_local = mem_new\<lparr>mc_namespaces := bt_put local_default None (mc_namespaces mem_new)\<rparr>"

definition mem_lock :: "(mem_config, storage_error, unit) io" where
  "mem_lock w =
     (if mc_unavailable w then (Inl Unavailable, w)
      else if mc_poisoned w then (Inl Unavailable, w) else (Inr (), w))"

definition mem_namespace :: "namespace_key \<Rightarrow> (mem_config, storage_error, namespace option) io" where
  "mem_namespace key = bindE mem_lock (\<lambda>_ w.
     (Inr (map_option (\<lambda>m. \<lparr>ns_key = key, ns_mount = m\<rparr>) (map_of (mc_namespaces w) key)), w))"

definition mem_namespaces :: "(mem_config, storage_error, namespace list) io" where
  "mem_namespaces = bindE mem_lock (\<lambda>_ w.
     (Inr (map (\<lambda>(k, m). \<lparr>ns_key = k, ns_mount = m\<rparr>) (mc_namespaces w)), w))"

definition mem_insert_namespace :: "namespace \<Rightarrow> (mem_config, storage_error, unit) io" where
  "mem_insert_namespace n = bindE mem_lock (\<lambda>_ w.
     if bt_contains (ns_key n) (mc_namespaces w) then (Inl Conflict, w)
     else (Inr (), w\<lparr>mc_namespaces := bt_put (ns_key n) (ns_mount n) (mc_namespaces w)\<rparr>))"

definition mem_remove_namespace :: "namespace_key \<Rightarrow> (mem_config, storage_error, unit) io" where
  "mem_remove_namespace key = bindE mem_lock (\<lambda>_ w.
     let (old, m) = bt_remove key (mc_namespaces w)
     in (ok_or (map_option (\<lambda>_. ()) old) NotFound, w\<lparr>mc_namespaces := m\<rparr>))"

definition mem_set_mount :: "namespace_key \<Rightarrow> backend_ref \<Rightarrow> (mem_config, storage_error, unit) io" where
  "mem_set_mount key mount = bindE mem_lock (\<lambda>_ w.
     case map_of (mc_namespaces w) key of
       None \<Rightarrow> (Inl NotFound, w)
     | Some slot \<Rightarrow> (Inr (), w\<lparr>mc_namespaces := bt_put key (Some mount) (mc_namespaces w)\<rparr>))"

definition mem_binding :: "address \<Rightarrow> (mem_config, storage_error, locator option) io" where
  "mem_binding a = bindE mem_lock (\<lambda>_ w. (Inr (map_of (mc_bindings w) a), w))"

definition mem_has_bindings :: "namespace_key \<Rightarrow> (mem_config, storage_error, bool) io" where
  "mem_has_bindings key = bindE mem_lock (\<lambda>_ w.
     (Inr (list_ex (in_namespace key) (map fst (mc_bindings w))), w))"

definition mem_insert_binding :: "address \<Rightarrow> locator \<Rightarrow> (mem_config, storage_error, unit) io" where
  "mem_insert_binding a l = bindE mem_lock (\<lambda>_ w.
     if bt_contains a (mc_bindings w) then (Inl Conflict, w)
     else (Inr (), w\<lparr>mc_bindings := bt_put a l (mc_bindings w)\<rparr>))"

definition mem_remove_binding :: "address \<Rightarrow> (mem_config, storage_error, unit) io" where
  "mem_remove_binding a = bindE mem_lock (\<lambda>_ w.
     let (old, m) = bt_remove a (mc_bindings w)
     in (ok_or (map_option (\<lambda>_. ()) old) NotFound, w\<lparr>mc_bindings := m\<rparr>))"

definition mem_config_store :: "mem_config namespace_config" where
  "mem_config_store =
     \<lparr>cfg_namespace = mem_namespace, cfg_namespaces = mem_namespaces,
      cfg_insert_namespace = mem_insert_namespace, cfg_remove_namespace = mem_remove_namespace,
      cfg_set_mount = mem_set_mount, cfg_binding = mem_binding, cfg_has_bindings = mem_has_bindings,
      cfg_insert_binding = mem_insert_binding, cfg_remove_binding = mem_remove_binding\<rparr>"

section \<open>The interface\<close>

text \<open>
  \<open>answers_down m w\<close>: the method answers that the store cannot be reached, and does nothing; a
  method that changes the store answers the same, and may have touched its world (a lock file).
\<close>

definition answers_down :: "('w, storage_error, 'a) io \<Rightarrow> 'w \<Rightarrow> bool" where
  "answers_down m w \<longleftrightarrow> m w = (Inl Unavailable, w)"

definition refuses_down :: "('w, storage_error, 'a) io \<Rightarrow> 'w \<Rightarrow> bool" where
  "refuses_down m w \<longleftrightarrow> fst (m w) = Inl Unavailable"

definition all_down :: "'w namespace_config \<Rightarrow> 'w \<Rightarrow> bool" where
  "all_down C w \<longleftrightarrow>
     (\<forall>k. answers_down (cfg_namespace C k) w) \<and> answers_down (cfg_namespaces C) w \<and>
     (\<forall>n. refuses_down (cfg_insert_namespace C n) w) \<and>
     (\<forall>k. refuses_down (cfg_remove_namespace C k) w) \<and>
     (\<forall>k b. refuses_down (cfg_set_mount C k b) w) \<and> (\<forall>a. answers_down (cfg_binding C a) w) \<and>
     (\<forall>k. answers_down (cfg_has_bindings C k) w) \<and>
     (\<forall>a l. refuses_down (cfg_insert_binding C a l) w) \<and>
     (\<forall>a. refuses_down (cfg_remove_binding C a) w)"

locale config_contract =
  fixes C :: "'w namespace_config"
    and inv :: "'w \<Rightarrow> bool"
    and up :: "'w \<Rightarrow> bool"
    and mounts :: "'w \<Rightarrow> namespace_key \<Rightarrow> backend_ref option option"
    and bound :: "'w \<Rightarrow> address \<Rightarrow> locator option"
    and rest :: "'w \<Rightarrow> 'r"
  assumes down: "inv w \<Longrightarrow> \<not> up w \<Longrightarrow> all_down C w"
    and get_namespace: "inv w \<Longrightarrow> up w \<Longrightarrow> cfg_namespace C k w =
      (Inr (map_option (\<lambda>m. \<lparr>ns_key = k, ns_mount = m\<rparr>) (mounts w k)), w)"
    and get_namespaces: "inv w \<Longrightarrow> up w \<Longrightarrow> \<exists>l. bt_wf l \<and> map_of l = mounts w \<and>
      cfg_namespaces C w = (Inr (map (\<lambda>(k, m). \<lparr>ns_key = k, ns_mount = m\<rparr>) l), w)"
    and get_binding: "inv w \<Longrightarrow> up w \<Longrightarrow> cfg_binding C a w = (Inr (bound w a), w)"
    and get_has_bindings: "inv w \<Longrightarrow> up w \<Longrightarrow> cfg_has_bindings C k w =
      (Inr (\<exists>a. in_namespace k a \<and> bound w a \<noteq> None), w)"
    and insert_namespace: "inv w \<Longrightarrow> up w \<Longrightarrow> cfg_insert_namespace C n w = (r, w') \<Longrightarrow>
      inv w' \<and> up w' \<and> rest w' = rest w \<and> bound w' = bound w \<and>
      (if mounts w (ns_key n) = None
       then r = Inr () \<and> mounts w' = (mounts w)(ns_key n \<mapsto> ns_mount n)
       else r = Inl Conflict \<and> mounts w' = mounts w)"
    and remove_namespace: "inv w \<Longrightarrow> up w \<Longrightarrow> k \<noteq> local_default \<Longrightarrow>
      cfg_remove_namespace C k w = (r, w') \<Longrightarrow>
      inv w' \<and> up w' \<and> rest w' = rest w \<and> bound w' = bound w \<and> mounts w' = (mounts w)(k := None) \<and>
      r = (if mounts w k = None then Inl NotFound else Inr ())"
    and set_mount: "inv w \<Longrightarrow> up w \<Longrightarrow> cfg_set_mount C k b w = (r, w') \<Longrightarrow>
      inv w' \<and> up w' \<and> rest w' = rest w \<and> bound w' = bound w \<and>
      (if mounts w k = None then r = Inl NotFound \<and> mounts w' = mounts w
       else r = Inr () \<and> mounts w' = (mounts w)(k \<mapsto> Some b))"
    and insert_binding: "inv w \<Longrightarrow> up w \<Longrightarrow> cfg_insert_binding C a l w = (r, w') \<Longrightarrow>
      inv w' \<and> up w' \<and> rest w' = rest w \<and> mounts w' = mounts w \<and>
      (if bound w a = None then r = Inr () \<and> bound w' = (bound w)(a \<mapsto> l)
       else r = Inl Conflict \<and> bound w' = bound w)"
    and remove_binding: "inv w \<Longrightarrow> up w \<Longrightarrow> cfg_remove_binding C a w = (r, w') \<Longrightarrow>
      inv w' \<and> up w' \<and> rest w' = rest w \<and> mounts w' = mounts w \<and> bound w' = (bound w)(a := None) \<and>
      r = (if bound w a = None then Inl NotFound else Inr ())"

section \<open>The store in memory keeps it\<close>

definition mc_inv :: "mem_config \<Rightarrow> bool" where
  "mc_inv w \<longleftrightarrow> bt_wf (mc_namespaces w) \<and> bt_wf (mc_bindings w)"

definition mc_up :: "mem_config \<Rightarrow> bool" where
  "mc_up w \<longleftrightarrow> \<not> mc_unavailable w \<and> \<not> mc_poisoned w"

definition mc_mounts :: "mem_config \<Rightarrow> namespace_key \<Rightarrow> backend_ref option option" where
  "mc_mounts w = map_of (mc_namespaces w)"

definition mc_bound :: "mem_config \<Rightarrow> address \<Rightarrow> locator option" where
  "mc_bound w = map_of (mc_bindings w)"

lemmas mem_ops =
  mem_namespace_def mem_namespaces_def mem_insert_namespace_def mem_remove_namespace_def
  mem_set_mount_def mem_binding_def mem_has_bindings_def mem_insert_binding_def mem_remove_binding_def

lemmas mc_view = mc_inv_def mc_up_def mc_mounts_def mc_bound_def

lemma mem_lock_up [simp]: "mc_up w \<Longrightarrow> mem_lock w = (Inr (), w)"
  by (simp add: mem_lock_def mc_up_def)

lemma mem_lock_down [simp]: "\<not> mc_up w \<Longrightarrow> mem_lock w = (Inl Unavailable, w)"
  by (auto simp: mem_lock_def mc_up_def)

lemma mem_config_down: "\<not> mc_up w \<Longrightarrow> all_down mem_config_store w"
  by (simp add: all_down_def answers_down_def refuses_down_def mem_config_store_def mem_ops)

lemma mem_has_bindings_up:
  "mc_up w \<Longrightarrow> mem_has_bindings k w = (Inr (\<exists>a. in_namespace k a \<and> mc_bound w a \<noteq> None), w)"
  by (auto simp: mem_has_bindings_def mc_bound_def list_ex_iff bt_keys_map_of [symmetric]
      simp del: not_None_eq)

interpretation mc: config_contract mem_config_store mc_inv mc_up mc_mounts mc_bound "\<lambda>_. ()"
proof (unfold_locales, goal_cases)
  case 1
  then show ?case by (simp add: mem_config_down)
next
  case (5 w k)
  then show ?case by (simp add: mem_has_bindings_up mem_config_store_def)
qed (auto simp: mem_config_store_def mem_ops mc_view mem_lock_def
      bt_remove_def ok_or_def split: option.splits if_splits)

lemma mem_local_view [simp]:
  "mc_inv mem_local" "mc_up mem_local" "mc_mounts mem_local = [local_default \<mapsto> None]"
  "mc_bound mem_local = Map.empty"
  by (auto simp: mem_local_def mem_new_def mc_view bt_wf_def)

section \<open>A store as a part of a larger world\<close>

definition zoom_config ::
  "('w \<Rightarrow> 's) \<Rightarrow> ('s \<Rightarrow> 'w \<Rightarrow> 'w) \<Rightarrow> 's namespace_config \<Rightarrow> 'w namespace_config" where
  "zoom_config g p C =
     \<lparr>cfg_namespace = (\<lambda>k. zoomE g p (cfg_namespace C k)),
      cfg_namespaces = zoomE g p (cfg_namespaces C),
      cfg_insert_namespace = (\<lambda>n. zoomE g p (cfg_insert_namespace C n)),
      cfg_remove_namespace = (\<lambda>k. zoomE g p (cfg_remove_namespace C k)),
      cfg_set_mount = (\<lambda>k b. zoomE g p (cfg_set_mount C k b)),
      cfg_binding = (\<lambda>a. zoomE g p (cfg_binding C a)),
      cfg_has_bindings = (\<lambda>k. zoomE g p (cfg_has_bindings C k)),
      cfg_insert_binding = (\<lambda>a l. zoomE g p (cfg_insert_binding C a l)),
      cfg_remove_binding = (\<lambda>a. zoomE g p (cfg_remove_binding C a))\<rparr>"

lemma zoom_config_contract:
  assumes C: "config_contract C valid up mounts bound rest"
    and get_put: "\<And>s w. g (p s w) = s" and put_get: "\<And>w. p (g w) w = w"
    and other: "\<And>s w. other (p s w) = other w"
  shows "config_contract (zoom_config g p C) (\<lambda>w. valid (g w)) (\<lambda>w. up (g w)) (\<lambda>w. mounts (g w))
    (\<lambda>w. bound (g w)) (\<lambda>w. (rest (g w), other w))"
proof (unfold_locales, goal_cases)
  case (1 w)
  then show ?case
    using config_contract.down [OF C] put_get
    by (simp add: all_down_def answers_down_def refuses_down_def zoom_config_def zoomE_apply)
next
  case (2 w k)
  then show ?case
    using config_contract.get_namespace [OF C] put_get by (simp add: zoom_config_def zoomE_apply)
next
  case (3 w)
  then obtain l where "bt_wf l" "map_of l = mounts (g w)"
    "cfg_namespaces C (g w) = (Inr (map (\<lambda>(k, m). \<lparr>ns_key = k, ns_mount = m\<rparr>) l), g w)"
    using config_contract.get_namespaces [OF C] by blast
  then show ?case
    using put_get by (auto simp: zoom_config_def zoomE_apply)
next
  case (4 w a)
  then show ?case
    using config_contract.get_binding [OF C] put_get by (simp add: zoom_config_def zoomE_apply)
next
  case (5 w k)
  then show ?case
    using config_contract.get_has_bindings [OF C] put_get by (simp add: zoom_config_def zoomE_apply)
next
  case (6 w n r w')
  then show ?case
    using config_contract.insert_namespace [OF C, of "g w" n] get_put other
    by (cases "cfg_insert_namespace C n (g w)") (auto simp: zoom_config_def zoomE_apply)
next
  case (7 w k r w')
  then show ?case
    using config_contract.remove_namespace [OF C, of "g w" k] get_put other
    by (cases "cfg_remove_namespace C k (g w)") (auto simp: zoom_config_def zoomE_apply)
next
  case (8 w k b r w')
  then show ?case
    using config_contract.set_mount [OF C, of "g w" k b] get_put other
    by (cases "cfg_set_mount C k b (g w)") (auto simp: zoom_config_def zoomE_apply)
next
  case (9 w a l r w')
  then show ?case
    using config_contract.insert_binding [OF C, of "g w" a l] get_put other
    by (cases "cfg_insert_binding C a l (g w)") (auto simp: zoom_config_def zoomE_apply)
next
  case (10 w a r w')
  then show ?case
    using config_contract.remove_binding [OF C, of "g w" a] get_put other
    by (cases "cfg_remove_binding C a (g w)") (auto simp: zoom_config_def zoomE_apply)
qed

text \<open>The store as the first component of a world whose second holds what backends keep.\<close>

definition stack_config :: "(mem_config \<times> 'b) namespace_config" where
  "stack_config = zoom_config fst (\<lambda>s w. (s, snd w)) mem_config_store"

interpretation sc: config_contract stack_config "\<lambda>w. mc_inv (fst w)" "\<lambda>w. mc_up (fst w)"
  "\<lambda>w. mc_mounts (fst w)" "\<lambda>w. mc_bound (fst w)" "\<lambda>w. ((), snd w)"
  unfolding stack_config_def
  by (rule zoom_config_contract [OF mc.config_contract_axioms]) auto

end
