(* ===== verification/Authorize.thy ===== *)
theory Authorize
  imports Storage_Names
begin

text \<open>
  The authorizer in front of the storage port (\<open>crates/secrets-core/src/authorize.rs\<close>): what a
  command is decided on, the local authorizer, and \<open>Authorized\<close>, which wraps any storage so that
  every operation is decided before the storage below is called. The locale
  \<open>authorizer_contract\<close> is the interface \<open>Authorized\<close> relies on: an authorizer that decides by a
  predicate on resources and actions. It is interpreted on the local authorizer.
\<close>

datatype resource = NamespaceRes string | ScopeRes string string

definition resource_of_namespace :: "namespace_key \<Rightarrow> resource" where
  "resource_of_namespace key = NamespaceRes (scope_str (nk_tenant key))"

definition resource_of_scope :: "scope \<Rightarrow> resource" where
  "resource_of_scope s = ScopeRes (scope_str (sc_tenant s)) (scope_str (sc_user s))"

definition resource_of_address :: "address \<Rightarrow> resource" where
  "resource_of_address a = resource_of_scope (ad_scope a)"

datatype denial = DeniedTenant | DeniedUser

fun denial_outcome :: "denial \<Rightarrow> string" where
  "denial_outcome DeniedTenant = ''denied''"
| "denial_outcome DeniedUser = ''denied-user''"

definition storage_error_of_denial :: "denial \<Rightarrow> storage_error" where
  "storage_error_of_denial d = Denied"

type_synonym authorizer = "resource \<Rightarrow> action \<Rightarrow> denial + unit"

text \<open>\<open>Authorizer::authorize\<close>, the provided method over \<open>decide\<close>.\<close>

definition authorize :: "authorizer \<Rightarrow> resource \<Rightarrow> action \<Rightarrow> storage_error + unit" where
  "authorize decide r a = map_err storage_error_of_denial (decide r a)"

definition local_decide :: authorizer where
  "local_decide r a =
     (let (tenant, user) =
        (case r of NamespaceRes t \<Rightarrow> (t, None) | ScopeRes t u \<Rightarrow> (t, Some u))
      in if tenant \<noteq> default_text then Inl DeniedTenant
         else case user of
           Some u \<Rightarrow> if u \<noteq> default_text then Inl DeniedUser else Inr ()
         | None \<Rightarrow> Inr ())"

definition check :: "authorizer \<Rightarrow> target \<Rightarrow> action \<Rightarrow> ('w, storage_error, unit) io" where
  "check decide t a = liftE (authorize decide (resource_of_address (tg_address t)) a)"

definition authorized_read where
  "authorized_read decide S t = bindE (check decide t ActRead) (\<lambda>_. st_read S t)"

definition authorized_write where
  "authorized_write decide S t v = bindE (check decide t ActWrite) (\<lambda>_. st_write S t v)"

definition authorized_delete where
  "authorized_delete decide S t = bindE (check decide t ActDelete) (\<lambda>_. st_delete S t)"

definition authorized_rename where
  "authorized_rename decide S t n =
     bindE (check decide t ActWrite) (\<lambda>_. bindE (check decide t ActDelete) (\<lambda>_. st_rename S t n))"

definition authorized_list where
  "authorized_list decide S s =
     bindE (liftE (authorize decide (resource_of_scope s) ActList)) (\<lambda>_. st_list S s)"

definition authorized :: "authorizer \<Rightarrow> 'w storage \<Rightarrow> 'w storage" where
  "authorized decide S =
     \<lparr>capabilities = capabilities S, requires_binding = requires_binding S,
      st_read = authorized_read decide S, st_write = authorized_write decide S,
      st_delete = authorized_delete decide S, st_rename = authorized_rename decide S,
      st_list = authorized_list decide S\<rparr>"

definition authorized_local :: "'w storage \<Rightarrow> 'w storage" where
  "authorized_local S = authorized local_decide S"

lemmas authorized_ops =
  authorized_read_def authorized_write_def authorized_delete_def authorized_rename_def authorized_list_def

section \<open>The interface\<close>

text \<open>
  An authorizer that admits exactly the resources and actions of \<open>admits\<close>. An operation of
  \<open>Authorized\<close> is then the operation below where it is admitted, and elsewhere the refusal
  \<open>Denied\<close>, the world unchanged, whatever the storage below is.
\<close>

locale authorizer_contract =
  fixes decide :: authorizer
    and admits :: "resource \<Rightarrow> action \<Rightarrow> bool"
  assumes admit: "admits r a \<Longrightarrow> decide r a = Inr ()"
    and refuse: "\<not> admits r a \<Longrightarrow> \<exists>d. decide r a = Inl d"
begin

lemma authorize_iff: "authorize decide r a = (if admits r a then Inr () else Inl Denied)"
  using admit [of r a] refuse [of r a]
  by (auto simp: authorize_def storage_error_of_denial_def)

lemma check_iff:
  "check decide t a = (if admits (resource_of_address (tg_address t)) a then retE () else failE Denied)"
  by (rule ext) (simp add: check_def authorize_iff)

lemma read_authorized:
  "authorized_read decide S t =
     (if admits (resource_of_address (tg_address t)) ActRead then st_read S t else failE Denied)"
  by (simp add: authorized_read_def check_iff)

lemma write_authorized:
  "authorized_write decide S t v =
     (if admits (resource_of_address (tg_address t)) ActWrite then st_write S t v else failE Denied)"
  by (simp add: authorized_write_def check_iff)

lemma delete_authorized:
  "authorized_delete decide S t =
     (if admits (resource_of_address (tg_address t)) ActDelete then st_delete S t else failE Denied)"
  by (simp add: authorized_delete_def check_iff)

lemma rename_authorized:
  "authorized_rename decide S t n =
     (if admits (resource_of_address (tg_address t)) ActWrite \<and>
         admits (resource_of_address (tg_address t)) ActDelete
      then st_rename S t n else failE Denied)"
  by (auto simp: authorized_rename_def check_iff bindE_def fun_eq_iff)

lemma list_authorized:
  "authorized_list decide S s =
     (if admits (resource_of_scope s) ActList then st_list S s else failE Denied)"
  by (rule ext) (simp add: authorized_list_def authorize_iff bindE_def)

lemmas operations = read_authorized write_authorized delete_authorized rename_authorized list_authorized

end

section \<open>The local authorizer\<close>

fun local_admits :: "resource \<Rightarrow> action \<Rightarrow> bool" where
  "local_admits (NamespaceRes t) a \<longleftrightarrow> t = default_text"
| "local_admits (ScopeRes t u) a \<longleftrightarrow> t = default_text \<and> u = default_text"

interpretation la: authorizer_contract local_decide local_admits
  by unfold_locales (auto simp: local_decide_def split: resource.splits)

lemma local_admits_address:
  "local_admits (resource_of_address a) x \<longleftrightarrow>
     sc_tenant (ad_scope a) = default_name \<and> sc_user (ad_scope a) = default_name"
  by (auto simp: resource_of_address_def resource_of_scope_def default_name_def scope_name.expand)

lemma local_admits_scope:
  "local_admits (resource_of_scope s) x \<longleftrightarrow> sc_tenant s = default_name \<and> sc_user s = default_name"
  by (auto simp: resource_of_scope_def default_name_def scope_name.expand)

definition local_address :: "address \<Rightarrow> bool" where
  "local_address a \<longleftrightarrow> sc_tenant (ad_scope a) = default_name \<and> sc_user (ad_scope a) = default_name"

lemma authorized_local_simps [simp]:
  "capabilities (authorized_local S) = capabilities S"
  "requires_binding (authorized_local S) = requires_binding S"
  "st_read (authorized_local S) t = (if local_address (tg_address t) then st_read S t else failE Denied)"
  "st_write (authorized_local S) t v = (if local_address (tg_address t) then st_write S t v else failE Denied)"
  "st_delete (authorized_local S) t = (if local_address (tg_address t) then st_delete S t else failE Denied)"
  "st_rename (authorized_local S) t n = (if local_address (tg_address t) then st_rename S t n else failE Denied)"
  "st_list (authorized_local S) s =
     (if sc_tenant s = default_name \<and> sc_user s = default_name then st_list S s else failE Denied)"
  by (simp_all add: authorized_local_def authorized_def la.operations local_admits_address
      local_admits_scope local_address_def)

end
