(* ===== verification/Storage_Contract.thy ===== *)
theory Storage_Contract
  imports Storage_Orders Authorize
begin

text \<open>
  What a storage promises, independently of any backend: named values in a map from addresses.
  \<open>storage_spec m q r m'\<close> says that the request \<open>q\<close> on the contents \<open>m\<close> may be answered \<open>r\<close> and
  leave the contents \<open>m'\<close>. The locale \<open>storage_refines\<close> is the contract of a backend: every
  answer it gives while \<open>ok\<close> holds, to a request it serves, is one the specification allows, for
  the contents \<open>holds\<close> reads off the world, and it keeps \<open>ok\<close>. The guarantees a caller has are
  proved once in the locale. \<open>Authorized\<close> over a backend that keeps the contract keeps it for
  the requests the authorizer admits.
\<close>

type_synonym contents = "address \<Rightarrow> (secret_value \<times> version) option"

datatype request =
  ReadReq address
| WriteReq address secret_value
| DeleteReq address
| RenameReq address secret_name
| ListReq scope

datatype answer =
  ReadAns "storage_error + revealed"
| WriteAns "storage_error + written"
| DeleteAns "storage_error + unit"
| RenameAns "storage_error + unit"
| ListAns "storage_error + secret_metadata list"

fun perform :: "'w storage \<Rightarrow> request \<Rightarrow> 'w \<Rightarrow> answer \<times> 'w" where
  "perform S (ReadReq a) w = apfst ReadAns (st_read S (unbound a) w)"
| "perform S (WriteReq a v) w = apfst WriteAns (st_write S (unbound a) v w)"
| "perform S (DeleteReq a) w = apfst DeleteAns (st_delete S (unbound a) w)"
| "perform S (RenameReq a n) w = apfst RenameAns (st_rename S (unbound a) n w)"
| "perform S (ListReq s) w = apfst ListAns (st_list S s w)"

fun request_scope :: "request \<Rightarrow> scope" where
  "request_scope (ReadReq a) = ad_scope a"
| "request_scope (WriteReq a v) = ad_scope a"
| "request_scope (DeleteReq a) = ad_scope a"
| "request_scope (RenameReq a n) = ad_scope a"
| "request_scope (ListReq s) = s"

definition wf_value :: "secret_value \<Rightarrow> bool" where
  "wf_value v \<longleftrightarrow> length (expose v) \<le> max_value_bytes"

lemma secret_value_new_ok: "secret_value_new b = Inr v \<longleftrightarrow> v = SecretValue b \<and> wf_value v"
  by (auto simp: secret_value_new_def wf_value_def)

lemma secret_value_new_expose: "wf_value v \<Longrightarrow> secret_value_new (expose v) = Inr v"
  by (simp add: secret_value_new_ok)

text \<open>
  The rows of a listing: one per secret of the scope, in the order of the addresses, with its
  version and never its value.
\<close>

definition listing :: "contents \<Rightarrow> scope \<Rightarrow> secret_metadata list \<Rightarrow> bool" where
  "listing m s rows \<longleftrightarrow>
     sorted_wrt (<) (map sm_address rows) \<and>
     (\<forall>row. row \<in> set rows \<longleftrightarrow>
        (\<exists>v ver. m (sm_address row) = Some (v, ver) \<and> sm_version row = Some ver \<and>
           ad_scope (sm_address row) = s))"

inductive storage_spec :: "contents \<Rightarrow> request \<Rightarrow> answer \<Rightarrow> contents \<Rightarrow> bool" where
  read: "m a = Some (v, ver) \<Longrightarrow>
    storage_spec m (ReadReq a) (ReadAns (Inr \<lparr>rv_value = v, rv_version = Some ver\<rparr>)) m"
| read_missing: "m a = None \<Longrightarrow> storage_spec m (ReadReq a) (ReadAns (Inl NotFound)) m"
| create: "m a = None \<Longrightarrow>
    storage_spec m (WriteReq a v) (WriteAns (Inr (Created (Some ver)))) (m(a \<mapsto> (v, ver)))"
| replace: "m a \<noteq> None \<Longrightarrow>
    storage_spec m (WriteReq a v) (WriteAns (Inr (Replaced (Some ver)))) (m(a \<mapsto> (v, ver)))"
| delete: "m a \<noteq> None \<Longrightarrow> storage_spec m (DeleteReq a) (DeleteAns (Inr ())) (m(a := None))"
| delete_missing: "m a = None \<Longrightarrow> storage_spec m (DeleteReq a) (DeleteAns (Inl NotFound)) m"
| rename: "m a = Some x \<Longrightarrow> m (renamed a n) = None \<Longrightarrow>
    storage_spec m (RenameReq a n) (RenameAns (Inr ())) (m(a := None, renamed a n \<mapsto> x))"
| rename_missing: "m a = None \<Longrightarrow> storage_spec m (RenameReq a n) (RenameAns (Inl NotFound)) m"
| rename_taken: "m (renamed a n) \<noteq> None \<Longrightarrow>
    storage_spec m (RenameReq a n) (RenameAns (Inl Conflict)) m"
| list: "listing m s rows \<Longrightarrow> storage_spec m (ListReq s) (ListAns (Inr rows)) m"

inductive_cases spec_readE: "storage_spec m (ReadReq a) r m'"
inductive_cases spec_writeE: "storage_spec m (WriteReq a v) r m'"
inductive_cases spec_deleteE: "storage_spec m (DeleteReq a) r m'"
inductive_cases spec_renameE: "storage_spec m (RenameReq a n) r m'"
inductive_cases spec_listE: "storage_spec m (ListReq s) r m'"

inductive_simps spec_read_iff: "storage_spec m (ReadReq a) r m'"

text \<open>A request changes nothing outside its scope, and reads and listings change nothing.\<close>

lemma spec_other_scope:
  "storage_spec m q r m' \<Longrightarrow> ad_scope a \<noteq> request_scope q \<Longrightarrow> m' a = m a"
  by (induction rule: storage_spec.induct) auto

lemma listing_unique: "listing m s rows \<Longrightarrow> listing m s rows' \<Longrightarrow> rows = rows'"
proof -
  assume l: "listing m s rows" "listing m s rows'"
  then have s: "set rows = set rows'"
    unfolding listing_def by blast
  have "set (map sm_address rows) = set (map sm_address rows')"
    using s by simp
  moreover have "sorted_wrt (<) (map sm_address rows)" "sorted_wrt (<) (map sm_address rows')"
    using l by (simp_all add: listing_def)
  ultimately have k: "map sm_address rows = map sm_address rows'"
    by (metis strict_sorted_equal)
  have inj: "inj_on sm_address (set rows)"
  proof (rule inj_onI)
    fix x y assume "x \<in> set rows" "y \<in> set rows" "sm_address x = sm_address y"
    moreover from this l(1) have "sm_version x = sm_version y"
      unfolding listing_def by fastforce
    ultimately show "x = y"
      by (intro secret_metadata.equality) simp_all
  qed
  then have "inj_on sm_address (set rows \<union> set rows')"
    using s by simp
  then show "rows = rows'"
    using k by (simp add: inj_on_map_eq_map)
qed

text \<open>Sorting rows of different addresses sorts their addresses.\<close>

lemma sorted_rows:
  assumes "distinct (map sm_address rows)"
  shows "sorted_wrt (<) (map sm_address (sort (rows :: secret_metadata list)))"
proof -
  have "a \<le> b \<Longrightarrow> sm_address a \<le> sm_address b" for a b :: secret_metadata
    by (auto simp: less_eq_secret_metadata_ext_def metadata_key_def)
  then have "sorted (map sm_address (sort rows))"
    by (intro sorted_map_mono [of "sort rows"]) (auto intro: mono_onI)
  moreover have "distinct (map sm_address (sort rows))"
    using assms by (simp add: distinct_map)
  ultimately show ?thesis by (simp add: strict_sorted_iff)
qed

section \<open>The contract of a backend\<close>

locale storage_refines =
  fixes S :: "'w storage"
    and ok :: "'w \<Rightarrow> bool"
    and serves :: "'w \<Rightarrow> request \<Rightarrow> bool"
    and holds :: "'w \<Rightarrow> contents"
  assumes simulates:
    "ok w \<Longrightarrow> serves w q \<Longrightarrow> perform S q w = (r, w') \<Longrightarrow> storage_spec (holds w) q r (holds w') \<and> ok w'"
begin

lemma read_answer:
  assumes "ok w" "serves w (ReadReq a)"
  shows "fst (st_read S (unbound a) w) =
    (case holds w a of None \<Rightarrow> Inl NotFound | Some (v, ver) \<Rightarrow> Inr \<lparr>rv_value = v, rv_version = Some ver\<rparr>)"
proof (cases "st_read S (unbound a) w")
  case (Pair r w')
  with simulates [OF assms, of "ReadAns r" w'] show ?thesis
    by (auto elim!: spec_readE)
qed

lemma read_keeps:
  assumes "ok w" "serves w (ReadReq a)" "st_read S (unbound a) w = (r, w')"
  shows "holds w' = holds w \<and> ok w'"
  using simulates [of w "ReadReq a" "ReadAns r" w'] assms by (auto elim!: spec_readE)

lemma list_keeps:
  assumes "ok w" "serves w (ListReq s)" "st_list S s w = (r, w')"
  shows "holds w' = holds w \<and> ok w' \<and> (\<exists>rows. r = Inr rows \<and> listing (holds w) s rows)"
  using simulates [of w "ListReq s" "ListAns r" w'] assms by (auto elim!: spec_listE)

lemma write_holds:
  assumes "ok w" "serves w (WriteReq a v)" "st_write S (unbound a) v w = (r, w')"
  obtains ver where
    "r = Inr (if holds w a = None then Created (Some ver) else Replaced (Some ver))"
    "holds w' = (holds w)(a \<mapsto> (v, ver))" "ok w'"
  using simulates [of w "WriteReq a v" "WriteAns r" w'] assms by (auto elim!: spec_writeE)

lemma read_after_write:
  assumes "ok w" "serves w (WriteReq a v)" "serves w' (ReadReq a)"
    and w: "st_write S (unbound a) v w = (r, w')"
  obtains ver where "fst (st_read S (unbound a) w') = Inr \<lparr>rv_value = v, rv_version = Some ver\<rparr>"
proof -
  obtain ver where "holds w' = (holds w)(a \<mapsto> (v, ver))" "ok w'"
    using write_holds [OF assms(1,2) w] by blast
  then show thesis
    using that read_answer [of w' a] assms(3) by simp
qed

lemma read_after_delete:
  assumes "ok w" "serves w (DeleteReq a)" "serves w' (ReadReq a)"
    and d: "st_delete S (unbound a) w = (r, w')"
  shows "fst (st_read S (unbound a) w') = Inl NotFound"
proof -
  have "holds w' a = None" "ok w'"
    using simulates [of w "DeleteReq a" "DeleteAns r" w'] assms by (auto elim!: spec_deleteE)
  then show ?thesis
    using read_answer [of w' a] assms(3) by simp
qed

lemma read_after_rename:
  assumes "ok w" "serves w (RenameReq a n)" "serves w (ReadReq a)" "serves w' (ReadReq a)"
    "serves w' (ReadReq (renamed a n))"
    and d: "st_rename S (unbound a) n w = (Inr (), w')"
  shows "fst (st_read S (unbound (renamed a n)) w') = fst (st_read S (unbound a) w)"
    and "fst (st_read S (unbound a) w') = Inl NotFound"
proof -
  obtain x where m: "holds w a = Some x" "holds w (renamed a n) = None"
    and h: "holds w' = (holds w)(a := None, renamed a n \<mapsto> x)" and "ok w'"
    using simulates [of w "RenameReq a n" "RenameAns (Inr ())" w'] assms by (auto elim!: spec_renameE)
  then have "holds w' a = None" "holds w' (renamed a n) = Some x"
    by auto
  then show "fst (st_read S (unbound (renamed a n)) w') = fst (st_read S (unbound a) w)"
    and "fst (st_read S (unbound a) w') = Inl NotFound"
    using read_answer \<open>ok w'\<close> assms(1-5) m by simp_all
qed

lemma other_scope_kept:
  assumes "ok w" "serves w q" "perform S q w = (r, w')" "ad_scope a \<noteq> request_scope q"
  shows "holds w' a = holds w a"
  using simulates [OF assms(1-3)] assms(4) by (blast intro: spec_other_scope)

end

section \<open>Authorized storage keeps the contract\<close>

definition local_request :: "request \<Rightarrow> bool" where
  "local_request q \<longleftrightarrow>
     sc_tenant (request_scope q) = default_name \<and> sc_user (request_scope q) = default_name"

lemma perform_authorized_local:
  "local_request q \<Longrightarrow> perform (authorized_local S) q w = perform S q w"
  by (cases q) (simp_all add: local_request_def local_address_def unbound_def)

lemma perform_denied:
  "\<not> local_request q \<Longrightarrow> perform (authorized_local S) q w =
     (case q of ReadReq a \<Rightarrow> ReadAns (Inl Denied) | WriteReq a v \<Rightarrow> WriteAns (Inl Denied)
      | DeleteReq a \<Rightarrow> DeleteAns (Inl Denied) | RenameReq a n \<Rightarrow> RenameAns (Inl Denied)
      | ListReq s \<Rightarrow> ListAns (Inl Denied), w)"
  by (cases q) (auto simp: local_request_def local_address_def unbound_def)

lemma authorized_local_refines:
  assumes "storage_refines S ok serves holds"
  shows "storage_refines (authorized_local S) ok (\<lambda>w q. serves w q \<and> local_request q) holds"
proof -
  from assms have s: "\<And>w q r w'. ok w \<Longrightarrow> serves w q \<Longrightarrow> perform S q w = (r, w') \<Longrightarrow>
      storage_spec (holds w) q r (holds w') \<and> ok w'"
    by (simp add: storage_refines_def)
  show ?thesis
    by unfold_locales (auto simp: perform_authorized_local dest: s)
qed

section \<open>Properties\<close>

text \<open>
  C19: \<open>Authorized\<close> with the local authorizer, over any storage: a request outside the default
  tenant and user is answered \<open>Denied\<close>, the storage below is not called and nothing changes; every
  other request is exactly the request below.
\<close>

theorem authorized_local_decides:
  "perform (authorized_local S) q w =
     (if sc_tenant (request_scope q) = default_name \<and> sc_user (request_scope q) = default_name
      then perform S q w
      else (case q of ReadReq a \<Rightarrow> ReadAns (Inl Denied) | WriteReq a v \<Rightarrow> WriteAns (Inl Denied)
            | DeleteReq a \<Rightarrow> DeleteAns (Inl Denied) | RenameReq a n \<Rightarrow> RenameAns (Inl Denied)
            | ListReq s \<Rightarrow> ListAns (Inl Denied), w))"
  using perform_denied [of q S w] perform_authorized_local [of q S w]
  by (auto simp: local_request_def)

end
