(* ===== verification/Recording.thy ===== *)
theory Recording
  imports Storage_Contract
begin

text \<open>
  The recording backend of the \<open>testing\<close> feature
  (\<open>crates/secrets-core/src/storage/testing.rs\<close>): read-write by address, or read-only through a
  bound locator. The world of its methods is its own state, the fields behind its atomic flag and
  its mutex; \<open>rb_poisoned\<close> is the poisoning of that mutex. In mode \<open>ReadWrite\<close> it is interpreted
  as a storage that keeps the contract \<open>storage_refines\<close>; every successful write gives the
  address a version it did not have.
\<close>

datatype call =
  CallRead address
| CallWrite address
| CallDelete address
| CallRename address secret_name
| CallList scope

datatype mode = ReadWrite | ReadOnlyBound

record held =
  hd_value :: secret_value
  hd_version :: version

record recording =
  rb_unavailable :: bool
  rb_poisoned :: bool
  rb_calls :: "call list"
  rb_by_address :: "(address, held) btree"
  rb_by_locator :: "(locator, held) btree"
  rb_writes :: "64 word"

definition recording_new :: recording where
  "recording_new = \<lparr>rb_unavailable = False, rb_poisoned = False, rb_calls = [],
     rb_by_address = [], rb_by_locator = [], rb_writes = 0\<rparr>"

definition set_unavailable :: "bool \<Rightarrow> recording \<Rightarrow> recording" where
  "set_unavailable u w = w\<lparr>rb_unavailable := u\<rparr>"

definition write_version :: "64 word \<Rightarrow> version" where
  "write_version n = Version (CHR ''v'' # dec_nat (unat n))"

definition recording_lock :: "(recording, storage_error, unit) io" where
  "recording_lock w = (if rb_poisoned w then (Inl Unavailable, w) else (Inr (), w))"

definition preload :: "locator \<Rightarrow> secret_value \<Rightarrow> (recording, storage_error, unit) io" where
  "preload l v = bindE recording_lock (\<lambda>_ w.
     let n = rb_writes w + 1 in
     (Inr (), w\<lparr>rb_writes := n,
        rb_by_locator := bt_put l \<lparr>hd_value = v, hd_version = write_version n\<rparr> (rb_by_locator w)\<rparr>))"

definition enter :: "call \<Rightarrow> (recording, storage_error, unit) io" where
  "enter c = bindE recording_lock (\<lambda>_ w.
     let w' = w\<lparr>rb_calls := rb_calls w @ [c]\<rparr> in
     if rb_unavailable w' then (Inl Unavailable, w') else (Inr (), w'))"

definition writable :: "mode \<Rightarrow> (recording, storage_error, unit) io" where
  "writable m = (case m of ReadWrite \<Rightarrow> retE () | ReadOnlyBound \<Rightarrow> failE Unsupported)"

definition recording_read :: "mode \<Rightarrow> target \<Rightarrow> (recording, storage_error, revealed) io" where
  "recording_read m t = bindE (enter (CallRead (tg_address t))) (\<lambda>_ w.
     (let held = (case m of
          ReadWrite \<Rightarrow> map_of (rb_by_address w) (tg_address t)
        | ReadOnlyBound \<Rightarrow> Option.bind (tg_locator t) (map_of (rb_by_locator w)))
      in bindE (liftE (ok_or held NotFound)) (\<lambda>h.
         bindE (liftE (secret_value_new (expose (hd_value h)))) (\<lambda>v.
         retE \<lparr>rv_value = v, rv_version = Some (hd_version h)\<rparr>))) w)"

definition recording_write ::
  "mode \<Rightarrow> target \<Rightarrow> secret_value \<Rightarrow> (recording, storage_error, written) io" where
  "recording_write m t v =
     bindE (enter (CallWrite (tg_address t))) (\<lambda>_.
     bindE (writable m) (\<lambda>_ w.
       let n = rb_writes w + 1;
           ver = write_version n;
           (old, by) = bt_insert (tg_address t) \<lparr>hd_value = v, hd_version = ver\<rparr> (rb_by_address w)
       in (Inr (if old \<noteq> None then Replaced (Some ver) else Created (Some ver)),
           w\<lparr>rb_writes := n, rb_by_address := by\<rparr>)))"

definition recording_delete :: "mode \<Rightarrow> target \<Rightarrow> (recording, storage_error, unit) io" where
  "recording_delete m t =
     bindE (enter (CallDelete (tg_address t))) (\<lambda>_.
     bindE (writable m) (\<lambda>_ w.
       let (old, by) = bt_remove (tg_address t) (rb_by_address w)
       in (ok_or (map_option (\<lambda>_. ()) old) NotFound, w\<lparr>rb_by_address := by\<rparr>)))"

definition recording_rename ::
  "mode \<Rightarrow> target \<Rightarrow> secret_name \<Rightarrow> (recording, storage_error, unit) io" where
  "recording_rename m t n =
     bindE (enter (CallRename (tg_address t) n)) (\<lambda>_.
     bindE (writable m) (\<lambda>_ w.
       let to = \<lparr>ad_scope = ad_scope (tg_address t), ad_name = n\<rparr> in
       if bt_contains to (rb_by_address w) then (Inl Conflict, w)
       else let (old, by) = bt_remove (tg_address t) (rb_by_address w) in
         (case old of
            None \<Rightarrow> (Inl NotFound, w\<lparr>rb_by_address := by\<rparr>)
          | Some h \<Rightarrow> (Inr (), w\<lparr>rb_by_address := bt_put to h by\<rparr>))))"

definition recording_list :: "mode \<Rightarrow> scope \<Rightarrow> (recording, storage_error, secret_metadata list) io" where
  "recording_list m s =
     bindE (enter (CallList s)) (\<lambda>_.
     bindE (writable m) (\<lambda>_ w.
       (Inr (map (\<lambda>(a, h). \<lparr>sm_address = a, sm_version = Some (hd_version h)\<rparr>)
          (filter (\<lambda>(a, h). ad_scope a = s) (rb_by_address w))), w)))"

definition recording_storage :: "mode \<Rightarrow> recording storage" where
  "recording_storage m =
     \<lparr>capabilities = (case m of ReadWrite \<Rightarrow> all_capabilities | ReadOnlyBound \<Rightarrow> [CapRead]),
      requires_binding = (m = ReadOnlyBound),
      st_read = recording_read m, st_write = recording_write m, st_delete = recording_delete m,
      st_rename = recording_rename m, st_list = recording_list m\<rparr>"

lemmas recording_ops =
  recording_read_def recording_write_def recording_delete_def recording_rename_def recording_list_def

section \<open>Calls are recorded, and a fault is answered before anything else\<close>

lemma enter_apply:
  "enter c w =
     (if rb_poisoned w then (Inl Unavailable, w)
      else (if rb_unavailable w then Inl Unavailable else Inr (), w\<lparr>rb_calls := rb_calls w @ [c]\<rparr>))"
  by (simp add: enter_def recording_lock_def bindE_def Let_def)

lemma writable_simps [simp]: "writable ReadWrite = retE ()" "writable ReadOnlyBound = failE Unsupported"
  by (simp_all add: writable_def)

section \<open>The contract\<close>

definition rb_holds :: "recording \<Rightarrow> contents" where
  "rb_holds w a = map_option (\<lambda>h. (hd_value h, hd_version h)) (map_of (rb_by_address w) a)"

definition rb_ok :: "recording \<Rightarrow> bool" where
  "rb_ok w \<longleftrightarrow>
     \<not> rb_poisoned w \<and> \<not> rb_unavailable w \<and> bt_wf (rb_by_address w) \<and>
     (\<forall>a h. map_of (rb_by_address w) a = Some h \<longrightarrow> wf_value (hd_value h))"

definition wf_request :: "request \<Rightarrow> bool" where
  "wf_request q \<longleftrightarrow> (case q of WriteReq a v \<Rightarrow> wf_value v | _ \<Rightarrow> True)"

lemma rb_ok_new: "rb_ok recording_new"
  by (simp add: rb_ok_def recording_new_def)

lemma rb_ok_enter: "rb_ok w \<Longrightarrow> enter c w = (Inr (), w\<lparr>rb_calls := rb_calls w @ [c]\<rparr>)"
  by (simp add: enter_apply rb_ok_def)

lemma rb_holds_calls [simp]: "rb_holds (w\<lparr>rb_calls := cs\<rparr>) = rb_holds w"
  by (rule ext) (simp add: rb_holds_def)

lemma rb_ok_calls [simp]: "rb_ok (w\<lparr>rb_calls := cs\<rparr>) = rb_ok w"
  by (simp add: rb_ok_def)

lemma rb_ok_put: "rb_ok w \<Longrightarrow> wf_value (hd_value h) \<Longrightarrow>
    rb_ok (w\<lparr>rb_by_address := bt_put a h (rb_by_address w), rb_writes := n\<rparr>)"
  by (auto simp: rb_ok_def)

lemma rb_ok_del: "rb_ok w \<Longrightarrow> rb_ok (w\<lparr>rb_by_address := bt_del a (rb_by_address w)\<rparr>)"
  by (auto simp: rb_ok_def split: if_splits)

lemma rb_holds_put: "bt_wf m \<Longrightarrow>
    rb_holds (w\<lparr>rb_by_address := bt_put a h m\<rparr>) =
      (rb_holds (w\<lparr>rb_by_address := m\<rparr>))(a \<mapsto> (hd_value h, hd_version h))"
  by (auto simp: rb_holds_def fun_eq_iff)

lemma rb_holds_del: "rb_holds (w\<lparr>rb_by_address := bt_del a m\<rparr>) = (rb_holds (w\<lparr>rb_by_address := m\<rparr>))(a := None)"
  by (auto simp: rb_holds_def fun_eq_iff)

lemma rb_holds_writes [simp]: "rb_holds (w\<lparr>rb_writes := n\<rparr>) = rb_holds w"
  by (rule ext) (simp add: rb_holds_def)

lemma rb_holds_self [simp]: "rb_holds (w\<lparr>rb_by_address := rb_by_address w\<rparr>) = rb_holds w"
  by (rule ext) (simp add: rb_holds_def)

lemma rb_listing:
  assumes "rb_ok w"
  shows "listing (rb_holds w) s
    (map (\<lambda>(a, h). \<lparr>sm_address = a, sm_version = Some (hd_version h)\<rparr>)
      (filter (\<lambda>(a, h). ad_scope a = s) (rb_by_address w)))"
proof -
  have wf: "bt_wf (rb_by_address w)"
    using assms by (simp add: rb_ok_def)
  have "sorted_wrt (\<lambda>x y. fst x < fst y) (filter (\<lambda>(a, h). ad_scope a = s) (rb_by_address w))"
    using wf by (simp add: bt_wf_def sorted_wrt_map sorted_wrt_filter)
  then have sorted: "sorted_wrt (<) (map sm_address
      (map (\<lambda>(a, h). \<lparr>sm_address = a, sm_version = Some (hd_version h)\<rparr>)
        (filter (\<lambda>(a, h). ad_scope a = s) (rb_by_address w))))"
    by (simp add: sorted_wrt_map case_prod_beta)
  have "row \<in> set (map (\<lambda>(a, h). \<lparr>sm_address = a, sm_version = Some (hd_version h)\<rparr>)
        (filter (\<lambda>(a, h). ad_scope a = s) (rb_by_address w))) \<longleftrightarrow>
      (\<exists>v ver. rb_holds w (sm_address row) = Some (v, ver) \<and> sm_version row = Some ver \<and>
        ad_scope (sm_address row) = s)" for row
  proof (cases row)
    case (fields a ov)
    then show ?thesis
      by (auto simp: rb_holds_def image_iff bt_mem_iff [OF wf] Bex_def)
  qed
  with sorted show ?thesis
    unfolding listing_def by blast
qed

lemma recording_read_refines:
  assumes "rb_ok w" "perform (recording_storage ReadWrite) (ReadReq a) w = (r, w')"
  shows "storage_spec (rb_holds w) (ReadReq a) r (rb_holds w') \<and> rb_ok w'"
  using assms
  by (cases "map_of (rb_by_address w) a")
    (auto simp: recording_storage_def recording_read_def unbound_def rb_ok_enter spec_read_iff
      rb_holds_def secret_value_new_expose rb_ok_def bindE_def enter_apply)

lemma recording_write_refines:
  assumes "rb_ok w" "wf_value v" "perform (recording_storage ReadWrite) (WriteReq a v) w = (r, w')"
  shows "storage_spec (rb_holds w) (WriteReq a v) r (rb_holds w') \<and> rb_ok w'"
proof -
  define w1 where "w1 = w\<lparr>rb_calls := rb_calls w @ [CallWrite a]\<rparr>"
  define ver where "ver = write_version (rb_writes w1 + 1)"
  have w1: "bt_wf (rb_by_address w1)" "rb_ok w1"
    using assms(1) by (simp_all add: w1_def rb_ok_def)
  have e: "r = WriteAns (Inr (if rb_holds w a = None then Created (Some ver) else Replaced (Some ver)))"
    "w' = w1\<lparr>rb_by_address := bt_put a \<lparr>hd_value = v, hd_version = ver\<rparr> (rb_by_address w1),
             rb_writes := rb_writes w1 + 1\<rparr>"
    using assms
    by (auto simp: recording_storage_def recording_write_def unbound_def rb_ok_enter w1_def ver_def
        bt_insert_def Let_def rb_holds_def split: if_splits)
  then have "rb_holds w' = (rb_holds w)(a \<mapsto> (v, ver))"
    using w1 by (simp add: rb_holds_put w1_def)
  moreover have "rb_ok w'"
    unfolding e using w1 assms(2) by (intro rb_ok_put) simp_all
  ultimately show ?thesis
    using e by (auto intro: storage_spec.intros)
qed

lemma recording_delete_refines:
  assumes "rb_ok w" "perform (recording_storage ReadWrite) (DeleteReq a) w = (r, w')"
  shows "storage_spec (rb_holds w) (DeleteReq a) r (rb_holds w') \<and> rb_ok w'"
proof -
  define w1 where "w1 = w\<lparr>rb_calls := rb_calls w @ [CallDelete a]\<rparr>"
  have w1: "rb_ok w1" "rb_holds w1 = rb_holds w"
    using assms(1) by (simp_all add: w1_def)
  have e: "r = DeleteAns (if rb_holds w a = None then Inl NotFound else Inr ())"
    "w' = w1\<lparr>rb_by_address := bt_del a (rb_by_address w1)\<rparr>"
    using assms
    by (auto simp: recording_storage_def recording_delete_def unbound_def rb_ok_enter w1_def
        bt_remove_def Let_def rb_holds_def ok_or_def split: option.splits)
  have "rb_holds w' = (rb_holds w)(a := None)" "rb_ok w'"
    using w1 rb_ok_del [of w1 a] by (simp_all add: e(2) rb_holds_del)
  then show ?thesis
    using e(1) by (auto intro: storage_spec.intros simp: fun_upd_idem)
qed

lemma recording_rename_eq:
  assumes "rb_ok w" and w1: "w1 = w\<lparr>rb_calls := rb_calls w @ [CallRename a n]\<rparr>"
  shows "recording_rename ReadWrite (unbound a) n w =
      (if rb_holds w (renamed a n) \<noteq> None then (Inl Conflict, w1)
       else case map_of (rb_by_address w1) a of
         None \<Rightarrow> (Inl NotFound, w1\<lparr>rb_by_address := bt_del a (rb_by_address w1)\<rparr>)
       | Some h \<Rightarrow> (Inr (), w1\<lparr>rb_by_address := bt_put (renamed a n) h (bt_del a (rb_by_address w1))\<rparr>))"
  using assms
  by (auto simp: recording_rename_def unbound_def rb_ok_enter renamed_def bt_remove_def Let_def
      rb_holds_def split: option.splits)

lemma recording_rename_refines:
  assumes "rb_ok w" "perform (recording_storage ReadWrite) (RenameReq a n) w = (r, w')"
  shows "storage_spec (rb_holds w) (RenameReq a n) r (rb_holds w') \<and> rb_ok w'"
proof -
  define w1 where "w1 = w\<lparr>rb_calls := rb_calls w @ [CallRename a n]\<rparr>"
  have w1: "rb_ok w1" "rb_holds w1 = rb_holds w" "bt_wf (rb_by_address w1)"
    using assms(1) by (simp_all add: w1_def rb_ok_def)
  have step: "(r, w') = apfst RenameAns (recording_rename ReadWrite (unbound a) n w)"
    using assms(2) by (simp add: recording_storage_def)
  note step = step [unfolded recording_rename_eq [OF assms(1) w1_def]]
  consider (taken) "rb_holds w (renamed a n) \<noteq> None"
    | (missing) "rb_holds w (renamed a n) = None" "map_of (rb_by_address w1) a = None"
    | (moved) h where "rb_holds w (renamed a n) = None" "map_of (rb_by_address w1) a = Some h"
    by blast
  then show ?thesis
  proof cases
    case taken
    with step w1 show ?thesis by (auto intro: storage_spec.intros)
  next
    case missing
    with step w1 have "rb_holds w a = None" "r = RenameAns (Inl NotFound)"
      "w' = w1\<lparr>rb_by_address := bt_del a (rb_by_address w1)\<rparr>"
      by (auto simp: rb_holds_def w1_def)
    with w1 rb_ok_del [of w1 a] show ?thesis
      by (auto simp: rb_holds_del fun_upd_idem intro: storage_spec.intros)
  next
    case moved
    with step w1 have r: "r = RenameAns (Inr ())"
      "w' = w1\<lparr>rb_by_address := bt_put (renamed a n) h (bt_del a (rb_by_address w1))\<rparr>"
      and h: "rb_holds w a = Some (hd_value h, hd_version h)"
      by (auto simp: rb_holds_def w1_def)
    have "rb_holds w' = (rb_holds w)(a := None, renamed a n \<mapsto> (hd_value h, hd_version h))"
      using w1 by (simp add: r rb_holds_put rb_holds_del)
    moreover have "rb_ok w'"
      using w1 moved unfolding r by (auto simp: rb_ok_def split: if_splits)
    ultimately show ?thesis
      using r h moved by (auto intro: storage_spec.rename)
  qed
qed

lemma recording_list_refines:
  assumes "rb_ok w" "perform (recording_storage ReadWrite) (ListReq s) w = (r, w')"
  shows "storage_spec (rb_holds w) (ListReq s) r (rb_holds w') \<and> rb_ok w'"
proof -
  from assms have "w' = w\<lparr>rb_calls := rb_calls w @ [CallList s]\<rparr>"
    "r = ListAns (Inr (map (\<lambda>(a, h). \<lparr>sm_address = a, sm_version = Some (hd_version h)\<rparr>)
      (filter (\<lambda>(a, h). ad_scope a = s) (rb_by_address w))))"
    by (auto simp: recording_storage_def recording_list_def rb_ok_enter)
  with assms(1) rb_listing show ?thesis
    by (auto intro: storage_spec.intros)
qed

lemma recording_refines:
  assumes "rb_ok w" "wf_request q" "perform (recording_storage ReadWrite) q w = (r, w')"
  shows "storage_spec (rb_holds w) q r (rb_holds w') \<and> rb_ok w'"
proof (cases q)
  case (ReadReq a)
  with assms recording_read_refines show ?thesis by simp
next
  case (WriteReq a v)
  with assms recording_write_refines show ?thesis by (simp add: wf_request_def)
next
  case (DeleteReq a)
  with assms recording_delete_refines show ?thesis by simp
next
  case (RenameReq a n)
  with assms recording_rename_refines show ?thesis by simp
next
  case (ListReq s)
  with assms recording_list_refines show ?thesis by simp
qed

interpretation rb: storage_refines "recording_storage ReadWrite" rb_ok "\<lambda>_. wf_request" rb_holds
  by unfold_locales (rule recording_refines)

section \<open>Properties\<close>

definition example_address :: address where
  "example_address = \<lparr>ad_scope = local_scope, ad_name = SecretName ''db/password''\<rparr>"

definition example_value :: secret_value where
  "example_value = SecretValue [104, 117, 110]"

lemma example_value_wf [simp]: "wf_value example_value"
  by (simp add: wf_value_def example_value_def bounds)

text \<open>
  The recording backend in mode \<open>ReadWrite\<close> implements the storage contract: while it is
  reachable, each answer to a request with a value within the bound is one the abstract map
  allows, and leaves the contents the specification says.
\<close>

theorem recording_keeps_contract:
  assumes "rb_ok w" "wf_request q" "perform (recording_storage ReadWrite) q w = (r, w')"
  shows "storage_spec (rb_holds w) q r (rb_holds w') \<and> rb_ok w'"
  using rb.simulates [OF assms] .

theorem recording_keeps_contract_witness:
  "storage_spec (rb_holds recording_new) (WriteReq example_address example_value)
     (fst (perform (recording_storage ReadWrite) (WriteReq example_address example_value) recording_new))
     (rb_holds (snd (perform (recording_storage ReadWrite) (WriteReq example_address example_value)
        recording_new)))"
proof -
  have "wf_request (WriteReq example_address example_value)"
    by (simp add: wf_request_def)
  from recording_keeps_contract [OF rb_ok_new this surjective_pairing]
  show ?thesis by (rule conjunct1)
qed

end
