(* ===== verification/Federation.thy ===== *)
theory Federation
  imports Namespace_Config Recording
begin

text \<open>
  Mount routing (\<open>crates/secrets-federation/src/lib.rs\<close>): one backend per namespace and no
  fallback. \<open>'w federated\<close> is \<open>FederatedStorage\<close>, its configuration store and its backends as
  tables of methods over one world \<open>'w\<close>. \<open>resolve_outcome\<close> is the decision of the module's
  resolution rules as a function of what the store shows; inside \<open>config_contract\<close> the code's
  \<open>resolve\<close> is proved to be that decision, made without calling a backend.
\<close>

record 'w federated =
  fed_config :: "'w namespace_config"
  fed_backends :: "(backend_ref, 'w storage) btree"

definition fed_new :: "'w namespace_config \<Rightarrow> 'w federated" where
  "fed_new C = \<lparr>fed_config = C, fed_backends = []\<rparr>"

definition with_backend ::
  "'w federated \<Rightarrow> backend_ref \<Rightarrow> 'w storage \<Rightarrow> storage_error + 'w federated" where
  "with_backend F b S =
     (if bt_contains b (fed_backends F) then Inl Conflict
      else Inr (F\<lparr>fed_backends := bt_put b S (fed_backends F)\<rparr>))"

definition fed_backend_refs :: "'w federated \<Rightarrow> backend_ref list" where
  "fed_backend_refs F = map fst (fed_backends F)"

definition namespace_key_of :: "scope \<Rightarrow> namespace_key" where
  "namespace_key_of s = \<lparr>nk_tenant = sc_tenant s, nk_namespace = sc_namespace s\<rparr>"

definition require :: "'w storage \<Rightarrow> capability list \<Rightarrow> storage_error + unit" where
  "require S needs =
     (let offered = capabilities S
      in if list_all (\<lambda>need. need \<in> set offered) needs then Inr () else Inl Unsupported)"

definition registered :: "'w federated \<Rightarrow> backend_ref \<Rightarrow> storage_error + 'w storage" where
  "registered F b = ok_or (map_of (fed_backends F) b) NotFound"

definition fed_namespaces :: "'w federated \<Rightarrow> ('w, storage_error, namespace list) io" where
  "fed_namespaces F = cfg_namespaces (fed_config F)"

definition mounted :: "'w federated \<Rightarrow> scope \<Rightarrow> ('w, storage_error, 'w storage) io" where
  "mounted F s =
     bindE (cfg_namespace (fed_config F) (namespace_key_of s)) (\<lambda>found.
     bindE (liftE (ok_or found NotFound)) (\<lambda>n.
     liftE (registered F (effective_mount n))))"

definition resolve ::
  "'w federated \<Rightarrow> address \<Rightarrow> capability list \<Rightarrow> ('w, storage_error, 'w storage \<times> target) io" where
  "resolve F a needs =
     bindE (mounted F (ad_scope a)) (\<lambda>S.
     bindE (liftE (require S needs)) (\<lambda>_.
     bindE (if requires_binding S
            then bindE (cfg_binding (fed_config F) a) (\<lambda>l.
                 bindE (liftE (ok_or l NotFound)) (\<lambda>l. retE (Some l)))
            else retE None) (\<lambda>locator.
     retE (S, \<lparr>tg_address = a, tg_locator = locator\<rparr>))))"

definition holds_secrets :: "'w federated \<Rightarrow> namespace \<Rightarrow> ('w, storage_error, bool) io" where
  "holds_secrets F n =
     (case map_of (fed_backends F) (effective_mount n) of
        None \<Rightarrow> retE False
      | Some S \<Rightarrow>
          if CapList \<notin> set (capabilities S) then retE False
          else bindE (st_list S \<lparr>sc_tenant = nk_tenant (ns_key n), sc_namespace = nk_namespace (ns_key n),
                            sc_user = default_name\<rparr>) (\<lambda>rows. retE (rows \<noteq> [])))"

section \<open>Administration\<close>

definition add_namespace ::
  "'w federated \<Rightarrow> namespace_key \<Rightarrow> backend_ref option \<Rightarrow> ('w, storage_error, unit) io" where
  "add_namespace F k mount =
     bindE (cfg_namespace (fed_config F) k) (\<lambda>found.
     if found \<noteq> None then failE Conflict
     else let n = \<lparr>ns_key = k, ns_mount = mount\<rparr> in
       bindE (liftE (registered F (effective_mount n))) (\<lambda>_.
       cfg_insert_namespace (fed_config F) n))"

definition remove_namespace :: "'w federated \<Rightarrow> namespace_key \<Rightarrow> ('w, storage_error, unit) io" where
  "remove_namespace F k =
     (if is_default (nk_namespace k) then failE Conflict
      else
        bindE (cfg_namespace (fed_config F) k) (\<lambda>found.
        bindE (liftE (ok_or found NotFound)) (\<lambda>n.
        bindE (cfg_has_bindings (fed_config F) k) (\<lambda>b.
        bindE (if b then retE True else holds_secrets F n) (\<lambda>remain.
        if remain then failE Conflict else cfg_remove_namespace (fed_config F) k)))))"

definition set_mount ::
  "'w federated \<Rightarrow> namespace_key \<Rightarrow> backend_ref \<Rightarrow> ('w, storage_error, unit) io" where
  "set_mount F k mount =
     bindE (cfg_namespace (fed_config F) k) (\<lambda>found.
     bindE (liftE (ok_or found NotFound)) (\<lambda>n.
     bindE (liftE (registered F mount)) (\<lambda>_.
     bindE (holds_secrets F n) (\<lambda>held.
     if held then failE Conflict else cfg_set_mount (fed_config F) k mount))))"

definition bind_address ::
  "'w federated \<Rightarrow> address \<Rightarrow> locator \<Rightarrow> ('w, storage_error, unit) io" where
  "bind_address F a l =
     bindE (cfg_namespace (fed_config F) (namespace_key_of (ad_scope a))) (\<lambda>found.
     bindE (liftE (ok_or found NotFound)) (\<lambda>_.
     cfg_insert_binding (fed_config F) a l))"

definition unbind_address :: "'w federated \<Rightarrow> address \<Rightarrow> ('w, storage_error, unit) io" where
  "unbind_address F a = cfg_remove_binding (fed_config F) a"

section \<open>The storage port over the mounts\<close>

definition fed_read :: "'w federated \<Rightarrow> target \<Rightarrow> ('w, storage_error, revealed) io" where
  "fed_read F t = bindE (resolve F (tg_address t) [CapRead]) (\<lambda>(S, t). st_read S t)"

definition fed_write ::
  "'w federated \<Rightarrow> target \<Rightarrow> secret_value \<Rightarrow> ('w, storage_error, written) io" where
  "fed_write F t v = bindE (resolve F (tg_address t) [CapWrite]) (\<lambda>(S, t). st_write S t v)"

definition fed_delete :: "'w federated \<Rightarrow> target \<Rightarrow> ('w, storage_error, unit) io" where
  "fed_delete F t = bindE (resolve F (tg_address t) [CapDelete]) (\<lambda>(S, t). st_delete S t)"

definition fed_rename ::
  "'w federated \<Rightarrow> target \<Rightarrow> secret_name \<Rightarrow> ('w, storage_error, unit) io" where
  "fed_rename F t new_name =
     bindE (resolve F (tg_address t) [CapWrite, CapDelete]) (\<lambda>(S, t).
     let to = \<lparr>ad_scope = ad_scope (tg_address t), ad_name = new_name\<rparr> in
     bindE (cfg_binding (fed_config F) (tg_address t)) (\<lambda>here.
     bindE (if here \<noteq> None then retE True
            else bindE (cfg_binding (fed_config F) to) (\<lambda>there. retE (there \<noteq> None))) (\<lambda>bound.
     if bound then failE Conflict else st_rename S t new_name)))"

definition fed_list :: "'w federated \<Rightarrow> scope \<Rightarrow> ('w, storage_error, secret_metadata list) io" where
  "fed_list F s =
     bindE (mounted F s) (\<lambda>S.
     bindE (liftE (require S [CapList])) (\<lambda>_.
     bindE (st_list S s) (\<lambda>rows.
     retE (filter (\<lambda>row. ad_scope (sm_address row) = s) rows))))"

definition fed_storage :: "'w federated \<Rightarrow> 'w storage" where
  "fed_storage F =
     \<lparr>capabilities = all_capabilities, requires_binding = False, st_read = fed_read F,
      st_write = fed_write F, st_delete = fed_delete F, st_rename = fed_rename F,
      st_list = fed_list F\<rparr>"

section \<open>Resolution as a decision\<close>

text \<open>
  The four rules of the module's header, over the mounts and bindings the store shows and the
  registered backends: the backend and the target it is asked about, or the refusal.
\<close>

definition mount_outcome ::
  "(namespace_key \<Rightarrow> backend_ref option option) \<Rightarrow> (backend_ref \<Rightarrow> 'w storage option) \<Rightarrow> scope \<Rightarrow>
   storage_error + 'w storage" where
  "mount_outcome mnt back s =
     (case mnt (namespace_key_of s) of
        None \<Rightarrow> Inl NotFound
      | Some m \<Rightarrow>
          (case back (case m of None \<Rightarrow> default_mount | Some b \<Rightarrow> b) of
             None \<Rightarrow> Inl NotFound
           | Some S \<Rightarrow> Inr S))"

definition resolve_outcome ::
  "(namespace_key \<Rightarrow> backend_ref option option) \<Rightarrow> (address \<Rightarrow> locator option) \<Rightarrow>
   (backend_ref \<Rightarrow> 'w storage option) \<Rightarrow> address \<Rightarrow> capability list \<Rightarrow>
   storage_error + ('w storage \<times> target)" where
  "resolve_outcome mnt bnd back a needs =
     (case mount_outcome mnt back (ad_scope a) of
        Inl e \<Rightarrow> Inl e
      | Inr S \<Rightarrow>
          if \<not> set needs \<subseteq> set (capabilities S) then Inl Unsupported
          else if \<not> requires_binding S then Inr (S, unbound a)
          else (case bnd a of
                  None \<Rightarrow> Inl NotFound
                | Some l \<Rightarrow> Inr (S, \<lparr>tg_address = a, tg_locator = Some l\<rparr>)))"

lemma require_eq: "require S needs = (if set needs \<subseteq> set (capabilities S) then Inr () else Inl Unsupported)"
  by (auto simp: require_def list_all_iff)

lemma namespace_key_of_default [simp]: "namespace_key_of (\<lparr>sc_tenant = nk_tenant k, sc_namespace = nk_namespace k, sc_user = u\<rparr>) = k"
  by (simp add: namespace_key_of_def)

lemma in_namespace_iff: "in_namespace k a \<longleftrightarrow> namespace_key_of (ad_scope a) = k"
  by (cases k) (auto simp: in_namespace_def namespace_key_of_def)

section \<open>The code takes that decision, and calls no backend to take it\<close>

context config_contract
begin

lemma namespace_down: "inv w \<Longrightarrow> \<not> up w \<Longrightarrow> cfg_namespace C k w = (Inl Unavailable, w)"
  using down by (simp add: all_down_def answers_down_def refuses_down_def)

lemma mounted_eq:
  assumes "fed_config F = C" "inv w"
  shows "mounted F s w =
    (if up w then mount_outcome (mounts w) (map_of (fed_backends F)) s else Inl Unavailable, w)"
proof (cases "up w")
  case True
  with assms get_namespace show ?thesis
    by (auto simp: mounted_def mount_outcome_def registered_def effective_mount_def bindE_apply
        split: option.split)
qed (use assms namespace_down in \<open>simp add: mounted_def\<close>)

lemma resolve_eq:
  assumes "fed_config F = C" "inv w"
  shows "resolve F a needs w =
    (if up w then resolve_outcome (mounts w) (bound w) (map_of (fed_backends F)) a needs
     else Inl Unavailable, w)"
proof (cases "up w")
  case True
  with assms get_binding show ?thesis
    by (auto simp: resolve_def resolve_outcome_def require_eq mounted_eq bindE_apply unbound_def
        split: option.split sum.split)
qed (use assms in \<open>simp add: resolve_def mounted_eq\<close>)

lemma fed_read_eq:
  assumes "fed_config F = C" "inv w" "up w"
  shows "fed_read F t w =
    (case resolve_outcome (mounts w) (bound w) (map_of (fed_backends F)) (tg_address t) [CapRead] of
       Inl e \<Rightarrow> (Inl e, w) | Inr (S, t') \<Rightarrow> st_read S t' w)"
  using assms by (simp add: fed_read_def resolve_eq bindE_apply split: sum.split)

lemma fed_write_eq:
  assumes "fed_config F = C" "inv w" "up w"
  shows "fed_write F t v w =
    (case resolve_outcome (mounts w) (bound w) (map_of (fed_backends F)) (tg_address t) [CapWrite] of
       Inl e \<Rightarrow> (Inl e, w) | Inr (S, t') \<Rightarrow> st_write S t' v w)"
  using assms by (simp add: fed_write_def resolve_eq bindE_apply split: sum.split)

lemma fed_delete_eq:
  assumes "fed_config F = C" "inv w" "up w"
  shows "fed_delete F t w =
    (case resolve_outcome (mounts w) (bound w) (map_of (fed_backends F)) (tg_address t) [CapDelete] of
       Inl e \<Rightarrow> (Inl e, w) | Inr (S, t') \<Rightarrow> st_delete S t' w)"
  using assms by (simp add: fed_delete_def resolve_eq bindE_apply split: sum.split)

lemma resolve_outcome_target:
  "resolve_outcome m b back a needs = Inr (S, t) \<Longrightarrow> tg_address t = a"
  by (auto simp: resolve_outcome_def unbound_def split: sum.splits option.splits if_splits)

lemma fed_rename_eq:
  assumes "fed_config F = C" "inv w" "up w"
  shows "fed_rename F t n w =
    (case resolve_outcome (mounts w) (bound w) (map_of (fed_backends F)) (tg_address t)
            [CapWrite, CapDelete] of
       Inl e \<Rightarrow> (Inl e, w)
     | Inr (S, t') \<Rightarrow>
         if bound w (tg_address t) \<noteq> None \<or> bound w (renamed (tg_address t) n) \<noteq> None
         then (Inl Conflict, w) else st_rename S t' n w)"
proof (cases "resolve_outcome (mounts w) (bound w) (map_of (fed_backends F)) (tg_address t)
    [CapWrite, CapDelete]")
  case (Inr x)
  obtain S t' where x: "x = (S, t')" by (cases x)
  with Inr have "tg_address t' = tg_address t" by (simp add: resolve_outcome_target)
  with assms Inr x get_binding show ?thesis
    by (auto simp: fed_rename_def resolve_eq bindE_apply renamed_def)
qed (use assms in \<open>simp add: fed_rename_def resolve_eq bindE_apply\<close>)

lemma fed_list_eq:
  assumes "fed_config F = C" "inv w" "up w"
  shows "fed_list F s w =
    (case mount_outcome (mounts w) (map_of (fed_backends F)) s of
       Inl e \<Rightarrow> (Inl e, w)
     | Inr S \<Rightarrow>
         if CapList \<notin> set (capabilities S) then (Inl Unsupported, w)
         else apfst (map_sum id (filter (\<lambda>row. ad_scope (sm_address row) = s))) (st_list S s w))"
  using assms by (auto simp: fed_list_def mounted_eq require_eq bindE_apply
      split: sum.split prod.split)

lemmas fed_ops_eq = fed_read_eq fed_write_eq fed_delete_eq fed_rename_eq fed_list_eq

lemma fed_down:
  assumes "fed_config F = C" "inv w" "\<not> up w"
  shows "fed_read F t w = (Inl Unavailable, w)" "fed_write F t v w = (Inl Unavailable, w)"
    "fed_delete F t w = (Inl Unavailable, w)" "fed_rename F t n w = (Inl Unavailable, w)"
    "fed_list F s w = (Inl Unavailable, w)"
  using assms by (simp_all add: fed_read_def fed_write_def fed_delete_def fed_rename_def
      fed_list_def mounted_eq resolve_eq)

text \<open>Only the backend the scope's namespace is mounted on matters.\<close>

lemma mount_outcome_only:
  assumes "\<And>m. mnt (namespace_key_of s) = Some m \<Longrightarrow>
    back (case m of None \<Rightarrow> default_mount | Some b \<Rightarrow> b) = back' (case m of None \<Rightarrow> default_mount | Some b \<Rightarrow> b)"
  shows "mount_outcome mnt back s = mount_outcome mnt back' s"
  using assms by (auto simp: mount_outcome_def split: option.split)

lemma fed_only_mounted_backend:
  assumes F: "fed_config F = C" "fed_config F' = C" "inv w"
    and same: "\<And>m. mounts w (namespace_key_of (request_scope q)) = Some m \<Longrightarrow>
      map_of (fed_backends F) (case m of None \<Rightarrow> default_mount | Some b \<Rightarrow> b) =
      map_of (fed_backends F') (case m of None \<Rightarrow> default_mount | Some b \<Rightarrow> b)"
  shows "perform (fed_storage F) q w = perform (fed_storage F') q w"
proof -
  have m: "mount_outcome (mounts w) (map_of (fed_backends F)) (request_scope q) =
      mount_outcome (mounts w) (map_of (fed_backends F')) (request_scope q)"
    using same by (intro mount_outcome_only) auto
  show ?thesis
    using F m by (cases "up w"; cases q)
      (simp_all add: fed_storage_def fed_ops_eq fed_down resolve_outcome_def unbound_def)
qed

end

section \<open>The operations as steps\<close>

inductive fed_step :: "'w federated \<Rightarrow> 'w \<Rightarrow> 'w \<Rightarrow> bool" for F where
  step_namespaces: "fed_namespaces F w = (r, w') \<Longrightarrow> fed_step F w w'"
| step_add: "add_namespace F k m w = (r, w') \<Longrightarrow> fed_step F w w'"
| step_remove: "remove_namespace F k w = (r, w') \<Longrightarrow> fed_step F w w'"
| step_mount: "set_mount F k b w = (r, w') \<Longrightarrow> fed_step F w w'"
| step_bind: "bind_address F a l w = (r, w') \<Longrightarrow> fed_step F w w'"
| step_unbind: "unbind_address F a w = (r, w') \<Longrightarrow> fed_step F w w'"
| step_read: "fed_read F t w = (r, w') \<Longrightarrow> fed_step F w w'"
| step_write: "fed_write F t v w = (r, w') \<Longrightarrow> fed_step F w w'"
| step_delete: "fed_delete F t w = (r, w') \<Longrightarrow> fed_step F w w'"
| step_rename: "fed_rename F t n w = (r, w') \<Longrightarrow> fed_step F w w'"
| step_list: "fed_list F s w = (r, w') \<Longrightarrow> fed_step F w w'"

inductive fed_reach :: "'w federated \<Rightarrow> 'w \<Rightarrow> 'w \<Rightarrow> bool" for F w where
  reach_start: "fed_reach F w w"
| reach_step: "fed_reach F w w' \<Longrightarrow> fed_step F w' w'' \<Longrightarrow> fed_reach F w w''"

end
