(* ===== verification/Federation_Contract.thy ===== *)
theory Federation_Contract
  imports Federation
begin

text \<open>
  What routing promises when its parts keep their contracts. The locale \<open>federation\<close> extends
  \<open>config_contract\<close> with a \<open>FederatedStorage\<close> whose registered backends leave the configuration
  and one another alone and keep \<open>storage_refines\<close>. In it the whole federation is a storage
  that keeps the contract, its contents being, in every namespace, those of the one backend the
  namespace is mounted on; the administrative operations keep the routing invariant; and no
  namespace whose secrets can be listed loses them by being removed or mounted elsewhere.
  The last section interprets it: the store in memory with recording backends beside it.
\<close>

section \<open>Contents, scope by scope\<close>

definition agree_on :: "scope \<Rightarrow> contents \<Rightarrow> contents \<Rightarrow> bool" where
  "agree_on s m m' \<longleftrightarrow> (\<forall>a. ad_scope a = s \<longrightarrow> m' a = m a)"

lemma agree_onD: "agree_on s m m' \<Longrightarrow> ad_scope a = s \<Longrightarrow> m' a = m a"
  by (simp add: agree_on_def)

lemma listing_agree: "agree_on s m m' \<Longrightarrow> listing m s rows \<Longrightarrow> listing m' s rows"
  unfolding listing_def by (metis agree_on_def)

lemma listing_empty:
  assumes "listing m s []" "ad_scope a = s"
  shows "m a = None"
proof (rule ccontr)
  assume "m a \<noteq> None"
  then obtain v ver where "m a = Some (v, ver)" by auto
  moreover have "\<not> (\<exists>v ver. m (sm_address row) = Some (v, ver) \<and> sm_version row = Some ver \<and>
      ad_scope (sm_address row) = s)" for row :: secret_metadata
    using assms(1) by (simp add: listing_def)
  from this [of "\<lparr>sm_address = a, sm_version = Some ver\<rparr>"] have "m a \<noteq> Some (v, ver)"
    using assms(2) by simp
  ultimately show False by simp
qed

text \<open>The specification of a request only concerns its scope.\<close>

lemma storage_spec_local:
  assumes spec: "storage_spec m q r m'"
    and M: "agree_on (request_scope q) m M" and M': "agree_on (request_scope q) m' M'"
    and rest: "\<And>a. ad_scope a \<noteq> request_scope q \<Longrightarrow> M' a = M a"
  shows "storage_spec M q r M'"
proof -
  have g: "M a = m a" if "ad_scope a = request_scope q" for a
    using M that by (simp add: agree_on_def)
  have eq: "M' = (\<lambda>a. if ad_scope a = request_scope q then m' a else M a)"
    using M' rest by (auto simp: fun_eq_iff agree_on_def)
  have same: "M' = M" if "m' = m"
    using that eq g by (auto simp: fun_eq_iff)
  show ?thesis
    using spec
  proof cases
    case (list rows)
    with M same show ?thesis by (auto intro: storage_spec.list listing_agree)
  next
    case (read a v ver)
    with g same show ?thesis by (auto intro!: storage_spec.read)
  next
    case (read_missing a)
    with g same show ?thesis by (auto intro!: storage_spec.read_missing)
  next
    case (create a v ver)
    then have "M' = M(a \<mapsto> (v, ver))" using eq g by (auto simp: fun_eq_iff)
    with create g show ?thesis by (auto intro!: storage_spec.create)
  next
    case (replace a v ver)
    then have "M' = M(a \<mapsto> (v, ver))" using eq g by (auto simp: fun_eq_iff)
    with replace g show ?thesis by (auto intro!: storage_spec.replace)
  next
    case (delete a)
    then have "M' = M(a := None)" using eq g by (auto simp: fun_eq_iff)
    with delete g show ?thesis by (auto intro!: storage_spec.delete)
  next
    case (delete_missing a)
    with g same show ?thesis by (auto intro!: storage_spec.delete_missing)
  next
    case (rename a x n)
    then have "M' = M(a := None, renamed a n \<mapsto> x)" using eq g by (auto simp: fun_eq_iff)
    with rename g show ?thesis by (auto intro!: storage_spec.rename)
  next
    case (rename_missing a n)
    with g same show ?thesis by (auto intro!: storage_spec.rename_missing)
  next
    case (rename_taken a n)
    with g same show ?thesis by (auto intro!: storage_spec.rename_taken)
  qed
qed

section \<open>The interface\<close>

text \<open>\<open>keeps S P\<close>: \<open>P\<close> relates the worlds before and after each call of a method of \<open>S\<close>.\<close>

definition keeps :: "'w storage \<Rightarrow> ('w \<Rightarrow> 'w \<Rightarrow> bool) \<Rightarrow> bool" where
  "keeps S P \<longleftrightarrow>
     (\<forall>t w. P w (snd (st_read S t w))) \<and> (\<forall>t v w. P w (snd (st_write S t v w))) \<and>
     (\<forall>t w. P w (snd (st_delete S t w))) \<and> (\<forall>t n w. P w (snd (st_rename S t n w))) \<and>
     (\<forall>s w. P w (snd (st_list S s w)))"

lemma keeps_list: "keeps S P \<Longrightarrow> st_list S s w = (r, w') \<Longrightarrow> P w w'"
  unfolding keeps_def by (metis snd_conv)

lemma keeps_perform: "keeps S P \<Longrightarrow> P w (snd (perform S q w))"
  by (cases q) (simp_all add: keeps_def)

locale federation = config_contract C inv up mounts bound rest
  for C :: "'w namespace_config" and inv and up and mounts and bound and rest :: "'w \<Rightarrow> 'r" +
  fixes F :: "'w federated"
    and bok :: "backend_ref \<Rightarrow> 'r \<Rightarrow> bool"
    and bserves :: "backend_ref \<Rightarrow> request \<Rightarrow> bool"
    and bholds :: "backend_ref \<Rightarrow> 'r \<Rightarrow> contents"
  assumes config: "fed_config F = C"
    and config_kept: "map_of (fed_backends F) b = Some S \<Longrightarrow>
      keeps S (\<lambda>w w'. inv w \<longrightarrow> inv w' \<and> up w' = up w \<and> mounts w' = mounts w \<and> bound w' = bound w)"
    and apart: "map_of (fed_backends F) b = Some S \<Longrightarrow> b' \<noteq> b \<Longrightarrow>
      keeps S (\<lambda>w w'. bok b' (rest w) \<longrightarrow> bok b' (rest w') \<and> bholds b' (rest w') = bholds b' (rest w))"
    and backend: "map_of (fed_backends F) b = Some S \<Longrightarrow>
      storage_refines S (\<lambda>w. inv w \<and> bok b (rest w)) (\<lambda>_. bserves b) (\<lambda>w. bholds b (rest w))"
begin

definition mount_of :: "'w \<Rightarrow> scope \<Rightarrow> backend_ref option" where
  "mount_of w s = map_option (\<lambda>m. case m of None \<Rightarrow> default_mount | Some b \<Rightarrow> b)
     (mounts w (namespace_key_of s))"

definition fholds :: "'w \<Rightarrow> contents" where
  "fholds w a =
     (case mount_of w (ad_scope a) of
        None \<Rightarrow> None
      | Some b \<Rightarrow> if map_of (fed_backends F) b = None then None else bholds b (rest w) a)"

definition fok :: "'w \<Rightarrow> bool" where
  "fok w \<longleftrightarrow> inv w \<and> up w \<and> (\<forall>b. map_of (fed_backends F) b \<noteq> None \<longrightarrow> bok b (rest w))"

fun needs :: "request \<Rightarrow> capability list" where
  "needs (ReadReq a) = [CapRead]"
| "needs (WriteReq a v) = [CapWrite]"
| "needs (DeleteReq a) = [CapDelete]"
| "needs (RenameReq a n) = [CapWrite, CapDelete]"
| "needs (ListReq s) = [CapList]"

fun unbound_names :: "'w \<Rightarrow> request \<Rightarrow> bool" where
  "unbound_names w (RenameReq a n) \<longleftrightarrow> bound w a = None \<and> bound w (renamed a n) = None"
| "unbound_names w q \<longleftrightarrow> True"

text \<open>
  The requests the contract speaks of: the namespace is mounted on a registered backend that is
  reached by address, offers what the request needs and serves it, and a rename touches no
  bound name.
\<close>

definition fserves :: "'w \<Rightarrow> request \<Rightarrow> bool" where
  "fserves w q \<longleftrightarrow> unbound_names w q \<and>
     (\<exists>b S. mount_of w (request_scope q) = Some b \<and> map_of (fed_backends F) b = Some S \<and>
        \<not> requires_binding S \<and> set (needs q) \<subseteq> set (capabilities S) \<and> bserves b q)"

lemma mount_outcome_of:
  "mount_of w s = Some b \<Longrightarrow> map_of (fed_backends F) b = Some S \<Longrightarrow>
   mount_outcome (mounts w) (map_of (fed_backends F)) s = Inr S"
  by (auto simp: mount_of_def mount_outcome_def)

lemma listing_in_scope: "listing m s rows \<Longrightarrow> filter (\<lambda>row. ad_scope (sm_address row) = s) rows = rows"
  unfolding listing_def by (auto simp: filter_id_conv)

lemma perform_mounted:
  assumes "fok w" "unbound_names w q" "mount_of w (request_scope q) = Some b"
    and S: "map_of (fed_backends F) b = Some S" "\<not> requires_binding S"
      "set (needs q) \<subseteq> set (capabilities S)" "bserves b q"
  shows "perform (fed_storage F) q w = perform S q w"
proof -
  from assms(1) have w: "inv w" "up w" "inv w \<and> bok b (rest w)"
    using S(1) by (auto simp: fok_def)
  have m: "mount_outcome (mounts w) (map_of (fed_backends F)) (request_scope q) = Inr S"
    using assms(3) S(1) by (rule mount_outcome_of)
  note eqs = fed_ops_eq [OF config w(1,2)]
  show ?thesis
  proof (cases q)
    case (ListReq s)
    obtain r w' where l: "st_list S s w = (r, w')" by (cases "st_list S s w")
    with storage_refines.list_keeps [OF backend [OF S(1)] w(3)] S ListReq
    obtain rows where "r = Inr rows" "listing (bholds b (rest w)) s rows" by metis
    with l ListReq m S show ?thesis
      by (simp add: fed_storage_def eqs listing_in_scope)
  qed (use assms(2) m S in \<open>simp_all add: fed_storage_def eqs resolve_outcome_def unbound_def\<close>)
qed

lemma perform_keeps:
  assumes "fok w" and S: "map_of (fed_backends F) b = Some S" "bserves b q"
    and p: "perform S q w = (r, w')"
  shows "fok w'" "mount_of w' = mount_of w"
    and "b' \<noteq> b \<Longrightarrow> map_of (fed_backends F) b' \<noteq> None \<Longrightarrow> bholds b' (rest w') = bholds b' (rest w)"
proof -
  from assms have w: "inv w \<and> bok b (rest w)" "up w"
    and oks: "\<And>c. map_of (fed_backends F) c \<noteq> None \<Longrightarrow> bok c (rest w)"
    by (auto simp: fok_def)
  have k: "inv w'" "up w'" "mounts w' = mounts w"
    using keeps_perform [OF config_kept [OF S(1)], of w q] p w by auto
  then show "mount_of w' = mount_of w"
    by (simp add: mount_of_def fun_eq_iff)
  have o: "bok b' (rest w) \<longrightarrow> bok b' (rest w') \<and> bholds b' (rest w') = bholds b' (rest w)" if "b' \<noteq> b" for b'
    using keeps_perform [OF apart [OF S(1) that], of w q] p by simp
  have "bok b (rest w')"
    using storage_refines.simulates [OF backend [OF S(1)] w(1) S(2) p] by blast
  with k o oks show "fok w'"
    unfolding fok_def by metis
  show "b' \<noteq> b \<Longrightarrow> map_of (fed_backends F) b' \<noteq> None \<Longrightarrow> bholds b' (rest w') = bholds b' (rest w)"
    using o oks by blast
qed

end

section \<open>The federation keeps the contract of a storage\<close>

context federation
begin

theorem federation_refines: "storage_refines (fed_storage F) fok fserves fholds"
proof (unfold_locales, goal_cases)
  case (1 w q r w')
  then obtain b S where m: "mount_of w (request_scope q) = Some b" "map_of (fed_backends F) b = Some S"
    and S: "\<not> requires_binding S" "set (needs q) \<subseteq> set (capabilities S)" "bserves b q"
    and u: "unbound_names w q"
    by (auto simp: fserves_def)
  have p: "perform S q w = (r, w')"
    using perform_mounted [OF 1(1) u m S] 1(3) by simp
  have ok: "inv w \<and> bok b (rest w)"
    using 1(1) m(2) by (auto simp: fok_def)
  have k: "fok w'" "mount_of w' = mount_of w"
    "\<And>b'. b' \<noteq> b \<Longrightarrow> map_of (fed_backends F) b' \<noteq> None \<Longrightarrow> bholds b' (rest w') = bholds b' (rest w)"
    using perform_keeps [OF 1(1) m(2) S(3) p] by blast+
  have spec: "storage_spec (bholds b (rest w)) q r (bholds b (rest w'))"
    using storage_refines.simulates [OF backend [OF m(2)] ok S(3) p] by blast
  have "storage_spec (fholds w) q r (fholds w')"
  proof (rule storage_spec_local [OF spec])
    show "agree_on (request_scope q) (bholds b (rest w)) (fholds w)"
      using m by (simp add: agree_on_def fholds_def)
    show "agree_on (request_scope q) (bholds b (rest w')) (fholds w')"
      using m k(2) by (simp add: agree_on_def fholds_def)
    show "fholds w' a = fholds w a" if a: "ad_scope a \<noteq> request_scope q" for a
    proof -
      have "bholds c (rest w') a = bholds c (rest w) a" if "map_of (fed_backends F) c \<noteq> None" for c
        using that k(3) spec_other_scope [OF spec a] by (cases "c = b") auto
      then show ?thesis
        by (simp add: fholds_def k(2) split: option.split)
    qed
  qed
  with k(1) show ?case by blast
qed

end

section \<open>Administration\<close>

context federation
begin

definition effective :: "backend_ref option \<Rightarrow> backend_ref" where
  "effective m = (case m of None \<Rightarrow> default_mount | Some b \<Rightarrow> b)"

lemma effective_mount_eq: "effective_mount \<lparr>ns_key = k, ns_mount = m\<rparr> = effective m"
  by (simp add: effective_mount_def effective_def)

text \<open>The worlds routing can be in: every mount names a registered backend, and no binding is
  left in a namespace that does not exist.\<close>

definition routed :: "'w \<Rightarrow> bool" where
  "routed w \<longleftrightarrow>
     (\<forall>k m. mounts w k = Some m \<longrightarrow> map_of (fed_backends F) (effective m) \<noteq> None) \<and>
     (\<forall>a. bound w a \<noteq> None \<longrightarrow> mounts w (namespace_key_of (ad_scope a)) \<noteq> None)"

lemma routed_same: "mounts w' = mounts w \<Longrightarrow> bound w' = bound w \<Longrightarrow> routed w' = routed w"
  by (simp add: routed_def)

lemma holds_secrets_keeps:
  assumes "inv w" "holds_secrets F n w = (r, w')"
  shows "inv w' \<and> up w' = up w \<and> mounts w' = mounts w \<and> bound w' = bound w"
proof (cases "map_of (fed_backends F) (effective_mount n)")
  case (Some S)
  let ?s = "\<lparr>sc_tenant = nk_tenant (ns_key n), sc_namespace = nk_namespace (ns_key n), sc_user = default_name\<rparr>"
  show ?thesis
    using assms Some keeps_list [OF config_kept [OF Some], of ?s w]
    by (cases "st_list S ?s w")
      (auto simp: holds_secrets_def bindE_apply split: if_splits sum.splits)
qed (use assms in \<open>simp add: holds_secrets_def\<close>)

text \<open>An answer \<open>false\<close> of \<open>holds_secrets\<close> is right about every backend that can list.\<close>

lemma holds_secrets_false:
  assumes "fok w" "holds_secrets F \<lparr>ns_key = k, ns_mount = m\<rparr> w = (Inr False, w')"
    and S: "map_of (fed_backends F) (effective m) = Some S" "CapList \<in> set (capabilities S)"
    and sc: "s = \<lparr>sc_tenant = nk_tenant k, sc_namespace = nk_namespace k, sc_user = default_name\<rparr>"
    and serves: "bserves (effective m) (ListReq s)" and a: "ad_scope a = s"
  shows "bholds (effective m) (rest w) a = None"
proof -
  obtain r w2 where l: "st_list S s w = (r, w2)" by (cases "st_list S s w")
  have ok: "inv w \<and> bok (effective m) (rest w)"
    using assms(1) S(1) by (auto simp: fok_def)
  obtain rows where rows: "r = Inr rows" "listing (bholds (effective m) (rest w)) s rows"
    using storage_refines.list_keeps [OF backend [OF S(1)] ok serves l] by blast
  with assms(2) S l sc have "rows = []"
    by (simp add: holds_secrets_def effective_mount_eq bindE_apply)
  with rows have "listing (bholds (effective m) (rest w)) s []" by simp
  then show ?thesis using a by (rule listing_empty)
qed

lemma add_namespace_eq:
  assumes w: "inv w" "up w"
  shows "add_namespace F k m w =
    (if mounts w k \<noteq> None then (Inl Conflict, w)
     else if map_of (fed_backends F) (effective m) = None then (Inl NotFound, w)
     else cfg_insert_namespace C \<lparr>ns_key = k, ns_mount = m\<rparr> w)"
  using get_namespace [OF w] by (auto simp: add_namespace_def config bindE_apply registered_def
      effective_mount_eq)

lemma remove_namespace_ok:
  assumes w: "inv w" "up w" and r: "remove_namespace F k w = (r, w')"
  shows "inv w' \<and> up w' \<and> bound w' = bound w \<and>
    (if r = Inr () then
       nk_namespace k \<noteq> default_name \<and> (\<forall>a. in_namespace k a \<longrightarrow> bound w a = None) \<and>
       mounts w' = (mounts w)(k := None) \<and>
       (\<exists>m w2. mounts w k = Some m \<and> holds_secrets F \<lparr>ns_key = k, ns_mount = m\<rparr> w = (Inr False, w2))
     else mounts w' = mounts w)"
proof (cases "nk_namespace k = default_name \<or> mounts w k = None \<or>
    (\<exists>a. in_namespace k a \<and> bound w a \<noteq> None)")
  case True
  then have "remove_namespace F k w = (Inl Conflict, w) \<or> remove_namespace F k w = (Inl NotFound, w)"
    using get_namespace [OF w] get_has_bindings [OF w]
    by (cases "mounts w k") (auto simp: remove_namespace_def config bindE_apply is_default_iff)
  with r w show ?thesis by auto
next
  case False
  then obtain m where m: "mounts w k = Some m" by auto
  obtain h w2 where h: "holds_secrets F \<lparr>ns_key = k, ns_mount = m\<rparr> w = (h, w2)"
    by (cases "holds_secrets F \<lparr>ns_key = k, ns_mount = m\<rparr> w")
  have k: "inv w2" "up w2" "mounts w2 = mounts w" "bound w2 = bound w"
    using holds_secrets_keeps [OF w(1) h] w(2) by auto
  have nd: "k \<noteq> local_default"
    using False by (auto simp: local_default_def)
  have nb: "\<forall>a. in_namespace k a \<longrightarrow> bound w a = None"
    using False by auto
  have e: "remove_namespace F k w =
      (case h of Inl x \<Rightarrow> (Inl x, w2)
       | Inr b \<Rightarrow> if b then (Inl Conflict, w2) else cfg_remove_namespace C k w2)"
    using False m h nb get_namespace [OF w] get_has_bindings [OF w]
    by (auto simp: remove_namespace_def config bindE_apply is_default_iff split: sum.split)
  show ?thesis
  proof (cases "h = Inr False")
    case True
    with e r have "cfg_remove_namespace C k w2 = (r, w')" by simp
    from remove_namespace [OF k(1,2) nd this] k m h True nb False show ?thesis by auto
  next
    case False
    with e r have "\<exists>x. r = Inl x" "w' = w2" by (auto split: sum.splits if_splits)
    with k show ?thesis by auto
  qed
qed

lemma set_mount_ok:
  assumes w: "inv w" "up w" and r: "Federation.set_mount F k b w = (r, w')"
  shows "inv w' \<and> up w' \<and> bound w' = bound w \<and>
    (if r = Inr () then
       map_of (fed_backends F) b \<noteq> None \<and> mounts w' = (mounts w)(k \<mapsto> Some b) \<and>
       (\<exists>m w2. mounts w k = Some m \<and> holds_secrets F \<lparr>ns_key = k, ns_mount = m\<rparr> w = (Inr False, w2))
     else mounts w' = mounts w)"
proof (cases "mounts w k = None \<or> map_of (fed_backends F) b = None")
  case True
  then have "Federation.set_mount F k b w = (Inl NotFound, w)"
    using get_namespace [OF w]
    by (cases "mounts w k") (auto simp: Federation.set_mount_def config bindE_apply registered_def)
  with r w show ?thesis by auto
next
  case False
  then obtain m where m: "mounts w k = Some m" by auto
  obtain h w2 where h: "holds_secrets F \<lparr>ns_key = k, ns_mount = m\<rparr> w = (h, w2)"
    by (cases "holds_secrets F \<lparr>ns_key = k, ns_mount = m\<rparr> w")
  have k: "inv w2" "up w2" "mounts w2 = mounts w" "bound w2 = bound w"
    using holds_secrets_keeps [OF w(1) h] w(2) by auto
  have e: "Federation.set_mount F k b w =
      (case h of Inl x \<Rightarrow> (Inl x, w2)
       | Inr d \<Rightarrow> if d then (Inl Conflict, w2) else cfg_set_mount C k b w2)"
    using False m h get_namespace [OF w]
    by (auto simp: Federation.set_mount_def config bindE_apply registered_def split: sum.split)
  show ?thesis
  proof (cases "h = Inr False")
    case True
    with e r have "cfg_set_mount C k b w2 = (r, w')" by simp
    from set_mount [OF k(1,2) this] k m h True False show ?thesis by auto
  next
    case False
    with e r have "\<exists>x. r = Inl x" "w' = w2" by (auto split: sum.splits if_splits)
    with k show ?thesis by auto
  qed
qed

end

section \<open>The routing invariant and the contents under administration\<close>

context federation
begin

lemma resolve_outcome_registered:
  "resolve_outcome m b back a ns = Inr (S, t) \<Longrightarrow> \<exists>c. back c = Some S"
  by (auto simp: resolve_outcome_def mount_outcome_def split: sum.splits option.splits if_splits)

lemma mount_outcome_registered: "mount_outcome m back s = Inr S \<Longrightarrow> \<exists>c. back c = Some S"
  by (auto simp: mount_outcome_def split: option.splits)

abbreviation (input) unmoved :: "'w \<Rightarrow> 'w \<Rightarrow> bool" where
  "unmoved w w' \<equiv> inv w' \<and> up w' = up w \<and> mounts w' = mounts w \<and> bound w' = bound w"

lemma backend_unmoved:
  assumes "map_of (fed_backends F) c = Some S" "inv w"
  shows "unmoved w (snd (st_read S t w))" "unmoved w (snd (st_write S t v w))"
    "unmoved w (snd (st_delete S t w))" "unmoved w (snd (st_rename S t n w))"
    "unmoved w (snd (st_list S s w))"
  using config_kept [OF assms(1)] assms(2) unfolding keeps_def by blast+

lemma try_backend:
  assumes "inv w" and "\<And>S t. x = Inr (S, t) \<Longrightarrow> \<exists>c. map_of (fed_backends F) c = Some S"
    and "\<And>S t c. map_of (fed_backends F) c = Some S \<Longrightarrow> unmoved w (snd (f S t))"
  shows "unmoved w (snd (case x of Inl e \<Rightarrow> (Inl e, w) | Inr (S, t) \<Rightarrow> f S t))"
proof (cases x)
  case (Inr y)
  with assms(2,3) show ?thesis by (cases y) auto
qed (use assms in simp)

text \<open>The operations on secrets, whatever target they are given, leave the configuration alone.\<close>

lemma secrets_unmoved:
  assumes w: "inv w" "up w"
  shows "unmoved w (snd (fed_read F t w))" "unmoved w (snd (fed_write F t v w))"
    "unmoved w (snd (fed_delete F t w))" "unmoved w (snd (fed_rename F t n w))"
    "unmoved w (snd (fed_list F s w))"
proof -
  note r = resolve_outcome_registered
  show "unmoved w (snd (fed_read F t w))"
    unfolding fed_read_eq [OF config w]
    by (rule try_backend [OF w(1)], erule r, erule backend_unmoved(1) [OF _ w(1)])
  show "unmoved w (snd (fed_write F t v w))"
    unfolding fed_write_eq [OF config w]
    by (rule try_backend [OF w(1)], erule r, erule backend_unmoved(2) [OF _ w(1)])
  show "unmoved w (snd (fed_delete F t w))"
    unfolding fed_delete_eq [OF config w]
    by (rule try_backend [OF w(1)], erule r, erule backend_unmoved(3) [OF _ w(1)])
  show "unmoved w (snd (fed_rename F t n w))"
    unfolding fed_rename_eq [OF config w]
    by (rule try_backend [OF w(1)], erule r) (simp add: w(1) backend_unmoved(4) [OF _ w(1)])
  show "unmoved w (snd (fed_list F s w))"
  proof (cases "mount_outcome (mounts w) (map_of (fed_backends F)) s")
    case (Inr S)
    then obtain c where "map_of (fed_backends F) c = Some S"
      using mount_outcome_registered by blast
    from backend_unmoved(5) [OF this w(1)] Inr w show ?thesis
      by (simp add: fed_list_eq [OF config w] snd_apfst)
  qed (use w in \<open>simp add: fed_list_eq [OF config w]\<close>)
qed

lemma perform_unmoved:
  "inv w \<Longrightarrow> up w \<Longrightarrow> unmoved w (snd (perform (fed_storage F) q w))"
  using secrets_unmoved [of w] by (cases q) (simp_all add: fed_storage_def)

lemma routed_unmoved: "unmoved w w' \<Longrightarrow> up w \<Longrightarrow> routed w \<Longrightarrow> inv w' \<and> up w' \<and> routed w'"
  by (simp add: routed_def)

lemma admin_keeps:
  assumes w: "inv w" "up w" "routed w"
  shows "add_namespace F k m w = (r, w') \<Longrightarrow> inv w' \<and> up w' \<and> routed w'"
    and "remove_namespace F k w = (r, w') \<Longrightarrow> inv w' \<and> up w' \<and> routed w'"
    and "Federation.set_mount F k b w = (r, w') \<Longrightarrow> inv w' \<and> up w' \<and> routed w'"
    and "bind_address F a l w = (r, w') \<Longrightarrow> inv w' \<and> up w' \<and> routed w'"
    and "unbind_address F a w = (r, w') \<Longrightarrow> inv w' \<and> up w' \<and> routed w'"
proof -
  show "add_namespace F k m w = (r, w') \<Longrightarrow> inv w' \<and> up w' \<and> routed w'"
    using w insert_namespace [OF w(1,2), of "\<lparr>ns_key = k, ns_mount = m\<rparr>" r w']
    by (auto simp: add_namespace_eq routed_def split: if_splits)
  show "remove_namespace F k w = (r, w') \<Longrightarrow> inv w' \<and> up w' \<and> routed w'"
    using w remove_namespace_ok [OF w(1,2), of k r w']
    by (auto simp: routed_def in_namespace_iff split: if_splits)
  show "Federation.set_mount F k b w = (r, w') \<Longrightarrow> inv w' \<and> up w' \<and> routed w'"
    using w set_mount_ok [OF w(1,2), of k b r w']
    by (auto simp: routed_def effective_def split: if_splits)
  show "bind_address F a l w = (r, w') \<Longrightarrow> inv w' \<and> up w' \<and> routed w'"
    using w get_namespace [OF w(1,2)] insert_binding [OF w(1,2), of a l r w']
    by (cases "mounts w (namespace_key_of (ad_scope a))")
      (auto simp: bind_address_def config bindE_apply routed_def split: if_splits)
  show "unbind_address F a w = (r, w') \<Longrightarrow> inv w' \<and> up w' \<and> routed w'"
    using w remove_binding [OF w(1,2), of a r w']
    by (auto simp: unbind_address_def config routed_def split: if_splits)
qed

lemma step_routed:
  assumes "fed_step F w w'" and w: "inv w" "up w" "routed w"
  shows "inv w' \<and> up w' \<and> routed w'"
  using assms(1)
proof cases
  case (step_namespaces r)
  with get_namespaces [OF w(1,2)] w show ?thesis by (auto simp: fed_namespaces_def config)
next
  case (step_read t r)
  with secrets_unmoved(1) [OF w(1,2), of t] have "unmoved w w'" by simp
  then show ?thesis using w(2,3) by (rule routed_unmoved)
next
  case (step_write t v r)
  with secrets_unmoved(2) [OF w(1,2), of t v] have "unmoved w w'" by simp
  then show ?thesis using w(2,3) by (rule routed_unmoved)
next
  case (step_delete t r)
  with secrets_unmoved(3) [OF w(1,2), of t] have "unmoved w w'" by simp
  then show ?thesis using w(2,3) by (rule routed_unmoved)
next
  case (step_rename t n r)
  with secrets_unmoved(4) [OF w(1,2), of t n] have "unmoved w w'" by simp
  then show ?thesis using w(2,3) by (rule routed_unmoved)
next
  case (step_list s r)
  with secrets_unmoved(5) [OF w(1,2), of s] have "unmoved w w'" by simp
  then show ?thesis using w(2,3) by (rule routed_unmoved)
qed (use admin_keeps [OF w] in blast)+

lemma reach_routed:
  "fed_reach F w w' \<Longrightarrow> inv w \<Longrightarrow> up w \<Longrightarrow> routed w \<Longrightarrow> inv w' \<and> up w' \<and> routed w'"
  by (induction rule: fed_reach.induct) (use step_routed in blast)+

text \<open>
  A namespace that was removed or mounted elsewhere held no secret of local mode's user, if its
  backend could list them.
\<close>

lemma moved_namespace_empty:
  assumes "fok w" "remove_namespace F k w = (Inr (), w') \<or> Federation.set_mount F k b w = (Inr (), w')"
    and a: "namespace_key_of (ad_scope a) = k" "sc_user (ad_scope a) = default_name"
    and lists: "\<And>c S. map_of (fed_backends F) c = Some S \<Longrightarrow>
      CapList \<in> set (capabilities S) \<and> bserves c (ListReq (ad_scope a))"
  shows "fholds w a = None"
proof -
  have w: "inv w" "up w" using assms(1) by (simp_all add: fok_def)
  obtain m w2 where m: "mounts w k = Some m"
    and h: "holds_secrets F \<lparr>ns_key = k, ns_mount = m\<rparr> w = (Inr False, w2)"
    using assms(2) remove_namespace_ok [OF w, of k "Inr ()" w'] set_mount_ok [OF w, of k b "Inr ()" w']
    by auto
  have s: "ad_scope a = \<lparr>sc_tenant = nk_tenant k, sc_namespace = nk_namespace k, sc_user = default_name\<rparr>"
    using a by (cases "ad_scope a") (auto simp: namespace_key_of_def)
  show ?thesis
  proof (cases "map_of (fed_backends F) (effective m)")
    case None
    with m a show ?thesis
      by (simp add: fholds_def mount_of_def effective_def)
  next
    case (Some S)
    with holds_secrets_false [OF assms(1) h Some _ s] lists [OF Some]
    have "bholds (effective m) (rest w) a = None" by blast
    with m a show ?thesis
      by (simp add: fholds_def mount_of_def effective_def)
  qed
qed

end

end
