(* ===== verification/Federation_Stack.thy ===== *)
theory Federation_Stack
  imports Federation_Contract
begin

text \<open>
  Routing over the store in memory and recording backends, each a component of one world, as the
  crate's tests build it (\<open>crates/secrets-federation/src/tests.rs\<close>). \<open>federation\<close> is interpreted
  on it for any backends in either mode, and the properties of routing are stated over it and
  over any federation on that store.
\<close>

section \<open>A storage as a part of a larger world\<close>

definition zoom_storage :: "('w \<Rightarrow> 's) \<Rightarrow> ('s \<Rightarrow> 'w \<Rightarrow> 'w) \<Rightarrow> 's storage \<Rightarrow> 'w storage" where
  "zoom_storage g p S =
     \<lparr>capabilities = capabilities S, requires_binding = requires_binding S,
      st_read = (\<lambda>t. zoomE g p (st_read S t)), st_write = (\<lambda>t v. zoomE g p (st_write S t v)),
      st_delete = (\<lambda>t. zoomE g p (st_delete S t)), st_rename = (\<lambda>t n. zoomE g p (st_rename S t n)),
      st_list = (\<lambda>s. zoomE g p (st_list S s))\<rparr>"

lemma zoom_storage_simps [simp]:
  "capabilities (zoom_storage g p S) = capabilities S"
  "requires_binding (zoom_storage g p S) = requires_binding S"
  by (simp_all add: zoom_storage_def)

lemma perform_zoom: "perform (zoom_storage g p S) q w = apsnd (\<lambda>s. p s w) (perform S q (g w))"
  by (cases q) (simp_all add: zoom_storage_def zoomE_def split: prod.split)

lemma keeps_zoom: "(\<And>w s. P w (p s w)) \<Longrightarrow> keeps (zoom_storage g p S) P"
  by (simp add: keeps_def zoom_storage_def zoomE_apply)

lemma zoom_refines:
  assumes S: "storage_refines S ok (\<lambda>_. serves) holds" and gp: "\<And>s w. g (p s w) = s"
    and valid: "\<And>s w. valid w \<Longrightarrow> valid (p s w)"
  shows "storage_refines (zoom_storage g p S) (\<lambda>w. valid w \<and> ok (g w)) (\<lambda>_. serves) (\<lambda>w. holds (g w))"
proof (unfold_locales, goal_cases)
  case (1 w q r w')
  then obtain s where s: "perform S q (g w) = (r, s)" "w' = p s w"
    by (cases "perform S q (g w)") (auto simp: perform_zoom)
  with storage_refines.simulates [OF S _ _ s(1)] 1 show ?case by (simp add: gp valid)
qed

section \<open>The federation of the tests\<close>

type_synonym stack = "mem_config \<times> (backend_ref \<Rightarrow> recording)"

definition stack_backend :: "(backend_ref \<Rightarrow> mode) \<Rightarrow> backend_ref \<Rightarrow> stack storage" where
  "stack_backend modes b =
     zoom_storage (\<lambda>w. snd w b) (\<lambda>s w. (fst w, (snd w)(b := s))) (recording_storage (modes b))"

definition stack_federation :: "(backend_ref \<Rightarrow> mode) \<Rightarrow> backend_ref list \<Rightarrow> stack federated" where
  "stack_federation modes bs =
     foldl (\<lambda>F b. case with_backend F b (stack_backend modes b) of Inl _ \<Rightarrow> F | Inr F' \<Rightarrow> F')
       (fed_new stack_config) bs"

lemma stack_federation_view:
  "fed_config (stack_federation modes bs) = stack_config \<and>
   bt_wf (fed_backends (stack_federation modes bs)) \<and>
   map_of (fed_backends (stack_federation modes bs)) =
     (\<lambda>b. if b \<in> set bs then Some (stack_backend modes b) else None)"
proof (induction bs rule: rev_induct)
  case Nil
  then show ?case by (simp add: stack_federation_def fed_new_def bt_wf_def fun_eq_iff)
next
  case (snoc b bs)
  let ?F = "stack_federation modes bs"
  have e: "stack_federation modes (bs @ [b]) =
      (case with_backend ?F b (stack_backend modes b) of Inl _ \<Rightarrow> ?F | Inr F' \<Rightarrow> F')"
    unfolding stack_federation_def by (simp only: foldl_append foldl.simps)
  show ?case
    using snoc unfolding e by (auto simp: with_backend_def bt_contains_def fun_eq_iff)
qed

interpretation fd: federation stack_config "\<lambda>w. mc_inv (fst w)" "\<lambda>w. mc_up (fst w)"
  "\<lambda>w. mc_mounts (fst w)" "\<lambda>w. mc_bound (fst w)" "\<lambda>w. ((), snd w)"
  "stack_federation modes bs"
  "\<lambda>b x. rb_ok (snd x b)" "\<lambda>b q. modes b = ReadWrite \<and> wf_request q" "\<lambda>b x. rb_holds (snd x b)"
proof (unfold_locales, goal_cases)
  case 1
  then show ?case by (simp add: stack_federation_view)
next
  case (2 b S)
  then show ?case
    by (auto simp: stack_federation_view stack_backend_def intro!: keeps_zoom split: if_splits)
next
  case (3 b S b')
  then show ?case
    by (auto simp: stack_federation_view stack_backend_def intro!: keeps_zoom split: if_splits)
next
  case (4 b S w q r w')
  then have m: "modes b = ReadWrite" "wf_request q" "S = stack_backend modes b"
    by (simp_all add: stack_federation_view split: if_splits)
  have z: "storage_refines (zoom_storage (\<lambda>w. snd w b) (\<lambda>s w. (fst w, (snd w)(b := s)))
      (recording_storage ReadWrite)) (\<lambda>w. mc_inv (fst w) \<and> rb_ok (snd w b)) (\<lambda>_. wf_request)
      (\<lambda>w. rb_holds (snd w b))"
    by (rule zoom_refines [OF rb.storage_refines_axioms]) simp_all
  have p: "perform (zoom_storage (\<lambda>w. snd w b) (\<lambda>s w. (fst w, (snd w)(b := s)))
      (recording_storage ReadWrite)) q w = (r, w')"
    using 4(4) m(1,3) by (simp only: stack_backend_def)
  have "mc_inv (fst w) \<and> rb_ok (snd w b)"
    using 4(2) by (simp only: snd_conv)
  from storage_refines.simulates [OF z this m(2) p] show ?case
    by (simp only: snd_conv)
qed

section \<open>The contract of the stack, written out\<close>

definition stack_mount :: "stack \<Rightarrow> scope \<Rightarrow> backend_ref option" where
  "stack_mount w s = map_option (\<lambda>m. case m of None \<Rightarrow> default_mount | Some b \<Rightarrow> b)
     (mc_mounts (fst w) (namespace_key_of s))"

definition stack_holds :: "backend_ref list \<Rightarrow> stack \<Rightarrow> contents" where
  "stack_holds bs w a =
     (case stack_mount w (ad_scope a) of
        None \<Rightarrow> None
      | Some b \<Rightarrow> if b \<in> set bs then rb_holds (snd w b) a else None)"

definition stack_ok :: "backend_ref list \<Rightarrow> stack \<Rightarrow> bool" where
  "stack_ok bs w \<longleftrightarrow> mc_inv (fst w) \<and> mc_up (fst w) \<and> list_all (\<lambda>b. rb_ok (snd w b)) bs"

definition stack_serves :: "(backend_ref \<Rightarrow> mode) \<Rightarrow> backend_ref list \<Rightarrow> stack \<Rightarrow> request \<Rightarrow> bool" where
  "stack_serves modes bs w q \<longleftrightarrow> local_request q \<and> wf_request q \<and>
     (case stack_mount w (request_scope q) of
        None \<Rightarrow> False
      | Some b \<Rightarrow> b \<in> set bs \<and> modes b = ReadWrite) \<and>
     (case q of
        RenameReq a n \<Rightarrow> mc_bound (fst w) a = None \<and> mc_bound (fst w) (renamed a n) = None
      | _ \<Rightarrow> True)"

lemma stack_backend_simps [simp]:
  "modes b = ReadWrite \<Longrightarrow> capabilities (stack_backend modes b) = all_capabilities"
  "modes b = ReadWrite \<Longrightarrow> \<not> requires_binding (stack_backend modes b)"
  by (simp_all add: stack_backend_def recording_storage_def)

lemma all_capabilities_set: "c \<in> set all_capabilities"
  by (cases c) (simp_all add: all_capabilities_def)

lemma stack_ok_iff: "stack_ok bs w \<longleftrightarrow> fd.fok modes bs w"
  by (auto simp: stack_ok_def fd.fok_def stack_federation_view list_all_iff)

lemma stack_mount_eq: "fd.mount_of w s = stack_mount w s"
  by (simp add: fd.mount_of_def stack_mount_def)

lemma stack_holds_eq: "stack_holds bs w = fd.fholds modes bs w"
  by (rule ext) (auto simp: stack_holds_def fd.fholds_def stack_mount_eq stack_federation_view
      split: option.split)

lemma stack_serves_fd: "stack_serves modes bs w q \<Longrightarrow> fd.fserves modes bs w q \<and> local_request q"
  by (cases q)
    (auto simp: stack_serves_def fd.fserves_def stack_mount_eq stack_federation_view
      all_capabilities_set split: option.splits)

lemma stack_refines:
  assumes "stack_ok bs w" "stack_serves modes bs w q"
    and "perform (authorized_local (fed_storage (stack_federation modes bs))) q w = (r, w')"
  shows "storage_spec (stack_holds bs w) q r (stack_holds bs w') \<and> stack_ok bs w'"
proof -
  note ref = authorized_local_refines [OF fd.federation_refines, of modes bs]
  show ?thesis
    unfolding stack_holds_eq [where modes = modes] stack_ok_iff [where modes = modes]
    by (rule storage_refines.simulates [OF ref _ _ assms(3)])
      (use assms stack_ok_iff stack_serves_fd in blast)+
qed

lemma stack_routed:
  assumes "default_mount \<in> set bs" "fed_reach (stack_federation modes bs) (mem_local, bk) w"
  shows "mc_inv (fst w) \<and> mc_up (fst w) \<and> fd.routed modes bs w"
proof (rule fd.reach_routed [OF assms(2)])
  show "fd.routed modes bs (mem_local, bk)"
    using assms(1)
    by (auto simp: fd.routed_def fd.effective_def stack_federation_view split: if_splits)
qed simp_all

section \<open>Properties\<close>

text \<open>
  C7: resolution is the decision the module's header states, over what the configuration shows
  and the registered backends, and is taken before any backend is called: it changes nothing. A
  store that is down makes it \<open>Unavailable\<close>.
\<close>

theorem resolve_decides:
  assumes "mc_inv (fst w)"
  shows "resolve \<lparr>fed_config = stack_config, fed_backends = B\<rparr> a needs w =
    (if mc_up (fst w) then resolve_outcome (mc_mounts (fst w)) (mc_bound (fst w)) (map_of B) a needs
     else Inl Unavailable, w)"
  using sc.resolve_eq [of "\<lparr>fed_config = stack_config, fed_backends = B\<rparr>" w] assms by simp

theorem resolve_decides_witness:
  "resolve \<lparr>fed_config = stack_config, fed_backends = []\<rparr> example_address [CapRead] (mem_local, ()) =
     (Inl NotFound, (mem_local, ()))"
proof -
  have "mc_inv (fst (mem_local, ()))" by simp
  from resolve_decides [OF this, of "[]" example_address "[CapRead]"] show ?thesis
    by (auto simp: resolve_outcome_def mount_outcome_def split: option.split)
qed

text \<open>
  C11: no fallback: the answer to a request and the world it leaves depend on no backend but the
  one the scope's namespace is mounted on. Two federations that agree on it are
  indistinguishable.
\<close>

theorem routing_no_fallback:
  assumes "mc_inv (fst w)"
    and "\<And>m. mc_mounts (fst w) (namespace_key_of (request_scope q)) = Some m \<Longrightarrow>
      map_of B (case m of None \<Rightarrow> default_mount | Some b \<Rightarrow> b) =
      map_of B' (case m of None \<Rightarrow> default_mount | Some b \<Rightarrow> b)"
  shows "perform (fed_storage \<lparr>fed_config = stack_config, fed_backends = B\<rparr>) q w =
    perform (fed_storage \<lparr>fed_config = stack_config, fed_backends = B'\<rparr>) q w"
  by (rule sc.fed_only_mounted_backend) (use assms in simp_all)

theorem routing_no_fallback_witness:
  "perform (fed_storage \<lparr>fed_config = stack_config, fed_backends =
       [(default_mount, provided_storage [CapRead] (\<lambda>_. failE Unavailable)),
        (\<lparr>br_kind = Remote, br_label = default_name\<rparr>, provided_storage [CapRead] (\<lambda>_. failE NotFound))]\<rparr>)
     (ReadReq example_address) (mem_local, ()) =
   perform (fed_storage \<lparr>fed_config = stack_config, fed_backends =
       [(default_mount, provided_storage [CapRead] (\<lambda>_. failE Unavailable))]\<rparr>)
     (ReadReq example_address) (mem_local, ())"
  by (rule routing_no_fallback)
    (simp_all add: example_address_def local_scope_def namespace_key_of_def local_default_def
      split: if_splits)

text \<open>
  C20: bindings never move. While the configuration can be read, no operation on a secret changes a mount
  or a binding; and a rename of a bound name, or onto one, changes nothing at all: it answers the error of
  resolving the address where that fails (no mount, or a backend that cannot write and delete), and
  \<open>Conflict\<close> where it succeeds.
\<close>

theorem bindings_never_move:
  assumes "mc_inv (fst w)" "mc_up (fst w)"
    and "perform (fed_storage (stack_federation modes bs)) q w = (r, w')"
  shows "mc_mounts (fst w') = mc_mounts (fst w) \<and> mc_bound (fst w') = mc_bound (fst w) \<and>
    (\<forall>a n. q = RenameReq a n \<longrightarrow> (mc_bound (fst w) a \<noteq> None \<or> mc_bound (fst w) (renamed a n) \<noteq> None) \<longrightarrow>
       w' = w \<and>
       r = RenameAns (Inl (case resolve_outcome (mc_mounts (fst w)) (mc_bound (fst w))
           (map_of (fed_backends (stack_federation modes bs))) a [CapWrite, CapDelete] of
             Inl e \<Rightarrow> e | Inr resolved \<Rightarrow> Conflict)))"
proof -
  have "w' = w \<and> r = RenameAns (Inl (case resolve_outcome (mc_mounts (fst w)) (mc_bound (fst w))
      (map_of (fed_backends (stack_federation modes bs))) a [CapWrite, CapDelete] of Inl e \<Rightarrow> e | Inr resolved \<Rightarrow> Conflict))"
    if "q = RenameReq a n" "mc_bound (fst w) a \<noteq> None \<or> mc_bound (fst w) (renamed a n) \<noteq> None" for a n
    using that assms(3) sc.fed_rename_eq [OF fd.config assms(1,2), of modes bs "unbound a" n]
    by (auto simp: fed_storage_def unbound_def split: sum.splits prod.splits)
  with fd.perform_unmoved [OF assms(1,2), of modes bs q] assms(3) show ?thesis by simp
qed

text \<open>A bound name on a backend that can be written: the rename is \<open>Conflict\<close>, and the binding stays.\<close>

theorem bindings_never_move_witness:
  "perform (fed_storage (stack_federation (\<lambda>_. ReadWrite) [default_mount])) (RenameReq example_address (SecretName ''b''))
     (mem_local\<lparr>mc_bindings := [(example_address, Locator ''op://a/b'')]\<rparr>, \<lambda>_. recording_new) =
   (RenameAns (Inl Conflict), mem_local\<lparr>mc_bindings := [(example_address, Locator ''op://a/b'')]\<rparr>, \<lambda>_. recording_new)"
proof -
  let ?w = "(mem_local\<lparr>mc_bindings := [(example_address, Locator ''op://a/b'')]\<rparr>, (\<lambda>_. recording_new) :: backend_ref \<Rightarrow> recording)"
  let ?F = "stack_federation (\<lambda>_. ReadWrite) [default_mount]"
  have w: "mc_inv (fst ?w)" "mc_up (fst ?w)"
    using mem_local_view(1,2) by (simp_all add: mc_inv_def mc_up_def bt_wf_def)
  have b: "mc_bound (fst ?w) example_address \<noteq> None" by (simp add: mc_bound_def)
  have "mount_outcome (mc_mounts (fst ?w)) (map_of (fed_backends ?F)) (ad_scope example_address) =
      Inr (stack_backend (\<lambda>_. ReadWrite) default_mount)"
    using mem_local_view(3)
    by (simp add: mount_outcome_def stack_federation_view mc_mounts_def example_address_def local_scope_def
        namespace_key_of_def local_default_def)
  then have "\<exists>x. resolve_outcome (mc_mounts (fst ?w)) (mc_bound (fst ?w)) (map_of (fed_backends ?F)) example_address
      [CapWrite, CapDelete] = Inr x"
    by (simp add: resolve_outcome_def all_capabilities_set)
  with bindings_never_move [OF w surjective_pairing, of "\<lambda>_. ReadWrite" "[default_mount]" "RenameReq example_address (SecretName ''b'')"] b
  show ?thesis by (fastforce simp: prod_eq_iff)
qed

text \<open>
  C2: the whole stack, authorizer in front of routing in front of backends, implements the
  storage contract: its contents are, namespace by namespace, those of the backend the namespace
  is mounted on.
\<close>

theorem stack_keeps_contract:
  assumes "stack_ok bs w" "stack_serves modes bs w q"
    and "perform (authorized_local (fed_storage (stack_federation modes bs))) q w = (r, w')"
  shows "storage_spec (stack_holds bs w) q r (stack_holds bs w') \<and> stack_ok bs w'"
  by (rule stack_refines [OF assms])

theorem stack_keeps_contract_witness:
  "storage_spec (stack_holds [default_mount] (mem_local, \<lambda>_. recording_new))
     (WriteReq example_address example_value)
     (fst (perform (authorized_local (fed_storage (stack_federation (\<lambda>_. ReadWrite) [default_mount])))
        (WriteReq example_address example_value) (mem_local, \<lambda>_. recording_new)))
     (stack_holds [default_mount]
       (snd (perform (authorized_local (fed_storage (stack_federation (\<lambda>_. ReadWrite) [default_mount])))
          (WriteReq example_address example_value) (mem_local, \<lambda>_. recording_new))))"
proof -
  have "stack_ok [default_mount] (mem_local, \<lambda>_. recording_new)"
    by (simp add: stack_ok_def rb_ok_new)
  moreover have "stack_serves (\<lambda>_. ReadWrite) [default_mount] (mem_local, \<lambda>_. recording_new)
      (WriteReq example_address example_value)"
    by (simp add: stack_serves_def local_request_def wf_request_def stack_mount_def
        example_address_def local_scope_def namespace_key_of_def local_default_def)
  ultimately show ?thesis
    by (rule stack_keeps_contract [OF _ _ surjective_pairing, THEN conjunct1])
qed

text \<open>
  C21: in every state the operations can reach from a configuration with the default namespace,
  every mount names a registered backend and no binding is left in a namespace that does not
  exist.
\<close>

theorem routing_invariant:
  assumes "default_mount \<in> set bs"
    and "fed_reach (stack_federation modes bs) (mem_local, bk) w"
  shows "(mc_mounts (fst w) k = Some m \<longrightarrow> (case m of None \<Rightarrow> default_mount | Some b \<Rightarrow> b) \<in> set bs) \<and>
    (mc_bound (fst w) a \<noteq> None \<longrightarrow> mc_mounts (fst w) (namespace_key_of (ad_scope a)) \<noteq> None)"
  using stack_routed [OF assms]
  by (auto simp: fd.routed_def fd.effective_def stack_federation_view split: if_splits)

theorem routing_invariant_witness:
  "mc_mounts (fst (snd (bind_address (stack_federation (\<lambda>_. ReadWrite) [default_mount])
     example_address (Locator ''x'') (mem_local, \<lambda>_. recording_new))))
     (namespace_key_of (ad_scope example_address)) \<noteq> None"
proof -
  let ?F = "stack_federation (\<lambda>_. ReadWrite) [default_mount]"
  let ?w = "(mem_local, (\<lambda>_. recording_new) :: backend_ref \<Rightarrow> recording)"
  let ?w' = "snd (bind_address ?F example_address (Locator ''x'') ?w)"
  have "fed_reach ?F ?w ?w'"
    by (rule reach_step [OF reach_start]) (rule step_bind, rule surjective_pairing)
  moreover have "mc_bound (fst ?w') example_address \<noteq> None"
    by (simp add: bind_address_def stack_federation_view bindE_apply stack_config_def zoom_config_def
        zoomE_apply mem_config_store_def mem_namespace_def mem_insert_binding_def mem_local_def
        mem_new_def mem_lock_def mc_bound_def example_address_def local_scope_def local_default_def
        namespace_key_of_def bt_contains_def)
  ultimately show ?thesis
    using routing_invariant [of "[default_mount]" "\<lambda>_. ReadWrite" "\<lambda>_. recording_new" ?w' undefined undefined
        example_address] by simp
qed

text \<open>
  Removing a namespace, or mounting it on another backend, succeeds only where it held no
  secret of local mode's user: none is left behind unreachable.
\<close>

theorem moved_namespaces_are_empty:
  assumes "stack_ok bs w" "list_all (\<lambda>c. modes c = ReadWrite) bs"
    and "remove_namespace (stack_federation modes bs) k w = (Inr (), w') \<or>
      set_mount (stack_federation modes bs) k b w = (Inr (), w')"
    and "namespace_key_of (ad_scope a) = k" "sc_user (ad_scope a) = default_name"
  shows "stack_holds bs w a = None"
proof -
  have "CapList \<in> set (capabilities S) \<and> modes c = ReadWrite \<and> wf_request (ListReq (ad_scope a))"
    if "map_of (fed_backends (stack_federation modes bs)) c = Some S" for c S
    using that assms(2)
    by (auto simp: stack_federation_view list_all_iff wf_request_def all_capabilities_set split: if_splits)
  then show ?thesis
    using fd.moved_namespace_empty [of modes bs w k w' b a] assms
    by (simp add: stack_ok_iff [where modes = modes] stack_holds_eq [where modes = modes])
qed

theorem moved_namespaces_are_empty_witness:
  "stack_holds [default_mount] (mem_local, \<lambda>_. recording_new) example_address = None"
proof (rule moved_namespaces_are_empty)
  show "stack_ok [default_mount] (mem_local, \<lambda>_. recording_new)"
    by (simp add: stack_ok_def rb_ok_new)
  show "list_all (\<lambda>c. (\<lambda>_. ReadWrite) c = ReadWrite) [default_mount]" by simp
  have "fst (set_mount (stack_federation (\<lambda>_. ReadWrite) [default_mount]) local_default default_mount
      (mem_local, \<lambda>_. recording_new)) = Inr ()"
    by (simp add: set_mount_def stack_federation_view bindE_apply stack_config_def zoom_config_def
        zoomE_apply mem_config_store_def mem_namespace_def mem_set_mount_def mem_local_def
        mem_new_def mem_lock_def registered_def holds_secrets_def effective_mount_def
        all_capabilities_set stack_backend_def zoom_storage_def recording_storage_def
        recording_list_def rb_ok_enter rb_ok_new recording_new_def enter_apply)
  then show "remove_namespace (stack_federation (\<lambda>_. ReadWrite) [default_mount]) local_default
        (mem_local, \<lambda>_. recording_new) = (Inr (), snd (set_mount
          (stack_federation (\<lambda>_. ReadWrite) [default_mount]) local_default default_mount
          (mem_local, \<lambda>_. recording_new))) \<or>
      set_mount (stack_federation (\<lambda>_. ReadWrite) [default_mount]) local_default default_mount
        (mem_local, \<lambda>_. recording_new) = (Inr (), snd (set_mount
          (stack_federation (\<lambda>_. ReadWrite) [default_mount]) local_default default_mount
          (mem_local, \<lambda>_. recording_new)))"
    by (metis prod.collapse)
qed (simp_all add: example_address_def local_scope_def namespace_key_of_def local_default_def)

end
