(* ===== verification/Authority.thy ===== *)
theory Authority
  imports Prelude
begin

text \<open>
  Who a caller is (\<open>crates/secrets-auth/src/lib.rs\<close>): principals with the actions they hold, the
  authority for users, which asks the identity service, and the authority for workloads, which asks
  the Kubernetes API for a token review and looks the subject up in the configured grants. The HTTP
  client, the file system and the JSON of the two services are parameters.
\<close>

section \<open>Requests and responses\<close>

datatype hmethod = MGet | MHead | MPut | MPost | MDelete | MOther string

record http_request =
  hq_method :: hmethod
  hq_path :: string
  hq_headers :: "(string \<times> string) list"
  hq_body :: bytes

record http_response =
  hr_status :: nat
  hr_body :: bytes

definition status_success :: "nat \<Rightarrow> bool" where
  "status_success s \<longleftrightarrow> 200 \<le> s \<and> s < 300"

text \<open>\<open>send\<close> of an HTTP client: an answer, or an error when none was received.\<close>

type_synonym 'w http_client = "http_request \<Rightarrow> ('w, unit, http_response) io"

definition bearer :: "string \<Rightarrow> string \<times> string" where
  "bearer token = (''authorization'', ''Bearer '' @ token)"

section \<open>Principals\<close>

record principal =
  pr_subject :: string
  pr_of_tenant :: string
  pr_actions :: "string set"

definition permits :: "principal \<Rightarrow> string \<Rightarrow> bool" where
  "permits p action \<longleftrightarrow> action \<in> pr_actions p \<or> ''*'' \<in> pr_actions p"

datatype auth_error = Unauthorized | AuthUnavailable

type_synonym 'w authority = "string \<Rightarrow> ('w, auth_error, principal) io"

section \<open>Text\<close>

definition trim_end_matches :: "char \<Rightarrow> string \<Rightarrow> string" where
  "trim_end_matches c s = rev (dropWhile (\<lambda>x. x = c) (rev s))"

definition is_ascii_whitespace :: "char \<Rightarrow> bool" where
  "is_ascii_whitespace c \<longleftrightarrow> c \<in> {CHR '' '', CHR 0x09, CHR 0x0A, CHR 0x0C, CHR 0x0D}"

text \<open>The pieces between white space, without the empty ones.\<close>

fun ascii_words :: "string \<Rightarrow> string \<Rightarrow> string list" where
  "ascii_words word [] = (if word = [] then [] else [word])"
| "ascii_words word (c # s) =
     (if is_ascii_whitespace c then (if word = [] then ascii_words [] s else word # ascii_words [] s)
      else ascii_words (word @ [c]) s)"

definition split_ascii_whitespace :: "string \<Rightarrow> string list" where
  "split_ascii_whitespace s = ascii_words [] s"

text \<open>\<open>str::trim\<close>: the white space of Unicode, in UTF-8, off both ends.\<close>

definition white_space :: "string list" where
  "white_space =
     [[CHR 0x09], [CHR 0x0A], [CHR 0x0B], [CHR 0x0C], [CHR 0x0D], [CHR 0x20], [CHR 0xC2, CHR 0x85],
      [CHR 0xC2, CHR 0xA0], [CHR 0xE1, CHR 0x9A, CHR 0x80]] @
     map (\<lambda>c. [CHR 0xE2, CHR 0x80, c])
       [CHR 0x80, CHR 0x81, CHR 0x82, CHR 0x83, CHR 0x84, CHR 0x85, CHR 0x86, CHR 0x87, CHR 0x88, CHR 0x89,
        CHR 0x8A, CHR 0xA8, CHR 0xA9, CHR 0xAF] @
     [[CHR 0xE2, CHR 0x81, CHR 0x9F], [CHR 0xE3, CHR 0x80, CHR 0x80]]"

fun strip :: "string list \<Rightarrow> nat \<Rightarrow> string \<Rightarrow> string" where
  "strip ws 0 s = s"
| "strip ws (Suc n) s =
     (case find (\<lambda>x. take (length x) s = x) ws of
        None \<Rightarrow> s
      | Some x \<Rightarrow> strip ws n (drop (length x) s))"

definition trim :: "string \<Rightarrow> string" where
  "trim s =
     (let t = strip white_space (length s) s
      in rev (strip (map rev white_space) (length t) (rev t)))"

section \<open>Users: the identity service\<close>

record verify_response =
  vf_sub :: string
  vf_aud :: string
  vf_tenant :: string
  vf_scope :: string

record 'w identity_authority =
  ia_client :: "'w http_client"
  ia_endpoint :: string
  ia_audience :: string

text \<open>\<open>client\<close> is what the builder of the HTTP client answers.\<close>

definition identity_new ::
  "'w http_client option \<Rightarrow> string \<Rightarrow> string \<Rightarrow> auth_error + 'w identity_authority" where
  "identity_new client origin audience =
     bindR (ok_or client AuthUnavailable) (\<lambda>c.
     Inr \<lparr>ia_client = c, ia_endpoint = trim_end_matches CHR ''/'' origin @ ''/v1/access-authority'',
       ia_audience = audience\<rparr>)"

text \<open>\<open>parse\<close> is the JSON of the answer read as \<open>VerifyResponse\<close>.\<close>

definition identity_verify ::
  "(bytes \<Rightarrow> verify_response option) \<Rightarrow> 'w identity_authority \<Rightarrow> 'w authority" where
  "identity_verify parse A token =
     bindE (map_errE (\<lambda>_. AuthUnavailable) (ia_client A
       \<lparr>hq_method = MGet, hq_path = ia_endpoint A,
        hq_headers = [bearer token, (''x-b10x-audience'', ia_audience A)], hq_body = []\<rparr>)) (\<lambda>response.
     if hr_status response = 401 \<or> hr_status response = 403 then failE Unauthorized
     else if \<not> status_success (hr_status response) then failE AuthUnavailable
     else bindE (liftE (ok_or (parse (hr_body response)) AuthUnavailable)) (\<lambda>verified.
       if vf_aud verified \<noteq> ia_audience A \<or> vf_sub verified = [] \<or> vf_tenant verified = []
       then failE Unauthorized
       else retE \<lparr>pr_subject = vf_sub verified, pr_of_tenant = vf_tenant verified,
         pr_actions = set (split_ascii_whitespace (vf_scope verified))\<rparr>))"

section \<open>Workloads: token reviews\<close>

record workload_grant =
  wg_subject :: string
  wg_tenant :: string
  wg_actions :: "string set"

record 'w kubernetes_authority =
  ka_client :: "'w http_client"
  ka_endpoint :: string
  ka_audience :: string
  ka_grants :: "workload_grant list"

text \<open>
  What \<open>in_cluster\<close> reads: two variables, the certificate and the grants (as the file reads
  answer, parsed), and the client the builder makes with the certificate.
\<close>

record 'w cluster =
  cl_host :: "string option"
  cl_port :: "string option"
  cl_ca :: "bytes option"
  cl_certificate :: "bytes \<Rightarrow> bytes option"
  cl_grants :: "bytes option"
  cl_parse_grants :: "bytes \<Rightarrow> workload_grant list option"
  cl_build :: "bytes \<Rightarrow> 'w http_client option"

definition in_cluster :: "'w cluster \<Rightarrow> string \<Rightarrow> auth_error + 'w kubernetes_authority" where
  "in_cluster E audience =
     bindR (ok_or (cl_host E) AuthUnavailable) (\<lambda>host.
     let port = (case cl_port E of Some p \<Rightarrow> p | None \<Rightarrow> ''443'') in
     bindR (ok_or (cl_ca E) AuthUnavailable) (\<lambda>ca.
     bindR (ok_or (cl_certificate E ca) AuthUnavailable) (\<lambda>certificate.
     bindR (ok_or (cl_grants E) AuthUnavailable) (\<lambda>text.
     bindR (ok_or (cl_parse_grants E text) AuthUnavailable) (\<lambda>grants.
     bindR (ok_or (cl_build E certificate) AuthUnavailable) (\<lambda>client.
     Inr \<lparr>ka_client = client,
       ka_endpoint = ''https://'' @ host @ '':'' @ port @ ''/apis/authentication.k8s.io/v1/tokenreviews'',
       ka_audience = audience, ka_grants = grants\<rparr>))))))"

record token_review =
  tr_api_version :: string
  tr_kind :: string
  tr_token :: string
  tr_audiences :: "string list"

record token_review_status =
  ts_authenticated :: "bool option"
  ts_user :: "string option"
  ts_audiences :: "string list"

text \<open>
  \<open>encode\<close> and \<open>parse\<close> are the JSON of the review and of its answer (an answer is the optional
  status), \<open>reviewer\<close> the token file of the service itself.
\<close>

definition kubernetes_verify ::
  "(token_review \<Rightarrow> bytes) \<Rightarrow> (bytes \<Rightarrow> token_review_status option option) \<Rightarrow> ('w, unit, string) io \<Rightarrow>
   'w kubernetes_authority \<Rightarrow> 'w authority" where
  "kubernetes_verify encode parse reviewer A token =
     bindE (map_errE (\<lambda>_. AuthUnavailable) reviewer) (\<lambda>own.
     bindE (map_errE (\<lambda>_. AuthUnavailable) (ka_client A
       \<lparr>hq_method = MPost, hq_path = ka_endpoint A, hq_headers = [bearer (trim own)],
        hq_body = encode \<lparr>tr_api_version = ''authentication.k8s.io/v1'', tr_kind = ''TokenReview'',
          tr_token = token, tr_audiences = [ka_audience A]\<rparr>\<rparr>)) (\<lambda>response.
     if \<not> status_success (hr_status response) then failE AuthUnavailable
     else
       bindE (liftE (ok_or (parse (hr_body response)) AuthUnavailable)) (\<lambda>result.
       bindE (liftE (ok_or result Unauthorized)) (\<lambda>status.
       let authenticated = (ts_authenticated status = Some True);
           audience_matched = list_ex (\<lambda>a. a = ka_audience A) (ts_audiences status) in
       if \<not> authenticated \<or> \<not> audience_matched then failE Unauthorized
       else
         bindE (liftE (ok_or (case ts_user status of
             Some u \<Rightarrow> (if u = [] then None else Some u) | None \<Rightarrow> None) Unauthorized)) (\<lambda>subject.
         bindE (liftE (ok_or (find (\<lambda>g. wg_subject g = subject) (ka_grants A)) Unauthorized)) (\<lambda>grant.
         retE \<lparr>pr_subject = subject, pr_of_tenant = wg_tenant grant,
           pr_actions = wg_actions grant\<rparr>))))))"

section \<open>Whom the authorities admit\<close>

text \<open>The words of a scope have no white space and are not empty.\<close>

lemma ascii_words_append:
  "\<forall>c \<in> set w. \<not> is_ascii_whitespace c \<Longrightarrow> ascii_words word (w @ s) = ascii_words (word @ w) s"
  by (induction w arbitrary: word) simp_all

lemma split_ascii_word:
  assumes "\<forall>c \<in> set w. \<not> is_ascii_whitespace c" "w \<noteq> []"
  shows "split_ascii_whitespace w = [w]"
    and "split_ascii_whitespace (w @ CHR '' '' # s) = w # split_ascii_whitespace s"
proof -
  have "is_ascii_whitespace CHR '' ''" by (simp add: is_ascii_whitespace_def)
  with assms(2) ascii_words_append [OF assms(1), of "[]"]
  show "split_ascii_whitespace (w @ CHR '' '' # s) = w # split_ascii_whitespace s"
    by (simp add: split_ascii_whitespace_def)
  show "split_ascii_whitespace w = [w]"
    using assms(2) ascii_words_append [OF assms(1), of "[]" "[]"] by (simp add: split_ascii_whitespace_def)
qed

text \<open>Joining words with one space is undone.\<close>

lemma split_ascii_whitespace_join:
  "\<forall>w \<in> set ws. w \<noteq> [] \<and> (\<forall>c \<in> set w. \<not> is_ascii_whitespace c) \<Longrightarrow>
   split_ascii_whitespace (join CHR '' '' ws) = ws"
proof (induction ws)
  case (Cons w ws)
  then show ?case
    using split_ascii_word [of w] by (cases ws) simp_all
qed (simp add: split_ascii_whitespace_def)

text \<open>The one request each authority sends.\<close>

definition identity_request :: "'w identity_authority \<Rightarrow> string \<Rightarrow> http_request" where
  "identity_request A token =
     \<lparr>hq_method = MGet, hq_path = ia_endpoint A,
      hq_headers = [bearer token, (''x-b10x-audience'', ia_audience A)], hq_body = []\<rparr>"

lemma identity_verify_Inr:
  "identity_verify parse A token w = (Inr p, w') \<longleftrightarrow>
   (\<exists>r v. ia_client A (identity_request A token) w = (Inr r, w') \<and>
      status_success (hr_status r) \<and> parse (hr_body r) = Some v \<and> vf_aud v = ia_audience A \<and>
      vf_sub v \<noteq> [] \<and> vf_tenant v \<noteq> [] \<and>
      p = \<lparr>pr_subject = vf_sub v, pr_of_tenant = vf_tenant v,
        pr_actions = set (split_ascii_whitespace (vf_scope v))\<rparr>)"
proof -
  obtain x v where c: "ia_client A (identity_request A token) w = (x, v)"
    by (cases "ia_client A (identity_request A token) w")
  show ?thesis
  proof (cases x)
    case (Inl e)
    with c show ?thesis by (simp add: identity_verify_def identity_request_def bindE_apply)
  next
    case (Inr r)
    have "\<not> status_success 401" "\<not> status_success 403" by (simp_all add: status_success_def)
    with Inr c show ?thesis
      by (cases "parse (hr_body r)")
        (auto simp: identity_verify_def identity_request_def [symmetric] bindE_apply)
  qed
qed

definition review_request :: "(token_review \<Rightarrow> bytes) \<Rightarrow> 'w kubernetes_authority \<Rightarrow> string \<Rightarrow> string \<Rightarrow> http_request" where
  "review_request encode A own token =
     \<lparr>hq_method = MPost, hq_path = ka_endpoint A, hq_headers = [bearer (trim own)],
      hq_body = encode \<lparr>tr_api_version = ''authentication.k8s.io/v1'', tr_kind = ''TokenReview'',
        tr_token = token, tr_audiences = [ka_audience A]\<rparr>\<rparr>"

text \<open>What an accepted review and the grants make of the caller.\<close>

definition reviewed :: "'w kubernetes_authority \<Rightarrow> token_review_status \<Rightarrow> principal option" where
  "reviewed A status =
     (case ts_user status of
        Some u \<Rightarrow>
          if ts_authenticated status = Some True \<and> ka_audience A \<in> set (ts_audiences status) \<and> u \<noteq> []
          then map_option (\<lambda>g. \<lparr>pr_subject = u, pr_of_tenant = wg_tenant g, pr_actions = wg_actions g\<rparr>)
            (find (\<lambda>g. wg_subject g = u) (ka_grants A))
          else None
      | None \<Rightarrow> None)"

lemma kubernetes_verify_answer:
  "kubernetes_verify encode parse reviewer A token w =
     (case reviewer w of
        (Inl _, w) \<Rightarrow> (Inl AuthUnavailable, w)
      | (Inr own, w) \<Rightarrow>
          (case ka_client A (review_request encode A own token) w of
             (Inl _, w) \<Rightarrow> (Inl AuthUnavailable, w)
           | (Inr r, w) \<Rightarrow>
               (if \<not> status_success (hr_status r) then Inl AuthUnavailable
                else case parse (hr_body r) of
                    None \<Rightarrow> Inl AuthUnavailable
                  | Some None \<Rightarrow> Inl Unauthorized
                  | Some (Some st) \<Rightarrow> ok_or (reviewed A st) Unauthorized, w)))"
  by (auto simp: kubernetes_verify_def review_request_def bindE_apply reviewed_def list_ex_iff Let_def ok_or_def
      split: prod.split sum.split option.split)

section \<open>Properties\<close>

text \<open>
  A workload is admitted exactly when the service has its own token, the API server answers
  the one review it is sent, the review is authenticated for this audience and names a subject, and
  the subject has a grant; the principal then has the tenant and the actions of its first grant.
\<close>

theorem workload_admission:
  "kubernetes_verify encode parse reviewer A token w = (Inr p, w') \<longleftrightarrow>
   (\<exists>own w1 r st g. reviewer w = (Inr own, w1) \<and>
      ka_client A (review_request encode A own token) w1 = (Inr r, w') \<and>
      status_success (hr_status r) \<and> parse (hr_body r) = Some (Some st) \<and>
      ts_authenticated st = Some True \<and> ka_audience A \<in> set (ts_audiences st) \<and>
      ts_user st = Some (pr_subject p) \<and> pr_subject p \<noteq> [] \<and>
      find (\<lambda>g. wg_subject g = pr_subject p) (ka_grants A) = Some g \<and>
      pr_of_tenant p = wg_tenant g \<and> pr_actions p = wg_actions g)"
proof -
  have r: "reviewed A st = Some p \<longleftrightarrow> ts_authenticated st = Some True \<and> ka_audience A \<in> set (ts_audiences st) \<and>
      ts_user st = Some (pr_subject p) \<and> pr_subject p \<noteq> [] \<and>
      (\<exists>g. find (\<lambda>g. wg_subject g = pr_subject p) (ka_grants A) = Some g \<and>
        pr_of_tenant p = wg_tenant g \<and> pr_actions p = wg_actions g)" for st
    by (cases p) (auto simp: reviewed_def split: option.splits)
  have a: "ok_or x e = Inr y \<longleftrightarrow> x = Some y" for x :: "principal option" and e :: auth_error and y
    by (cases x) auto
  show ?thesis
    unfolding kubernetes_verify_answer
    by (auto simp: a r split: prod.splits sum.splits option.splits if_splits)
qed

text \<open>
  A user is admitted exactly when the identity service answers with a success for this
  audience that names a subject and a tenant, and then holds the actions that are the words of the
  scope: the actions joined with spaces are read back as they are.
\<close>

theorem user_admission:
  "(identity_verify parse A token w = (Inr p, w') \<longleftrightarrow>
     (\<exists>r v. ia_client A (identity_request A token) w = (Inr r, w') \<and> status_success (hr_status r) \<and>
        parse (hr_body r) = Some v \<and> vf_aud v = ia_audience A \<and> vf_sub v \<noteq> [] \<and> vf_tenant v \<noteq> [] \<and>
        p = \<lparr>pr_subject = vf_sub v, pr_of_tenant = vf_tenant v,
          pr_actions = set (split_ascii_whitespace (vf_scope v))\<rparr>)) \<and>
   ((\<forall>a \<in> set actions. a \<noteq> [] \<and> (\<forall>c \<in> set a. \<not> is_ascii_whitespace c)) \<longrightarrow>
      split_ascii_whitespace (join CHR '' '' actions) = actions)"
  by (intro conjI impI identity_verify_Inr split_ascii_whitespace_join)

theorem user_admission_witness:
  "split_ascii_whitespace ''secret:list secret:revoke'' = [''secret:list'', ''secret:revoke'']"
proof -
  have "\<forall>a \<in> set [''secret:list'', ''secret:revoke'']. a \<noteq> [] \<and> (\<forall>c \<in> set a. \<not> is_ascii_whitespace c)"
    by (simp add: is_ascii_whitespace_def)
  moreover have "join CHR '' '' [''secret:list'', ''secret:revoke''] = ''secret:list secret:revoke''" by simp
  ultimately show ?thesis
    using user_admission [THEN conjunct2, THEN mp, of "[''secret:list'', ''secret:revoke'']"] by simp
qed

end
