(* ===== verification/Custody.thy ===== *)
theory Custody
  imports Ordered_Map
begin

text \<open>
  The custody domain (\<open>crates/secrets-core/src/lib.rs\<close>): references, the input and the metadata
  of a secret, mutations, refusals, and the trait \<open>SecretStore\<close> as a record of its methods over a
  world \<open>'w\<close>. Base64 and JSON are other crates' code; what depends on them takes them as
  parameters. Timestamps are their text, as in the code.
\<close>

type_synonym uuid = "128 word"
type_synonym labels = "(string, string) btree"
type_synonym secret_bytes = bytes

text \<open>\<open>impl Debug for SecretBytes\<close>: the length and nothing else.\<close>

definition debug_secret_bytes :: "secret_bytes \<Rightarrow> string" where
  "debug_secret_bytes v = ''SecretBytes(<redacted '' @ dec_nat (length v) @ '' bytes>)''"

datatype disclosure = WorkloadOnly | UserRevealable

record secret_ref =
  rf_tenant :: string
  rf_namespace :: string
  rf_key :: string

record put_secret =
  pt_reference :: secret_ref
  pt_owner :: string
  pt_value :: secret_bytes
  pt_disclosure :: disclosure
  pt_labels :: labels

datatype secret_state = Active | Revoked

record custody_metadata =
  md_id :: uuid
  md_reference :: secret_ref
  md_owner :: string
  md_disclosure :: disclosure
  md_state :: secret_state
  md_version :: "64 word"
  md_labels :: labels
  md_created :: string
  md_updated :: string

record stored_secret =
  ss_metadata :: custody_metadata
  ss_value :: secret_bytes

datatype mutation = Put put_secret | Delete secret_ref

datatype invalid_input = MalformedReference | InvalidReference | EmptyBatch | CrossTenantBatch

datatype store_error =
  StoreNotFound | DeleteTargetMissing | StoreConflict | Invalid invalid_input | StoreUnavailable | StoreCrypto

fun mutation_reference :: "mutation \<Rightarrow> secret_ref" where
  "mutation_reference (Put p) = pt_reference p"
| "mutation_reference (Delete r) = r"

record 'w secret_store =
  cs_ready :: "('w, store_error, unit) io"
  cs_put :: "put_secret \<Rightarrow> ('w, store_error, custody_metadata) io"
  cs_get :: "secret_ref \<Rightarrow> ('w, store_error, stored_secret) io"
  cs_exists :: "secret_ref \<Rightarrow> ('w, store_error, bool) io"
  cs_delete :: "secret_ref \<Rightarrow> string \<Rightarrow> ('w, store_error, unit) io"
  cs_revoke :: "secret_ref \<Rightarrow> string \<Rightarrow> ('w, store_error, custody_metadata) io"
  cs_list :: "string \<Rightarrow> string option \<Rightarrow> ('w, store_error, custody_metadata list) io"
  cs_prepare :: "string \<Rightarrow> uuid \<Rightarrow> mutation list \<Rightarrow> string \<Rightarrow> ('w, store_error, unit) io"
  cs_commit :: "string \<Rightarrow> uuid \<Rightarrow> ('w, store_error, unit) io"
  cs_abort :: "string \<Rightarrow> uuid \<Rightarrow> ('w, store_error, unit) io"

text \<open>The redacted text depends on the length of the value and on nothing else of it.\<close>

lemma debug_secret_bytes_length: "debug_secret_bytes v = debug_secret_bytes v' \<longleftrightarrow> length v = length v'"
  by (simp add: debug_secret_bytes_def)

end
