(* ===== verification/Http_Service.thy ===== *)
theory Http_Service
  imports Authority Custody
begin

text \<open>
  The custody service over HTTP (\<open>crates/secrets-http/src/lib.rs\<close>): the closed set of refusals, the
  extractors, the check of the caller, one handler per route, the route table and what answers when
  no route does. The world \<open>'w\<close> is whatever the store and the two authorities work on.

  The web framework is a parameter: \<open>fw_match\<close> matches a path against a route pattern and answers
  the decoded parameters, \<open>fw_overlong\<close> is the body limit refusing a request by its declared length,
  \<open>fw_json\<close> what the JSON extractor reads of a body, \<open>fw_uuid\<close> the text of a UUID read, \<open>fw_token\<close>
  the value of the header \<open>authorization\<close> where it is text. The JSON of the bodies is the
  parameter \<open>codec\<close>. Request ids are not modelled: they change neither the status nor the body.
\<close>

section \<open>Refusals\<close>

datatype http_refusal =
  RUnauthorized | RForbidden | RMissingAction | RNotFound | RNotOwned | RDeleteTargetMissing | RDuplicate
| RMalformedReference | RInvalidReference | REmptyBatch | RCrossTenantBatch | RMalformedBody | RMalformedPath
| RTooLarge | RUnavailable | RRouteNotFound | RMethodNotAllowed

definition http_refusals :: "http_refusal list" where
  "http_refusals =
     [RUnauthorized, RForbidden, RMissingAction, RNotFound, RNotOwned, RDeleteTargetMissing, RDuplicate,
      RMalformedReference, RInvalidReference, REmptyBatch, RCrossTenantBatch, RMalformedBody, RMalformedPath,
      RTooLarge, RUnavailable, RRouteNotFound, RMethodNotAllowed]"

fun refusal_status :: "http_refusal \<Rightarrow> nat" where
  "refusal_status RUnauthorized = 401"
| "refusal_status RForbidden = 403"
| "refusal_status RMissingAction = 403"
| "refusal_status RNotFound = 404"
| "refusal_status RNotOwned = 404"
| "refusal_status RDeleteTargetMissing = 404"
| "refusal_status RDuplicate = 409"
| "refusal_status RMalformedReference = 400"
| "refusal_status RInvalidReference = 400"
| "refusal_status REmptyBatch = 400"
| "refusal_status RCrossTenantBatch = 400"
| "refusal_status RMalformedBody = 400"
| "refusal_status RMalformedPath = 400"
| "refusal_status RTooLarge = 413"
| "refusal_status RUnavailable = 503"
| "refusal_status RRouteNotFound = 404"
| "refusal_status RMethodNotAllowed = 405"

fun refusal_code :: "http_refusal \<Rightarrow> string" where
  "refusal_code RUnauthorized = ''unauthorized''"
| "refusal_code RForbidden = ''forbidden''"
| "refusal_code RMissingAction = ''missing-action''"
| "refusal_code RNotFound = ''not-found''"
| "refusal_code RNotOwned = ''not-owned''"
| "refusal_code RDeleteTargetMissing = ''delete-target-missing''"
| "refusal_code RDuplicate = ''duplicate''"
| "refusal_code RMalformedReference = ''malformed-reference''"
| "refusal_code RInvalidReference = ''invalid-reference''"
| "refusal_code REmptyBatch = ''empty-batch''"
| "refusal_code RCrossTenantBatch = ''cross-tenant-batch''"
| "refusal_code RMalformedBody = ''malformed-body''"
| "refusal_code RMalformedPath = ''malformed-path''"
| "refusal_code RTooLarge = ''too-large''"
| "refusal_code RUnavailable = ''unavailable''"
| "refusal_code RRouteNotFound = ''route-not-found''"
| "refusal_code RMethodNotAllowed = ''method-not-allowed''"

definition refusal_codes :: "string list" where
  "refusal_codes = map refusal_code http_refusals"

definition routing_refusal_codes :: "string list" where
  "routing_refusal_codes = map refusal_code [RRouteNotFound, RMethodNotAllowed]"

fun refusal_of_store :: "store_error \<Rightarrow> http_refusal" where
  "refusal_of_store StoreNotFound = RNotFound"
| "refusal_of_store DeleteTargetMissing = RDeleteTargetMissing"
| "refusal_of_store StoreConflict = RDuplicate"
| "refusal_of_store (Invalid MalformedReference) = RMalformedReference"
| "refusal_of_store (Invalid InvalidReference) = RInvalidReference"
| "refusal_of_store (Invalid EmptyBatch) = REmptyBatch"
| "refusal_of_store (Invalid CrossTenantBatch) = RCrossTenantBatch"
| "refusal_of_store StoreUnavailable = RUnavailable"
| "refusal_of_store StoreCrypto = RUnavailable"

fun refusal_of_auth :: "auth_error \<Rightarrow> http_refusal" where
  "refusal_of_auth Unauthorized = RUnauthorized"
| "refusal_of_auth AuthUnavailable = RUnavailable"

text \<open>The canonical reason of a status (RFC 9110), for the statuses of the refusals.\<close>

definition canonical_reason :: "nat \<Rightarrow> string option" where
  "canonical_reason = map_of
     [(400, ''Bad Request''), (401, ''Unauthorized''), (403, ''Forbidden''), (404, ''Not Found''),
      (405, ''Method Not Allowed''), (409, ''Conflict''), (413, ''Payload Too Large''),
      (503, ''Service Unavailable'')]"

section \<open>Bodies\<close>

record scope_request =
  sq_tenant :: string
  sq_namespace :: string

record delete_request =
  dq_reference :: secret_ref
  dq_actor :: "string option"

record prepare_request =
  pq_actor :: string
  pq_mutations :: "mutation list"

record codec =
  jc_error :: "string \<Rightarrow> string \<Rightarrow> bytes"
  jc_ref :: "secret_ref \<Rightarrow> bytes"
  jc_unref :: "bytes \<Rightarrow> secret_ref option"
  jc_put :: "put_secret \<Rightarrow> bytes"
  jc_unput :: "bytes \<Rightarrow> put_secret option"
  jc_scope :: "scope_request \<Rightarrow> bytes"
  jc_unscope :: "bytes \<Rightarrow> scope_request option"
  jc_delete :: "delete_request \<Rightarrow> bytes"
  jc_undelete :: "bytes \<Rightarrow> delete_request option"
  jc_prepare :: "prepare_request \<Rightarrow> bytes"
  jc_unprepare :: "bytes \<Rightarrow> prepare_request option"
  jc_metadata :: "custody_metadata \<Rightarrow> bytes"
  jc_unmetadata :: "bytes \<Rightarrow> custody_metadata option"
  jc_stored :: "stored_secret \<Rightarrow> bytes"
  jc_unstored :: "bytes \<Rightarrow> stored_secret option"
  jc_exists :: "bool \<Rightarrow> bytes"
  jc_unexists :: "bytes \<Rightarrow> bool option"
  jc_list :: "custody_metadata list \<Rightarrow> bytes"
  jc_unlist :: "bytes \<Rightarrow> custody_metadata list option"

record framework =
  fw_match :: "string \<Rightarrow> string \<Rightarrow> string list option"
  fw_overlong :: "nat \<Rightarrow> http_request \<Rightarrow> bool"
  fw_json :: "nat \<Rightarrow> http_request \<Rightarrow> nat + bytes"
  fw_uuid :: "string \<Rightarrow> uuid option"
  fw_token :: "http_request \<Rightarrow> string option"
  fw_openapi :: bytes
  fw_docs :: bytes

record 'w app_state =
  ap_store :: "'w secret_store"
  ap_user :: "'w authority"
  ap_workload :: "'w authority"

text \<open>What a handler needs of the process: the framework, the JSON and the state.\<close>

record 'w service =
  sv_framework :: framework
  sv_codec :: codec
  sv_state :: "'w app_state"

abbreviation "sv_store V \<equiv> ap_store (sv_state V)"

type_synonym ('w, 'a) handled = "('w, http_refusal, 'a) io"

definition body_limit :: nat where "body_limit = 1024 * 1024"

definition json_response :: "bytes \<Rightarrow> http_response" where
  "json_response b = \<lparr>hr_status = 200, hr_body = b\<rparr>"

definition status_response :: "nat \<Rightarrow> http_response" where
  "status_response s = \<lparr>hr_status = s, hr_body = []\<rparr>"

definition refusal_response :: "codec \<Rightarrow> http_refusal \<Rightarrow> http_response" where
  "refusal_response J r =
     \<lparr>hr_status = refusal_status r,
      hr_body = jc_error J (case canonical_reason (refusal_status r) of Some t \<Rightarrow> t | None \<Rightarrow> ''request failed'')
        (refusal_code r)\<rparr>"

definition shape_too_large :: "codec \<Rightarrow> http_response \<Rightarrow> http_response" where
  "shape_too_large J r = (if hr_status r = 413 then refusal_response J RTooLarge else r)"

section \<open>Extractors\<close>

definition json_body :: "framework \<Rightarrow> (bytes \<Rightarrow> 'a option) \<Rightarrow> http_request \<Rightarrow> http_refusal + 'a" where
  "json_body W parse rq =
     (case fw_json W body_limit rq of
        Inl status \<Rightarrow> Inl (if status = 413 then RTooLarge else RMalformedBody)
      | Inr b \<Rightarrow> ok_or (parse b) RMalformedBody)"

definition path_params :: "framework \<Rightarrow> string list \<Rightarrow> http_refusal + string \<times> uuid" where
  "path_params W captured =
     (case captured of
        [tenant, transaction] \<Rightarrow>
          (case fw_uuid W transaction of Some i \<Rightarrow> Inr (tenant, i) | None \<Rightarrow> Inl RMalformedPath)
      | _ \<Rightarrow> Inl RMalformedPath)"

section \<open>The caller\<close>

definition strip_prefix :: "string \<Rightarrow> string \<Rightarrow> string option" where
  "strip_prefix p s = (if take (length p) s = p then Some (drop (length p) s) else None)"

definition tenant_match :: "principal \<Rightarrow> string \<Rightarrow> http_refusal + unit" where
  "tenant_match p tenant = (if pr_of_tenant p = tenant then Inr () else Inl RForbidden)"

definition http_authorize ::
  "framework \<Rightarrow> http_request \<Rightarrow> 'w authority \<Rightarrow> string \<Rightarrow> ('w, principal) handled" where
  "http_authorize W rq authority action =
     bindE (liftE (ok_or (Option.bind (fw_token W rq) (strip_prefix ''Bearer '')) RUnauthorized)) (\<lambda>token.
     bindE (map_errE refusal_of_auth (authority token)) (\<lambda>p.
     if \<not> permits p action then failE RMissingAction else retE p))"

definition authorize_ref ::
  "framework \<Rightarrow> http_request \<Rightarrow> 'w authority \<Rightarrow> string \<Rightarrow> secret_ref \<Rightarrow> ('w, principal) handled" where
  "authorize_ref W rq authority action r =
     bindE (http_authorize W rq authority action) (\<lambda>p.
     bindE (liftE (tenant_match p (rf_tenant r))) (\<lambda>_. retE p))"

definition assert_owner :: "'w service \<Rightarrow> principal \<Rightarrow> secret_ref \<Rightarrow> ('w, unit) handled" where
  "assert_owner V p r =
     bindE (map_errE refusal_of_store (cs_list (sv_store V) (pr_of_tenant p) (Some (pr_subject p)))) (\<lambda>listed.
     if list_ex (\<lambda>m. md_reference m = r) listed then retE () else failE RNotOwned)"

section \<open>Handlers\<close>

type_synonym 'w handler = "'w service \<Rightarrow> http_request \<Rightarrow> string list \<Rightarrow> ('w, http_response) handled"

definition live_h :: "'w handler" where
  "live_h V rq ps = retE (status_response 204)"

definition ready_h :: "'w handler" where
  "ready_h V rq ps w =
     (case cs_ready (sv_store V) w of
        (Inr _, w) \<Rightarrow> (Inr (status_response 204), w)
      | (Inl _, w) \<Rightarrow> (Inr (status_response 503), w))"

definition metrics_h :: "'w handler" where
  "metrics_h V rq ps = retE (json_response (str_bytes
     (''# HELP secrets_up Process availability.'' @ [CHR 0x0A] @ ''# TYPE secrets_up gauge'' @ [CHR 0x0A] @
      ''secrets_up 1'' @ [CHR 0x0A])))"

definition openapi_h :: "'w handler" where
  "openapi_h V rq ps = retE (json_response (fw_openapi (sv_framework V)))"

definition docs_h :: "'w handler" where
  "docs_h V rq ps = retE (json_response (fw_docs (sv_framework V)))"

definition user_list :: "'w handler" where
  "user_list V rq ps =
     bindE (http_authorize (sv_framework V) rq (ap_user (sv_state V)) ''secret:list'') (\<lambda>p.
     bindE (map_errE refusal_of_store (cs_list (sv_store V) (pr_of_tenant p) (Some (pr_subject p)))) (\<lambda>secrets.
     retE (json_response (jc_list (sv_codec V) secrets))))"

definition user_detail :: "'w handler" where
  "user_detail V rq ps =
     bindE (liftE (json_body (sv_framework V) (jc_unref (sv_codec V)) rq)) (\<lambda>r.
     bindE (authorize_ref (sv_framework V) rq (ap_user (sv_state V)) ''secret:read_metadata'' r) (\<lambda>p.
     bindE (map_errE refusal_of_store (cs_list (sv_store V) (pr_of_tenant p) (Some (pr_subject p)))) (\<lambda>listed.
     bindE (liftE (ok_or (find (\<lambda>m. md_reference m = r) listed) RNotOwned)) (\<lambda>found.
     retE (json_response (jc_metadata (sv_codec V) found))))))"

definition user_revoke :: "'w handler" where
  "user_revoke V rq ps =
     bindE (liftE (json_body (sv_framework V) (jc_unref (sv_codec V)) rq)) (\<lambda>r.
     bindE (authorize_ref (sv_framework V) rq (ap_user (sv_state V)) ''secret:revoke'' r) (\<lambda>p.
     bindE (assert_owner V p r) (\<lambda>_.
     bindE (map_errE refusal_of_store (cs_revoke (sv_store V) r (pr_subject p))) (\<lambda>m.
     retE (json_response (jc_metadata (sv_codec V) m))))))"

definition user_delete :: "'w handler" where
  "user_delete V rq ps =
     bindE (liftE (json_body (sv_framework V) (jc_unref (sv_codec V)) rq)) (\<lambda>r.
     bindE (authorize_ref (sv_framework V) rq (ap_user (sv_state V)) ''secret:delete'' r) (\<lambda>p.
     bindE (assert_owner V p r) (\<lambda>_.
     bindE (map_errE refusal_of_store (cs_delete (sv_store V) r (pr_subject p))) (\<lambda>_.
     retE (status_response 204)))))"

definition workload_put :: "'w handler" where
  "workload_put V rq ps =
     bindE (liftE (json_body (sv_framework V) (jc_unput (sv_codec V)) rq)) (\<lambda>input.
     bindE (authorize_ref (sv_framework V) rq (ap_workload (sv_state V)) ''secret:write'' (pt_reference input)) (\<lambda>p.
     bindE (map_errE refusal_of_store (cs_put (sv_store V)
         (input\<lparr>pt_owner := if pt_owner input = [] then pr_subject p else pt_owner input\<rparr>))) (\<lambda>m.
     retE (json_response (jc_metadata (sv_codec V) m)))))"

definition workload_get :: "'w handler" where
  "workload_get V rq ps =
     bindE (liftE (json_body (sv_framework V) (jc_unref (sv_codec V)) rq)) (\<lambda>r.
     bindE (authorize_ref (sv_framework V) rq (ap_workload (sv_state V)) ''secret:read_value'' r) (\<lambda>_.
     bindE (map_errE refusal_of_store (cs_get (sv_store V) r)) (\<lambda>s.
     retE (json_response (jc_stored (sv_codec V) s)))))"

definition workload_exists :: "'w handler" where
  "workload_exists V rq ps =
     bindE (liftE (json_body (sv_framework V) (jc_unref (sv_codec V)) rq)) (\<lambda>r.
     bindE (authorize_ref (sv_framework V) rq (ap_workload (sv_state V)) ''secret:read_metadata'' r) (\<lambda>_.
     bindE (map_errE refusal_of_store (cs_exists (sv_store V) r)) (\<lambda>x.
     retE (json_response (jc_exists (sv_codec V) x)))))"

definition workload_list :: "'w handler" where
  "workload_list V rq ps =
     bindE (liftE (json_body (sv_framework V) (jc_unscope (sv_codec V)) rq)) (\<lambda>scope.
     bindE (http_authorize (sv_framework V) rq (ap_workload (sv_state V)) ''secret:list'') (\<lambda>p.
     bindE (liftE (tenant_match p (sq_tenant scope))) (\<lambda>_.
     bindE (map_errE refusal_of_store (cs_list (sv_store V) (sq_tenant scope) None)) (\<lambda>listed.
     retE (json_response (jc_list (sv_codec V)
       (filter (\<lambda>m. rf_namespace (md_reference m) = sq_namespace scope) listed)))))))"

definition workload_delete :: "'w handler" where
  "workload_delete V rq ps =
     bindE (liftE (json_body (sv_framework V) (jc_undelete (sv_codec V)) rq)) (\<lambda>request.
     bindE (authorize_ref (sv_framework V) rq (ap_workload (sv_state V)) ''secret:delete'' (dq_reference request)) (\<lambda>p.
     bindE (map_errE refusal_of_store (cs_delete (sv_store V) (dq_reference request)
         (case dq_actor request of Some a \<Rightarrow> a | None \<Rightarrow> pr_subject p))) (\<lambda>_.
     retE (status_response 204))))"

definition workload_prepare :: "'w handler" where
  "workload_prepare V rq ps =
     bindE (liftE (path_params (sv_framework V) ps)) (\<lambda>(tenant, transaction).
     bindE (liftE (json_body (sv_framework V) (jc_unprepare (sv_codec V)) rq)) (\<lambda>request.
     bindE (http_authorize (sv_framework V) rq (ap_workload (sv_state V)) ''secret:prepare'') (\<lambda>p.
     bindE (liftE (tenant_match p tenant)) (\<lambda>_.
     bindE (map_errE refusal_of_store (cs_prepare (sv_store V) tenant transaction (pq_mutations request)
         (pq_actor request))) (\<lambda>_.
     retE (status_response 204))))))"

definition workload_commit :: "'w handler" where
  "workload_commit V rq ps =
     bindE (liftE (path_params (sv_framework V) ps)) (\<lambda>(tenant, transaction).
     bindE (http_authorize (sv_framework V) rq (ap_workload (sv_state V)) ''secret:commit'') (\<lambda>p.
     bindE (liftE (tenant_match p tenant)) (\<lambda>_.
     bindE (map_errE refusal_of_store (cs_commit (sv_store V) tenant transaction)) (\<lambda>_.
     retE (status_response 204)))))"

definition workload_abort :: "'w handler" where
  "workload_abort V rq ps =
     bindE (liftE (path_params (sv_framework V) ps)) (\<lambda>(tenant, transaction).
     bindE (http_authorize (sv_framework V) rq (ap_workload (sv_state V)) ''secret:abort'') (\<lambda>p.
     bindE (liftE (tenant_match p tenant)) (\<lambda>_.
     bindE (map_errE refusal_of_store (cs_abort (sv_store V) tenant transaction)) (\<lambda>_.
     retE (status_response 204)))))"

section \<open>Routes\<close>

definition prepare_transaction_route :: string where
  "prepare_transaction_route = ''/v1/workload/tenants/{tenant}/transactions/{transaction}''"

definition commit_transaction_route :: string where
  "commit_transaction_route = ''/v1/workload/tenants/{tenant}/transactions/{transaction}/commit''"

definition abort_transaction_route :: string where
  "abort_transaction_route = ''/v1/workload/tenants/{tenant}/transactions/{transaction}/abort''"

datatype endpoint =
  ELive | EReady | EMetrics | EOpenapi | EDocs | EUserList | EUserDetail | EUserRevoke | EUserDelete
| EWorkloadPut | EWorkloadGet | EWorkloadExists | EWorkloadList | EWorkloadDelete | EPrepare | ECommit | EAbort

fun handle :: "endpoint \<Rightarrow> 'w handler" where
  "handle ELive = live_h"
| "handle EReady = ready_h"
| "handle EMetrics = metrics_h"
| "handle EOpenapi = openapi_h"
| "handle EDocs = docs_h"
| "handle EUserList = user_list"
| "handle EUserDetail = user_detail"
| "handle EUserRevoke = user_revoke"
| "handle EUserDelete = user_delete"
| "handle EWorkloadPut = workload_put"
| "handle EWorkloadGet = workload_get"
| "handle EWorkloadExists = workload_exists"
| "handle EWorkloadList = workload_list"
| "handle EWorkloadDelete = workload_delete"
| "handle EPrepare = workload_prepare"
| "handle ECommit = workload_commit"
| "handle EAbort = workload_abort"

definition routes :: "(string \<times> hmethod \<times> endpoint) list" where
  "routes =
     [(''/health/live'', MGet, ELive),
      (''/health/ready'', MGet, EReady),
      (''/metrics'', MGet, EMetrics),
      (''/openapi.json'', MGet, EOpenapi),
      (''/docs'', MGet, EDocs),
      (''/v1/user/secrets'', MGet, EUserList),
      (''/v1/user/secrets:detail'', MPost, EUserDetail),
      (''/v1/user/secrets:revoke'', MPost, EUserRevoke),
      (''/v1/user/secrets'', MDelete, EUserDelete),
      (''/v1/workload/secrets'', MPut, EWorkloadPut),
      (''/v1/workload/secrets:get'', MPost, EWorkloadGet),
      (''/v1/workload/secrets:exists'', MPost, EWorkloadExists),
      (''/v1/workload/secrets:list'', MPost, EWorkloadList),
      (''/v1/workload/secrets:delete'', MPost, EWorkloadDelete),
      (prepare_transaction_route, MPut, EPrepare),
      (commit_transaction_route, MPost, ECommit),
      (abort_transaction_route, MPost, EAbort)]"

text \<open>A route for \<open>GET\<close> also answers \<open>HEAD\<close>, as the framework documents.\<close>

definition method_serves :: "hmethod \<Rightarrow> hmethod \<Rightarrow> bool" where
  "method_serves route m \<longleftrightarrow> route = m \<or> route = MGet \<and> m = MHead"

definition dispatch :: "framework \<Rightarrow> http_request \<Rightarrow> http_refusal + (endpoint \<times> string list)" where
  "dispatch W rq =
     (let matching = filter (\<lambda>(p, m, e). fw_match W p (hq_path rq) \<noteq> None) routes
      in if matching = [] then Inl RRouteNotFound
         else case find (\<lambda>(p, m, e). method_serves m (hq_method rq)) matching of
             None \<Rightarrow> Inl RMethodNotAllowed
           | Some (p, m, e) \<Rightarrow> Inr (e, the (fw_match W p (hq_path rq))))"

definition serve :: "'w service \<Rightarrow> http_request \<Rightarrow> 'w \<Rightarrow> http_response \<times> 'w" where
  "serve V rq w =
     (if fw_overlong (sv_framework V) body_limit rq
      then (shape_too_large (sv_codec V) (status_response 413), w)
      else
        (case dispatch (sv_framework V) rq of
           Inl r \<Rightarrow> (shape_too_large (sv_codec V) (refusal_response (sv_codec V) r), w)
         | Inr (e, ps) \<Rightarrow>
             (case handle e V rq ps w of
                (Inr a, w) \<Rightarrow> (shape_too_large (sv_codec V) a, w)
              | (Inl r, w) \<Rightarrow> (shape_too_large (sv_codec V) (refusal_response (sv_codec V) r), w))))"

end
