(* ===== verification/Byte_Codec.thy ===== *)
theory Byte_Codec
  imports Prelude
begin

text \<open>
  Big-endian numbers as bytes: \<open>u64::to_be_bytes\<close>, \<open>i64::to_be_bytes\<close>, \<open>i64::from_be_bytes\<close> and
  \<open>Uuid::as_bytes\<close>, with the facts about lengths, round trips and unambiguous concatenation the
  encodings of the development rest on.
\<close>

fun be_bytes :: "nat \<Rightarrow> nat \<Rightarrow> bytes" where
  "be_bytes 0 n = []"
| "be_bytes (Suc k) n = be_bytes k (n div 256) @ [word_of_nat (n mod 256)]"

definition be_value :: "bytes \<Rightarrow> nat" where
  "be_value bs = foldl (\<lambda>n b. n * 256 + unat b) 0 bs"

definition u64_be :: "nat \<Rightarrow> bytes" where
  "u64_be n = be_bytes 8 n"

definition i64_be :: "int \<Rightarrow> bytes" where
  "i64_be i = be_bytes 8 (unat (word_of_int i :: 64 word))"

definition i64_of_be :: "bytes \<Rightarrow> int" where
  "i64_of_be bs = sint (word_of_nat (be_value bs) :: 64 word)"

definition uuid_bytes :: "128 word \<Rightarrow> bytes" where
  "uuid_bytes u = be_bytes 16 (unat u)"

lemma length_be_bytes [simp]: "length (be_bytes k n) = k"
  by (induction k arbitrary: n) simp_all

lemma unat_byte_mod: "unat (word_of_nat (n mod 256) :: byte) = n mod 256"
  by (simp add: unat_of_nat)

lemma be_value_be_bytes: "be_value (be_bytes k n) = n mod 256 ^ k"
proof (induction k arbitrary: n)
  case 0
  then show ?case by (simp add: be_value_def)
next
  case (Suc k)
  have "be_value (be_bytes (Suc k) n) = be_value (be_bytes k (n div 256)) * 256 + n mod 256"
    by (simp add: be_value_def unat_byte_mod)
  also have "\<dots> = n div 256 mod 256 ^ k * 256 + n mod 256"
    by (simp add: Suc)
  also have "\<dots> = n mod 256 ^ Suc k"
    by (simp add: mod_mult2_eq)
  finally show ?case .
qed

lemma be_bytes_inject:
  "m < 256 ^ k \<Longrightarrow> n < 256 ^ k \<Longrightarrow> be_bytes k m = be_bytes k n \<longleftrightarrow> m = n"
  by (metis be_value_be_bytes mod_less)

lemma length_u64_be [simp]: "length (u64_be n) = 8"
  by (simp add: u64_be_def)

lemma length_i64_be [simp]: "length (i64_be n) = 8"
  by (simp add: i64_be_def)

lemma length_uuid_bytes [simp]: "length (uuid_bytes n) = 16"
  by (simp add: uuid_bytes_def)

lemma u64_be_inject: "m < 2 ^ 64 \<Longrightarrow> n < 2 ^ 64 \<Longrightarrow> u64_be m = u64_be n \<longleftrightarrow> m = n"
  unfolding u64_be_def by (rule be_bytes_inject) simp_all

lemma uuid_bytes_inject [simp]: "uuid_bytes u = uuid_bytes v \<longleftrightarrow> u = v"
proof -
  have "unat u < 256 ^ 16" for u :: "128 word"
    using unsigned_less [of u, where ?'a = nat] by simp
  then show ?thesis
    unfolding uuid_bytes_def by (metis be_bytes_inject unsigned_word_eqI)
qed

lemma i64_of_be_i64_be:
  assumes "- (2 ^ 63) \<le> i" "i < 2 ^ 63"
  shows "i64_of_be (i64_be i) = i"
proof -
  let ?w = "word_of_int i :: 64 word"
  have "unat ?w mod 256 ^ 8 = unat ?w"
    using unsigned_less [of ?w, where ?'a = nat] by simp
  then have "i64_of_be (i64_be i) = sint ?w"
    by (simp add: i64_of_be_def i64_be_def be_value_be_bytes)
  also have "\<dots> = i"
    using assms by (simp add: sint_sbintrunc' signed_take_bit_int_eq_self)
  finally show ?thesis .
qed

text \<open>A length in front of each field makes the concatenation of fields unambiguous.\<close>

lemma prefixed_append_inject:
  assumes "length a < 2 ^ 64" "length b < 2 ^ 64"
    and "u64_be (length a) @ a @ x = u64_be (length b) @ b @ y"
  shows "a = b \<and> x = y"
proof -
  have "u64_be (length a) = u64_be (length b)" "a @ x = b @ y"
    using assms(3) by simp_all
  moreover from this(1) have "length a = length b"
    using assms(1,2) u64_be_inject by blast
  ultimately show ?thesis by simp
qed

end
