(* ===== verification/Crypto.thy ===== *)
theory Crypto
  imports Custody Byte_Codec
begin

text \<open>
  Envelope encryption (\<open>crates/secrets-crypto/src/lib.rs\<close>). AES-256-GCM is another crate's: an
  \<open>aead\<close> is a parameter with its two operations, on a key, a nonce, associated data and a
  message. What \<open>getrandom::fill\<close> answers is the script \<open>entropy\<close>, one entry per call, \<open>None\<close> for
  a failure. The laws of the cipher that theorems use are the predicates \<open>aead_exact\<close> (decryption
  answers exactly the message that encrypts to the ciphertext) and \<open>aead_binds\<close> (no ciphertext is
  authentic for two different associated data, the ideal the documentation of an AEAD states).
\<close>

record aead =
  aead_encrypt :: "bytes \<Rightarrow> bytes \<Rightarrow> bytes \<Rightarrow> bytes \<Rightarrow> bytes option"
  aead_decrypt :: "bytes \<Rightarrow> bytes \<Rightarrow> bytes \<Rightarrow> bytes \<Rightarrow> bytes option"

type_synonym entropy = "bytes option list"

record envelope =
  ev_ciphertext :: bytes
  ev_value_nonce :: bytes
  ev_wrapped_key :: bytes
  ev_wrap_nonce :: bytes
  ev_key_id :: string

datatype crypto_error = InvalidKeyring | Failed | KeyNotFound | CryptoIo

record keyring =
  kr_active :: string
  kr_keys :: "(string, bytes) btree"

record keyring_file =
  kf_active :: string
  kf_keys :: "(string, string) btree"

section \<open>Keyrings\<close>

text \<open>\<open>unjson\<close> is \<open>serde_json::from_slice\<close> at \<open>KeyringFile\<close>, \<open>unbase64\<close> the decoder \<open>STANDARD\<close>.\<close>

fun keyring_entries ::
  "(string \<Rightarrow> bytes option) \<Rightarrow> (string \<times> string) list \<Rightarrow> (string, bytes) btree \<Rightarrow>
   crypto_error + (string, bytes) btree" where
  "keyring_entries unbase64 [] keys = Inr keys"
| "keyring_entries unbase64 ((i, encoded) # rest) keys =
     (case unbase64 encoded of
        None \<Rightarrow> Inl InvalidKeyring
      | Some decoded \<Rightarrow>
          if length decoded = 32 then keyring_entries unbase64 rest (bt_put i decoded keys)
          else Inl InvalidKeyring)"

definition keyring_from_json ::
  "(bytes \<Rightarrow> keyring_file option) \<Rightarrow> (string \<Rightarrow> bytes option) \<Rightarrow> bytes \<Rightarrow> crypto_error + keyring" where
  "keyring_from_json unjson unbase64 bs =
     bindR (ok_or (unjson bs) InvalidKeyring) (\<lambda>input.
     bindR (keyring_entries unbase64 (kf_keys input) []) (\<lambda>keys.
     if \<not> bt_contains (kf_active input) keys then Inl InvalidKeyring
     else Inr \<lparr>kr_active = kf_active input, kr_keys = keys\<rparr>))"

text \<open>\<open>contents\<close> is what \<open>fs::read\<close> answers for the path.\<close>

definition keyring_from_file ::
  "(bytes \<Rightarrow> keyring_file option) \<Rightarrow> (string \<Rightarrow> bytes option) \<Rightarrow> bytes option \<Rightarrow> crypto_error + keyring" where
  "keyring_from_file unjson unbase64 contents =
     bindR (ok_or contents CryptoIo) (keyring_from_json unjson unbase64)"

definition keyring_key_ids :: "keyring \<Rightarrow> string list" where
  "keyring_key_ids K = map fst (kr_keys K)"

section \<open>Associated data\<close>

fun debug_disclosure :: "disclosure \<Rightarrow> string" where
  "debug_disclosure WorkloadOnly = ''WorkloadOnly''"
| "debug_disclosure UserRevealable = ''UserRevealable''"

definition nul :: char where "nul = CHR 0x00"

definition associated_data :: "secret_ref \<Rightarrow> 64 word \<Rightarrow> disclosure \<Rightarrow> bytes" where
  "associated_data r ver d =
     str_bytes (''secrets/v1'' @ nul # rf_tenant r @ nul # rf_namespace r @ nul # rf_key r @
       nul # dec_int (sint ver) @ nul # debug_disclosure d)"

definition batch_associated_data :: "string \<Rightarrow> uuid \<Rightarrow> string \<Rightarrow> bytes" where
  "batch_associated_data tenant transaction actor =
     str_bytes (''secrets/prepared-batch/v1'' @ [nul]) @
     u64_be (length tenant) @ str_bytes tenant @ uuid_bytes transaction @
     u64_be (length actor) @ str_bytes actor"

section \<open>Sealing and opening\<close>

definition entropy_fill :: "nat \<Rightarrow> (entropy, crypto_error, bytes) io" where
  "entropy_fill n e =
     (case e of
        [] \<Rightarrow> (Inl Failed, [])
      | None # e' \<Rightarrow> (Inl Failed, e')
      | Some bs # e' \<Rightarrow> (Inr (take n (bs @ replicate n 0)), e'))"

text \<open>\<open>Aes256Gcm::new_from_slice\<close> refuses a key that is not 32 bytes.\<close>

definition cipher_encrypt ::
  "aead \<Rightarrow> bytes \<Rightarrow> bytes \<Rightarrow> bytes \<Rightarrow> bytes \<Rightarrow> crypto_error + bytes" where
  "cipher_encrypt A key nonce aad msg =
     (if length key \<noteq> 32 then Inl Failed else ok_or (aead_encrypt A key nonce aad msg) Failed)"

definition cipher_decrypt ::
  "aead \<Rightarrow> bytes \<Rightarrow> bytes \<Rightarrow> bytes \<Rightarrow> bytes \<Rightarrow> crypto_error + bytes" where
  "cipher_decrypt A key nonce aad msg =
     (if length key \<noteq> 32 then Inl Failed else ok_or (aead_decrypt A key nonce aad msg) Failed)"

definition seal :: "aead \<Rightarrow> keyring \<Rightarrow> bytes \<Rightarrow> bytes \<Rightarrow> (entropy, crypto_error, envelope) io" where
  "seal A K aad plaintext =
     bindE (liftE (ok_or (map_of (kr_keys K) (kr_active K)) KeyNotFound)) (\<lambda>key.
     bindE (entropy_fill 32) (\<lambda>dek.
     bindE (entropy_fill 12) (\<lambda>value_nonce.
     bindE (entropy_fill 12) (\<lambda>wrap_nonce.
     bindE (liftE (cipher_encrypt A dek value_nonce aad plaintext)) (\<lambda>ciphertext.
     bindE (liftE (cipher_encrypt A key wrap_nonce aad dek)) (\<lambda>wrapped_key.
     retE \<lparr>ev_ciphertext = ciphertext, ev_value_nonce = value_nonce, ev_wrapped_key = wrapped_key,
       ev_wrap_nonce = wrap_nonce, ev_key_id = kr_active K\<rparr>))))))"

definition open_envelope :: "aead \<Rightarrow> keyring \<Rightarrow> bytes \<Rightarrow> envelope \<Rightarrow> crypto_error + bytes" where
  "open_envelope A K aad ev =
     bindR (ok_or (map_of (kr_keys K) (ev_key_id ev)) KeyNotFound) (\<lambda>key.
     bindR (cipher_decrypt A key (ev_wrap_nonce ev) aad (ev_wrapped_key ev)) (\<lambda>dek.
     cipher_decrypt A dek (ev_value_nonce ev) aad (ev_ciphertext ev)))"

definition encrypt ::
  "aead \<Rightarrow> keyring \<Rightarrow> secret_ref \<Rightarrow> 64 word \<Rightarrow> disclosure \<Rightarrow> secret_bytes \<Rightarrow>
   (entropy, crypto_error, envelope) io" where
  "encrypt A K r ver d v = seal A K (associated_data r ver d) v"

definition decrypt ::
  "aead \<Rightarrow> keyring \<Rightarrow> secret_ref \<Rightarrow> 64 word \<Rightarrow> disclosure \<Rightarrow> envelope \<Rightarrow> crypto_error + secret_bytes" where
  "decrypt A K r ver d ev = open_envelope A K (associated_data r ver d) ev"

definition seal_batch ::
  "aead \<Rightarrow> keyring \<Rightarrow> string \<Rightarrow> uuid \<Rightarrow> string \<Rightarrow> bytes \<Rightarrow> (entropy, crypto_error, envelope) io" where
  "seal_batch A K tenant transaction actor batch =
     seal A K (batch_associated_data tenant transaction actor) batch"

definition open_batch ::
  "aead \<Rightarrow> keyring \<Rightarrow> string \<Rightarrow> uuid \<Rightarrow> string \<Rightarrow> envelope \<Rightarrow> crypto_error + bytes" where
  "open_batch A K tenant transaction actor ev =
     open_envelope A K (batch_associated_data tenant transaction actor) ev"

definition reseal_batch ::
  "aead \<Rightarrow> keyring \<Rightarrow> string \<Rightarrow> uuid \<Rightarrow> string \<Rightarrow> envelope \<Rightarrow> (entropy, crypto_error, envelope) io" where
  "reseal_batch A K tenant transaction actor ev =
     (let aad = batch_associated_data tenant transaction actor
      in bindE (liftE (open_envelope A K aad ev)) (\<lambda>batch. seal A K aad batch))"

section \<open>The laws of the cipher\<close>

definition aead_exact :: "aead \<Rightarrow> bool" where
  "aead_exact A \<longleftrightarrow>
     (\<forall>k n a c m. length k = 32 \<longrightarrow> length n = 12 \<longrightarrow>
        (aead_decrypt A k n a c = Some m \<longleftrightarrow> aead_encrypt A k n a m = Some c))"

definition aead_binds :: "aead \<Rightarrow> bool" where
  "aead_binds A \<longleftrightarrow>
     (\<forall>k n a a' c m m'. aead_encrypt A k n a m = Some c \<longrightarrow> aead_encrypt A k n a' m' = Some c \<longrightarrow> a = a')"

text \<open>A keyring as \<open>from_json\<close> makes it.\<close>

definition wf_keyring :: "keyring \<Rightarrow> bool" where
  "wf_keyring K \<longleftrightarrow> bt_wf (kr_keys K) \<and> (\<forall>i k. map_of (kr_keys K) i = Some k \<longrightarrow> length k = 32) \<and>
     map_of (kr_keys K) (kr_active K) \<noteq> None"

definition wf_envelope :: "envelope \<Rightarrow> bool" where
  "wf_envelope ev \<longleftrightarrow> length (ev_value_nonce ev) = 12 \<and> length (ev_wrap_nonce ev) = 12"

text \<open>\<open>sealed A K aad m ev\<close>: \<open>ev\<close> is an envelope of \<open>m\<close> under a key of the ring.\<close>

definition sealed :: "aead \<Rightarrow> keyring \<Rightarrow> bytes \<Rightarrow> bytes \<Rightarrow> envelope \<Rightarrow> bool" where
  "sealed A K aad m ev \<longleftrightarrow> wf_envelope ev \<and>
     (\<exists>key dek. map_of (kr_keys K) (ev_key_id ev) = Some key \<and> length key = 32 \<and> length dek = 32 \<and>
        aead_encrypt A dek (ev_value_nonce ev) aad m = Some (ev_ciphertext ev) \<and>
        aead_encrypt A key (ev_wrap_nonce ev) aad dek = Some (ev_wrapped_key ev))"

section \<open>Keyrings that were read\<close>

lemma keyring_entries_wf:
  assumes "keyring_entries u es keys = Inr keys'" "bt_wf keys"
    and "\<forall>i k. map_of keys i = Some k \<longrightarrow> length k = 32"
  shows "bt_wf keys' \<and> (\<forall>i k. map_of keys' i = Some k \<longrightarrow> length k = 32)"
  using assms
proof (induction u es keys rule: keyring_entries.induct)
  case (2 u i encoded rest keys)
  from "2.prems"(1) obtain decoded where d: "u encoded = Some decoded" "length decoded = 32"
    "keyring_entries u rest (bt_put i decoded keys) = Inr keys'"
    by (simp split: option.splits if_splits)
  have "\<forall>j k. map_of (bt_put i decoded keys) j = Some k \<longrightarrow> length k = 32"
    using "2.prems"(2,3) d(2) by auto
  with "2.IH" [OF d(1,2,3)] "2.prems"(2) show ?case by simp
qed simp

lemma keyring_from_json_wf:
  assumes "keyring_from_json unjson unbase64 bs = Inr K"
  shows "wf_keyring K"
proof (cases "unjson bs")
  case (Some input)
  show ?thesis
  proof (cases "keyring_entries unbase64 (kf_keys input) []")
    case (Inr keys)
    have "bt_wf []" by (simp add: bt_wf_def)
    from keyring_entries_wf [OF Inr this] assms Some Inr show ?thesis
      by (auto simp: keyring_from_json_def wf_keyring_def bt_contains_def split: if_splits)
  qed (use assms Some in \<open>simp add: keyring_from_json_def\<close>)
qed (use assms in \<open>simp add: keyring_from_json_def\<close>)

section \<open>Round trips\<close>

lemma entropy_fill_length: "entropy_fill n e = (Inr b, e') \<Longrightarrow> length b = n"
  by (auto simp: entropy_fill_def split: list.splits option.splits)

lemma wf_keyring_active: "wf_keyring K \<Longrightarrow> \<exists>key. map_of (kr_keys K) (kr_active K) = Some key \<and> length key = 32"
  by (auto simp: wf_keyring_def)

lemma cipher_ok_simps [simp]:
  "cipher_encrypt A k n a m = Inr c \<longleftrightarrow> length k = 32 \<and> aead_encrypt A k n a m = Some c"
  "cipher_decrypt A k n a m = Inr c \<longleftrightarrow> length k = 32 \<and> aead_decrypt A k n a m = Some c"
  by (auto simp: cipher_encrypt_def cipher_decrypt_def)

lemma cipher_decrypt_error: "cipher_decrypt A k n a m = Inl e \<Longrightarrow> e = Failed"
  by (auto simp: cipher_decrypt_def ok_or_def split: if_splits option.splits)

lemma seal_sealed:
  assumes "seal A K aad m e = (Inr ev, e')"
  shows "sealed A K aad m ev \<and> ev_key_id ev = kr_active K"
  using assms
  by (auto simp: seal_def bindE_eq_Inr sealed_def wf_envelope_def dest: entropy_fill_length)

lemma aead_exactD:
  "aead_exact A \<Longrightarrow> length k = 32 \<Longrightarrow> length n = 12 \<Longrightarrow>
   aead_decrypt A k n a c = Some m \<longleftrightarrow> aead_encrypt A k n a m = Some c"
  by (simp add: aead_exact_def)

lemma open_iff_sealed:
  assumes "aead_exact A" "wf_envelope ev" "\<And>i k. map_of (kr_keys K) i = Some k \<Longrightarrow> length k = 32"
  shows "open_envelope A K aad ev = Inr m \<longleftrightarrow> sealed A K aad m ev"
  using assms aead_exactD [OF assms(1)]
  by (fastforce simp: open_envelope_def sealed_def wf_envelope_def)

lemma open_sealed:
  assumes "aead_exact A" "sealed A K aad m ev"
  shows "open_envelope A K aad ev = Inr m"
proof -
  from assms(2) obtain key dek where k: "map_of (kr_keys K) (ev_key_id ev) = Some key" "length key = 32"
    "length dek = 32" "length (ev_wrap_nonce ev) = 12" "length (ev_value_nonce ev) = 12"
    and e: "aead_encrypt A dek (ev_value_nonce ev) aad m = Some (ev_ciphertext ev)"
      "aead_encrypt A key (ev_wrap_nonce ev) aad dek = Some (ev_wrapped_key ev)"
    by (auto simp: sealed_def wf_envelope_def)
  have "aead_decrypt A key (ev_wrap_nonce ev) aad (ev_wrapped_key ev) = Some dek"
    "aead_decrypt A dek (ev_value_nonce ev) aad (ev_ciphertext ev) = Some m"
    using e k aead_exactD [OF assms(1)] by blast+
  then show ?thesis
    by (simp add: open_envelope_def cipher_decrypt_def k)
qed

text \<open>What is sealed under one associated data opens under no other.\<close>

lemma open_elsewhere:
  assumes A: "aead_exact A" "aead_binds A" and s: "sealed A K aad m ev" and "aad' \<noteq> aad"
  shows "open_envelope A K aad' ev = Inl Failed"
proof -
  from s obtain key where key: "map_of (kr_keys K) (ev_key_id ev) = Some key" "length key = 32"
    and n: "length (ev_wrap_nonce ev) = 12"
    and e: "\<exists>dek. aead_encrypt A key (ev_wrap_nonce ev) aad dek = Some (ev_wrapped_key ev)"
    by (auto simp: sealed_def wf_envelope_def)
  have "aead_encrypt A key (ev_wrap_nonce ev) aad' dek \<noteq> Some (ev_wrapped_key ev)" for dek
    using A(2) e \<open>aad' \<noteq> aad\<close> unfolding aead_binds_def by metis
  then have "aead_decrypt A key (ev_wrap_nonce ev) aad' (ev_wrapped_key ev) = None"
    using aead_exactD [OF A(1) key(2) n] by (metis not_None_eq)
  then show ?thesis
    by (simp add: open_envelope_def key cipher_decrypt_def)
qed

section \<open>Associated data is unambiguous\<close>

definition no_nul :: "string \<Rightarrow> bool" where
  "no_nul s \<longleftrightarrow> nul \<notin> set s"

definition wf_ref :: "secret_ref \<Rightarrow> bool" where
  "wf_ref r \<longleftrightarrow> no_nul (rf_tenant r) \<and> no_nul (rf_namespace r) \<and> no_nul (rf_key r)"

lemma dec_int_no_nul: "no_nul (dec_int i)"
  using dec_int_chars [of nul i] by (auto simp: no_nul_def nul_def)

lemma debug_disclosure_no_nul: "no_nul (debug_disclosure d)"
  by (cases d) (simp_all add: no_nul_def nul_def)

lemma debug_disclosure_inject [simp]: "debug_disclosure d = debug_disclosure d' \<longleftrightarrow> d = d'"
  by (cases d; cases d') simp_all

lemma associated_data_join:
  "associated_data r ver d =
     str_bytes (join nul [''secrets/v1'', rf_tenant r, rf_namespace r, rf_key r, dec_int (sint ver),
       debug_disclosure d])"
  by (simp add: associated_data_def)

lemma sint_inject [simp]: "sint (u :: 64 word) = sint v \<longleftrightarrow> u = v"
  by (rule word_eq_iff_signed [symmetric])

lemma associated_data_inject:
  assumes "wf_ref r" "wf_ref r'"
  shows "associated_data r ver d = associated_data r' ver' d' \<longleftrightarrow> r = r' \<and> ver = ver' \<and> d = d'"
proof
  assume e: "associated_data r ver d = associated_data r' ver' d'"
  let ?l = "\<lambda>r ver d. [''secrets/v1'', rf_tenant r, rf_namespace r, rf_key r, dec_int (sint ver), debug_disclosure d]"
  have nn: "\<forall>p \<in> set (?l r ver d). nul \<notin> set p" if "wf_ref r" for r ver d
    using that dec_int_no_nul [of "sint ver"] debug_disclosure_no_nul [of d]
    by (simp add: wf_ref_def no_nul_def nul_def)
  have "split_on nul (join nul (?l r ver d)) = split_on nul (join nul (?l r' ver' d'))"
    using e by (simp add: associated_data_join del: join.simps)
  then have "?l r ver d = ?l r' ver' d'"
    using split_on_join [OF _ nn] assms by (metis list.distinct(1))
  then show "r = r' \<and> ver = ver' \<and> d = d'" by simp
qed simp

lemma batch_associated_data_inject:
  assumes "length t < 2 ^ 64" "length t' < 2 ^ 64" "length a < 2 ^ 64" "length a' < 2 ^ 64"
  shows "batch_associated_data t x a = batch_associated_data t' x' a' \<longleftrightarrow> t = t' \<and> x = x' \<and> a = a'"
proof
  assume e: "batch_associated_data t x a = batch_associated_data t' x' a'"
  then have "u64_be (length t) @ str_bytes t @ uuid_bytes x @ u64_be (length a) @ str_bytes a =
      u64_be (length t') @ str_bytes t' @ uuid_bytes x' @ u64_be (length a') @ str_bytes a'"
    by (simp add: batch_associated_data_def)
  from prefixed_append_inject [OF _ _ this [folded length_str_bytes]]
  have "str_bytes t = str_bytes t'"
    and r: "uuid_bytes x @ u64_be (length a) @ str_bytes a = uuid_bytes x' @ u64_be (length a') @ str_bytes a'"
    using assms by simp_all
  from r have "uuid_bytes x = uuid_bytes x'" "u64_be (length a) @ str_bytes a = u64_be (length a') @ str_bytes a'"
    by simp_all
  then show "t = t' \<and> x = x' \<and> a = a'"
    using \<open>str_bytes t = str_bytes t'\<close> by simp
qed simp

text \<open>No text is associated data both of a version and of a batch.\<close>

lemma associated_data_separate: "associated_data r ver d \<noteq> batch_associated_data t x a"
proof
  assume e: "associated_data r ver d = batch_associated_data t x a"
  have "take 10 (associated_data r ver d) = str_bytes ''secrets/v1''"
    by (simp add: associated_data_def str_bytes_def)
  moreover have "take 10 (batch_associated_data t x a) = str_bytes ''secrets/pr''"
    by (simp add: batch_associated_data_def str_bytes_def)
  ultimately show False using e by (simp only: str_bytes_inject) simp
qed

section \<open>A cipher with the laws\<close>

text \<open>
  The laws are satisfiable: a cipher whose ciphertext spells out the associated data in front of
  the message. It hides nothing and serves only to evaluate the witnesses.
\<close>

fun spell :: "bytes \<Rightarrow> bytes" where
  "spell [] = [0]"
| "spell (b # bs) = 1 # b # spell bs"

fun unspell :: "bytes \<Rightarrow> bytes \<Rightarrow> bytes option" where
  "unspell [] (t # c) = (if t = 0 then Some c else None)"
| "unspell (b # bs) (t # x # c) = (if t = 1 \<and> x = b then unspell bs c else None)"
| "unspell _ _ = None"

definition open_aead :: aead where
  "open_aead =
     \<lparr>aead_encrypt = (\<lambda>k n a m. Some (spell a @ m)), aead_decrypt = (\<lambda>k n a c. unspell a c)\<rparr>"

lemma spell_nonempty [simp]: "spell a \<noteq> []"
  by (cases a) simp_all

lemma unspell_iff: "unspell a c = Some m \<longleftrightarrow> c = spell a @ m"
  by (induction a c rule: unspell.induct) auto

lemma spell_inject: "spell a @ m = spell a' @ m' \<Longrightarrow> a = a'"
proof (induction a arbitrary: a')
  case Nil
  then show ?case by (cases a') auto
next
  case (Cons b bs)
  then show ?case by (cases a') auto
qed

lemma open_aead_laws: "aead_exact open_aead" "aead_binds open_aead"
  by (auto simp: aead_exact_def aead_binds_def open_aead_def unspell_iff dest: spell_inject)

definition example_keyring :: keyring where
  "example_keyring = \<lparr>kr_active = ''v1'', kr_keys = [(''v1'', replicate 32 7)]\<rparr>"

definition example_ref :: secret_ref where
  "example_ref = \<lparr>rf_tenant = ''t'', rf_namespace = ''connectors'', rf_key = ''credential''\<rparr>"

definition example_entropy :: entropy where
  "example_entropy = replicate 9 (Some [1, 2, 3])"

lemma example_encrypt:
  "\<exists>ev e'. encrypt open_aead example_keyring r ver d v example_entropy = (Inr ev, e')"
  by (simp add: encrypt_def seal_def example_keyring_def bindE_apply entropy_fill_def
      example_entropy_def eval_nat_numeral cipher_encrypt_def open_aead_def)

lemma example_seal_batch:
  "\<exists>ev e'. seal_batch open_aead example_keyring t x a b example_entropy = (Inr ev, e')"
  by (simp add: seal_batch_def seal_def example_keyring_def bindE_apply entropy_fill_def
      example_entropy_def eval_nat_numeral cipher_encrypt_def open_aead_def)

lemma example_ref_wf: "wf_ref example_ref"
  by (simp add: wf_ref_def example_ref_def no_nul_def nul_def)

section \<open>Properties\<close>

text \<open>
  C22: what \<open>encrypt\<close> seals, \<open>decrypt\<close> opens to the same value, with the same ring and with any
  ring that still holds the key it was sealed under, whatever key is active there.
\<close>

theorem encrypt_decrypt_roundtrip:
  assumes "aead_exact A" "encrypt A K r ver d v e = (Inr ev, e')"
    and "map_of (kr_keys K') (kr_active K) = map_of (kr_keys K) (kr_active K)"
  shows "decrypt A K' r ver d ev = Inr v"
proof -
  have "sealed A K (associated_data r ver d) v ev" "ev_key_id ev = kr_active K"
    using seal_sealed assms(2) by (auto simp: encrypt_def)
  then have "sealed A K' (associated_data r ver d) v ev"
    using assms(3) by (simp add: sealed_def)
  then show ?thesis
    using open_sealed [OF assms(1)] by (simp add: decrypt_def)
qed

theorem encrypt_decrypt_roundtrip_witness:
  "\<exists>ev. fst (encrypt open_aead example_keyring example_ref 1 WorkloadOnly [1, 2] example_entropy) = Inr ev \<and>
     decrypt open_aead \<lparr>kr_active = ''v2'', kr_keys = [(''v1'', replicate 32 7), (''v2'', replicate 32 8)]\<rparr>
       example_ref 1 WorkloadOnly ev = Inr [1, 2]"
proof -
  obtain ev e' where e: "encrypt open_aead example_keyring example_ref 1 WorkloadOnly [1, 2] example_entropy = (Inr ev, e')"
    using example_encrypt by blast
  have "map_of (kr_keys \<lparr>kr_active = ''v2'', kr_keys = [(''v1'', replicate 32 7), (''v2'', replicate 32 8)]\<rparr>)
      (kr_active example_keyring) = map_of (kr_keys example_keyring) (kr_active example_keyring)"
    by (simp add: example_keyring_def)
  from encrypt_decrypt_roundtrip [OF open_aead_laws(1) e this] e show ?thesis by simp
qed

text \<open>
  C9: an envelope of a secret opens only as what it was sealed as: under another reference,
  another version, another disclosure, or as a prepared batch, \<open>decrypt\<close> fails. References have
  no NUL byte, as \<open>validate_ref\<close> ensures.
\<close>

theorem envelope_bound_to_secret:
  assumes "aead_exact A" "aead_binds A" "wf_ref r" "wf_ref r'"
    and "encrypt A K r ver d v e = (Inr ev, e')"
  shows "((r', ver', d') \<noteq> (r, ver, d) \<longrightarrow> decrypt A K r' ver' d' ev = Inl Failed) \<and>
    open_batch A K tenant transaction actor ev = Inl Failed"
proof -
  have s: "sealed A K (associated_data r ver d) v ev"
    using seal_sealed assms(5) by (auto simp: encrypt_def)
  have "decrypt A K r' ver' d' ev = Inl Failed" if "(r', ver', d') \<noteq> (r, ver, d)"
    unfolding decrypt_def
    by (rule open_elsewhere [OF assms(1,2) s]) (use that associated_data_inject [OF assms(4,3)] in auto)
  moreover have "open_batch A K tenant transaction actor ev = Inl Failed"
    unfolding open_batch_def
    by (rule open_elsewhere [OF assms(1,2) s]) (metis associated_data_separate)
  ultimately show ?thesis by blast
qed

theorem envelope_bound_to_secret_witness:
  "\<exists>ev. fst (encrypt open_aead example_keyring example_ref 1 WorkloadOnly [1, 2] example_entropy) = Inr ev \<and>
     decrypt open_aead example_keyring example_ref 1 UserRevealable ev = Inl Failed"
proof -
  obtain ev e' where e: "encrypt open_aead example_keyring example_ref 1 WorkloadOnly [1, 2] example_entropy = (Inr ev, e')"
    using example_encrypt by blast
  from envelope_bound_to_secret [OF open_aead_laws example_ref_wf example_ref_wf e, of 1 UserRevealable] e
  show ?thesis by simp
qed

text \<open>
  A prepared batch opens only under its tenant, transaction and actor, however these are
  spelled side by side; and resealing it keeps the batch and moves it under the active key.
\<close>

theorem batch_bound_to_transaction:
  assumes "aead_exact A" "aead_binds A"
    and "length t < 2 ^ 64" "length a < 2 ^ 64" "length t' < 2 ^ 64" "length a' < 2 ^ 64"
    and "seal_batch A K t x a batch e = (Inr ev, e')"
  shows "open_batch A K t' x' a' ev = (if (t', x', a') = (t, x, a) then Inr batch else Inl Failed) \<and>
    (\<forall>ev2 e2. reseal_batch A K t x a ev e' = (Inr ev2, e2) \<longrightarrow>
       ev_key_id ev2 = kr_active K \<and> open_batch A K t x a ev2 = Inr batch)"
proof -
  have s: "sealed A K (batch_associated_data t x a) batch ev"
    using seal_sealed assms(7) by (auto simp: seal_batch_def)
  have o: "open_envelope A K (batch_associated_data t x a) ev = Inr batch"
    by (rule open_sealed [OF assms(1) s])
  have "open_batch A K t' x' a' ev = Inl Failed" if "(t', x', a') \<noteq> (t, x, a)"
    unfolding open_batch_def
    by (rule open_elsewhere [OF assms(1,2) s])
      (use that batch_associated_data_inject [OF assms(5,3,6,4)] in auto)
  then have "open_batch A K t' x' a' ev = (if (t', x', a') = (t, x, a) then Inr batch else Inl Failed)"
    using o by (auto simp: open_batch_def)
  moreover have "ev_key_id ev2 = kr_active K \<and> open_batch A K t x a ev2 = Inr batch"
    if "reseal_batch A K t x a ev e' = (Inr ev2, e2)" for ev2 e2
    using that o seal_sealed open_sealed [OF assms(1)]
    by (auto simp: reseal_batch_def Let_def open_batch_def)
  ultimately show ?thesis by blast
qed

theorem batch_bound_to_transaction_witness:
  "\<exists>ev. fst (seal_batch open_aead example_keyring ''a'' 3 ''bc'' [9] example_entropy) = Inr ev \<and>
     open_batch open_aead example_keyring ''ab'' 3 ''c'' ev = Inl Failed"
proof -
  obtain ev e' where e: "seal_batch open_aead example_keyring ''a'' 3 ''bc'' [9] example_entropy = (Inr ev, e')"
    using example_seal_batch by blast
  from batch_bound_to_transaction [OF open_aead_laws _ _ _ _ e, of "''ab''" "''c''" 3] e
  show ?thesis by simp
qed

end
