(* ===== verification/Postgres.thy ===== *)
theory Postgres
  imports Crypto
begin

text \<open>
  The custody store over PostgreSQL (\<open>crates/secrets-postgres/src/lib.rs\<close> and its
  \<open>migrations/\<close>). The tables are lists of rows in \<open>db\<close>; a statement is a function of the clock and
  the tables, with the constraints the migrations declare. The world \<open>pg\<close> has the committed tables,
  the tables an open transaction sees, the database clock (in microseconds) and the system clock
  (in seconds), the entropy and the identifiers drawn, and the script \<open>pg_outcomes\<close> of what becomes
  of each call to the database: \<open>Answered\<close>, \<open>Refused\<close> (an error, nothing done) or \<open>Unacknowledged\<close>
  (done, but the answer is lost). A transaction that is dropped without a commit leaves the
  committed tables as they were. PostgreSQL refuses a NUL byte in any text or JSON it is given.

  The number of a version is a \<open>64 word\<close>, as \<open>i64\<close> wraps in a release build; the constraint on
  \<open>current_version\<close> refuses what would come of it. Comparing an expiry with the clock as \<open>f64\<close> is
  exact for every time a \<open>timestamptz\<close> near ours can have, and is done on integers here.
\<close>

section \<open>Tables\<close>

record secret_row =
  sr_id :: uuid
  sr_ref :: secret_ref
  sr_owner :: string
  sr_disclosure :: string
  sr_state :: string
  sr_version :: "64 word"
  sr_labels :: labels
  sr_created :: int
  sr_updated :: int

record version_row =
  vr_secret :: uuid
  vr_version :: "64 word"
  vr_envelope :: envelope

record prepared_row =
  pr_id :: uuid
  pr_tenant :: string
  pr_actor :: string
  pr_envelope :: envelope
  pr_expires :: int

record audit_row =
  au_tenant :: string
  au_secret :: "uuid option"
  au_actor :: string
  au_action :: string

record db =
  db_secrets :: "secret_row list"
  db_versions :: "version_row list"
  db_prepared :: "prepared_row list"
  db_audit :: "audit_row list"

datatype call_outcome = Answered | Refused | Unacknowledged

datatype sql_error = UniqueViolation | OtherSql

record pg =
  pg_db :: db
  pg_work :: db
  pg_outcomes :: "call_outcome list"
  pg_now :: int
  pg_clock :: int
  pg_entropy :: entropy
  pg_ids :: "nat \<Rightarrow> uuid"
  pg_drawn :: nat

text \<open>
  The store: the key ring and the lifetime of a batch, with what other crates supply, the cipher,
  the JSON text of a batch and its parser, and the text PostgreSQL gives a timestamp.
\<close>

record postgres =
  ps_aead :: aead
  ps_keyring :: keyring
  ps_batch_lifetime :: nat
  ps_json :: "mutation list \<Rightarrow> bytes"
  ps_unjson :: "bytes \<Rightarrow> mutation list option"
  ps_time_text :: "int \<Rightarrow> string"

definition batch_lifetime :: nat where "batch_lifetime = 600"

definition with_batch_lifetime :: "postgres \<Rightarrow> nat \<Rightarrow> postgres" where
  "with_batch_lifetime S n = S\<lparr>ps_batch_lifetime := n\<rparr>"

section \<open>Calls\<close>

type_synonym 'a statement = "int \<Rightarrow> db \<Rightarrow> (sql_error + 'a) \<times> db"

definition run_statement :: "string list \<Rightarrow> 'a statement \<Rightarrow> int \<Rightarrow> db \<Rightarrow> (sql_error + 'a) \<times> db" where
  "run_statement texts stmt now d =
     (if \<not> list_all no_nul texts then (Inl OtherSql, d)
      else case stmt now d of (Inl e, _) \<Rightarrow> (Inl e, d) | (Inr a, d') \<Rightarrow> (Inr a, d'))"

definition next_outcome :: "pg \<Rightarrow> call_outcome \<times> pg" where
  "next_outcome w = (case pg_outcomes w of [] \<Rightarrow> (Answered, w) | oc # ocs \<Rightarrow> (oc, w\<lparr>pg_outcomes := ocs\<rparr>))"

text \<open>A statement on the pool commits by itself; one in a transaction works on the open tables.\<close>

definition execute_pool :: "string list \<Rightarrow> 'a statement \<Rightarrow> (pg, sql_error, 'a) io" where
  "execute_pool texts stmt w =
     (case next_outcome w of
        (Refused, w) \<Rightarrow> (Inl OtherSql, w)
      | (Answered, w) \<Rightarrow>
          (case run_statement texts stmt (pg_now w) (pg_db w) of (r, d) \<Rightarrow> (r, w\<lparr>pg_db := d\<rparr>))
      | (Unacknowledged, w) \<Rightarrow>
          (case run_statement texts stmt (pg_now w) (pg_db w) of (r, d) \<Rightarrow> (Inl OtherSql, w\<lparr>pg_db := d\<rparr>)))"

definition execute_tx :: "string list \<Rightarrow> 'a statement \<Rightarrow> (pg, sql_error, 'a) io" where
  "execute_tx texts stmt w =
     (case next_outcome w of
        (Answered, w) \<Rightarrow>
          (case run_statement texts stmt (pg_now w) (pg_work w) of (r, d) \<Rightarrow> (r, w\<lparr>pg_work := d\<rparr>))
      | (_, w) \<Rightarrow> (Inl OtherSql, w))"

definition unavailable :: "'e \<Rightarrow> store_error" where
  "unavailable e = StoreUnavailable"

definition is_unique :: "sql_error \<Rightarrow> bool" where
  "is_unique e \<longleftrightarrow> e = UniqueViolation"

definition on_pool :: "string list \<Rightarrow> 'a statement \<Rightarrow> (pg, store_error, 'a) io" where
  "on_pool texts stmt = map_errE unavailable (execute_pool texts stmt)"

definition on_tx :: "string list \<Rightarrow> 'a statement \<Rightarrow> (pg, store_error, 'a) io" where
  "on_tx texts stmt = map_errE unavailable (execute_tx texts stmt)"

definition begin_tx :: "(pg, store_error, unit) io" where
  "begin_tx w =
     (case next_outcome w of
        (Answered, w) \<Rightarrow> (Inr (), w\<lparr>pg_work := pg_db w\<rparr>)
      | (_, w) \<Rightarrow> (Inl StoreUnavailable, w))"

definition commit_tx :: "(pg, store_error, unit) io" where
  "commit_tx w =
     (case next_outcome w of
        (Answered, w) \<Rightarrow> (Inr (), w\<lparr>pg_db := pg_work w\<rparr>)
      | (Unacknowledged, w) \<Rightarrow> (Inl StoreUnavailable, w\<lparr>pg_db := pg_work w\<rparr>)
      | (Refused, w) \<Rightarrow> (Inl StoreUnavailable, w))"

definition crypt :: "(entropy, crypto_error, 'a) io \<Rightarrow> (pg, store_error, 'a) io" where
  "crypt m = map_errE (\<lambda>_. StoreCrypto) (zoomE pg_entropy (\<lambda>e w. w\<lparr>pg_entropy := e\<rparr>) m)"

definition now_v7 :: "(pg, store_error, uuid) io" where
  "now_v7 w = (Inr (pg_ids w (pg_drawn w)), w\<lparr>pg_drawn := pg_drawn w + 1\<rparr>)"

section \<open>Statements\<close>

definition ref_texts :: "secret_ref \<Rightarrow> string list" where
  "ref_texts r = [rf_tenant r, rf_namespace r, rf_key r]"

definition label_texts :: "labels \<Rightarrow> string list" where
  "label_texts l = map fst l @ map snd l"

definition select_one :: "string list statement" where
  "select_one now d = (Inr [], d)"

definition select_secret :: "secret_ref \<Rightarrow> secret_row option statement" where
  "select_secret r now d = (Inr (find (\<lambda>s. sr_ref s = r) (db_secrets d)), d)"

definition secret_checks :: "secret_row \<Rightarrow> bool" where
  "secret_checks s \<longleftrightarrow> sr_disclosure s \<in> {''workload_only'', ''user_revealable''} \<and>
     sr_state s \<in> {''active'', ''revoked''} \<and> 0 < sint (sr_version s)"

definition upsert_secret :: "secret_row \<Rightarrow> unit statement" where
  "upsert_secret row now d =
     (if \<not> secret_checks row then (Inl OtherSql, d)
      else if list_ex (\<lambda>s. sr_ref s = sr_ref row) (db_secrets d) then
        (Inr (), d\<lparr>db_secrets := map (\<lambda>s. if sr_ref s = sr_ref row
           then s\<lparr>sr_owner := sr_owner row, sr_disclosure := sr_disclosure row, sr_state := ''active'',
                  sr_version := sr_version row, sr_labels := sr_labels row, sr_updated := now\<rparr>
           else s) (db_secrets d)\<rparr>)
      else if list_ex (\<lambda>s. sr_id s = sr_id row) (db_secrets d) then (Inl UniqueViolation, d)
      else (Inr (), d\<lparr>db_secrets := db_secrets d @ [row\<lparr>sr_created := now, sr_updated := now\<rparr>]\<rparr>))"

definition envelope_checks :: "envelope \<Rightarrow> bool" where
  "envelope_checks ev \<longleftrightarrow> length (ev_value_nonce ev) = 12 \<and> length (ev_wrap_nonce ev) = 12"

definition insert_version :: "version_row \<Rightarrow> unit statement" where
  "insert_version v now d =
     (if \<not> envelope_checks (vr_envelope v) then (Inl OtherSql, d)
      else if list_ex (\<lambda>x. vr_secret x = vr_secret v \<and> vr_version x = vr_version v) (db_versions d)
        then (Inl UniqueViolation, d)
      else if \<not> list_ex (\<lambda>s. sr_id s = vr_secret v) (db_secrets d) then (Inl OtherSql, d)
      else (Inr (), d\<lparr>db_versions := db_versions d @ [v]\<rparr>))"

definition update_version :: "uuid \<Rightarrow> 64 word \<Rightarrow> envelope \<Rightarrow> unit statement" where
  "update_version i ver ev now d =
     (if list_ex (\<lambda>v. vr_secret v = i \<and> vr_version v = ver) (db_versions d) \<and> \<not> envelope_checks ev
      then (Inl OtherSql, d)
      else (Inr (), d\<lparr>db_versions := map (\<lambda>v. if vr_secret v = i \<and> vr_version v = ver
        then v\<lparr>vr_envelope := ev\<rparr> else v) (db_versions d)\<rparr>))"

definition delete_secret :: "secret_ref \<Rightarrow> uuid option statement" where
  "delete_secret r now d =
     (case find (\<lambda>s. sr_ref s = r) (db_secrets d) of
        None \<Rightarrow> (Inr None, d)
      | Some s \<Rightarrow> (Inr (Some (sr_id s)),
          d\<lparr>db_secrets := filter (\<lambda>x. sr_ref x \<noteq> r) (db_secrets d),
            db_versions := filter (\<lambda>v. vr_secret v \<noteq> sr_id s) (db_versions d)\<rparr>))"

definition revoke_secret :: "secret_ref \<Rightarrow> uuid option statement" where
  "revoke_secret r now d =
     (Inr (map_option sr_id (find (\<lambda>s. sr_ref s = r) (db_secrets d))),
      d\<lparr>db_secrets := map (\<lambda>s. if sr_ref s = r then s\<lparr>sr_state := ''revoked'', sr_updated := now\<rparr> else s)
          (db_secrets d)\<rparr>)"

definition select_active :: "secret_ref \<Rightarrow> (secret_row \<times> version_row) option statement" where
  "select_active r now d =
     (Inr (case find (\<lambda>s. sr_ref s = r \<and> sr_state s = ''active'') (db_secrets d) of
         None \<Rightarrow> None
       | Some s \<Rightarrow> map_option (Pair s)
           (find (\<lambda>v. vr_secret v = sr_id s \<and> vr_version v = sr_version s) (db_versions d))), d)"

definition select_exists :: "secret_ref \<Rightarrow> bool statement" where
  "select_exists r now d =
     (Inr (list_ex (\<lambda>s. sr_ref s = r \<and> sr_state s = ''active'') (db_secrets d)), d)"

definition select_list :: "string \<Rightarrow> string option \<Rightarrow> secret_row list statement" where
  "select_list tenant owner now d =
     (Inr (sort_key (\<lambda>s. - sr_updated s)
        (filter (\<lambda>s. rf_tenant (sr_ref s) = tenant \<and> (owner = None \<or> owner = Some (sr_owner s)))
          (db_secrets d))), d)"

definition select_rewrap :: "string \<Rightarrow> (secret_row \<times> version_row) list statement" where
  "select_rewrap active now d =
     (Inr (concat (map (\<lambda>s. map (Pair s)
        (filter (\<lambda>v. vr_secret v = sr_id s \<and> ev_key_id (vr_envelope v) \<noteq> active) (db_versions d)))
        (db_secrets d))), d)"

definition insert_audit :: "audit_row \<Rightarrow> unit statement" where
  "insert_audit a now d = (Inr (), d\<lparr>db_audit := db_audit d @ [a]\<rparr>)"

text \<open>Seconds of the last instant a \<open>timestamptz\<close> holds.\<close>

definition timestamp_end :: int where "timestamp_end = 9224318016000"

definition insert_prepared :: "uuid \<Rightarrow> string \<Rightarrow> string \<Rightarrow> envelope \<Rightarrow> int \<Rightarrow> unit statement" where
  "insert_prepared i tenant actor ev expires now d =
     (if timestamp_end \<le> expires \<or> \<not> envelope_checks ev then (Inl OtherSql, d)
      else if list_ex (\<lambda>p. pr_tenant p = tenant \<and> pr_id p = i) (db_prepared d) then (Inl UniqueViolation, d)
      else (Inr (), d\<lparr>db_prepared := db_prepared d @
        [\<lparr>pr_id = i, pr_tenant = tenant, pr_actor = actor, pr_envelope = ev,
          pr_expires = expires * 1000000\<rparr>]\<rparr>))"

definition delete_expired :: "string option \<Rightarrow> unit statement" where
  "delete_expired tenant now d =
     (Inr (), d\<lparr>db_prepared := filter (\<lambda>p. \<not> ((tenant = None \<or> tenant = Some (pr_tenant p)) \<and>
        pr_expires p \<le> now)) (db_prepared d)\<rparr>)"

definition take_prepared :: "string \<Rightarrow> uuid \<Rightarrow> (prepared_row \<times> int) option statement" where
  "take_prepared tenant i now d =
     (let hit = (\<lambda>p. pr_tenant p = tenant \<and> pr_id p = i \<and> now < pr_expires p)
      in (Inr (map_option (\<lambda>p. (p, now)) (find hit (db_prepared d))),
          d\<lparr>db_prepared := filter (\<lambda>p. \<not> hit p) (db_prepared d)\<rparr>))"

definition delete_prepared :: "string \<Rightarrow> uuid \<Rightarrow> string list \<Rightarrow> nat statement" where
  "delete_prepared tenant i key_ids now d =
     (let hit = (\<lambda>p. pr_tenant p = tenant \<and> pr_id p = i \<and> now < pr_expires p \<and>
            ev_key_id (pr_envelope p) \<in> set key_ids)
      in (Inr (length (filter hit (db_prepared d))),
          d\<lparr>db_prepared := filter (\<lambda>p. \<not> hit p) (db_prepared d)\<rparr>))"

definition select_reseal :: "string \<Rightarrow> prepared_row list statement" where
  "select_reseal active now d =
     (Inr (filter (\<lambda>p. ev_key_id (pr_envelope p) \<noteq> active \<and> now < pr_expires p) (db_prepared d)), d)"

definition update_prepared :: "string \<Rightarrow> uuid \<Rightarrow> envelope \<Rightarrow> unit statement" where
  "update_prepared tenant i ev now d =
     (if list_ex (\<lambda>p. pr_tenant p = tenant \<and> pr_id p = i) (db_prepared d) \<and> \<not> envelope_checks ev
      then (Inl OtherSql, d)
      else (Inr (), d\<lparr>db_prepared := map (\<lambda>p. if pr_tenant p = tenant \<and> pr_id p = i
        then p\<lparr>pr_envelope := ev\<rparr> else p) (db_prepared d)\<rparr>))"

end
