(* ===== verification/Postgres_Store.thy ===== *)
theory Postgres_Store
  imports Postgres
begin

text \<open>
  The operations of the store over PostgreSQL (\<open>impl PostgresStore\<close> and \<open>impl SecretStore for
  PostgresStore\<close> in \<open>crates/secrets-postgres/src/lib.rs\<close>), statement by statement, and the trait
  object they make.
\<close>

section \<open>Helpers of the module\<close>

definition validate_ref :: "secret_ref \<Rightarrow> store_error + unit" where
  "validate_ref r =
     (let parts = [rf_tenant r, rf_namespace r, rf_key r]
      in if list_ex (\<lambda>v. v = [] \<or> nul \<in> set v) parts then Inl (Invalid MalformedReference)
         else if list_ex (\<lambda>v. length v > 255) parts then Inl (Invalid InvalidReference)
         else Inr ())"

fun disclosure_text :: "disclosure \<Rightarrow> string" where
  "disclosure_text WorkloadOnly = ''workload_only''"
| "disclosure_text UserRevealable = ''user_revealable''"

definition read_disclosure :: "string \<Rightarrow> store_error + disclosure" where
  "read_disclosure t =
     (if t = ''workload_only'' then Inr WorkloadOnly
      else if t = ''user_revealable'' then Inr UserRevealable
      else Inl StoreUnavailable)"

definition read_state :: "string \<Rightarrow> store_error + secret_state" where
  "read_state t =
     (if t = ''active'' then Inr Active
      else if t = ''revoked'' then Inr Revoked
      else Inl StoreUnavailable)"

definition row_to_metadata :: "postgres \<Rightarrow> secret_row \<Rightarrow> store_error + custody_metadata" where
  "row_to_metadata S row =
     bindR (read_disclosure (sr_disclosure row)) (\<lambda>d.
     bindR (read_state (sr_state row)) (\<lambda>st.
     Inr \<lparr>md_id = sr_id row, md_reference = sr_ref row, md_owner = sr_owner row, md_disclosure = d,
       md_state = st, md_version = sr_version row, md_labels = sr_labels row,
       md_created = ps_time_text S (sr_created row), md_updated = ps_time_text S (sr_updated row)\<rparr>))"

definition array12 :: "bytes \<Rightarrow> store_error + bytes" where
  "array12 v = (if length v = 12 then Inr v else Inl StoreUnavailable)"

text \<open>The envelope of a row: the two nonces must be 12 bytes.\<close>

definition read_envelope :: "envelope \<Rightarrow> store_error + envelope" where
  "read_envelope ev =
     bindR (array12 (ev_value_nonce ev)) (\<lambda>vn.
     bindR (array12 (ev_wrap_nonce ev)) (\<lambda>wn.
     Inr (ev\<lparr>ev_value_nonce := vn, ev_wrap_nonce := wn\<rparr>)))"

definition unix_seconds :: "(pg, store_error, int) io" where
  "unix_seconds w =
     (if pg_clock w < 0 \<or> 2 ^ 63 \<le> pg_clock w then (Inl StoreUnavailable, w) else (Inr (pg_clock w), w))"

definition saturating_add :: "int \<Rightarrow> int \<Rightarrow> int" where
  "saturating_add a b = max (- (2 ^ 63)) (min (2 ^ 63 - 1) (a + b))"

definition batch_payload :: "postgres \<Rightarrow> int \<Rightarrow> mutation list \<Rightarrow> store_error + bytes" where
  "batch_payload S expires_at ms =
     (let capacity = 8 + length (ps_json S ms);
          payload = i64_be expires_at @ ps_json S ms
      in if length payload \<noteq> capacity then Inl StoreUnavailable else Inr payload)"

definition audit :: "string \<Rightarrow> uuid option \<Rightarrow> string \<Rightarrow> string \<Rightarrow> (pg, store_error, unit) io" where
  "audit tenant i actor act =
     on_tx [tenant, actor, act]
       (insert_audit \<lparr>au_tenant = tenant, au_secret = i, au_actor = actor, au_action = act\<rparr>)"

section \<open>Steps inside a transaction\<close>

definition metadata_tx :: "postgres \<Rightarrow> secret_ref \<Rightarrow> (pg, store_error, custody_metadata) io" where
  "metadata_tx S r =
     bindE (on_tx (ref_texts r) (select_secret r)) (\<lambda>found.
     bindE (liftE (ok_or found StoreNotFound)) (\<lambda>row.
     liftE (row_to_metadata S row)))"

definition put_tx :: "postgres \<Rightarrow> put_secret \<Rightarrow> string \<Rightarrow> (pg, store_error, custody_metadata) io" where
  "put_tx S input actor =
     (let r = pt_reference input in
      bindE (liftE (validate_ref r)) (\<lambda>_.
      bindE (on_tx (ref_texts r) (select_secret r)) (\<lambda>existing.
      bindE (case existing of
               Some row \<Rightarrow> retE (sr_id row, sr_version row + 1)
             | None \<Rightarrow> bindE now_v7 (\<lambda>i. retE (i, 1))) (\<lambda>(i, ver).
      bindE (crypt (encrypt (ps_aead S) (ps_keyring S) r ver (pt_disclosure input) (pt_value input))) (\<lambda>ev.
      bindE (on_tx (ref_texts r @ [pt_owner input] @ label_texts (pt_labels input))
               (upsert_secret \<lparr>sr_id = i, sr_ref = r, sr_owner = pt_owner input,
                  sr_disclosure = disclosure_text (pt_disclosure input), sr_state = ''active'',
                  sr_version = ver, sr_labels = pt_labels input, sr_created = 0, sr_updated = 0\<rparr>)) (\<lambda>_.
      bindE (on_tx [ev_key_id ev]
               (insert_version \<lparr>vr_secret = i, vr_version = ver, vr_envelope = ev\<rparr>)) (\<lambda>_.
      bindE (audit (rf_tenant r) (Some i) actor ''put'') (\<lambda>_.
      metadata_tx S r))))))))"

definition delete_tx :: "postgres \<Rightarrow> secret_ref \<Rightarrow> string \<Rightarrow> (pg, store_error, unit) io" where
  "delete_tx S r actor =
     bindE (on_tx (ref_texts r) (delete_secret r)) (\<lambda>found.
     bindE (liftE (ok_or found StoreNotFound)) (\<lambda>i.
     audit (rf_tenant r) (Some i) actor ''delete''))"

section \<open>The trait's operations\<close>

definition pg_ready :: "postgres \<Rightarrow> (pg, store_error, unit) io" where
  "pg_ready S = bindE (on_pool [] select_one) (\<lambda>_. retE ())"

definition purge_expired :: "postgres \<Rightarrow> string \<Rightarrow> (pg, store_error, unit) io" where
  "purge_expired S tenant = on_pool [tenant] (delete_expired (Some tenant))"

definition pg_put :: "postgres \<Rightarrow> put_secret \<Rightarrow> (pg, store_error, custody_metadata) io" where
  "pg_put S input =
     bindE begin_tx (\<lambda>_.
     bindE (put_tx S input (pt_owner input)) (\<lambda>result.
     bindE commit_tx (\<lambda>_. retE result)))"

definition pg_get :: "postgres \<Rightarrow> secret_ref \<Rightarrow> (pg, store_error, stored_secret) io" where
  "pg_get S r =
     bindE (on_pool (ref_texts r) (select_active r)) (\<lambda>found.
     bindE (liftE (ok_or found StoreNotFound)) (\<lambda>(row, v).
     bindE (liftE (row_to_metadata S row)) (\<lambda>metadata.
     bindE (liftE (read_envelope (vr_envelope v))) (\<lambda>ev.
     bindE (liftE (map_err (\<lambda>_. StoreCrypto)
              (decrypt (ps_aead S) (ps_keyring S) r (md_version metadata) (md_disclosure metadata) ev))) (\<lambda>value.
     retE \<lparr>ss_metadata = metadata, ss_value = value\<rparr>)))))"

definition pg_exists :: "postgres \<Rightarrow> secret_ref \<Rightarrow> (pg, store_error, bool) io" where
  "pg_exists S r = on_pool (ref_texts r) (select_exists r)"

definition pg_delete :: "postgres \<Rightarrow> secret_ref \<Rightarrow> string \<Rightarrow> (pg, store_error, unit) io" where
  "pg_delete S r actor =
     bindE begin_tx (\<lambda>_. bindE (delete_tx S r actor) (\<lambda>_. commit_tx))"

definition pg_revoke :: "postgres \<Rightarrow> secret_ref \<Rightarrow> string \<Rightarrow> (pg, store_error, custody_metadata) io" where
  "pg_revoke S r actor =
     bindE begin_tx (\<lambda>_.
     bindE (on_tx (ref_texts r) (revoke_secret r)) (\<lambda>found.
     bindE (liftE (ok_or found StoreNotFound)) (\<lambda>i.
     bindE (audit (rf_tenant r) (Some i) actor ''revoke'') (\<lambda>_.
     bindE (metadata_tx S r) (\<lambda>result.
     bindE commit_tx (\<lambda>_. retE result))))))"

definition pg_list ::
  "postgres \<Rightarrow> string \<Rightarrow> string option \<Rightarrow> (pg, store_error, custody_metadata list) io" where
  "pg_list S tenant owner =
     bindE (on_pool (tenant # (case owner of None \<Rightarrow> [] | Some x \<Rightarrow> [x])) (select_list tenant owner)) (\<lambda>rows.
     liftE (try_map (row_to_metadata S) rows))"

definition same_tenant :: "string \<Rightarrow> mutation \<Rightarrow> store_error + unit" where
  "same_tenant tenant m =
     (if rf_tenant (mutation_reference m) \<noteq> tenant then Inl (Invalid CrossTenantBatch) else Inr ())"

definition insert_error :: "sql_error \<Rightarrow> store_error" where
  "insert_error e = (if is_unique e then StoreConflict else unavailable e)"

definition pg_prepare ::
  "postgres \<Rightarrow> string \<Rightarrow> uuid \<Rightarrow> mutation list \<Rightarrow> string \<Rightarrow> (pg, store_error, unit) io" where
  "pg_prepare S tenant transaction ms actor =
     (if ms = [] then failE (Invalid EmptyBatch)
      else
        bindE (liftE (try_for_each (same_tenant tenant) ms)) (\<lambda>_.
        bindE unix_seconds (\<lambda>now.
        bindE (if 2 ^ 63 \<le> int (ps_batch_lifetime S) then failE StoreUnavailable
               else retE (int (ps_batch_lifetime S))) (\<lambda>lifetime.
        let expires_at = saturating_add now lifetime in
        bindE (liftE (batch_payload S expires_at ms)) (\<lambda>batch.
        bindE (crypt (seal_batch (ps_aead S) (ps_keyring S) tenant transaction actor batch)) (\<lambda>ev.
        bindE (purge_expired S tenant) (\<lambda>_.
        map_errE insert_error (execute_pool [tenant, actor, ev_key_id ev]
          (insert_prepared transaction tenant actor ev expires_at)))))))))"

definition apply_mutation :: "postgres \<Rightarrow> string \<Rightarrow> mutation \<Rightarrow> (pg, store_error, unit) io" where
  "apply_mutation S actor m =
     (case m of
        Put secret \<Rightarrow> bindE (put_tx S secret actor) (\<lambda>_. retE ())
      | Delete r \<Rightarrow>
          map_errE (\<lambda>e. case e of StoreNotFound \<Rightarrow> DeleteTargetMissing | other \<Rightarrow> other) (delete_tx S r actor))"

definition pg_commit :: "postgres \<Rightarrow> string \<Rightarrow> uuid \<Rightarrow> (pg, store_error, unit) io" where
  "pg_commit S tenant transaction =
     bindE (purge_expired S tenant) (\<lambda>_.
     bindE begin_tx (\<lambda>_.
     bindE (on_tx [tenant] (take_prepared tenant transaction)) (\<lambda>found.
     bindE (liftE (ok_or found StoreNotFound)) (\<lambda>(row, db_now).
     bindE (liftE (read_envelope (pr_envelope row))) (\<lambda>ev.
     bindE (liftE (map_err unavailable
              (open_batch (ps_aead S) (ps_keyring S) tenant transaction (pr_actor row) ev))) (\<lambda>batch.
     bindE (liftE (if length batch < 8 then Inl StoreUnavailable
                   else Inr (take 8 batch, drop 8 batch))) (\<lambda>(sealed_expiry, json).
     if i64_of_be sealed_expiry * 1000000 \<le> db_now
     then bindE commit_tx (\<lambda>_. failE StoreNotFound)
     else
       bindE (liftE (ok_or (ps_unjson S json) StoreUnavailable)) (\<lambda>ms.
       bindE (for_each (apply_mutation S (pr_actor row)) ms) (\<lambda>_.
       bindE (audit tenant None (pr_actor row) ''commit_batch'') (\<lambda>_.
       commit_tx))))))))))"

definition pg_abort :: "postgres \<Rightarrow> string \<Rightarrow> uuid \<Rightarrow> (pg, store_error, unit) io" where
  "pg_abort S tenant transaction =
     bindE (on_pool (tenant # keyring_key_ids (ps_keyring S))
              (delete_prepared tenant transaction (keyring_key_ids (ps_keyring S)))) (\<lambda>affected.
     if affected = 0 then failE StoreNotFound else retE ())"

definition postgres_store :: "postgres \<Rightarrow> pg secret_store" where
  "postgres_store S =
     \<lparr>cs_ready = pg_ready S, cs_put = pg_put S, cs_get = pg_get S, cs_exists = pg_exists S,
      cs_delete = pg_delete S, cs_revoke = pg_revoke S, cs_list = pg_list S,
      cs_prepare = pg_prepare S, cs_commit = pg_commit S, cs_abort = pg_abort S\<rparr>"

section \<open>Rotation of the active key\<close>

definition rewrap_row :: "postgres \<Rightarrow> string \<Rightarrow> secret_row \<times> version_row \<Rightarrow> (pg, store_error, unit) io" where
  "rewrap_row S actor = (\<lambda>(row, v).
     (let r = sr_ref row; ver = vr_version v in
      bindE (liftE (read_disclosure (sr_disclosure row))) (\<lambda>d.
      bindE (liftE (read_envelope (vr_envelope v))) (\<lambda>old.
      bindE (liftE (map_err (\<lambda>_. StoreCrypto) (decrypt (ps_aead S) (ps_keyring S) r ver d old))) (\<lambda>value.
      bindE (crypt (encrypt (ps_aead S) (ps_keyring S) r ver d value)) (\<lambda>new.
      bindE (on_tx [ev_key_id new] (update_version (sr_id row) ver new)) (\<lambda>_.
      audit (rf_tenant r) (Some (sr_id row)) actor ''rewrap'')))))))"

definition reseal_row :: "postgres \<Rightarrow> prepared_row \<Rightarrow> (pg, store_error, unit) io" where
  "reseal_row S row =
     bindE (liftE (read_envelope (pr_envelope row))) (\<lambda>ev.
     bindE (crypt (reseal_batch (ps_aead S) (ps_keyring S) (pr_tenant row) (pr_id row) (pr_actor row) ev)) (\<lambda>new.
     on_tx [pr_tenant row, ev_key_id new] (update_prepared (pr_tenant row) (pr_id row) new)))"

definition reseal_batches :: "postgres \<Rightarrow> (pg, store_error, unit) io" where
  "reseal_batches S =
     bindE begin_tx (\<lambda>_.
     bindE (on_tx [] (delete_expired None)) (\<lambda>_.
     bindE (on_tx [kr_active (ps_keyring S)] (select_reseal (kr_active (ps_keyring S)))) (\<lambda>rows.
     bindE (for_each (reseal_row S) rows) (\<lambda>_. commit_tx))))"

definition rewrap_all :: "postgres \<Rightarrow> string \<Rightarrow> (pg, store_error, nat) io" where
  "rewrap_all S actor =
     bindE begin_tx (\<lambda>_.
     bindE (on_tx [kr_active (ps_keyring S)] (select_rewrap (kr_active (ps_keyring S)))) (\<lambda>rows.
     bindE (for_each (rewrap_row S actor) rows) (\<lambda>_.
     bindE commit_tx (\<lambda>_.
     bindE (reseal_batches S) (\<lambda>_. retE (length rows))))))"

end
