(* ===== verification/Custody_App.thy ===== *)
theory Custody_App
  imports Http_Service Postgres_Store
begin

text \<open>
  The process (\<open>crates/secrets-app/src/main.rs\<close>): a store over the database, an authority for users
  and one for workloads, and the service over the three. The world of the service is the database
  and the rest, \<open>pg \<times> 'n\<close>: the store works on the first and the authorities on the second. What
  the process is given (files, the connection with its migrations, HTTP clients, JSON, the listening
  socket) is the record \<open>machine\<close>.
\<close>

text \<open>\<open>cl_grants\<close> of \<open>ma_cluster\<close> is not used: the file is the one the arguments name.\<close>

record 'n machine =
  ma_file :: "string \<Rightarrow> bytes option"
  ma_unjson_keyring :: "bytes \<Rightarrow> keyring_file option"
  ma_unbase64 :: "string \<Rightarrow> bytes option"
  ma_pool :: "string \<Rightarrow> unit option"
  ma_migrate :: "string \<Rightarrow> unit option"
  ma_aead :: aead
  ma_json :: "mutation list \<Rightarrow> bytes"
  ma_unjson :: "bytes \<Rightarrow> mutation list option"
  ma_time_text :: "int \<Rightarrow> string"
  ma_http :: "'n http_client option"
  ma_parse_verify :: "bytes \<Rightarrow> verify_response option"
  ma_cluster :: "'n cluster"
  ma_encode_review :: "token_review \<Rightarrow> bytes"
  ma_parse_review :: "bytes \<Rightarrow> token_review_status option option"
  ma_reviewer :: "('n, unit, string) io"
  ma_framework :: framework
  ma_codec :: codec
  ma_listen :: "string \<Rightarrow> unit option"

datatype app_error =
  AppKeyring crypto_error | AppDatabase | AppAuthority auth_error | AppListen | AppStore store_error

section \<open>The database and the rest\<close>

definition in_db :: "('s, 'e, 'a) io \<Rightarrow> ('s \<times> 'n, 'e, 'a) io" where
  "in_db = zoomE fst (\<lambda>s w. (s, snd w))"

definition in_net :: "('n, 'e, 'a) io \<Rightarrow> ('s \<times> 'n, 'e, 'a) io" where
  "in_net = zoomE snd (\<lambda>n w. (fst w, n))"

definition store_in_db :: "'s secret_store \<Rightarrow> ('s \<times> 'n) secret_store" where
  "store_in_db M =
     \<lparr>cs_ready = in_db (cs_ready M), cs_put = (\<lambda>p. in_db (cs_put M p)), cs_get = (\<lambda>r. in_db (cs_get M r)),
      cs_exists = (\<lambda>r. in_db (cs_exists M r)), cs_delete = (\<lambda>r a. in_db (cs_delete M r a)),
      cs_revoke = (\<lambda>r a. in_db (cs_revoke M r a)), cs_list = (\<lambda>t o'. in_db (cs_list M t o')),
      cs_prepare = (\<lambda>t i ms a. in_db (cs_prepare M t i ms a)),
      cs_commit = (\<lambda>t i. in_db (cs_commit M t i)), cs_abort = (\<lambda>t i. in_db (cs_abort M t i))\<rparr>"

section \<open>Connecting, serving, rotating\<close>

definition postgres_connect :: "'n machine \<Rightarrow> string \<Rightarrow> keyring \<Rightarrow> app_error + postgres" where
  "postgres_connect A url keyring =
     bindR (ok_or (ma_pool A url) AppDatabase) (\<lambda>_.
     bindR (ok_or (ma_migrate A url) AppDatabase) (\<lambda>_.
     Inr \<lparr>ps_aead = ma_aead A, ps_keyring = keyring, ps_batch_lifetime = batch_lifetime,
       ps_json = ma_json A, ps_unjson = ma_unjson A, ps_time_text = ma_time_text A\<rparr>))"

record database_args =
  da_url :: string
  da_keyring_file :: string

record serve_args =
  sa_database :: database_args
  sa_bind :: string
  sa_identity_origin :: string
  sa_identity_audience :: string
  sa_workload_audience :: string
  sa_workload_grants_file :: string

definition app_connect :: "'n machine \<Rightarrow> database_args \<Rightarrow> app_error + postgres" where
  "app_connect A args =
     bindR (map_err AppKeyring (keyring_from_file (ma_unjson_keyring A) (ma_unbase64 A)
       (ma_file A (da_keyring_file args)))) (\<lambda>keyring.
     postgres_connect A (da_url args) keyring)"

definition app_serve :: "'n machine \<Rightarrow> serve_args \<Rightarrow> app_error + (pg \<times> 'n) service" where
  "app_serve A args =
     bindR (app_connect A (sa_database args)) (\<lambda>S.
     bindR (map_err AppAuthority (identity_new (ma_http A) (sa_identity_origin args) (sa_identity_audience args))) (\<lambda>users.
     bindR (map_err AppAuthority (in_cluster ((ma_cluster A)\<lparr>cl_grants := ma_file A (sa_workload_grants_file args)\<rparr>)
       (sa_workload_audience args))) (\<lambda>workloads.
     let app =
       \<lparr>sv_framework = ma_framework A, sv_codec = ma_codec A,
        sv_state = \<lparr>ap_store = store_in_db (postgres_store S),
          ap_user = (\<lambda>token. in_net (identity_verify (ma_parse_verify A) users token)),
          ap_workload = (\<lambda>token. in_net (kubernetes_verify (ma_encode_review A) (ma_parse_review A)
            (ma_reviewer A) workloads token))\<rparr>\<rparr> in
     bindR (ok_or (ma_listen A (sa_bind args)) AppListen) (\<lambda>_. Inr app))))"

datatype app_command = ServeCommand serve_args | MigrateCommand database_args | RewrapCommand database_args string

datatype 'w app_outcome = Serving "'w service" | Printed string

definition app_main :: "'n machine \<Rightarrow> app_command \<Rightarrow> (pg \<times> 'n, app_error, (pg \<times> 'n) app_outcome) io" where
  "app_main A command =
     (case command of
        ServeCommand args \<Rightarrow> bindE (liftE (app_serve A args)) (\<lambda>V. retE (Serving V))
      | MigrateCommand args \<Rightarrow> bindE (liftE (app_connect A args)) (\<lambda>_. retE (Printed []))
      | RewrapCommand database actor \<Rightarrow>
          bindE (liftE (app_connect A database)) (\<lambda>S.
          bindE (map_errE AppStore (in_db (rewrap_all S actor))) (\<lambda>count.
          retE (Printed (''rewrapped '' @ dec_nat count @ '' version(s)'' @ [CHR 0x0A])))))"

section \<open>The parts keep to their half of the world\<close>

lemma in_db_apply: "in_db m w = (fst (m (fst w)), (snd (m (fst w)), snd w))"
  by (simp add: in_db_def zoomE_apply)

lemma in_net_apply: "in_net m w = (fst (m (snd w)), (fst w, snd (m (snd w))))"
  by (simp add: in_net_def zoomE_apply)

lemma app_serve_Inr:
  assumes "app_serve A args = Inr V"
  obtains S where "app_connect A (sa_database args) = Inr S" "sv_store V = store_in_db (postgres_store S)"
    "sv_framework V = ma_framework A" "sv_codec V = ma_codec A"
    "\<And>t w. fst (snd (ap_user (sv_state V) t w)) = fst w"
    "\<And>t w. fst (snd (ap_workload (sv_state V) t w)) = fst w"
proof -
  from assms obtain S where S: "app_connect A (sa_database args) = Inr S" by (auto simp: app_serve_def)
  with assms show thesis
    by (intro that [of S]) (auto simp: app_serve_def in_net_apply Let_def)
qed

end
