(* ===== verification/Custody_Client.thy ===== *)
theory Custody_Client
  imports Http_Service
begin

text \<open>
  The client of the custody service (\<open>crates/secrets-client/src/lib.rs\<close>): one request per
  operation, with the bearer token of the client, and the classification of the answer. The HTTP
  client, joining a path to the origin, and the text of a UUID are parameters.
\<close>

datatype client_error = ClientTransport | ClientNotFound | ClientRefused | ClientService

record 'w client =
  ct_http :: "'w http_client"
  ct_join :: "string \<Rightarrow> string option"
  ct_token :: string
  ct_codec :: codec
  ct_uuid :: "uuid \<Rightarrow> string"

text \<open>\<open>parse_origin\<close> is the URL parser; it answers how paths are joined to the origin.\<close>

definition client_with_http ::
  "(string \<Rightarrow> (string \<Rightarrow> string option) option) \<Rightarrow> codec \<Rightarrow> (uuid \<Rightarrow> string) \<Rightarrow> 'w http_client \<Rightarrow> string \<Rightarrow>
   string \<Rightarrow> client_error + 'w client" where
  "client_with_http parse_origin J u http origin token =
     bindR (ok_or (parse_origin origin) ClientTransport) (\<lambda>join_path.
     Inr \<lparr>ct_http = http, ct_join = join_path, ct_token = token, ct_codec = J, ct_uuid = u\<rparr>)"

definition classify :: "nat \<Rightarrow> client_error + unit" where
  "classify status =
     (if status_success status then Inr ()
      else if status = 404 then Inl ClientNotFound
      else if 400 \<le> status \<and> status < 500 then Inl ClientRefused
      else Inl ClientService)"

definition client_url :: "'w client \<Rightarrow> string \<Rightarrow> client_error + string" where
  "client_url C path = ok_or (ct_join C path) ClientTransport"

text \<open>A request as the builder makes it: with a JSON body, or with none.\<close>

definition json_request :: "hmethod \<Rightarrow> string \<Rightarrow> bytes \<Rightarrow> http_request" where
  "json_request m url body =
     \<lparr>hq_method = m, hq_path = url, hq_headers = [(''content-type'', ''application/json'')], hq_body = body\<rparr>"

definition bare_request :: "hmethod \<Rightarrow> string \<Rightarrow> http_request" where
  "bare_request m url = \<lparr>hq_method = m, hq_path = url, hq_headers = [], hq_body = []\<rparr>"

definition with_bearer :: "string \<Rightarrow> http_request \<Rightarrow> http_request" where
  "with_bearer token rq = rq\<lparr>hq_headers := hq_headers rq @ [bearer token]\<rparr>"

definition client_json ::
  "'w client \<Rightarrow> (bytes \<Rightarrow> 'a option) \<Rightarrow> http_request \<Rightarrow> ('w, client_error, 'a) io" where
  "client_json C parse request =
     bindE (map_errE (\<lambda>_. ClientTransport) (ct_http C (with_bearer (ct_token C) request))) (\<lambda>response.
     bindE (liftE (classify (hr_status response))) (\<lambda>_.
     liftE (ok_or (parse (hr_body response)) ClientService)))"

definition client_empty :: "'w client \<Rightarrow> http_request \<Rightarrow> ('w, client_error, unit) io" where
  "client_empty C request =
     bindE (map_errE (\<lambda>_. ClientTransport) (ct_http C (with_bearer (ct_token C) request))) (\<lambda>response.
     liftE (classify (hr_status response)))"

section \<open>Operations\<close>

definition client_put :: "'w client \<Rightarrow> put_secret \<Rightarrow> ('w, client_error, custody_metadata) io" where
  "client_put C input =
     bindE (liftE (client_url C ''v1/workload/secrets'')) (\<lambda>u.
     client_json C (jc_unmetadata (ct_codec C)) (json_request MPut u (jc_put (ct_codec C) input)))"

definition client_get :: "'w client \<Rightarrow> secret_ref \<Rightarrow> ('w, client_error, stored_secret) io" where
  "client_get C r =
     bindE (liftE (client_url C ''v1/workload/secrets:get'')) (\<lambda>u.
     client_json C (jc_unstored (ct_codec C)) (json_request MPost u (jc_ref (ct_codec C) r)))"

definition client_exists :: "'w client \<Rightarrow> secret_ref \<Rightarrow> ('w, client_error, bool) io" where
  "client_exists C r =
     bindE (liftE (client_url C ''v1/workload/secrets:exists'')) (\<lambda>u.
     client_json C (jc_unexists (ct_codec C)) (json_request MPost u (jc_ref (ct_codec C) r)))"

definition client_references ::
  "'w client \<Rightarrow> string \<Rightarrow> string \<Rightarrow> ('w, client_error, custody_metadata list) io" where
  "client_references C tenant namespace =
     bindE (liftE (client_url C ''v1/workload/secrets:list'')) (\<lambda>u.
     client_json C (jc_unlist (ct_codec C)) (json_request MPost u
       (jc_scope (ct_codec C) \<lparr>sq_tenant = tenant, sq_namespace = namespace\<rparr>)))"

definition client_delete :: "'w client \<Rightarrow> secret_ref \<Rightarrow> string \<Rightarrow> ('w, client_error, unit) io" where
  "client_delete C r actor =
     bindE (liftE (client_url C ''v1/workload/secrets:delete'')) (\<lambda>u.
     client_empty C (json_request MPost u
       (jc_delete (ct_codec C) \<lparr>dq_reference = r, dq_actor = Some actor\<rparr>)))"

definition transaction_path :: "'w client \<Rightarrow> string \<Rightarrow> uuid \<Rightarrow> string" where
  "transaction_path C tenant i = ''v1/workload/tenants/'' @ tenant @ ''/transactions/'' @ ct_uuid C i"

definition client_prepare ::
  "'w client \<Rightarrow> string \<Rightarrow> uuid \<Rightarrow> string \<Rightarrow> mutation list \<Rightarrow> ('w, client_error, unit) io" where
  "client_prepare C tenant i actor ms =
     bindE (liftE (client_url C (transaction_path C tenant i))) (\<lambda>u.
     client_empty C (json_request MPut u
       (jc_prepare (ct_codec C) \<lparr>pq_actor = actor, pq_mutations = ms\<rparr>)))"

definition client_commit :: "'w client \<Rightarrow> string \<Rightarrow> uuid \<Rightarrow> ('w, client_error, unit) io" where
  "client_commit C tenant i =
     bindE (liftE (client_url C (transaction_path C tenant i @ ''/commit''))) (\<lambda>u.
     client_empty C (bare_request MPost u))"

definition client_abort :: "'w client \<Rightarrow> string \<Rightarrow> uuid \<Rightarrow> ('w, client_error, unit) io" where
  "client_abort C tenant i =
     bindE (liftE (client_url C (transaction_path C tenant i @ ''/abort''))) (\<lambda>u.
     client_empty C (bare_request MPost u))"

end
