(* ===== verification/Remote_Backend.thy ===== *)
theory Remote_Backend
  imports Custody_Client Storage_Orders
begin

text \<open>
  The custody service as a storage backend (\<open>crates/secrets-remote/src/lib.rs\<close>): how an address maps
  to a custody reference and back, the bound on values, and the storage port over the client. The
  simple text of a UUID and the size of JSON are parameters, and so are the identifiers drawn for
  transactions.
\<close>

definition service_body_limit :: nat where "service_body_limit = 1024 * 1024"

definition remote_reference :: "address \<Rightarrow> secret_ref" where
  "remote_reference a =
     \<lparr>rf_tenant = scope_str (sc_tenant (ad_scope a)), rf_namespace = scope_str (sc_namespace (ad_scope a)),
      rf_key = scope_str (sc_user (ad_scope a)) @ ''/'' @ name_str (ad_name a)\<rparr>"

definition remote_address :: "scope \<Rightarrow> secret_ref \<Rightarrow> address option" where
  "remote_address s r =
     (if rf_tenant r \<noteq> scope_str (sc_tenant s) \<or> rf_namespace r \<noteq> scope_str (sc_namespace s) then None
      else case split_once CHR ''/'' (rf_key r) of
          None \<Rightarrow> None
        | Some (user, name) \<Rightarrow>
            if user \<noteq> scope_str (sc_user s) then None
            else map_option (\<lambda>n. \<lparr>ad_scope = s, ad_name = n\<rparr>) (res_ok (secret_name_parse name)))"

definition remote_put :: "secret_ref \<Rightarrow> string \<Rightarrow> bytes \<Rightarrow> disclosure \<Rightarrow> labels \<Rightarrow> put_secret" where
  "remote_put r owner v d l =
     \<lparr>pt_reference = r, pt_owner = owner, pt_value = v, pt_disclosure = d, pt_labels = l\<rparr>"

section \<open>The bound on values\<close>

text \<open>\<open>to_vec\<close> is the JSON text of a request of the transaction route, where it can be written.\<close>

definition envelope_bytes :: "(prepare_request \<Rightarrow> bytes option) \<Rightarrow> nat" where
  "envelope_bytes to_vec =
     (let seg = replicate max_segment_bytes CHR ''a'';
          name = replicate max_name_bytes CHR ''a'';
          widest = \<lparr>rf_tenant = seg, rf_namespace = seg, rf_key = seg @ ''/'' @ name\<rparr>
      in case to_vec \<lparr>pq_actor = seg, pq_mutations =
             [Put (remote_put widest seg [] WorkloadOnly []), Delete widest]\<rparr> of
           Some body \<Rightarrow> length body
         | None \<Rightarrow> service_body_limit)"

definition remote_max_value_bytes :: "(prepare_request \<Rightarrow> bytes option) \<Rightarrow> nat" where
  "remote_max_value_bytes to_vec = (service_body_limit - envelope_bytes to_vec) div 4 * 3"

section \<open>The backend\<close>

fun remote_refusal :: "client_error \<Rightarrow> storage_error" where
  "remote_refusal ClientTransport = Unavailable"
| "remote_refusal ClientService = Unavailable"
| "remote_refusal ClientNotFound = NotFound"
| "remote_refusal ClientRefused = Denied"

record 'w remote =
  rm_client :: "'w client"
  rm_to_vec :: "prepare_request \<Rightarrow> bytes option"
  rm_simple :: "uuid \<Rightarrow> string"
  rm_now_v7 :: "('w, storage_error, uuid) io"

definition remote_version :: "'w remote \<Rightarrow> custody_metadata \<Rightarrow> version" where
  "remote_version R m = Version (rm_simple R (md_id m) @ ''.'' @ dec_int (sint (md_version m)))"

definition remote_owner :: "address \<Rightarrow> string" where
  "remote_owner a = scope_str (sc_user (ad_scope a))"

definition remote_read :: "'w remote \<Rightarrow> target \<Rightarrow> ('w, storage_error, revealed) io" where
  "remote_read R t =
     (let r = remote_reference (tg_address t) in
      bindE (map_errE remote_refusal (client_get (rm_client R) r)) (\<lambda>stored.
      if md_reference (ss_metadata stored) \<noteq> r then failE NotFound
      else
        bindE (liftE (map_err (\<lambda>_. Unavailable) (secret_value_new (ss_value stored)))) (\<lambda>v.
        retE \<lparr>rv_value = v, rv_version = Some (remote_version R (ss_metadata stored))\<rparr>)))"

definition remote_write :: "'w remote \<Rightarrow> target \<Rightarrow> secret_value \<Rightarrow> ('w, storage_error, written) io" where
  "remote_write R t v =
     (if length (expose v) > remote_max_value_bytes (rm_to_vec R) then failE TooLarge
      else
        bindE (map_errE remote_refusal (client_put (rm_client R)
          (remote_put (remote_reference (tg_address t)) (remote_owner (tg_address t)) (expose v) WorkloadOnly [])))
        (\<lambda>metadata.
        let ver = Some (remote_version R metadata) in
        retE (if md_version metadata = 1 then Created ver else Replaced ver)))"

definition remote_delete :: "'w remote \<Rightarrow> target \<Rightarrow> ('w, storage_error, unit) io" where
  "remote_delete R t =
     map_errE remote_refusal (client_delete (rm_client R) (remote_reference (tg_address t))
       (remote_owner (tg_address t)))"

definition remote_commit :: "'w remote \<Rightarrow> string \<Rightarrow> uuid \<Rightarrow> ('w, storage_error, unit) io" where
  "remote_commit R tenant i w =
     (case client_commit (rm_client R) tenant i w of
        (Inr _, w) \<Rightarrow> (Inr (), w)
      | (Inl e, w) \<Rightarrow> (Inl (remote_refusal e), snd (client_abort (rm_client R) tenant i w)))"

definition remote_rename :: "'w remote \<Rightarrow> target \<Rightarrow> secret_name \<Rightarrow> ('w, storage_error, unit) io" where
  "remote_rename R t n =
     (let source = remote_reference (tg_address t);
          dest = remote_reference \<lparr>ad_scope = ad_scope (tg_address t), ad_name = n\<rparr>;
          owner = remote_owner (tg_address t) in
      bindE (map_errE remote_refusal (client_get (rm_client R) source)) (\<lambda>stored.
      bindE (map_errE remote_refusal (client_exists (rm_client R) dest)) (\<lambda>taken.
      if taken then failE Conflict
      else
        let mutations =
          [Put (remote_put dest owner (ss_value stored) (md_disclosure (ss_metadata stored))
             (md_labels (ss_metadata stored))),
           Delete source] in
        bindE (rm_now_v7 R) (\<lambda>i.
        bindE (map_errE remote_refusal (client_prepare (rm_client R) (rf_tenant source) i owner mutations)) (\<lambda>_.
        remote_commit R (rf_tenant source) i)))))"

definition remote_row :: "'w remote \<Rightarrow> scope \<Rightarrow> custody_metadata \<Rightarrow> secret_metadata option" where
  "remote_row R s m =
     map_option (\<lambda>a. \<lparr>sm_address = a, sm_version = Some (remote_version R m)\<rparr>) (remote_address s (md_reference m))"

definition remote_list :: "'w remote \<Rightarrow> scope \<Rightarrow> ('w, storage_error, secret_metadata list) io" where
  "remote_list R s =
     bindE (map_errE remote_refusal (client_references (rm_client R) (scope_str (sc_tenant s))
       (scope_str (sc_namespace s)))) (\<lambda>listed.
     retE (sort (List.map_filter (remote_row R s)
       (filter (\<lambda>m. md_state m = Active) listed))))"

definition remote_storage :: "'w remote \<Rightarrow> 'w storage" where
  "remote_storage R =
     \<lparr>capabilities = kind_capabilities Remote, requires_binding = False,
      st_read = remote_read R, st_write = remote_write R, st_delete = remote_delete R,
      st_rename = remote_rename R, st_list = remote_list R\<rparr>"

end
