(* ===== verification/Custody_Contract.thy ===== *)
theory Custody_Contract
  imports Custody
begin

text \<open>
  What a custody store promises, independently of how it is kept: a vault from references to
  entries, the prepared batches, and the log of audit events. \<open>custody_spec now c q r c'\<close> says
  that at the time \<open>now\<close> the request \<open>q\<close> may be answered \<open>r\<close> on the contents \<open>c\<close>, which then are
  \<open>c'\<close>. The locale \<open>custody_contract\<close> is the contract of a store, a simulation of that relation;
  what a caller may rely on is proved once in it.
\<close>

record entry =
  en_owner :: string
  en_disclosure :: disclosure
  en_state :: secret_state
  en_version :: int
  en_labels :: labels
  en_value :: secret_bytes

record batch =
  ba_actor :: string
  ba_mutations :: "mutation list"
  ba_expires :: int

record custody =
  cu_vault :: "secret_ref \<Rightarrow> entry option"
  cu_batches :: "string \<times> uuid \<Rightarrow> batch option"
  cu_audit :: "(string \<times> string \<times> string) list"

datatype custody_request =
  PutReq put_secret
| GetReq secret_ref
| ExistsReq secret_ref
| RemoveReq secret_ref string
| RevokeReq secret_ref string
| CustodyListReq string "string option"
| PrepareReq string uuid "mutation list" string
| CommitReq string uuid
| AbortReq string uuid

datatype custody_answer =
  MetadataAns "store_error + custody_metadata"
| GetAns "store_error + stored_secret"
| ExistsAns "store_error + bool"
| DoneAns "store_error + unit"
| CustodyListAns "store_error + custody_metadata list"

fun perform_custody :: "'w secret_store \<Rightarrow> custody_request \<Rightarrow> 'w \<Rightarrow> custody_answer \<times> 'w" where
  "perform_custody M (PutReq p) w = apfst MetadataAns (cs_put M p w)"
| "perform_custody M (GetReq r) w = apfst GetAns (cs_get M r w)"
| "perform_custody M (ExistsReq r) w = apfst ExistsAns (cs_exists M r w)"
| "perform_custody M (RemoveReq r a) w = apfst DoneAns (cs_delete M r a w)"
| "perform_custody M (RevokeReq r a) w = apfst MetadataAns (cs_revoke M r a w)"
| "perform_custody M (CustodyListReq t x) w = apfst CustodyListAns (cs_list M t x w)"
| "perform_custody M (PrepareReq t i ms a) w = apfst DoneAns (cs_prepare M t i ms a w)"
| "perform_custody M (CommitReq t i) w = apfst DoneAns (cs_commit M t i w)"
| "perform_custody M (AbortReq t i) w = apfst DoneAns (cs_abort M t i w)"

fun refusal :: "custody_request \<Rightarrow> store_error \<Rightarrow> custody_answer" where
  "refusal (PutReq p) e = MetadataAns (Inl e)"
| "refusal (GetReq r) e = GetAns (Inl e)"
| "refusal (ExistsReq r) e = ExistsAns (Inl e)"
| "refusal (RemoveReq r a) e = DoneAns (Inl e)"
| "refusal (RevokeReq r a) e = MetadataAns (Inl e)"
| "refusal (CustodyListReq t x) e = CustodyListAns (Inl e)"
| "refusal (PrepareReq t i ms a) e = DoneAns (Inl e)"
| "refusal (CommitReq t i) e = DoneAns (Inl e)"
| "refusal (AbortReq t i) e = DoneAns (Inl e)"

section \<open>The vault\<close>

text \<open>An empty or NUL-bearing part is malformed wherever it is; otherwise a part over 255 bytes is
  invalid.\<close>

definition ref_refusal :: "secret_ref \<Rightarrow> invalid_input option" where
  "ref_refusal r =
     (let parts = {rf_tenant r, rf_namespace r, rf_key r}
      in if \<exists>p \<in> parts. p = [] \<or> CHR 0x00 \<in> set p then Some MalformedReference
         else if \<exists>p \<in> parts. 255 < length p then Some InvalidReference
         else None)"

definition put_entry :: "put_secret \<Rightarrow> entry option \<Rightarrow> entry" where
  "put_entry p old =
     \<lparr>en_owner = pt_owner p, en_disclosure = pt_disclosure p, en_state = Active,
      en_version = (case old of None \<Rightarrow> 1 | Some e \<Rightarrow> en_version e + 1),
      en_labels = pt_labels p, en_value = pt_value p\<rparr>"

definition audited :: "string \<Rightarrow> string \<Rightarrow> string \<Rightarrow> custody \<Rightarrow> custody" where
  "audited tenant actor act c = c\<lparr>cu_audit := cu_audit c @ [(tenant, actor, act)]\<rparr>"

definition put_into :: "put_secret \<Rightarrow> string \<Rightarrow> custody \<Rightarrow> custody" where
  "put_into p actor c =
     audited (rf_tenant (pt_reference p)) actor ''put''
       (c\<lparr>cu_vault := (cu_vault c)(pt_reference p \<mapsto> put_entry p (cu_vault c (pt_reference p)))\<rparr>)"

definition delete_from :: "secret_ref \<Rightarrow> string \<Rightarrow> custody \<Rightarrow> custody" where
  "delete_from r actor c =
     audited (rf_tenant r) actor ''delete'' (c\<lparr>cu_vault := (cu_vault c)(r := None)\<rparr>)"

definition revoke_in :: "secret_ref \<Rightarrow> string \<Rightarrow> custody \<Rightarrow> custody" where
  "revoke_in r actor c =
     audited (rf_tenant r) actor ''revoke''
       (c\<lparr>cu_vault := (cu_vault c)(r := map_option (en_state_update (\<lambda>_. Revoked)) (cu_vault c r))\<rparr>)"

fun apply_to :: "string \<Rightarrow> mutation \<Rightarrow> custody \<Rightarrow> store_error + custody" where
  "apply_to actor (Put p) c =
     (case ref_refusal (pt_reference p) of
        Some i \<Rightarrow> Inl (Invalid i)
      | None \<Rightarrow> Inr (put_into p actor c))"
| "apply_to actor (Delete r) c =
     (if cu_vault c r = None then Inl DeleteTargetMissing else Inr (delete_from r actor c))"

fun apply_all :: "string \<Rightarrow> mutation list \<Rightarrow> custody \<Rightarrow> store_error + custody" where
  "apply_all actor [] c = Inr c"
| "apply_all actor (m # ms) c = bindR (apply_to actor m c) (apply_all actor ms)"

definition describes :: "custody_metadata \<Rightarrow> secret_ref \<Rightarrow> entry \<Rightarrow> bool" where
  "describes md r e \<longleftrightarrow> md_reference md = r \<and> md_owner md = en_owner e \<and>
     md_disclosure md = en_disclosure e \<and> md_state md = en_state e \<and>
     sint (md_version md) = en_version e \<and> md_labels md = en_labels e"

text \<open>A batch whose lifetime is not over; and the loss of batches whose lifetime is.\<close>

definition live :: "int \<Rightarrow> custody \<Rightarrow> string \<times> uuid \<Rightarrow> batch option" where
  "live now c k =
     (case cu_batches c k of
        None \<Rightarrow> None
      | Some b \<Rightarrow> if now < ba_expires b * 1000000 then Some b else None)"

definition forgets :: "int \<Rightarrow> custody \<Rightarrow> custody \<Rightarrow> bool" where
  "forgets now c c' \<longleftrightarrow> cu_vault c' = cu_vault c \<and> cu_audit c' = cu_audit c \<and>
     (\<forall>k. cu_batches c' k = cu_batches c k \<or> cu_batches c' k = None \<and> live now c k = None)"

definition without_batch :: "string \<times> uuid \<Rightarrow> custody \<Rightarrow> custody" where
  "without_batch k c = c\<lparr>cu_batches := (cu_batches c)(k := None)\<rparr>"

section \<open>The specification\<close>

inductive custody_core :: "int \<Rightarrow> custody \<Rightarrow> custody_request \<Rightarrow> custody_answer \<Rightarrow> custody \<Rightarrow> bool" for now c where
  core_fault: "e = StoreUnavailable \<or> e = StoreCrypto \<Longrightarrow> custody_core now c q (refusal q e) c"
| core_put: "ref_refusal (pt_reference p) = None \<Longrightarrow>
    describes md (pt_reference p) (put_entry p (cu_vault c (pt_reference p))) \<Longrightarrow>
    custody_core now c (PutReq p) (MetadataAns (Inr md)) (put_into p (pt_owner p) c)"
| core_put_refused: "ref_refusal (pt_reference p) = Some i \<Longrightarrow>
    custody_core now c (PutReq p) (MetadataAns (Inl (Invalid i))) c"
| core_get: "cu_vault c r = Some e \<Longrightarrow> en_state e = Active \<Longrightarrow> describes md r e \<Longrightarrow>
    custody_core now c (GetReq r) (GetAns (Inr \<lparr>ss_metadata = md, ss_value = en_value e\<rparr>)) c"
| core_get_none: "cu_vault c r = None \<or> (\<exists>e. cu_vault c r = Some e \<and> en_state e = Revoked) \<Longrightarrow>
    custody_core now c (GetReq r) (GetAns (Inl StoreNotFound)) c"
| core_exists: "b = (\<exists>e. cu_vault c r = Some e \<and> en_state e = Active) \<Longrightarrow>
    custody_core now c (ExistsReq r) (ExistsAns (Inr b)) c"
| core_delete: "cu_vault c r \<noteq> None \<Longrightarrow>
    custody_core now c (RemoveReq r a) (DoneAns (Inr ())) (delete_from r a c)"
| core_delete_none: "cu_vault c r = None \<Longrightarrow>
    custody_core now c (RemoveReq r a) (DoneAns (Inl StoreNotFound)) c"
| core_revoke: "cu_vault c r = Some e \<Longrightarrow> describes md r (e\<lparr>en_state := Revoked\<rparr>) \<Longrightarrow>
    custody_core now c (RevokeReq r a) (MetadataAns (Inr md)) (revoke_in r a c)"
| core_revoke_none: "cu_vault c r = None \<Longrightarrow>
    custody_core now c (RevokeReq r a) (MetadataAns (Inl StoreNotFound)) c"
| core_list: "distinct (map md_reference rows) \<Longrightarrow>
    (\<forall>md \<in> set rows. \<exists>e. cu_vault c (md_reference md) = Some e \<and> describes md (md_reference md) e) \<Longrightarrow>
    set (map md_reference rows) =
      {r. rf_tenant r = t \<and> (\<exists>e. cu_vault c r = Some e \<and> (x = None \<or> x = Some (en_owner e)))} \<Longrightarrow>
    custody_core now c (CustodyListReq t x) (CustodyListAns (Inr rows)) c"
| core_prepare_empty: "custody_core now c (PrepareReq t i [] a) (DoneAns (Inl (Invalid EmptyBatch))) c"
| core_prepare_cross: "\<exists>m \<in> set ms. rf_tenant (mutation_reference m) \<noteq> t \<Longrightarrow>
    custody_core now c (PrepareReq t i ms a) (DoneAns (Inl (Invalid CrossTenantBatch))) c"
| core_prepare: "ms \<noteq> [] \<Longrightarrow> \<forall>m \<in> set ms. rf_tenant (mutation_reference m) = t \<Longrightarrow>
    live now c (t, i) = None \<Longrightarrow>
    custody_core now c (PrepareReq t i ms a) (DoneAns (Inr ()))
      (c\<lparr>cu_batches := (cu_batches c)((t, i) \<mapsto> \<lparr>ba_actor = a, ba_mutations = ms, ba_expires = x\<rparr>)\<rparr>)"
| core_prepare_again: "live now c (t, i) \<noteq> None \<Longrightarrow>
    custody_core now c (PrepareReq t i ms a) (DoneAns (Inl StoreConflict)) c"
| core_commit: "live now c (t, i) = Some b \<Longrightarrow> apply_all (ba_actor b) (ba_mutations b) c = Inr c' \<Longrightarrow>
    custody_core now c (CommitReq t i) (DoneAns (Inr ()))
      (audited t (ba_actor b) ''commit_batch'' (without_batch (t, i) c'))"
| core_commit_refused: "live now c (t, i) = Some b \<Longrightarrow>
    apply_all (ba_actor b) (ba_mutations b) c = Inl e \<Longrightarrow>
    custody_core now c (CommitReq t i) (DoneAns (Inl e)) c"
| core_commit_none: "live now c (t, i) = None \<Longrightarrow>
    custody_core now c (CommitReq t i) (DoneAns (Inl StoreNotFound)) c"
| core_abort: "live now c (t, i) \<noteq> None \<Longrightarrow>
    custody_core now c (AbortReq t i) (DoneAns (Inr ())) (without_batch (t, i) c)"
| core_abort_none: "live now c (t, i) = None \<Longrightarrow>
    custody_core now c (AbortReq t i) (DoneAns (Inl StoreNotFound)) c"

inductive_cases core_putE: "custody_core now c (PutReq p) a c'"
inductive_cases core_getE: "custody_core now c (GetReq r) a c'"
inductive_cases core_existsE: "custody_core now c (ExistsReq r) a c'"
inductive_cases core_deleteE: "custody_core now c (RemoveReq r x) a c'"
inductive_cases core_revokeE: "custody_core now c (RevokeReq r x) a c'"
inductive_cases core_listE: "custody_core now c (CustodyListReq t x) a c'"
inductive_cases core_prepareE: "custody_core now c (PrepareReq t i ms x) a c'"
inductive_cases core_commitE: "custody_core now c (CommitReq t i) a c'"
inductive_cases core_abortE: "custody_core now c (AbortReq t i) a c'"

text \<open>A store may drop, with any request, batches whose lifetime is over.\<close>

definition custody_spec :: "int \<Rightarrow> custody \<Rightarrow> custody_request \<Rightarrow> custody_answer \<Rightarrow> custody \<Rightarrow> bool" where
  "custody_spec now c q r c' \<longleftrightarrow> (\<exists>c1. custody_core now c q r c1 \<and> forgets now c1 c')"

lemma forgets_refl [simp]: "forgets now c c"
  by (simp add: forgets_def)

lemma custody_specI: "custody_core now c q r c1 \<Longrightarrow> forgets now c1 c' \<Longrightarrow> custody_spec now c q r c'"
  unfolding custody_spec_def by blast

lemma core_spec: "custody_core now c q r c' \<Longrightarrow> custody_spec now c q r c'"
  by (erule custody_specI) simp

lemma forgets_vault: "forgets now c c' \<Longrightarrow> cu_vault c' = cu_vault c"
  by (simp add: forgets_def)

lemma forgetsD:
  "forgets now c c' \<Longrightarrow>
   cu_batches c' k = cu_batches c k \<or> cu_batches c' k = None \<and> live now c k = None"
  by (cases k) (simp add: forgets_def)

lemma forgets_live: "forgets now c c' \<Longrightarrow> live now c' k = live now c k"
proof -
  assume "forgets now c c'"
  from forgetsD [OF this, of k] show ?thesis
    by (elim disjE conjE) (simp_all add: live_def)
qed

section \<open>Tenants\<close>

fun request_tenant :: "custody_request \<Rightarrow> string" where
  "request_tenant (PutReq p) = rf_tenant (pt_reference p)"
| "request_tenant (GetReq r) = rf_tenant r"
| "request_tenant (ExistsReq r) = rf_tenant r"
| "request_tenant (RemoveReq r a) = rf_tenant r"
| "request_tenant (RevokeReq r a) = rf_tenant r"
| "request_tenant (CustodyListReq t x) = t"
| "request_tenant (PrepareReq t i ms a) = t"
| "request_tenant (CommitReq t i) = t"
| "request_tenant (AbortReq t i) = t"

text \<open>Every prepared mutation is of the tenant the batch is prepared in.\<close>

definition batches_in_tenant :: "custody \<Rightarrow> bool" where
  "batches_in_tenant c \<longleftrightarrow>
     (\<forall>k b. cu_batches c k = Some b \<longrightarrow> (\<forall>m \<in> set (ba_mutations b). rf_tenant (mutation_reference m) = fst k))"

lemma apply_all_isolated:
  "apply_all a ms c = Inr c' \<Longrightarrow> (\<forall>m \<in> set ms. rf_tenant (mutation_reference m) = t) \<Longrightarrow> rf_tenant r \<noteq> t \<Longrightarrow>
   cu_vault c' r = cu_vault c r \<and> cu_batches c' = cu_batches c"
proof (induction ms arbitrary: c)
  case (Cons m ms)
  then obtain d where d: "apply_to a m c = Inr d" "apply_all a ms d = Inr c'" by auto
  have "cu_vault d r = cu_vault c r \<and> cu_batches d = cu_batches c"
    using d(1) Cons.prems(2,3)
    by (cases m) (auto simp: put_into_def delete_from_def audited_def split: option.splits if_splits)
  with Cons.IH [OF d(2)] Cons.prems show ?case by simp
qed simp

lemma live_batch: "live now c k = Some b \<Longrightarrow> cu_batches c k = Some b"
  by (auto simp: live_def split: option.splits if_splits)

lemma apply_all_keeps_batches: "apply_all a ms c = Inr c' \<Longrightarrow> cu_batches c' = cu_batches c"
proof (induction ms arbitrary: c)
  case (Cons m ms)
  then obtain d where d: "apply_to a m c = Inr d" "apply_all a ms d = Inr c'" by auto
  have "cu_batches d = cu_batches c"
    using d(1) by (cases m) (auto simp: put_into_def delete_from_def audited_def split: option.splits if_splits)
  with Cons.IH [OF d(2)] show ?case by simp
qed simp

lemma core_isolated:
  assumes "custody_core now c q r c'" "batches_in_tenant c"
  shows "batches_in_tenant c' \<and> (rf_tenant x \<noteq> request_tenant q \<longrightarrow> cu_vault c' x = cu_vault c x)"
  using assms
proof (induction rule: custody_core.induct)
  case (core_commit t i b d)
  have "\<forall>m \<in> set (ba_mutations b). rf_tenant (mutation_reference m) = t"
    using core_commit.prems live_batch [OF core_commit.hyps(1)] unfolding batches_in_tenant_def by force
  from apply_all_isolated [OF core_commit.hyps(2) this, of x] core_commit.prems
    apply_all_keeps_batches [OF core_commit.hyps(2)]
  show ?case by (simp add: batches_in_tenant_def audited_def without_batch_def)
qed (auto simp: batches_in_tenant_def put_into_def delete_from_def revoke_in_def audited_def without_batch_def)

lemma spec_isolated:
  assumes "custody_spec now c q r c'" "batches_in_tenant c"
  shows "batches_in_tenant c' \<and> (rf_tenant x \<noteq> request_tenant q \<longrightarrow> cu_vault c' x = cu_vault c x)"
proof -
  obtain c1 where c1: "custody_core now c q r c1" "forgets now c1 c'"
    using assms(1) by (auto simp: custody_spec_def)
  note i = core_isolated [OF c1(1) assms(2)]
  have "batches_in_tenant c'"
    unfolding batches_in_tenant_def
  proof (intro allI impI)
    fix k b assume b: "cu_batches c' k = Some b"
    from forgetsD [OF c1(2), of k] b have "cu_batches c1 k = Some b" by simp
    with i show "\<forall>m \<in> set (ba_mutations b). rf_tenant (mutation_reference m) = fst k"
      unfolding batches_in_tenant_def by blast
  qed
  with i forgets_vault [OF c1(2)] show ?thesis by simp
qed

section \<open>The contract of a store\<close>

text \<open>Labels are a \<open>BTreeMap\<close>: sorted by key, each key once.\<close>

definition wf_mutation :: "mutation \<Rightarrow> bool" where
  "wf_mutation m \<longleftrightarrow> (case m of Put p \<Rightarrow> bt_wf (pt_labels p) | Delete r \<Rightarrow> True)"

definition wf_custody_request :: "custody_request \<Rightarrow> bool" where
  "wf_custody_request q \<longleftrightarrow> (case q of PrepareReq t i ms a \<Rightarrow> list_all wf_mutation ms | _ \<Rightarrow> True)"

definition fault :: "store_error \<Rightarrow> bool" where
  "fault e \<longleftrightarrow> e = StoreUnavailable \<or> e = StoreCrypto"

locale custody_contract =
  fixes M :: "'w secret_store"
    and holds :: "'w \<Rightarrow> custody \<Rightarrow> bool"
    and now :: "'w \<Rightarrow> int"
  assumes simulates: "holds w c \<Longrightarrow> wf_custody_request q \<Longrightarrow> perform_custody M q w = (r, w') \<Longrightarrow>
    \<exists>c'. custody_spec (now w) c q r c' \<and> holds w' c'"
begin

lemma put_outcome:
  assumes w: "holds w c" and p: "cs_put M p w = (Inr md, w')"
  obtains c' where "holds w' c'" "describes md (pt_reference p) (put_entry p (cu_vault c (pt_reference p)))"
    "cu_vault c' = (cu_vault c)(pt_reference p \<mapsto> put_entry p (cu_vault c (pt_reference p)))"
proof -
  obtain c1 c' where c: "custody_core (now w) c (PutReq p) (MetadataAns (Inr md)) c1" "forgets (now w) c1 c'" "holds w' c'"
    using simulates [OF w, of "PutReq p" "MetadataAns (Inr md)" w'] p
    by (auto simp: wf_custody_request_def custody_spec_def)
  from c(1) show thesis
    by (rule core_putE) (use that c forgets_vault [OF c(2)] in \<open>auto simp: put_into_def audited_def\<close>)
qed

lemma get_outcome:
  assumes w: "holds w c" and p: "cs_get M r w = (x, w')"
  shows "(\<exists>c'. holds w' c' \<and> cu_vault c' = cu_vault c) \<and>
    (case x of
       Inr ss \<Rightarrow> \<exists>e. cu_vault c r = Some e \<and> en_state e = Active \<and> describes (ss_metadata ss) r e \<and>
         ss_value ss = en_value e
     | Inl er \<Rightarrow> fault er \<or> er = StoreNotFound \<and>
         (cu_vault c r = None \<or> (\<exists>e. cu_vault c r = Some e \<and> en_state e = Revoked)))"
proof -
  obtain c1 c' where c: "custody_core (now w) c (GetReq r) (GetAns x) c1" "forgets (now w) c1 c'" "holds w' c'"
    using simulates [OF w, of "GetReq r" "GetAns x" w'] p
    by (auto simp: wf_custody_request_def custody_spec_def)
  from c(1) show ?thesis
    by (rule core_getE) (use c forgets_vault [OF c(2)] in \<open>auto simp: fault_def\<close>)
qed

lemma put_then_get:
  assumes w: "holds w c" and p: "cs_put M p w = (Inr md, w')" and g: "cs_get M (pt_reference p) w' = (x, w'')"
  shows "case x of Inr ss \<Rightarrow> ss_value ss = pt_value p \<and> md_version (ss_metadata ss) = md_version md \<and>
      md_owner (ss_metadata ss) = pt_owner p \<and> md_disclosure (ss_metadata ss) = pt_disclosure p
    | Inl e \<Rightarrow> fault e"
proof -
  obtain c' where c': "holds w' c'" "describes md (pt_reference p) (put_entry p (cu_vault c (pt_reference p)))"
    "cu_vault c' = (cu_vault c)(pt_reference p \<mapsto> put_entry p (cu_vault c (pt_reference p)))"
    using put_outcome [OF w p] by blast
  have "u = v" if "sint (u :: 64 word) = sint v" for u v
    using that by (simp add: word_eq_iff_signed [where 'a = int])
  with get_outcome [OF c'(1) g] c'(2,3) show ?thesis
    by (cases x) (auto simp: put_entry_def describes_def)
qed

lemma removal_outcome:
  assumes w: "holds w c" and p: "cs_delete M r a w = (Inr u, w')"
  obtains c' where "holds w' c'" "cu_vault c' r = None"
proof -
  obtain c1 c' where c: "custody_core (now w) c (RemoveReq r a) (DoneAns (Inr u)) c1" "forgets (now w) c1 c'" "holds w' c'"
    using simulates [OF w, of "RemoveReq r a" "DoneAns (Inr u)" w'] p
    by (auto simp: wf_custody_request_def custody_spec_def)
  from c(1) show thesis
    by (rule core_deleteE) (use that c forgets_vault [OF c(2)] in \<open>auto simp: delete_from_def audited_def\<close>)
qed

lemma revocation_outcome:
  assumes w: "holds w c" and p: "cs_revoke M r a w = (Inr u, w')"
  obtains c' e where "holds w' c'" "cu_vault c' r = Some e" "en_state e = Revoked"
proof -
  obtain c1 c' where c: "custody_core (now w) c (RevokeReq r a) (MetadataAns (Inr u)) c1" "forgets (now w) c1 c'" "holds w' c'"
    using simulates [OF w, of "RevokeReq r a" "MetadataAns (Inr u)" w'] p
    by (auto simp: wf_custody_request_def custody_spec_def)
  from c(1) show thesis
    by (rule core_revokeE) (use that c forgets_vault [OF c(2)] in \<open>auto simp: revoke_in_def audited_def\<close>)
qed

lemma gone_then_get:
  assumes w: "holds w c" and p: "cs_delete M r a w = (Inr (), w') \<or> cs_revoke M r a w = (Inr md, w')"
    and g: "cs_get M r w' = (x, w'')"
  shows "case x of Inr ss \<Rightarrow> False | Inl e \<Rightarrow> e = StoreNotFound \<or> fault e"
  using p
proof
  assume "cs_delete M r a w = (Inr (), w')"
  then obtain c' where "holds w' c'" "cu_vault c' r = None" using removal_outcome [OF w] by blast
  with get_outcome [OF this(1) g] show ?thesis by (auto split: sum.splits)
next
  assume "cs_revoke M r a w = (Inr md, w')"
  then obtain c' e where "holds w' c'" "cu_vault c' r = Some e" "en_state e = Revoked"
    using revocation_outcome [OF w] by blast
  with get_outcome [OF this(1) g] show ?thesis by (auto split: sum.splits)
qed

lemma tenants_isolated:
  assumes "holds w c" "wf_custody_request q" "batches_in_tenant c" "perform_custody M q w = (r, w')"
  shows "\<exists>c'. holds w' c' \<and> batches_in_tenant c' \<and>
    (\<forall>x. rf_tenant x \<noteq> request_tenant q \<longrightarrow> cu_vault c' x = cu_vault c x)"
  using simulates [OF assms(1,2,4)] spec_isolated assms(3) by blast

text \<open>A batch is applied whole, at most once.\<close>

lemma commit_outcome:
  assumes w: "holds w c" and p: "cs_commit M t i w = (x, w')"
  obtains c' where "holds w' c'"
    "case x of
       Inr u \<Rightarrow> \<exists>b d. live (now w) c (t, i) = Some b \<and> apply_all (ba_actor b) (ba_mutations b) c = Inr d \<and>
         cu_vault c' = cu_vault d \<and> live (now w) c' (t, i) = None
     | Inl e \<Rightarrow> cu_vault c' = cu_vault c \<and> cu_audit c' = cu_audit c"
proof -
  obtain c1 c' where c: "custody_core (now w) c (CommitReq t i) (DoneAns x) c1" "forgets (now w) c1 c'" "holds w' c'"
    using simulates [OF w, of "CommitReq t i" "DoneAns x" w'] p
    by (auto simp: wf_custody_request_def custody_spec_def)
  have f: "cu_vault c' = cu_vault c1" "cu_audit c' = cu_audit c1" "\<And>k. live (now w) c' k = live (now w) c1 k"
    using c(2) forgets_live [OF c(2)] by (simp_all add: forgets_def)
  have l: "live n (audited t a x (without_batch k d)) k = None" for n a x k d
    by (simp add: live_def audited_def without_batch_def)
  from c(1) show thesis
    by (rule core_commitE) (use that c(3) f l in \<open>auto simp: audited_def without_batch_def\<close>)
qed

end

end
