(* ===== verification/Http_Guard.thy ===== *)
theory Http_Guard
  imports Http_Service
begin

text \<open>
  What the service lets a caller reach. The answer to a request depends on the store only through
  the calls the principal's tenant and actions allow, whoever wrote the request; and every answer
  that is not a success has the one shape of a refusal.
\<close>

section \<open>The principal of a request\<close>

definition bearer_token :: "framework \<Rightarrow> http_request \<Rightarrow> string option" where
  "bearer_token W rq = Option.bind (fw_token W rq) (strip_prefix ''Bearer '')"

lemma http_authorize_Inr:
  "http_authorize W rq authority action w = (Inr p, w') \<longleftrightarrow>
   (\<exists>t. bearer_token W rq = Some t \<and> authority t w = (Inr p, w') \<and> permits p action)"
  by (cases "bearer_token W rq")
    (auto simp: http_authorize_def bearer_token_def [symmetric] bindE_eq_Inr map_errE_eq_Inr simp del: map_errE_apply)

lemma authorize_ref_Inr:
  "authorize_ref W rq authority action r w = (Inr p, w') \<longleftrightarrow>
   http_authorize W rq authority action w = (Inr p, w') \<and> pr_of_tenant p = rf_tenant r"
  by (auto simp: authorize_ref_def bindE_eq_Inr tenant_match_def)

lemma bindE_cong_at:
  "(\<And>a w'. m w = (Inr a, w') \<Longrightarrow> k a w' = k' a w') \<Longrightarrow> bindE m k w = bindE m k' w"
  by (auto simp: bindE_apply split: prod.split sum.split)

lemma bind_tenant_cong:
  "(pr_of_tenant p = t \<Longrightarrow> k w = k' w) \<Longrightarrow>
   bindE (liftE (tenant_match p t)) (\<lambda>_. k) w = bindE (liftE (tenant_match p t)) (\<lambda>_. k') w"
  by (simp add: tenant_match_def bindE_apply)

section \<open>Calls within the grant\<close>

text \<open>Two stores answer alike every call that a user, or a workload, may cause.\<close>

definition alike_for_user :: "principal \<Rightarrow> 'w secret_store \<Rightarrow> 'w secret_store \<Rightarrow> bool" where
  "alike_for_user p M M' \<longleftrightarrow>
     (list_ex (permits p) [''secret:list'', ''secret:read_metadata'', ''secret:revoke'', ''secret:delete''] \<longrightarrow>
        cs_list M (pr_of_tenant p) (Some (pr_subject p)) = cs_list M' (pr_of_tenant p) (Some (pr_subject p))) \<and>
     (\<forall>r. rf_tenant r = pr_of_tenant p \<longrightarrow>
        (permits p ''secret:revoke'' \<longrightarrow> cs_revoke M r (pr_subject p) = cs_revoke M' r (pr_subject p)) \<and>
        (permits p ''secret:delete'' \<longrightarrow> cs_delete M r (pr_subject p) = cs_delete M' r (pr_subject p)))"

definition alike_for_workload :: "principal \<Rightarrow> 'w secret_store \<Rightarrow> 'w secret_store \<Rightarrow> bool" where
  "alike_for_workload p M M' \<longleftrightarrow>
     (permits p ''secret:write'' \<longrightarrow>
        (\<forall>i. rf_tenant (pt_reference i) = pr_of_tenant p \<longrightarrow> cs_put M i = cs_put M' i)) \<and>
     (\<forall>r. rf_tenant r = pr_of_tenant p \<longrightarrow>
        (permits p ''secret:read_value'' \<longrightarrow> cs_get M r = cs_get M' r) \<and>
        (permits p ''secret:read_metadata'' \<longrightarrow> cs_exists M r = cs_exists M' r) \<and>
        (permits p ''secret:delete'' \<longrightarrow> cs_delete M r = cs_delete M' r)) \<and>
     (permits p ''secret:list'' \<longrightarrow> cs_list M (pr_of_tenant p) None = cs_list M' (pr_of_tenant p) None) \<and>
     (permits p ''secret:prepare'' \<longrightarrow> cs_prepare M (pr_of_tenant p) = cs_prepare M' (pr_of_tenant p)) \<and>
     (permits p ''secret:commit'' \<longrightarrow> cs_commit M (pr_of_tenant p) = cs_commit M' (pr_of_tenant p)) \<and>
     (permits p ''secret:abort'' \<longrightarrow> cs_abort M (pr_of_tenant p) = cs_abort M' (pr_of_tenant p))"

definition with_store :: "'w service \<Rightarrow> 'w secret_store \<Rightarrow> 'w service" where
  "with_store V M = V\<lparr>sv_state := (sv_state V)\<lparr>ap_store := M\<rparr>\<rparr>"

lemma with_store_simps [simp]:
  "sv_framework (with_store V M) = sv_framework V" "sv_codec (with_store V M) = sv_codec V"
  "ap_store (sv_state (with_store V M)) = M" "ap_user (sv_state (with_store V M)) = ap_user (sv_state V)"
  "ap_workload (sv_state (with_store V M)) = ap_workload (sv_state V)"
  by (simp_all add: with_store_def)

definition principals_alike :: "'w service \<Rightarrow> http_request \<Rightarrow> 'w \<Rightarrow> 'w secret_store \<Rightarrow> bool" where
  "principals_alike V rq w M \<longleftrightarrow>
     (\<forall>t p w'. bearer_token (sv_framework V) rq = Some t \<longrightarrow>
        (ap_user (sv_state V) t w = (Inr p, w') \<longrightarrow> alike_for_user p (sv_store V) M) \<and>
        (ap_workload (sv_state V) t w = (Inr p, w') \<longrightarrow> alike_for_workload p (sv_store V) M))"

lemma alike_user:
  "principals_alike V rq w M \<Longrightarrow>
   http_authorize (sv_framework V) rq (ap_user (sv_state V)) action w = (Inr p, w') \<Longrightarrow>
   alike_for_user p (sv_store V) M \<and> permits p action"
  unfolding principals_alike_def http_authorize_Inr by blast

lemma alike_workload:
  "principals_alike V rq w M \<Longrightarrow>
   http_authorize (sv_framework V) rq (ap_workload (sv_state V)) action w = (Inr p, w') \<Longrightarrow>
   alike_for_workload p (sv_store V) M \<and> permits p action"
  unfolding principals_alike_def http_authorize_Inr by blast

lemma liftE_Inr: "liftE r w = (Inr a, w') \<longleftrightarrow> r = Inr a \<and> w' = w"
  by auto

lemma user_handlers_within:
  assumes a: "principals_alike V rq w M"
  shows "user_list V rq ps w = user_list (with_store V M) rq ps w"
    and "user_detail V rq ps w = user_detail (with_store V M) rq ps w"
    and "user_revoke V rq ps w = user_revoke (with_store V M) rq ps w"
    and "user_delete V rq ps w = user_delete (with_store V M) rq ps w"
proof -
  note u = alike_user [OF a]
  show "user_list V rq ps w = user_list (with_store V M) rq ps w"
    unfolding user_list_def with_store_simps
    by (rule bindE_cong_at) (drule u, simp add: alike_for_user_def)
  show "user_detail V rq ps w = user_detail (with_store V M) rq ps w"
    unfolding user_detail_def with_store_simps
    by (intro bindE_cong_at, clarsimp simp only: liftE_Inr authorize_ref_Inr, drule u)
      (simp add: alike_for_user_def)
  show "user_revoke V rq ps w = user_revoke (with_store V M) rq ps w"
    unfolding user_revoke_def assert_owner_def with_store_simps
    by (rule bindE_cong_at, clarsimp simp only: liftE_Inr, rule bindE_cong_at,
        clarsimp simp only: authorize_ref_Inr, drule u) (simp add: alike_for_user_def)
  show "user_delete V rq ps w = user_delete (with_store V M) rq ps w"
    unfolding user_delete_def assert_owner_def with_store_simps
    by (rule bindE_cong_at, clarsimp simp only: liftE_Inr, rule bindE_cong_at,
        clarsimp simp only: authorize_ref_Inr, drule u) (simp add: alike_for_user_def)
qed

lemma workload_handlers_within:
  assumes a: "principals_alike V rq w M"
  shows "workload_put V rq ps w = workload_put (with_store V M) rq ps w"
    and "workload_get V rq ps w = workload_get (with_store V M) rq ps w"
    and "workload_exists V rq ps w = workload_exists (with_store V M) rq ps w"
    and "workload_list V rq ps w = workload_list (with_store V M) rq ps w"
    and "workload_delete V rq ps w = workload_delete (with_store V M) rq ps w"
proof -
  note u = alike_workload [OF a]
  show "workload_put V rq ps w = workload_put (with_store V M) rq ps w"
    unfolding workload_put_def with_store_simps
    by (rule bindE_cong_at, clarsimp simp only: liftE_Inr, rule bindE_cong_at,
        clarsimp simp only: authorize_ref_Inr, drule u) (simp add: alike_for_workload_def)
  show "workload_get V rq ps w = workload_get (with_store V M) rq ps w"
    unfolding workload_get_def with_store_simps
    by (rule bindE_cong_at, clarsimp simp only: liftE_Inr, rule bindE_cong_at,
        clarsimp simp only: authorize_ref_Inr, drule u) (simp add: alike_for_workload_def)
  show "workload_exists V rq ps w = workload_exists (with_store V M) rq ps w"
    unfolding workload_exists_def with_store_simps
    by (rule bindE_cong_at, clarsimp simp only: liftE_Inr, rule bindE_cong_at,
        clarsimp simp only: authorize_ref_Inr, drule u) (simp add: alike_for_workload_def)
  show "workload_list V rq ps w = workload_list (with_store V M) rq ps w"
    unfolding workload_list_def with_store_simps
    by (rule bindE_cong_at, clarsimp simp only: liftE_Inr, rule bindE_cong_at, drule u)
      (auto simp: alike_for_workload_def tenant_match_def)
  show "workload_delete V rq ps w = workload_delete (with_store V M) rq ps w"
    unfolding workload_delete_def with_store_simps
    by (rule bindE_cong_at, clarsimp simp only: liftE_Inr, rule bindE_cong_at,
        clarsimp simp only: authorize_ref_Inr, drule u) (simp add: alike_for_workload_def)
qed

lemma transaction_handlers_within:
  assumes a: "principals_alike V rq w M"
  shows "workload_prepare V rq ps w = workload_prepare (with_store V M) rq ps w"
    and "workload_commit V rq ps w = workload_commit (with_store V M) rq ps w"
    and "workload_abort V rq ps w = workload_abort (with_store V M) rq ps w"
proof -
  note u = alike_workload [OF a]
  show "workload_prepare V rq ps w = workload_prepare (with_store V M) rq ps w"
    unfolding workload_prepare_def with_store_simps
    by (rule bindE_cong_at, clarsimp simp only: liftE_Inr, rule bindE_cong_at,
        clarsimp simp only: liftE_Inr, rule bindE_cong_at, drule u)
      (auto simp: alike_for_workload_def tenant_match_def)
  show "workload_commit V rq ps w = workload_commit (with_store V M) rq ps w"
    unfolding workload_commit_def with_store_simps
    by (rule bindE_cong_at, clarsimp simp only: liftE_Inr, rule bindE_cong_at, drule u)
      (auto simp: alike_for_workload_def tenant_match_def)
  show "workload_abort V rq ps w = workload_abort (with_store V M) rq ps w"
    unfolding workload_abort_def with_store_simps
    by (rule bindE_cong_at, clarsimp simp only: liftE_Inr, rule bindE_cong_at, drule u)
      (auto simp: alike_for_workload_def tenant_match_def)
qed

lemma handle_within:
  assumes "principals_alike V rq w M" "cs_ready (sv_store V) = cs_ready M"
  shows "handle e V rq ps w = handle e (with_store V M) rq ps w"
  using user_handlers_within [OF assms(1)] workload_handlers_within [OF assms(1)]
    transaction_handlers_within [OF assms(1)] assms(2)
  by (cases e) (simp_all add: live_h_def ready_h_def metrics_h_def openapi_h_def docs_h_def)

section \<open>The shape of answers\<close>

lemma refusal_reason: "canonical_reason (refusal_status r) \<noteq> None"
  by (cases r) (simp_all add: canonical_reason_def)

lemma too_large_status: "refusal_status r = 413 \<longleftrightarrow> r = RTooLarge"
  by (cases r) simp_all

lemma shape_refusal [simp]: "shape_too_large J (refusal_response J r) = refusal_response J r"
  using too_large_status [of r] by (simp add: shape_too_large_def refusal_response_def)

text \<open>Where a handler does not refuse it answers 200 or 204, or that the store is not ready.\<close>

definition handled_well :: "endpoint \<Rightarrow> http_response \<Rightarrow> bool" where
  "handled_well e a \<longleftrightarrow> hr_status a = 200 \<or> hr_status a = 204 \<and> hr_body a = [] \<or>
     e = EReady \<and> a = status_response 503"

lemma handle_status:
  assumes "handle e V rq ps w = (Inr a, w')"
  shows "handled_well e a"
  using assms
  by (cases e)
    (auto simp: live_h_def ready_h_def metrics_h_def openapi_h_def docs_h_def user_list_def user_detail_def
      user_revoke_def user_delete_def workload_put_def workload_get_def workload_exists_def workload_list_def
      workload_delete_def workload_prepare_def workload_commit_def workload_abort_def bindE_eq_Inr
      json_response_def status_response_def handled_well_def split: prod.splits sum.splits)

lemma serve_shape:
  "hr_status (fst (serve V rq w)) = 200 \<or> hr_status (fst (serve V rq w)) = 204 \<and> hr_body (fst (serve V rq w)) = [] \<or>
   fst (serve V rq w) = status_response 503 \<and> (\<exists>ps. dispatch (sv_framework V) rq = Inr (EReady, ps)) \<or>
   (\<exists>r. fst (serve V rq w) = refusal_response (sv_codec V) r)"
proof (cases "fw_overlong (sv_framework V) body_limit rq")
  case True
  then show ?thesis by (auto simp: serve_def shape_too_large_def status_response_def)
next
  case False
  show ?thesis
  proof (cases "dispatch (sv_framework V) rq")
    case (Inl r)
    with False show ?thesis by (auto simp: serve_def)
  next
    case (Inr ep)
    obtain e ps where ep: "ep = (e, ps)" by (cases ep)
    obtain x w' where h: "handle e V rq ps w = (x, w')" by (cases "handle e V rq ps w")
    show ?thesis
    proof (cases x)
      case (Inl r)
      with False Inr ep h show ?thesis by (auto simp: serve_def)
    next
      case (Inr a)
      have "fst (serve V rq w) = a"
        using False \<open>dispatch (sv_framework V) rq = Inr ep\<close> ep h Inr handle_status [OF h [unfolded Inr]]
        by (auto simp: serve_def shape_too_large_def handled_well_def status_response_def)
      with handle_status [OF h [unfolded Inr]] \<open>dispatch (sv_framework V) rq = Inr ep\<close> ep
      show ?thesis by (auto simp: handled_well_def)
    qed
  qed
qed

section \<open>Properties\<close>

text \<open>
  C5: nothing is reached without a grant. Let two stores answer alike the calls that the principal
  of the request's token may cause: those in the principal's own tenant, by the actions it holds,
  a user only listing, revoking and deleting as itself. Then the service answers the request alike
  over both, with the same effect; with a token no authority admits the store does not matter at all.
\<close>

theorem calls_within_grant:
  assumes "cs_ready (sv_store V) = cs_ready M"
    and "\<And>t p w'. bearer_token (sv_framework V) rq = Some t \<Longrightarrow> ap_user (sv_state V) t w = (Inr p, w') \<Longrightarrow>
      alike_for_user p (sv_store V) M"
    and "\<And>t p w'. bearer_token (sv_framework V) rq = Some t \<Longrightarrow> ap_workload (sv_state V) t w = (Inr p, w') \<Longrightarrow>
      alike_for_workload p (sv_store V) M"
  shows "serve V rq w = serve (with_store V M) rq w"
proof -
  have "principals_alike V rq w M"
    unfolding principals_alike_def using assms(2,3) by blast
  from handle_within [OF this assms(1)] show ?thesis
    unfolding serve_def with_store_simps by (simp split: prod.split sum.split)
qed

text \<open>
  C27: every answer is a success, the 503 of the readiness probe, or a refusal in the one shape,
  whose status has a canonical reason and whose code is one of the seventeen, all different.
\<close>

theorem answers_are_shaped:
  "(hr_status (fst (serve V rq w)) = 200 \<or>
    hr_status (fst (serve V rq w)) = 204 \<and> hr_body (fst (serve V rq w)) = [] \<or>
    fst (serve V rq w) = status_response 503 \<and> (\<exists>ps. dispatch (sv_framework V) rq = Inr (EReady, ps)) \<or>
    (\<exists>r reason. canonical_reason (refusal_status r) = Some reason \<and>
       fst (serve V rq w) = \<lparr>hr_status = refusal_status r, hr_body = jc_error (sv_codec V) reason (refusal_code r)\<rparr>)) \<and>
   distinct refusal_codes \<and> length refusal_codes = 17"
proof -
  have "\<exists>reason. canonical_reason (refusal_status r) = Some reason \<and> refusal_response (sv_codec V) r =
      \<lparr>hr_status = refusal_status r, hr_body = jc_error (sv_codec V) reason (refusal_code r)\<rparr>" for r
    using refusal_reason [of r] by (auto simp: refusal_response_def)
  with serve_shape [of V rq w] have "hr_status (fst (serve V rq w)) = 200 \<or>
    hr_status (fst (serve V rq w)) = 204 \<and> hr_body (fst (serve V rq w)) = [] \<or>
    fst (serve V rq w) = status_response 503 \<and> (\<exists>ps. dispatch (sv_framework V) rq = Inr (EReady, ps)) \<or>
    (\<exists>r reason. canonical_reason (refusal_status r) = Some reason \<and>
       fst (serve V rq w) = \<lparr>hr_status = refusal_status r, hr_body = jc_error (sv_codec V) reason (refusal_code r)\<rparr>)"
    by metis
  then show ?thesis
    by (simp add: refusal_codes_def http_refusals_def)
qed

end
