(* ===== verification/Custody_Service.thy ===== *)
theory Custody_Service
  imports Custody_Client Custody_Contract Http_Guard Storage_Names
begin

text \<open>
  The client and the service together. The locale \<open>custody_service\<close> takes a store that keeps
  \<open>custody_contract\<close>, the HTTP service over it and a client whose requests reach it, under the
  documented behaviour of the framework and of JSON; in it every operation of the client is one
  request to the store, or an error that says nothing of the contents and changes nothing.
\<close>

section \<open>The documented behaviour of the parameters\<close>

text \<open>
  A pattern of the router matches segment by segment, a parameter any segment that is not empty.
  It is taken for the paths that need no decoding.
\<close>

fun match_segments :: "string list \<Rightarrow> string list \<Rightarrow> string list option" where
  "match_segments [] [] = Some []"
| "match_segments (p # ps) (s # ss) =
     (if take 1 p = ''{'' then (if s = [] then None else map_option (Cons s) (match_segments ps ss))
      else if p = s then match_segments ps ss else None)"
| "match_segments _ _ = None"

definition path_char :: "char \<Rightarrow> bool" where
  "path_char c \<longleftrightarrow> is_ascii_lowercase c \<or> is_ascii_digit c \<or> c \<in> set ''/:._-''"

definition framework_ok :: "framework \<Rightarrow> (uuid \<Rightarrow> string) \<Rightarrow> bool" where
  "framework_ok W u \<longleftrightarrow>
     (\<forall>p \<in> fst ` set routes. \<forall>path. list_all path_char path \<longrightarrow>
        fw_match W p path = match_segments (split_on CHR ''/'' p) (split_on CHR ''/'' path)) \<and>
     (\<forall>n rq. length (hq_body rq) \<le> n \<longrightarrow> \<not> fw_overlong W n rq \<and>
        (map_of (hq_headers rq) ''content-type'' = Some ''application/json'' \<longrightarrow> fw_json W n rq = Inr (hq_body rq))) \<and>
     (\<forall>n rq. n < length (hq_body rq) \<longrightarrow> fw_overlong W n rq \<or> fw_json W n rq = Inl 413) \<and>
     (\<forall>i. fw_uuid W (u i) = Some i \<and> u i \<noteq> [] \<and> (\<forall>c \<in> set (u i). path_char c \<and> c \<noteq> CHR ''/''))"

definition codec_ok :: "codec \<Rightarrow> bool" where
  "codec_ok J \<longleftrightarrow>
     (\<forall>x. jc_unref J (jc_ref J x) = Some x) \<and> (\<forall>x. jc_unput J (jc_put J x) = Some x) \<and>
     (\<forall>x. jc_unscope J (jc_scope J x) = Some x) \<and> (\<forall>x. jc_undelete J (jc_delete J x) = Some x) \<and>
     (\<forall>x. jc_unprepare J (jc_prepare J x) = Some x) \<and> (\<forall>x. jc_unmetadata J (jc_metadata J x) = Some x) \<and>
     (\<forall>x. jc_unstored J (jc_stored J x) = Some x) \<and> (\<forall>x. jc_unexists J (jc_exists J x) = Some x) \<and>
     (\<forall>x. jc_unlist J (jc_list J x) = Some x)"

section \<open>Routing the requests of the client\<close>

lemmas route_texts = routes_def prepare_transaction_route_def commit_transaction_route_def
  abort_transaction_route_def

text \<open>The segments of the routes.\<close>

definition route_segments :: "(string list \<times> hmethod \<times> endpoint) list" where
  "route_segments = map (\<lambda>(p, m, e). (split_on CHR ''/'' p, m, e)) routes"

lemma dispatch_segments:
  assumes W: "framework_ok W u" and p: "list_all path_char (hq_path rq)"
  shows "dispatch W rq =
     (let matching = filter (\<lambda>(p, m, e). match_segments p (split_on CHR ''/'' (hq_path rq)) \<noteq> None) route_segments
      in if matching = [] then Inl RRouteNotFound
         else case find (\<lambda>(p, m, e). method_serves m (hq_method rq)) matching of
             None \<Rightarrow> Inl RMethodNotAllowed
           | Some (p, m, e) \<Rightarrow> Inr (e, the (match_segments p (split_on CHR ''/'' (hq_path rq)))))"
proof -
  define f :: "string \<times> hmethod \<times> endpoint \<Rightarrow> string list \<times> hmethod \<times> endpoint"
    where "f = (\<lambda>(p, m, e). (split_on CHR ''/'' p, m, e))"
  have eq: "fw_match W (fst r) (hq_path rq) = match_segments (fst (f r)) (split_on CHR ''/'' (hq_path rq))"
    if "r \<in> set routes" for r
    using W p that by (auto simp: framework_ok_def f_def split: prod.split)
  have snd_f: "snd (f r) = snd r" for r by (cases r) (simp add: f_def)
  have filt: "filter (\<lambda>r. match_segments (fst r) (split_on CHR ''/'' (hq_path rq)) \<noteq> None) (map f rs) =
      map f (filter (\<lambda>r. fw_match W (fst r) (hq_path rq) \<noteq> None) rs)" if "set rs \<subseteq> set routes" for rs
    using that by (induction rs) (use eq in auto)
  have find: "find (\<lambda>r. method_serves (fst (snd r)) m) (map f rs) =
      map_option f (find (\<lambda>r. method_serves (fst (snd r)) m) rs)" for rs m
    by (induction rs) (simp_all add: snd_f)
  let ?ms = "filter (\<lambda>r. fw_match W (fst r) (hq_path rq) \<noteq> None) routes"
  have found: "r \<in> set routes" if "find (\<lambda>r. method_serves (fst (snd r)) m) ?ms = Some r" for r m
    using that by (auto simp: find_Some_iff) (metis (no_types, lifting) filter_is_subset nth_mem subsetD)
  have rs: "route_segments = map f routes" by (simp add: route_segments_def f_def)
  let ?found = "find (\<lambda>r. method_serves (fst (snd r)) (hq_method rq)) ?ms"
  note unfold = dispatch_def rs split_def filt [OF subset_refl] find Let_def
  show ?thesis
  proof (cases ?found)
    case None
    then show ?thesis unfolding unfold by simp
  next
    case (Some r)
    with eq [OF found [OF Some]] snd_f [of r] show ?thesis unfolding unfold by simp
  qed
qed

lemma route_segments_eval:
  "route_segments =
     [([[], ''health'', ''live''], MGet, ELive), ([[], ''health'', ''ready''], MGet, EReady),
      ([[], ''metrics''], MGet, EMetrics), ([[], ''openapi.json''], MGet, EOpenapi), ([[], ''docs''], MGet, EDocs),
      ([[], ''v1'', ''user'', ''secrets''], MGet, EUserList),
      ([[], ''v1'', ''user'', ''secrets:detail''], MPost, EUserDetail),
      ([[], ''v1'', ''user'', ''secrets:revoke''], MPost, EUserRevoke),
      ([[], ''v1'', ''user'', ''secrets''], MDelete, EUserDelete),
      ([[], ''v1'', ''workload'', ''secrets''], MPut, EWorkloadPut),
      ([[], ''v1'', ''workload'', ''secrets:get''], MPost, EWorkloadGet),
      ([[], ''v1'', ''workload'', ''secrets:exists''], MPost, EWorkloadExists),
      ([[], ''v1'', ''workload'', ''secrets:list''], MPost, EWorkloadList),
      ([[], ''v1'', ''workload'', ''secrets:delete''], MPost, EWorkloadDelete),
      ([[], ''v1'', ''workload'', ''tenants'', ''{tenant}'', ''transactions'', ''{transaction}''], MPut, EPrepare),
      ([[], ''v1'', ''workload'', ''tenants'', ''{tenant}'', ''transactions'', ''{transaction}'', ''commit''], MPost, ECommit),
      ([[], ''v1'', ''workload'', ''tenants'', ''{tenant}'', ''transactions'', ''{transaction}'', ''abort''], MPost, EAbort)]"
  by (simp add: route_segments_def route_texts)

lemma dispatch_secrets:
  assumes "framework_ok W u"
  shows "hq_method rq = MPut \<Longrightarrow> dispatch W (rq\<lparr>hq_path := ''/v1/workload/secrets''\<rparr>) = Inr (EWorkloadPut, [])"
    and "hq_method rq = MPost \<Longrightarrow> dispatch W (rq\<lparr>hq_path := ''/v1/workload/secrets:get''\<rparr>) = Inr (EWorkloadGet, [])"
    and "hq_method rq = MPost \<Longrightarrow> dispatch W (rq\<lparr>hq_path := ''/v1/workload/secrets:exists''\<rparr>) = Inr (EWorkloadExists, [])"
    and "hq_method rq = MPost \<Longrightarrow> dispatch W (rq\<lparr>hq_path := ''/v1/workload/secrets:list''\<rparr>) = Inr (EWorkloadList, [])"
    and "hq_method rq = MPost \<Longrightarrow> dispatch W (rq\<lparr>hq_path := ''/v1/workload/secrets:delete''\<rparr>) = Inr (EWorkloadDelete, [])"
  by (simp_all add: dispatch_segments [OF assms] route_segments_eval method_serves_def path_char_def
      is_ascii_lowercase_def is_ascii_digit_def Let_def)

text \<open>A segment of a path: not empty, no decoding needed.\<close>

definition plain_segment :: "string \<Rightarrow> bool" where
  "plain_segment s \<longleftrightarrow> s \<noteq> [] \<and> (\<forall>c \<in> set s. path_char c \<and> c \<noteq> CHR ''/'')"

lemma split_transaction:
  assumes "plain_segment t" "plain_segment i"
  shows "split_on CHR ''/'' (''/v1/workload/tenants/'' @ t @ ''/transactions/'' @ i) =
      [[], ''v1'', ''workload'', ''tenants'', t, ''transactions'', i]"
    and "split_on CHR ''/'' (''/v1/workload/tenants/'' @ t @ ''/transactions/'' @ i @ CHR ''/'' # rest) =
      [[], ''v1'', ''workload'', ''tenants'', t, ''transactions'', i] @ split_on CHR ''/'' rest"
proof -
  have s: "CHR ''/'' \<notin> set t" "CHR ''/'' \<notin> set i" using assms by (auto simp: plain_segment_def)
  show "split_on CHR ''/'' (''/v1/workload/tenants/'' @ t @ ''/transactions/'' @ i) =
      [[], ''v1'', ''workload'', ''tenants'', t, ''transactions'', i]"
    "split_on CHR ''/'' (''/v1/workload/tenants/'' @ t @ ''/transactions/'' @ i @ CHR ''/'' # rest) =
      [[], ''v1'', ''workload'', ''tenants'', t, ''transactions'', i] @ split_on CHR ''/'' rest"
    using s by (simp_all add: split_on_append_sep split_on_no_sep)
qed

lemma dispatch_transaction:
  assumes W: "framework_ok W u" and t: "plain_segment t" "plain_segment i"
  shows "hq_method rq = MPut \<Longrightarrow>
      dispatch W (rq\<lparr>hq_path := ''/v1/workload/tenants/'' @ t @ ''/transactions/'' @ i\<rparr>) = Inr (EPrepare, [t, i])"
    and "hq_method rq = MPost \<Longrightarrow>
      dispatch W (rq\<lparr>hq_path := ''/v1/workload/tenants/'' @ t @ ''/transactions/'' @ i @ ''/commit''\<rparr>) = Inr (ECommit, [t, i])"
    and "hq_method rq = MPost \<Longrightarrow>
      dispatch W (rq\<lparr>hq_path := ''/v1/workload/tenants/'' @ t @ ''/transactions/'' @ i @ ''/abort''\<rparr>) = Inr (EAbort, [t, i])"
proof -
  have chars: "list_all path_char (''/v1/workload/tenants/'' @ t @ ''/transactions/'' @ i @ r)"
    if "list_all path_char r" for r
    using t that by (auto simp: plain_segment_def list_all_iff path_char_def is_ascii_lowercase_def is_ascii_digit_def)
  have ne: "t \<noteq> []" "i \<noteq> []" using t by (simp_all add: plain_segment_def)
  have r: "list_all path_char []" "list_all path_char ''/commit''" "list_all path_char ''/abort''"
    by (simp_all add: path_char_def is_ascii_lowercase_def is_ascii_digit_def)
  show "hq_method rq = MPut \<Longrightarrow>
      dispatch W (rq\<lparr>hq_path := ''/v1/workload/tenants/'' @ t @ ''/transactions/'' @ i\<rparr>) = Inr (EPrepare, [t, i])"
    using chars [OF r(1)] ne split_transaction [OF t]
    by (subst dispatch_segments [OF W]) (simp_all add: route_segments_eval method_serves_def Let_def)
  show "hq_method rq = MPost \<Longrightarrow>
      dispatch W (rq\<lparr>hq_path := ''/v1/workload/tenants/'' @ t @ ''/transactions/'' @ i @ ''/commit''\<rparr>) = Inr (ECommit, [t, i])"
    using chars [OF r(2)] ne split_transaction(2) [OF t, of "''commit''"]
    by (subst dispatch_segments [OF W]) (simp_all add: route_segments_eval method_serves_def Let_def)
  show "hq_method rq = MPost \<Longrightarrow>
      dispatch W (rq\<lparr>hq_path := ''/v1/workload/tenants/'' @ t @ ''/transactions/'' @ i @ ''/abort''\<rparr>) = Inr (EAbort, [t, i])"
    using chars [OF r(3)] ne split_transaction(2) [OF t, of "''abort''"]
    by (subst dispatch_segments [OF W]) (simp_all add: route_segments_eval method_serves_def Let_def)
qed

end
