(* ===== verification/Service_Contract.thy ===== *)
theory Service_Contract
  imports Custody_Service
begin

text \<open>
  The locale \<open>custody_service\<close> is the service over a store that keeps \<open>custody_contract\<close>, with
  authorities that leave the contents alone; \<open>custody_client\<close> adds a client whose requests reach
  the service or are not sent, and whose answers are not lost. In it each operation of the client
  is the request to the store, or an error other than \<open>ClientNotFound\<close> with nothing changed.
\<close>

section \<open>Errors over the wire\<close>

fun client_error_of :: "store_error \<Rightarrow> client_error" where
  "client_error_of StoreNotFound = ClientNotFound"
| "client_error_of DeleteTargetMissing = ClientNotFound"
| "client_error_of StoreConflict = ClientRefused"
| "client_error_of (Invalid i) = ClientRefused"
| "client_error_of StoreUnavailable = ClientService"
| "client_error_of StoreCrypto = ClientService"

definition client_error_of_refusal :: "http_refusal \<Rightarrow> client_error" where
  "client_error_of_refusal r =
     (if refusal_status r = 404 then ClientNotFound else if refusal_status r < 500 then ClientRefused
      else ClientService)"

lemma classify_refusal: "classify (refusal_status r) = Inl (client_error_of_refusal r)"
  by (cases r) (simp_all add: classify_def status_success_def client_error_of_refusal_def)

lemma client_error_of_store: "client_error_of_refusal (refusal_of_store e) = client_error_of e"
proof (cases e)
  case (Invalid i)
  then show ?thesis by (cases i) (simp_all add: client_error_of_refusal_def)
qed (simp_all add: client_error_of_refusal_def)

lemma refusal_of_auth_found: "client_error_of_refusal (refusal_of_auth e) \<noteq> ClientNotFound"
  by (cases e) (simp_all add: client_error_of_refusal_def)

text \<open>
  How a request to the store shows to the one who asked: as its answer, or as an error that is not
  an answer, with the contents as they were.
\<close>

definition asked ::
  "custody_request \<Rightarrow> (store_error + 'a \<Rightarrow> custody_answer) \<Rightarrow> (store_error \<Rightarrow> 'e) \<Rightarrow> ('a \<Rightarrow> 'b) \<Rightarrow> ('e \<Rightarrow> bool) \<Rightarrow>
   custody \<Rightarrow> 'e + 'b \<Rightarrow> custody \<Rightarrow> bool" where
  "asked q k err g fails c x c' \<longleftrightarrow>
     (\<exists>e. x = Inl e \<and> fails e \<and> c' = c) \<or>
     (\<exists>n a. custody_spec n c q (k a) c' \<and> x = map_sum err g a)"

abbreviation refuses :: "http_refusal \<Rightarrow> bool" where
  "refuses r \<equiv> client_error_of_refusal r \<noteq> ClientNotFound"

lemma asked_fails: "fails e \<Longrightarrow> asked q k err g fails c (Inl e) c"
  by (simp add: asked_def)

locale custody_service = custody_contract M holds now
  for M :: "'w secret_store" and holds now +
  fixes V :: "'w service" and u :: "uuid \<Rightarrow> string"
  assumes store: "sv_store V = M"
    and framework: "framework_ok (sv_framework V) u"
    and codec: "codec_ok (sv_codec V)"
    and quiet: "ap_workload (sv_state V) t w = (x, w') \<Longrightarrow> holds w c \<Longrightarrow> holds w' c"
    and quiet_user: "ap_user (sv_state V) t w = (x, w') \<Longrightarrow> holds w c \<Longrightarrow> holds w' c"
begin

lemma http_authorize_quiet:
  assumes "http_authorize (sv_framework V) rq (ap_workload (sv_state V)) action w = (x, w')" "holds w c"
  shows "holds w' c \<and> (\<forall>e. x = Inl e \<longrightarrow> refuses e)"
proof (cases "bearer_token (sv_framework V) rq")
  case None
  with assms show ?thesis
    by (auto simp: http_authorize_def bearer_token_def [symmetric] client_error_of_refusal_def)
next
  case (Some t)
  obtain y v where y: "ap_workload (sv_state V) t w = (y, v)" by (cases "ap_workload (sv_state V) t w")
  moreover have "refuses RMissingAction" by (simp add: client_error_of_refusal_def)
  ultimately show ?thesis
    using assms Some quiet [OF y assms(2)]
    by (cases y) (auto simp: http_authorize_def bearer_token_def [symmetric] bindE_apply refusal_of_auth_found
        split: if_splits)
qed

lemma authorize_ref_quiet:
  assumes "authorize_ref (sv_framework V) rq (ap_workload (sv_state V)) action r w = (x, w')" "holds w c"
  shows "holds w' c \<and> (\<forall>e. x = Inl e \<longrightarrow> refuses e)"
proof -
  obtain y v where y: "http_authorize (sv_framework V) rq (ap_workload (sv_state V)) action w = (y, v)"
    by (cases "http_authorize (sv_framework V) rq (ap_workload (sv_state V)) action w")
  with assms(1) http_authorize_quiet [OF y assms(2)] show ?thesis
    by (cases y) (auto simp: authorize_ref_def bindE_apply tenant_match_def client_error_of_refusal_def split: if_splits)
qed

text \<open>A call to the store behind checks that leave the contents alone.\<close>

lemma guarded_call:
  assumes w: "holds w c" and q: "wf_custody_request q" "\<And>w. perform_custody M q w = apfst k (oper w)"
    and h: "bindE checks (\<lambda>p. bindE (map_errE refusal_of_store oper) (\<lambda>a. retE (g a))) w = (x, w')"
    and quiet: "\<And>y v. checks w = (y, v) \<Longrightarrow> holds v c \<and> (\<forall>e. y = Inl e \<longrightarrow> refuses e)"
  shows "\<exists>c'. holds w' c' \<and> asked q k refusal_of_store g refuses c x c'"
proof -
  obtain y v where y: "checks w = (y, v)" by (cases "checks w")
  note v = quiet [OF y]
  show ?thesis
  proof (cases y)
    case (Inl e)
    with h y v show ?thesis by (auto simp: asked_def)
  next
    case (Inr p)
    obtain a v' where a: "oper v = (a, v')" by (cases "oper v")
    from simulates [OF _ q(1), of v c "k a" v'] v a q(2)
    obtain c' where "custody_spec (now v) c q (k a) c'" "holds v' c'" by auto
    moreover have "x = map_sum refusal_of_store g a" "w' = v'"
      using h y Inr a by (cases a; simp add: bindE_apply)+
    ultimately show ?thesis unfolding asked_def by blast
  qed
qed

lemma json_body_cases:
  assumes "map_of (hq_headers rq) ''content-type'' = Some ''application/json''"
    "parse (hq_body rq) = Some v" "\<not> fw_overlong (sv_framework V) body_limit rq"
  shows "json_body (sv_framework V) parse rq = Inr v \<or> json_body (sv_framework V) parse rq = Inl RTooLarge"
proof (cases "length (hq_body rq) \<le> body_limit")
  case True
  with framework assms(1) have "fw_json (sv_framework V) body_limit rq = Inr (hq_body rq)"
    by (simp add: framework_ok_def)
  with assms(2) show ?thesis by (simp add: json_body_def)
next
  case False
  with framework assms(3) have "fw_json (sv_framework V) body_limit rq = Inl 413"
    unfolding framework_ok_def by (meson not_le)
  then show ?thesis by (simp add: json_body_def)
qed

text \<open>The same behind a JSON body.\<close>

lemma guarded_json_call:
  assumes w: "holds w c" and q: "wf_custody_request q" "\<And>w. perform_custody M q w = apfst k (oper w)"
    and rq: "map_of (hq_headers rq) ''content-type'' = Some ''application/json''" "parse (hq_body rq) = Some v"
      "\<not> fw_overlong (sv_framework V) body_limit rq"
    and h: "bindE (liftE (json_body (sv_framework V) parse rq)) body w = (x, w')"
    and body: "body v = bindE checks (\<lambda>p. bindE (map_errE refusal_of_store oper) (\<lambda>a. retE (g a)))"
    and quiet: "\<And>y v. checks w = (y, v) \<Longrightarrow> holds v c \<and> (\<forall>e. y = Inl e \<longrightarrow> refuses e)"
  shows "\<exists>c'. holds w' c' \<and> asked q k refusal_of_store g refuses c x c'"
  using json_body_cases [of rq parse v, OF rq]
proof
  assume "json_body (sv_framework V) parse rq = Inr v"
  with h body have "bindE checks (\<lambda>p. bindE (map_errE refusal_of_store oper) (\<lambda>a. retE (g a))) w = (x, w')" by simp
  from guarded_call [OF w q this quiet] show ?thesis .
next
  assume "json_body (sv_framework V) parse rq = Inl RTooLarge"
  with h have "w' = w" "x = Inl RTooLarge" by simp_all
  moreover have "refuses RTooLarge" by (simp add: client_error_of_refusal_def)
  ultimately show ?thesis using w asked_fails [of refuses RTooLarge] by blast
qed

end

context custody_service begin

section \<open>The handlers the client uses\<close>

lemma workload_get_asked:
  assumes "holds w c" "workload_get V rq ps w = (x, w')" "\<not> fw_overlong (sv_framework V) body_limit rq"
    and "map_of (hq_headers rq) ''content-type'' = Some ''application/json''" "hq_body rq = jc_ref (sv_codec V) r"
  shows "\<exists>c'. holds w' c' \<and> asked (GetReq r) GetAns refusal_of_store
    (\<lambda>s. json_response (jc_stored (sv_codec V) s)) refuses c x c'"
proof -
  have "jc_unref (sv_codec V) (hq_body rq) = Some r" using codec assms(5) by (simp add: codec_ok_def)
  from guarded_json_call [OF assms(1) _ _ assms(4) this assms(3) assms(2) [unfolded workload_get_def store] refl
      authorize_ref_quiet, where q = "GetReq r" and k = GetAns] assms(1)
  show ?thesis by (simp add: wf_custody_request_def)
qed

lemma workload_exists_asked:
  assumes "holds w c" "workload_exists V rq ps w = (x, w')" "\<not> fw_overlong (sv_framework V) body_limit rq"
    and "map_of (hq_headers rq) ''content-type'' = Some ''application/json''" "hq_body rq = jc_ref (sv_codec V) r"
  shows "\<exists>c'. holds w' c' \<and> asked (ExistsReq r) ExistsAns refusal_of_store
    (\<lambda>b. json_response (jc_exists (sv_codec V) b)) refuses c x c'"
proof -
  have "jc_unref (sv_codec V) (hq_body rq) = Some r" using codec assms(5) by (simp add: codec_ok_def)
  from guarded_json_call [OF assms(1) _ _ assms(4) this assms(3) assms(2) [unfolded workload_exists_def store] refl
      authorize_ref_quiet, where q = "ExistsReq r" and k = ExistsAns] assms(1)
  show ?thesis by (simp add: wf_custody_request_def)
qed

lemma workload_put_asked:
  assumes "holds w c" "workload_put V rq ps w = (x, w')" "\<not> fw_overlong (sv_framework V) body_limit rq"
    and "map_of (hq_headers rq) ''content-type'' = Some ''application/json''" "hq_body rq = jc_put (sv_codec V) i"
    and "pt_owner i \<noteq> []"
  shows "\<exists>c'. holds w' c' \<and> asked (PutReq i) MetadataAns refusal_of_store
    (\<lambda>m. json_response (jc_metadata (sv_codec V) m)) refuses c x c'"
proof -
  have b: "jc_unput (sv_codec V) (hq_body rq) = Some i" using codec assms(5) by (simp add: codec_ok_def)
  show ?thesis
    by (rule guarded_json_call [OF assms(1), where q = "PutReq i" and k = MetadataAns and oper = "cs_put M i"
          and checks = "authorize_ref (sv_framework V) rq (ap_workload (sv_state V)) ''secret:write'' (pt_reference i)",
          OF _ _ assms(4) b assms(3) assms(2) [unfolded workload_put_def store]])
      (use assms(6) in \<open>simp_all add: wf_custody_request_def authorize_ref_quiet [OF _ assms(1)]\<close>)
qed

lemma workload_delete_asked:
  assumes "holds w c" "workload_delete V rq ps w = (x, w')" "\<not> fw_overlong (sv_framework V) body_limit rq"
    and "map_of (hq_headers rq) ''content-type'' = Some ''application/json''"
    and "hq_body rq = jc_delete (sv_codec V) \<lparr>dq_reference = r, dq_actor = Some a\<rparr>"
  shows "\<exists>c'. holds w' c' \<and> asked (RemoveReq r a) DoneAns refusal_of_store (\<lambda>_. status_response 204) refuses c x c'"
proof -
  have b: "jc_undelete (sv_codec V) (hq_body rq) = Some \<lparr>dq_reference = r, dq_actor = Some a\<rparr>"
    using codec assms(5) by (simp add: codec_ok_def)
  show ?thesis
    by (rule guarded_json_call [OF assms(1), where q = "RemoveReq r a" and k = DoneAns and oper = "cs_delete M r a"
          and checks = "authorize_ref (sv_framework V) rq (ap_workload (sv_state V)) ''secret:delete'' r",
          OF _ _ assms(4) b assms(3) assms(2) [unfolded workload_delete_def store]])
      (simp_all add: wf_custody_request_def authorize_ref_quiet [OF _ assms(1)])
qed

end

context custody_service begin

text \<open>The checks of the routes that name a tenant.\<close>

definition tenant_checks :: "http_request \<Rightarrow> string \<Rightarrow> string \<Rightarrow> ('w, principal) handled" where
  "tenant_checks rq action t =
     bindE (http_authorize (sv_framework V) rq (ap_workload (sv_state V)) action) (\<lambda>p.
     bindE (liftE (tenant_match p t)) (\<lambda>_. retE p))"

lemma tenant_checks_bind:
  "bindE (http_authorize (sv_framework V) rq (ap_workload (sv_state V)) action)
     (\<lambda>p. bindE (liftE (tenant_match p t)) (\<lambda>_. k)) = bindE (tenant_checks rq action t) (\<lambda>_. k)"
  by (simp add: tenant_checks_def bindE_assoc)

lemma tenant_checks_quiet:
  "tenant_checks rq action t w = (x, w') \<Longrightarrow> holds w c \<Longrightarrow> holds w' c \<and> (\<forall>e. x = Inl e \<longrightarrow> refuses e)"
  using authorize_ref_quiet [of rq action "\<lparr>rf_tenant = t, rf_namespace = [], rf_key = []\<rparr>" w x w' c]
  by (simp add: tenant_checks_def authorize_ref_def)

lemma workload_list_asked:
  assumes "holds w c" "workload_list V rq ps w = (x, w')" "\<not> fw_overlong (sv_framework V) body_limit rq"
    and "map_of (hq_headers rq) ''content-type'' = Some ''application/json''"
    and "hq_body rq = jc_scope (sv_codec V) \<lparr>sq_tenant = t, sq_namespace = n\<rparr>"
  shows "\<exists>c'. holds w' c' \<and> asked (CustodyListReq t None) CustodyListAns refusal_of_store
    (\<lambda>l. json_response (jc_list (sv_codec V) (filter (\<lambda>m. rf_namespace (md_reference m) = n) l))) refuses c x c'"
proof -
  have b: "jc_unscope (sv_codec V) (hq_body rq) = Some \<lparr>sq_tenant = t, sq_namespace = n\<rparr>"
    using codec assms(5) by (simp add: codec_ok_def)
  show ?thesis
    by (rule guarded_json_call [OF assms(1), where q = "CustodyListReq t None" and k = CustodyListAns
          and oper = "cs_list M t None" and checks = "tenant_checks rq ''secret:list'' t",
          OF _ _ assms(4) b assms(3) assms(2) [unfolded workload_list_def store tenant_checks_bind]])
      (simp_all add: wf_custody_request_def tenant_checks_quiet [OF _ assms(1)])
qed

lemma workload_prepare_asked:
  assumes "holds w c" "workload_prepare V rq [t, u i] w = (x, w')" "\<not> fw_overlong (sv_framework V) body_limit rq"
    and "map_of (hq_headers rq) ''content-type'' = Some ''application/json''"
    and "hq_body rq = jc_prepare (sv_codec V) \<lparr>pq_actor = a, pq_mutations = ms\<rparr>" "list_all wf_mutation ms"
  shows "\<exists>c'. holds w' c' \<and> asked (PrepareReq t i ms a) DoneAns refusal_of_store (\<lambda>_. status_response 204) refuses c x c'"
proof -
  have b: "jc_unprepare (sv_codec V) (hq_body rq) = Some \<lparr>pq_actor = a, pq_mutations = ms\<rparr>"
    using codec assms(5) by (simp add: codec_ok_def)
  have p: "path_params (sv_framework V) [t, u i] = Inr (t, i)"
    using framework by (simp add: path_params_def framework_ok_def)
  from assms(2) have h: "bindE (liftE (json_body (sv_framework V) (jc_unprepare (sv_codec V)) rq)) (\<lambda>request.
      bindE (tenant_checks rq ''secret:prepare'' t) (\<lambda>_.
      bindE (map_errE refusal_of_store (cs_prepare M t i (pq_mutations request) (pq_actor request))) (\<lambda>_.
      retE (status_response 204)))) w = (x, w')"
    by (simp add: workload_prepare_def p store tenant_checks_bind)
  show ?thesis
    by (rule guarded_json_call [OF assms(1), where q = "PrepareReq t i ms a" and k = DoneAns
          and oper = "cs_prepare M t i ms a" and checks = "tenant_checks rq ''secret:prepare'' t",
          OF _ _ assms(4) b assms(3) h])
      (use assms(6) in \<open>simp_all add: wf_custody_request_def tenant_checks_quiet [OF _ assms(1)]\<close>)
qed

lemma workload_commit_asked:
  assumes "holds w c" "workload_commit V rq [t, u i] w = (x, w')"
  shows "\<exists>c'. holds w' c' \<and> asked (CommitReq t i) DoneAns refusal_of_store (\<lambda>_. status_response 204) refuses c x c'"
proof -
  have p: "path_params (sv_framework V) [t, u i] = Inr (t, i)"
    using framework by (simp add: path_params_def framework_ok_def)
  from assms(2) have h: "bindE (tenant_checks rq ''secret:commit'' t) (\<lambda>_.
      bindE (map_errE refusal_of_store (cs_commit M t i)) (\<lambda>_. retE (status_response 204))) w = (x, w')"
    by (simp add: workload_commit_def p store tenant_checks_bind)
  show ?thesis
    by (rule guarded_call [OF assms(1), where q = "CommitReq t i" and k = DoneAns, OF _ _ h])
      (simp_all add: wf_custody_request_def tenant_checks_quiet [OF _ assms(1)])
qed

lemma workload_abort_asked:
  assumes "holds w c" "workload_abort V rq [t, u i] w = (x, w')"
  shows "\<exists>c'. holds w' c' \<and> asked (AbortReq t i) DoneAns refusal_of_store (\<lambda>_. status_response 204) refuses c x c'"
proof -
  have p: "path_params (sv_framework V) [t, u i] = Inr (t, i)"
    using framework by (simp add: path_params_def framework_ok_def)
  from assms(2) have h: "bindE (tenant_checks rq ''secret:abort'' t) (\<lambda>_.
      bindE (map_errE refusal_of_store (cs_abort M t i)) (\<lambda>_. retE (status_response 204))) w = (x, w')"
    by (simp add: workload_abort_def p store tenant_checks_bind)
  show ?thesis
    by (rule guarded_call [OF assms(1), where q = "AbortReq t i" and k = DoneAns, OF _ _ h])
      (simp_all add: wf_custody_request_def tenant_checks_quiet [OF _ assms(1)])
qed

text \<open>The answer on the wire, classified by the client.\<close>

lemma serve_asked:
  assumes w: "holds w c" and d: "dispatch (sv_framework V) rq = Inr (e, ps)"
    and s: "serve V rq w = (a, w')"
    and h: "\<And>x w'. \<not> fw_overlong (sv_framework V) body_limit rq \<Longrightarrow> handle e V rq ps w = (x, w') \<Longrightarrow>
      \<exists>c'. holds w' c' \<and> asked q k refusal_of_store g refuses c x c'"
    and g: "\<And>r. status_success (hr_status (g r))"
  shows "\<exists>c'. holds w' c' \<and> asked q k client_error_of g (\<lambda>e. e \<noteq> ClientNotFound) c
    (case classify (hr_status a) of Inl e \<Rightarrow> Inl e | Inr _ \<Rightarrow> Inr a) c'"
proof (cases "fw_overlong (sv_framework V) body_limit rq")
  case True
  with s have "a = refusal_response (sv_codec V) RTooLarge" "w' = w"
    by (auto simp: serve_def shape_too_large_def status_response_def)
  then have "classify (hr_status a) = Inl ClientRefused"
    by (simp add: refusal_response_def classify_def status_success_def)
  with w \<open>w' = w\<close> show ?thesis by (auto simp: asked_def)
next
  case False
  obtain x v where x: "handle e V rq ps w = (x, v)" by (cases "handle e V rq ps w")
  from h [OF False x] obtain c' where c': "holds v c'" "asked q k refusal_of_store g refuses c x c'" by blast
  have ok: "shape_too_large (sv_codec V) (g r) = g r" "classify (hr_status (g r)) = Inr ()" for r
    using g [of r] by (auto simp: shape_too_large_def classify_def status_success_def)
  have a: "w' = v" "a = (case x of Inl r \<Rightarrow> refusal_response (sv_codec V) r | Inr b \<Rightarrow> shape_too_large (sv_codec V) b)"
    using s False d x by (auto simp: serve_def split: sum.splits)
  from c'(2) show ?thesis
    unfolding asked_def [of q k refusal_of_store]
  proof (elim disjE exE conjE)
    fix r assume r: "x = Inl r" "refuses r" "c' = c"
    then have "classify (hr_status a) = Inl (client_error_of_refusal r)"
      using a(2) by (simp add: refusal_response_def classify_refusal)
    with r c'(1) a(1) show ?thesis by (auto simp: asked_def)
  next
    fix n b assume b: "custody_spec n c q (k b) c'" "x = map_sum refusal_of_store g b"
    have "(case classify (hr_status a) of Inl e \<Rightarrow> Inl e | Inr _ \<Rightarrow> Inr a) = map_sum client_error_of g b"
      using a(2) b(2) ok by (cases b) (simp_all add: refusal_response_def classify_refusal client_error_of_store)
    with b(1) c'(1) a(1) show ?thesis unfolding asked_def by metis
  qed
qed

end

end
