(* ===== verification/Client_Contract.thy ===== *)
theory Client_Contract
  imports Service_Contract
begin

text \<open>
  The operations of the client against the service: \<open>custody_client\<close> extends the service with a
  client whose requests either are not sent or are served, with the answer received.
\<close>

abbreviation failed_call :: "client_error \<Rightarrow> bool" where
  "failed_call e \<equiv> e \<noteq> ClientNotFound"

locale custody_client = custody_service M holds now V u
  for M :: "'w secret_store" and holds now and V :: "'w service" and u :: "uuid \<Rightarrow> string" +
  fixes C :: "'w client"
  assumes client_codec: "ct_codec C = sv_codec V"
    and client_uuid: "ct_uuid C = u"
    and wire: "ct_join C path = Some url \<Longrightarrow> hq_path rq = url \<Longrightarrow> ct_http C rq w = (x, w') \<Longrightarrow> holds w c \<Longrightarrow>
      (x = Inl () \<and> holds w' c) \<or>
      (\<exists>w1 a. x = Inr a \<and> holds w1 c \<and> serve V (rq\<lparr>hq_path := CHR ''/'' # path\<rparr>) w1 = (a, w'))"
begin

lemma client_json_asked:
  assumes w: "holds w c" and j: "ct_join C path = Some (hq_path rq)"
    and h: "client_json C parse rq w = (x, w')"
    and s: "\<And>w1 a w'. holds w1 c \<Longrightarrow>
      serve V ((with_bearer (ct_token C) rq)\<lparr>hq_path := CHR ''/'' # path\<rparr>) w1 = (a, w') \<Longrightarrow>
      \<exists>c'. holds w' c' \<and> asked q k client_error_of g failed_call c
        (case classify (hr_status a) of Inl e \<Rightarrow> Inl e | Inr _ \<Rightarrow> Inr a) c'"
    and parse: "\<And>b. parse (hr_body (g b)) = Some (f b)"
  shows "\<exists>c'. holds w' c' \<and> asked q k client_error_of f failed_call c x c'"
proof -
  obtain y v where y: "ct_http C (with_bearer (ct_token C) rq) w = (y, v)"
    by (cases "ct_http C (with_bearer (ct_token C) rq) w")
  have v: "w' = v" using h y by (cases y) (auto simp: client_json_def bindE_apply split: sum.splits)
  have "hq_path (with_bearer (ct_token C) rq) = hq_path rq" by (simp add: with_bearer_def)
  from wire [OF j this y w] show ?thesis
  proof (elim disjE exE conjE)
    assume "y = Inl ()" "holds v c"
    with h y v show ?thesis by (auto simp: client_json_def asked_def)
  next
    fix w1 a assume a1: "y = Inr a" "holds w1 c"
      "serve V ((with_bearer (ct_token C) rq)\<lparr>hq_path := CHR ''/'' # path\<rparr>) w1 = (a, v)"
    from s [OF a1(2,3)] a1(1) obtain c' where a: "y = Inr a" "holds v c'"
      "asked q k client_error_of g failed_call c (case classify (hr_status a) of Inl e \<Rightarrow> Inl e | Inr _ \<Rightarrow> Inr a) c'"
      by blast
    have x: "x = (case classify (hr_status a) of Inl e \<Rightarrow> Inl e | Inr _ \<Rightarrow> ok_or (parse (hr_body a)) ClientService)"
      using h y a(1) by (auto simp: client_json_def bindE_apply split: sum.splits)
    show ?thesis
      using a(3) unfolding asked_def [where g = g]
    proof (elim disjE exE conjE)
      fix e assume "(case classify (hr_status a) of Inl e \<Rightarrow> Inl e | Inr _ \<Rightarrow> Inr a) = Inl e" "failed_call e" "c' = c"
      with x a(2) v show ?thesis by (auto simp: asked_def split: sum.splits)
    next
      fix n b assume b: "custody_spec n c q (k b) c'"
        "(case classify (hr_status a) of Inl e \<Rightarrow> Inl e | Inr _ \<Rightarrow> Inr a) = map_sum client_error_of g b"
      then have "x = map_sum client_error_of f b"
        using x parse by (cases b) (auto split: sum.splits)
      with b(1) a(2) v show ?thesis unfolding asked_def by blast
    qed
  qed
qed

lemma client_empty_asked:
  assumes w: "holds w c" and j: "ct_join C path = Some (hq_path rq)"
    and h: "client_empty C rq w = (x, w')"
    and s: "\<And>w1 a w'. holds w1 c \<Longrightarrow>
      serve V ((with_bearer (ct_token C) rq)\<lparr>hq_path := CHR ''/'' # path\<rparr>) w1 = (a, w') \<Longrightarrow>
      \<exists>c'. holds w' c' \<and> asked q k client_error_of g failed_call c
        (case classify (hr_status a) of Inl e \<Rightarrow> Inl e | Inr _ \<Rightarrow> Inr a) c'"
  shows "\<exists>c'. holds w' c' \<and> asked q k client_error_of (\<lambda>_. ()) failed_call c x c'"
proof -
  have "client_empty C rq w = client_json C (\<lambda>_. Some ()) rq w"
    by (simp add: client_empty_def client_json_def bindE_apply split: prod.split sum.split)
  with client_json_asked [OF w j _ s, where parse = "\<lambda>_. Some ()" and f = "\<lambda>_. ()" and x = x and w' = w'] h
  show ?thesis by simp
qed

lemma content_type [simp]:
  "map_of (hq_headers (with_bearer t (json_request m url b))) ''content-type'' =
     Some ''application/json''"
  by (simp add: with_bearer_def json_request_def)

lemma sent_simps [simp]:
  "hq_body (with_bearer t (json_request m url b)) = b"
  "hq_method (with_bearer t (json_request m url b)) = m" "hq_path (json_request m url b) = url"
  "hq_method (with_bearer t (bare_request m url)) = m" "hq_path (bare_request m url) = url"
  by (simp_all add: with_bearer_def json_request_def bare_request_def)

lemma url_cases:
  assumes "bindE (liftE (client_url C path)) k w = (x, w')" "holds w c"
  shows "(x = Inl ClientTransport \<and> w' = w) \<or> (\<exists>url. ct_join C path = Some url \<and> k url w = (x, w'))"
  using assms by (cases "ct_join C path") (auto simp: client_url_def)

lemma json_success: "status_success (hr_status (json_response b))" "status_success (hr_status (status_response 204))"
  by (simp_all add: json_response_def status_response_def status_success_def)

section \<open>Each operation is one request to the store\<close>

lemma client_get_asked:
  assumes w: "holds w c" and h: "client_get C r w = (x, w')"
  shows "\<exists>c'. holds w' c' \<and> asked (GetReq r) GetAns client_error_of (\<lambda>s. s) failed_call c x c'"
  using url_cases [OF h [unfolded client_get_def] w]
proof (elim disjE exE conjE)
  assume "x = Inl ClientTransport" "w' = w"
  with w show ?thesis using asked_fails [of failed_call ClientTransport] by blast
next
  fix url assume url: "ct_join C ''v1/workload/secrets:get'' = Some url"
    "client_json C (jc_unstored (ct_codec C)) (json_request MPost url (jc_ref (ct_codec C) r)) w = (x, w')"
  show ?thesis
  proof (rule client_json_asked [OF w _ url(2), where g = "\<lambda>s. json_response (jc_stored (sv_codec V) s)"])
    fix w1 a w'
    assume s: "holds w1 c" "serve V (with_bearer (ct_token C) (json_request MPost url (jc_ref (ct_codec C) r))
        \<lparr>hq_path := ''/v1/workload/secrets:get''\<rparr>) w1 = (a, w')"
    show "\<exists>c'. holds w' c' \<and> asked (GetReq r) GetAns client_error_of
        (\<lambda>s. json_response (jc_stored (sv_codec V) s)) failed_call c
        (case classify (hr_status a) of Inl e \<Rightarrow> Inl e | Inr _ \<Rightarrow> Inr a) c'"
      by (rule serve_asked [OF s(1) dispatch_secrets(2) [OF framework] s(2)])
        (auto intro!: workload_get_asked [OF s(1)] simp: client_codec json_success)
  qed (use url(1) codec in \<open>simp_all add: client_codec codec_ok_def json_response_def\<close>)
qed

end

context custody_client begin

lemma client_exists_asked:
  assumes w: "holds w c" and h: "client_exists C r w = (x, w')"
  shows "\<exists>c'. holds w' c' \<and> asked (ExistsReq r) ExistsAns client_error_of (\<lambda>s. s) failed_call c x c'"
  using url_cases [OF h [unfolded client_exists_def] w]
proof (elim disjE exE conjE)
  assume "x = Inl ClientTransport" "w' = w"
  with w show ?thesis using asked_fails [of failed_call ClientTransport] by blast
next
  fix url assume url: "ct_join C ''v1/workload/secrets:exists'' = Some url"
    "client_json C (jc_unexists (ct_codec C)) (json_request MPost url (jc_ref (ct_codec C) r)) w = (x, w')"
  show ?thesis
  proof (rule client_json_asked [OF w _ url(2), where g = "\<lambda>s. json_response (jc_exists (sv_codec V) s)"])
    fix w1 a w'
    assume s: "holds w1 c" "serve V (with_bearer (ct_token C) (json_request MPost url (jc_ref (ct_codec C) r))
        \<lparr>hq_path := ''/v1/workload/secrets:exists''\<rparr>) w1 = (a, w')"
    show "\<exists>c'. holds w' c' \<and> asked (ExistsReq r) ExistsAns client_error_of
        (\<lambda>s. json_response (jc_exists (sv_codec V) s)) failed_call c
        (case classify (hr_status a) of Inl e \<Rightarrow> Inl e | Inr _ \<Rightarrow> Inr a) c'"
      by (rule serve_asked [OF s(1) dispatch_secrets(3) [OF framework] s(2)])
        (auto intro!: workload_exists_asked [OF s(1)] simp: client_codec json_success)
  qed (use url(1) codec in \<open>simp_all add: client_codec codec_ok_def json_response_def\<close>)
qed

lemma client_put_asked:
  assumes w: "holds w c" and h: "client_put C i w = (x, w')" and o: "pt_owner i \<noteq> []"
  shows "\<exists>c'. holds w' c' \<and> asked (PutReq i) MetadataAns client_error_of (\<lambda>s. s) failed_call c x c'"
  using url_cases [OF h [unfolded client_put_def] w]
proof (elim disjE exE conjE)
  assume "x = Inl ClientTransport" "w' = w"
  with w show ?thesis using asked_fails [of failed_call ClientTransport] by blast
next
  fix url assume url: "ct_join C ''v1/workload/secrets'' = Some url"
    "client_json C (jc_unmetadata (ct_codec C)) (json_request MPut url (jc_put (ct_codec C) i)) w = (x, w')"
  show ?thesis
  proof (rule client_json_asked [OF w _ url(2), where g = "\<lambda>s. json_response (jc_metadata (sv_codec V) s)"])
    fix w1 a w'
    assume s: "holds w1 c" "serve V (with_bearer (ct_token C) (json_request MPut url (jc_put (ct_codec C) i))
        \<lparr>hq_path := ''/v1/workload/secrets''\<rparr>) w1 = (a, w')"
    show "\<exists>c'. holds w' c' \<and> asked (PutReq i) MetadataAns client_error_of
        (\<lambda>s. json_response (jc_metadata (sv_codec V) s)) failed_call c
        (case classify (hr_status a) of Inl e \<Rightarrow> Inl e | Inr _ \<Rightarrow> Inr a) c'"
      by (rule serve_asked [OF s(1) dispatch_secrets(1) [OF framework] s(2)])
        (auto intro!: workload_put_asked [OF s(1)] simp: client_codec json_success o)
  qed (use url(1) codec in \<open>simp_all add: client_codec codec_ok_def json_response_def\<close>)
qed

lemma client_delete_asked:
  assumes w: "holds w c" and h: "client_delete C r a w = (x, w')"
  shows "\<exists>c'. holds w' c' \<and> asked (RemoveReq r a) DoneAns client_error_of (\<lambda>_. ()) failed_call c x c'"
  using url_cases [OF h [unfolded client_delete_def] w]
proof (elim disjE exE conjE)
  assume "x = Inl ClientTransport" "w' = w"
  with w show ?thesis using asked_fails [of failed_call ClientTransport] by blast
next
  let ?b = "jc_delete (ct_codec C) \<lparr>dq_reference = r, dq_actor = Some a\<rparr>"
  fix url assume url: "ct_join C ''v1/workload/secrets:delete'' = Some url"
    "client_empty C (json_request MPost url ?b) w = (x, w')"
  show ?thesis
  proof (rule client_empty_asked [OF w _ url(2), where g = "\<lambda>_. status_response 204"])
    fix w1 b w'
    assume s: "holds w1 c" "serve V (with_bearer (ct_token C) (json_request MPost url ?b)
        \<lparr>hq_path := ''/v1/workload/secrets:delete''\<rparr>) w1 = (b, w')"
    show "\<exists>c'. holds w' c' \<and> asked (RemoveReq r a) DoneAns client_error_of (\<lambda>_. status_response 204) failed_call c
        (case classify (hr_status b) of Inl e \<Rightarrow> Inl e | Inr _ \<Rightarrow> Inr b) c'"
      by (rule serve_asked [OF s(1) dispatch_secrets(5) [OF framework] s(2)])
        (auto intro!: workload_delete_asked [OF s(1)] simp: client_codec json_success)
  qed (use url(1) in simp)
qed

lemma client_references_asked:
  assumes w: "holds w c" and h: "client_references C t n w = (x, w')"
  shows "\<exists>c'. holds w' c' \<and> asked (CustodyListReq t None) CustodyListAns client_error_of
    (filter (\<lambda>m. rf_namespace (md_reference m) = n)) failed_call c x c'"
  using url_cases [OF h [unfolded client_references_def] w]
proof (elim disjE exE conjE)
  assume "x = Inl ClientTransport" "w' = w"
  with w show ?thesis using asked_fails [of failed_call ClientTransport] by blast
next
  let ?b = "jc_scope (ct_codec C) \<lparr>sq_tenant = t, sq_namespace = n\<rparr>"
  let ?g = "\<lambda>l. json_response (jc_list (sv_codec V) (filter (\<lambda>m. rf_namespace (md_reference m) = n) l))"
  fix url assume url: "ct_join C ''v1/workload/secrets:list'' = Some url"
    "client_json C (jc_unlist (ct_codec C)) (json_request MPost url ?b) w = (x, w')"
  show ?thesis
  proof (rule client_json_asked [OF w _ url(2), where g = ?g])
    fix w1 a w'
    assume s: "holds w1 c" "serve V (with_bearer (ct_token C) (json_request MPost url ?b)
        \<lparr>hq_path := ''/v1/workload/secrets:list''\<rparr>) w1 = (a, w')"
    show "\<exists>c'. holds w' c' \<and> asked (CustodyListReq t None) CustodyListAns client_error_of ?g failed_call c
        (case classify (hr_status a) of Inl e \<Rightarrow> Inl e | Inr _ \<Rightarrow> Inr a) c'"
      by (rule serve_asked [OF s(1) dispatch_secrets(4) [OF framework] s(2)])
        (auto intro!: workload_list_asked [OF s(1)] simp: client_codec json_success)
  qed (use url(1) codec in \<open>simp_all add: client_codec codec_ok_def json_response_def\<close>)
qed

section \<open>Transactions\<close>

lemma uuid_plain: "plain_segment (u i)"
  using framework by (simp add: framework_ok_def plain_segment_def)

lemma client_prepare_asked:
  assumes w: "holds w c" and h: "client_prepare C t i a ms w = (x, w')"
    and t: "plain_segment t" "list_all wf_mutation ms"
  shows "\<exists>c'. holds w' c' \<and> asked (PrepareReq t i ms a) DoneAns client_error_of (\<lambda>_. ()) failed_call c x c'"
  using url_cases [OF h [unfolded client_prepare_def] w]
proof (elim disjE exE conjE)
  assume "x = Inl ClientTransport" "w' = w"
  with w show ?thesis using asked_fails [of failed_call ClientTransport] by blast
next
  let ?b = "jc_prepare (ct_codec C) \<lparr>pq_actor = a, pq_mutations = ms\<rparr>"
  fix url assume url: "ct_join C (transaction_path C t i) = Some url"
    "client_empty C (json_request MPut url ?b) w = (x, w')"
  have p: "CHR ''/'' # transaction_path C t i = ''/v1/workload/tenants/'' @ t @ ''/transactions/'' @ u i"
    by (simp add: transaction_path_def client_uuid)
  show ?thesis
  proof (rule client_empty_asked [OF w _ url(2), where g = "\<lambda>_. status_response 204"])
    fix w1 b w'
    assume s: "holds w1 c" "serve V (with_bearer (ct_token C) (json_request MPut url ?b)
        \<lparr>hq_path := CHR ''/'' # transaction_path C t i\<rparr>) w1 = (b, w')"
    show "\<exists>c'. holds w' c' \<and> asked (PrepareReq t i ms a) DoneAns client_error_of (\<lambda>_. status_response 204) failed_call c
        (case classify (hr_status b) of Inl e \<Rightarrow> Inl e | Inr _ \<Rightarrow> Inr b) c'"
      by (rule serve_asked [OF s(1) dispatch_transaction(1) [OF framework t(1) uuid_plain] s(2) [unfolded p]])
        (auto intro!: workload_prepare_asked [OF s(1)] simp: client_codec json_success t(2))
  qed (use url(1) in simp)
qed

lemma client_commit_asked:
  assumes w: "holds w c" and h: "client_commit C t i w = (x, w')" and t: "plain_segment t"
  shows "\<exists>c'. holds w' c' \<and> asked (CommitReq t i) DoneAns client_error_of (\<lambda>_. ()) failed_call c x c'"
  using url_cases [OF h [unfolded client_commit_def] w]
proof (elim disjE exE conjE)
  assume "x = Inl ClientTransport" "w' = w"
  with w show ?thesis using asked_fails [of failed_call ClientTransport] by blast
next
  fix url assume url: "ct_join C (transaction_path C t i @ ''/commit'') = Some url"
    "client_empty C (bare_request MPost url) w = (x, w')"
  have p: "CHR ''/'' # transaction_path C t i @ ''/commit'' =
      ''/v1/workload/tenants/'' @ t @ ''/transactions/'' @ u i @ ''/commit''"
    by (simp add: transaction_path_def client_uuid)
  show ?thesis
  proof (rule client_empty_asked [OF w _ url(2), where g = "\<lambda>_. status_response 204"])
    fix w1 b w'
    assume s: "holds w1 c" "serve V (with_bearer (ct_token C) (bare_request MPost url)
        \<lparr>hq_path := CHR ''/'' # transaction_path C t i @ ''/commit''\<rparr>) w1 = (b, w')"
    show "\<exists>c'. holds w' c' \<and> asked (CommitReq t i) DoneAns client_error_of (\<lambda>_. status_response 204) failed_call c
        (case classify (hr_status b) of Inl e \<Rightarrow> Inl e | Inr _ \<Rightarrow> Inr b) c'"
      by (rule serve_asked [OF s(1) dispatch_transaction(2) [OF framework t uuid_plain] s(2) [unfolded p]])
        (auto intro!: workload_commit_asked [OF s(1)] simp: json_success)
  qed (use url(1) in simp)
qed

lemma client_abort_asked:
  assumes w: "holds w c" and h: "client_abort C t i w = (x, w')" and t: "plain_segment t"
  shows "\<exists>c'. holds w' c' \<and> asked (AbortReq t i) DoneAns client_error_of (\<lambda>_. ()) failed_call c x c'"
  using url_cases [OF h [unfolded client_abort_def] w]
proof (elim disjE exE conjE)
  assume "x = Inl ClientTransport" "w' = w"
  with w show ?thesis using asked_fails [of failed_call ClientTransport] by blast
next
  fix url assume url: "ct_join C (transaction_path C t i @ ''/abort'') = Some url"
    "client_empty C (bare_request MPost url) w = (x, w')"
  have p: "CHR ''/'' # transaction_path C t i @ ''/abort'' =
      ''/v1/workload/tenants/'' @ t @ ''/transactions/'' @ u i @ ''/abort''"
    by (simp add: transaction_path_def client_uuid)
  show ?thesis
  proof (rule client_empty_asked [OF w _ url(2), where g = "\<lambda>_. status_response 204"])
    fix w1 b w'
    assume s: "holds w1 c" "serve V (with_bearer (ct_token C) (bare_request MPost url)
        \<lparr>hq_path := CHR ''/'' # transaction_path C t i @ ''/abort''\<rparr>) w1 = (b, w')"
    show "\<exists>c'. holds w' c' \<and> asked (AbortReq t i) DoneAns client_error_of (\<lambda>_. status_response 204) failed_call c
        (case classify (hr_status b) of Inl e \<Rightarrow> Inl e | Inr _ \<Rightarrow> Inr b) c'"
      by (rule serve_asked [OF s(1) dispatch_transaction(3) [OF framework t uuid_plain] s(2) [unfolded p]])
        (auto intro!: workload_abort_asked [OF s(1)] simp: json_success)
  qed (use url(1) in simp)
qed

end

end
