(* ===== verification/Remote_Contract.thy ===== *)
theory Remote_Contract
  imports Remote_Backend Client_Contract Storage_Contract
begin

text \<open>
  The remote backend over the client, the service and a store that keeps the custody contract is a
  storage: each request does what the abstract map of named values allows, or is refused with the
  contents unchanged. Versions are left out of the contents here, as the custody contract does not
  fix the id of an entry.
\<close>

section \<open>Addresses and references\<close>

lemma remote_address_of_reference:
  "wf_address a \<Longrightarrow> remote_address (ad_scope a) (remote_reference a) = Some a"
  using wf_scope_name_no_slash [of "sc_user (ad_scope a)"] wf_secret_name_parse [of "ad_name a"]
  by (simp add: remote_address_def remote_reference_def wf_address_def wf_scope_def)

lemma remote_address_Some:
  assumes "remote_address s r = Some a" "wf_scope s"
  shows "wf_address a \<and> ad_scope a = s \<and> remote_reference a = r"
proof -
  from assms(1) obtain user name n where
    n: "split_once CHR ''/'' (rf_key r) = Some (user, name)" "user = scope_str (sc_user s)"
      "secret_name_parse name = Inr n" "a = \<lparr>ad_scope = s, ad_name = n\<rparr>"
    and t: "rf_tenant r = scope_str (sc_tenant s)" "rf_namespace r = scope_str (sc_namespace s)"
    by (auto simp: remote_address_def split: if_splits option.splits)
  have "n = SecretName name" "wf_secret_name n"
    using n(3) by (auto simp: secret_name_parse_ok wf_secret_name_def)
  moreover have "rf_key r = user @ CHR ''/'' # name"
    using n(1) by (simp add: split_once_Some)
  ultimately show ?thesis
    using n t assms(2) by (auto simp: wf_address_def remote_reference_def)
qed

lemma remote_reference_inject:
  "wf_address a \<Longrightarrow> wf_address b \<Longrightarrow> remote_reference a = remote_reference b \<longleftrightarrow> a = b"
proof
  assume w: "wf_address a" "wf_address b" and r: "remote_reference a = remote_reference b"
  have u: "scope_str (sc_user (ad_scope a)) @ CHR ''/'' # name_str (ad_name a) =
      scope_str (sc_user (ad_scope b)) @ CHR ''/'' # name_str (ad_name b)"
    using r by (simp add: remote_reference_def)
  have n: "CHR ''/'' \<notin> set (scope_str (sc_user (ad_scope a)))" "CHR ''/'' \<notin> set (scope_str (sc_user (ad_scope b)))"
    using w wf_scope_name_no_slash by (simp_all add: wf_address_def wf_scope_def)
  have "Some (scope_str (sc_user (ad_scope a)), name_str (ad_name a)) =
      Some (scope_str (sc_user (ad_scope b)), name_str (ad_name b))"
    using u n by (metis split_once_sep)
  then have "ad_scope a = ad_scope b"
    using r by (intro scope.equality)
      (simp_all add: remote_reference_def scope_name.expand)
  moreover have "ad_name a = ad_name b"
    using u n by (metis split_once_sep option.inject prod.inject secret_name.expand)
  ultimately show "a = b" by (rule address.equality) simp
qed simp

text \<open>A reference of a well-formed address is one custody accepts.\<close>

lemma plain_scope_name:
  assumes "wf_scope_name n"
  shows "plain_segment (scope_str n)"
  using assms segment_grammar_chars [of "scope_str n"] segment_grammar_nonempty [of "scope_str n"]
    wf_scope_name_no_slash [OF assms]
  by (auto simp: wf_scope_name_def plain_segment_def path_char_def name_char_iff is_punctuation_def)

section \<open>What the custody specification says of each request\<close>

definition tidy :: "custody \<Rightarrow> bool" where
  "tidy c \<longleftrightarrow> (\<forall>r e. cu_vault c r = Some e \<longrightarrow> en_state e = Active \<and> 0 < en_version e \<and> bt_wf (en_labels e))"

lemma tidyD: "tidy c \<Longrightarrow> cu_vault c r = Some e \<Longrightarrow> en_state e = Active \<and> 0 < en_version e \<and> bt_wf (en_labels e)"
  by (auto simp: tidy_def)

lemma spec_get:
  "custody_spec n c (GetReq r) (GetAns x) c' \<Longrightarrow> cu_vault c' = cu_vault c \<and>
   (case x of
      Inr s \<Rightarrow> \<exists>e. cu_vault c r = Some e \<and> en_state e = Active \<and> md_reference (ss_metadata s) = r \<and>
        md_labels (ss_metadata s) = en_labels e \<and> ss_value s = en_value e
    | Inl er \<Rightarrow> fault er \<or> er = StoreNotFound \<and> (\<forall>e. cu_vault c r = Some e \<longrightarrow> en_state e = Revoked))"
  unfolding custody_spec_def
  by (elim exE conjE, erule core_getE) (auto simp: forgets_vault fault_def describes_def)

lemma spec_exists:
  "custody_spec n c (ExistsReq r) (ExistsAns x) c' \<Longrightarrow> cu_vault c' = cu_vault c \<and>
   (case x of Inr b \<Rightarrow> b = (\<exists>e. cu_vault c r = Some e \<and> en_state e = Active) | Inl er \<Rightarrow> fault er)"
  unfolding custody_spec_def
  by (elim exE conjE, erule core_existsE) (auto simp: forgets_vault fault_def)

lemma spec_put:
  "custody_spec n c (PutReq p) (MetadataAns x) c' \<Longrightarrow>
   (case x of
      Inr md \<Rightarrow> cu_vault c' = (cu_vault c)(pt_reference p \<mapsto> put_entry p (cu_vault c (pt_reference p))) \<and>
        sint (md_version md) = en_version (put_entry p (cu_vault c (pt_reference p)))
    | Inl er \<Rightarrow> cu_vault c' = cu_vault c \<and> (fault er \<or> (\<exists>i. er = Invalid i)))"
  unfolding custody_spec_def
  by (elim exE conjE, erule core_putE)
    (auto simp: forgets_vault fault_def describes_def put_into_def audited_def)

lemma spec_remove:
  "custody_spec n c (RemoveReq r a) (DoneAns x) c' \<Longrightarrow>
   (case x of
      Inr _ \<Rightarrow> cu_vault c r \<noteq> None \<and> cu_vault c' = (cu_vault c)(r := None)
    | Inl er \<Rightarrow> cu_vault c' = cu_vault c \<and> (fault er \<or> er = StoreNotFound \<and> cu_vault c r = None))"
  unfolding custody_spec_def
  by (elim exE conjE, erule core_deleteE) (auto simp: forgets_vault fault_def delete_from_def audited_def)

lemma spec_list:
  "custody_spec n c (CustodyListReq t None) (CustodyListAns x) c' \<Longrightarrow> cu_vault c' = cu_vault c \<and>
   (case x of
      Inr rows \<Rightarrow> distinct (map md_reference rows) \<and>
        (\<forall>md \<in> set rows. \<exists>e. cu_vault c (md_reference md) = Some e \<and> md_state md = en_state e) \<and>
        md_reference ` set rows = {r. rf_tenant r = t \<and> cu_vault c r \<noteq> None}
    | Inl er \<Rightarrow> fault er)"
  unfolding custody_spec_def
  by (elim exE conjE, erule core_listE) (auto simp: forgets_vault fault_def describes_def)

lemma spec_prepare:
  "custody_spec n c (PrepareReq t i ms a) (DoneAns x) c' \<Longrightarrow> cu_vault c' = cu_vault c \<and>
   (\<forall>er. x = Inl er \<longrightarrow> fault er \<or> er = StoreConflict \<or> (\<exists>i. er = Invalid i)) \<and>
   (x = Inr () \<longrightarrow> (\<forall>b. cu_batches c' (t, i) = Some b \<longrightarrow> ba_actor b = a \<and> ba_mutations b = ms))"
  unfolding custody_spec_def
  by (elim exE conjE, erule core_prepareE) (auto simp: forgets_vault fault_def dest!: forgetsD [where k = "(t, i)"])

lemma spec_commit:
  "custody_spec n c (CommitReq t i) (DoneAns x) c' \<Longrightarrow>
   (case x of
      Inr _ \<Rightarrow> \<exists>b d. cu_batches c (t, i) = Some b \<and> apply_all (ba_actor b) (ba_mutations b) c = Inr d \<and>
        cu_vault c' = cu_vault d
    | Inl er \<Rightarrow> cu_vault c' = cu_vault c)"
  unfolding custody_spec_def
  by (elim exE conjE, erule core_commitE) (auto simp: forgets_vault audited_def without_batch_def dest: live_batch)

lemma spec_abort:
  "custody_spec n c (AbortReq t i) (DoneAns x) c' \<Longrightarrow> cu_vault c' = cu_vault c"
  unfolding custody_spec_def
  by (elim exE conjE, erule core_abortE) (auto simp: forgets_vault without_batch_def)

section \<open>The contents a scope sees\<close>

definition remote_view :: "custody \<Rightarrow> address \<Rightarrow> secret_value option" where
  "remote_view c a =
     (if \<not> wf_address a then None
      else case cu_vault c (remote_reference a) of
          Some e \<Rightarrow> if en_state e = Active then Some (SecretValue (en_value e)) else None
        | None \<Rightarrow> None)"

definition values_of :: "contents \<Rightarrow> address \<Rightarrow> secret_value option" where
  "values_of m a = map_option fst (m a)"

fun storage_refusal :: "request \<Rightarrow> storage_error \<Rightarrow> answer" where
  "storage_refusal (ReadReq a) e = ReadAns (Inl e)"
| "storage_refusal (WriteReq a v) e = WriteAns (Inl e)"
| "storage_refusal (DeleteReq a) e = DeleteAns (Inl e)"
| "storage_refusal (RenameReq a n) e = RenameAns (Inl e)"
| "storage_refusal (ListReq s) e = ListAns (Inl e)"

text \<open>
  A refusal that says nothing of the contents: the service cannot be reached or refuses the
  request, a value is over the bound of the backend, or the batch of a rename is over when it is
  committed.
\<close>

definition excused :: "request \<Rightarrow> storage_error \<Rightarrow> bool" where
  "excused q e \<longleftrightarrow> e = Unavailable \<or> e = Denied \<or> (e = TooLarge \<and> (\<exists>a v. q = WriteReq a v)) \<or>
     (e = NotFound \<and> (\<exists>a n. q = RenameReq a n))"

definition remote_step ::
  "(address \<Rightarrow> secret_value option) \<Rightarrow> request \<Rightarrow> answer \<Rightarrow> (address \<Rightarrow> secret_value option) \<Rightarrow> bool" where
  "remote_step f q r f' \<longleftrightarrow>
     (\<exists>m m'. values_of m = f \<and> storage_spec m q r m' \<and> values_of m' = f') \<or>
     (\<exists>e. excused q e \<and> r = storage_refusal q e \<and> f' = f)"

lemma remote_view_eq: "cu_vault c' = cu_vault c \<Longrightarrow> remote_view c' = remote_view c"
  by (simp add: remote_view_def fun_eq_iff)

text \<open>Contents with given values and any version.\<close>

definition versioned :: "version \<Rightarrow> (address \<Rightarrow> secret_value option) \<Rightarrow> contents" where
  "versioned ver f a = map_option (\<lambda>v. (v, ver)) (f a)"

lemma values_of_versioned [simp]: "values_of (versioned ver f) = f"
  by (simp add: values_of_def versioned_def fun_eq_iff option.map_comp comp_def option.map_ident)

lemma versioned_simps [simp]:
  "versioned ver f a = None \<longleftrightarrow> f a = None" "f a = Some v \<Longrightarrow> versioned ver f a = Some (v, ver)"
  by (simp_all add: versioned_def)

lemma values_of_upd [simp]:
  "values_of (m(a \<mapsto> (v, ver))) = (values_of m)(a \<mapsto> v)" "values_of (m(a := None)) = (values_of m)(a := None)"
  by (simp_all add: values_of_def fun_eq_iff)

lemma remote_step_same:
  "storage_spec (versioned ver f) q r (versioned ver f) \<Longrightarrow> remote_step f q r f"
  unfolding remote_step_def by (metis values_of_versioned)

lemma remote_step_excused: "excused q e \<Longrightarrow> remote_step f q (storage_refusal q e) f"
  unfolding remote_step_def by blast

lemma refusal_excused:
  "failed_call e \<Longrightarrow> excused q (remote_refusal e)" "fault er \<Longrightarrow> excused q (remote_refusal (client_error_of er))"
  "excused q (remote_refusal (client_error_of (Invalid i)))" "excused q (remote_refusal (client_error_of StoreConflict))"
  by (cases e; simp add: excused_def) (auto simp: excused_def fault_def)

lemma failed_step: "failed_call e \<Longrightarrow> remote_step f q (storage_refusal q (remote_refusal e)) f"
  by (rule remote_step_excused [OF refusal_excused(1)])

lemma fault_step: "fault er \<Longrightarrow> remote_step f q (storage_refusal q (remote_refusal (client_error_of er))) f"
  by (rule remote_step_excused [OF refusal_excused(2)])

end
