(* ===== verification/Remote_Refines.thy ===== *)
theory Remote_Refines
  imports Remote_Contract
begin

text \<open>
  The locale \<open>remote_service\<close> puts the remote backend on top of the client. In it each storage
  request is a \<open>remote_step\<close> of the contents, and the custody entries stay \<open>tidy\<close>: active, with a
  positive version.
\<close>

locale remote_service = custody_client M holds now V u C
  for M :: "'w secret_store" and holds now and V :: "'w service" and u :: "uuid \<Rightarrow> string" and C :: "'w client" +
  fixes R :: "'w remote"
  assumes remote_client: "rm_client R = C"
    and drawn: "rm_now_v7 R w = (x, w') \<Longrightarrow> holds w c \<Longrightarrow>
      holds w' c \<and> (\<forall>e. x = Inl e \<longrightarrow> e = Unavailable)"
begin

lemma read_step:
  assumes w: "holds w c" "tidy c" "wf_address a" and h: "remote_read R (unbound a) w = (x, w')"
  shows "\<exists>c'. holds w' c' \<and> tidy c' \<and> remote_step (remote_view c) (ReadReq a) (ReadAns x) (remote_view c')"
proof -
  let ?r = "remote_reference a"
  obtain y v where y: "client_get C ?r w = (y, v)" by (cases "client_get C ?r w")
  from client_get_asked [OF w(1) y] obtain c' where c': "holds v c'"
    "asked (GetReq ?r) GetAns client_error_of (\<lambda>s. s) failed_call c y c'" by blast
  have x: "w' = v" "x = (case y of
      Inl e \<Rightarrow> Inl (remote_refusal e)
    | Inr s \<Rightarrow> if md_reference (ss_metadata s) \<noteq> ?r then Inl NotFound
        else case secret_value_new (ss_value s) of
            Inl _ \<Rightarrow> Inl Unavailable
          | Inr val \<Rightarrow> Inr \<lparr>rv_value = val, rv_version = Some (remote_version R (ss_metadata s))\<rparr>)"
    using h y
    by (cases y; auto simp: remote_read_def remote_client unbound_def Let_def bindE_apply map_err_def split: sum.splits if_splits)+
  from c'(2) show ?thesis
    unfolding asked_def
  proof (elim disjE exE conjE)
    fix e assume "y = Inl e" "failed_call e" "c' = c"
    with x c'(1) w(2) failed_step [where q = "ReadReq a"] show ?thesis by auto
  next
    fix n b assume b: "custody_spec n c (GetReq ?r) (GetAns b) c'" "y = map_sum client_error_of (\<lambda>s. s) b"
    note s = spec_get [OF b(1)]
    have same: "remote_view c' = remote_view c" "tidy c'"
      using s w(2) by (auto simp: tidy_def intro: remote_view_eq)
    have "remote_step (remote_view c) (ReadReq a) (ReadAns x) (remote_view c)"
    proof (cases b)
      case (Inl er)
      with s have "fault er \<or> er = StoreNotFound \<and> remote_view c a = None"
        by (auto simp: remote_view_def split: option.splits)
      then show ?thesis
      proof
        assume "fault er"
        with x b(2) Inl fault_step [where q = "ReadReq a"] show ?thesis by auto
      next
        assume "er = StoreNotFound \<and> remote_view c a = None"
        with x b(2) Inl remote_step_same [of "Version []" "remote_view c" "ReadReq a", OF storage_spec.read_missing]
        show ?thesis by simp
      qed
    next
      case (Inr s')
      with s obtain e where e: "cu_vault c ?r = Some e" "en_state e = Active"
        "md_reference (ss_metadata s') = ?r" "ss_value s' = en_value e" by auto
      show ?thesis
      proof (cases "secret_value_new (en_value e)")
        case (Inl er)
        with x b(2) Inr e remote_step_excused [where q = "ReadReq a" and e = Unavailable] show ?thesis by (simp add: excused_def)
      next
        case (Inr val)
        then have "val = SecretValue (en_value e)" by (simp add: secret_value_new_ok)
        then have "remote_view c a = Some val" using e w(3) by (simp add: remote_view_def)
        with remote_step_same [of "remote_version R (ss_metadata s')" "remote_view c" "ReadReq a", OF storage_spec.read]
          x b(2) \<open>b = Inr s'\<close> e Inr
        show ?thesis by simp
      qed
    qed
    with same c'(1) x(1) show ?thesis by auto
  qed
qed

lemma view_put:
  assumes "wf_address a" "cu_vault c' = (cu_vault c)(remote_reference a \<mapsto> e)" "en_state e = Active"
  shows "remote_view c' = (remote_view c)(a \<mapsto> SecretValue (en_value e))"
  using assms remote_reference_inject [OF _ assms(1)] by (auto simp: remote_view_def fun_eq_iff)

lemma view_remove:
  assumes "wf_address a" "cu_vault c' = (cu_vault c)(remote_reference a := None)"
  shows "remote_view c' = (remote_view c)(a := None)"
  using assms remote_reference_inject [OF _ assms(1)] by (auto simp: remote_view_def fun_eq_iff)

lemma view_None: "tidy c \<Longrightarrow> wf_address a \<Longrightarrow> remote_view c a = None \<longleftrightarrow> cu_vault c (remote_reference a) = None"
  by (auto simp: remote_view_def tidy_def split: option.splits)

lemma owner_nonempty: "wf_address a \<Longrightarrow> remote_owner a \<noteq> []"
  using plain_scope_name by (simp add: wf_address_def wf_scope_def remote_owner_def plain_segment_def)

lemma version_one: "md_version m = 1 \<longleftrightarrow> sint (md_version m) = 1"
  using word_eq_iff_signed [of "md_version m" 1] by simp

lemma write_step:
  assumes w: "holds w c" "tidy c" "wf_address a" and h: "remote_write R (unbound a) v w = (x, w')"
  shows "\<exists>c'. holds w' c' \<and> tidy c' \<and> remote_step (remote_view c) (WriteReq a v) (WriteAns x) (remote_view c')"
proof (cases "length (expose v) > remote_max_value_bytes (rm_to_vec R)")
  case True
  with h have "x = Inl TooLarge" "w' = w" by (simp_all add: remote_write_def)
  with w(1,2) remote_step_excused [where q = "WriteReq a v" and e = TooLarge] show ?thesis by (auto simp: excused_def)
next
  case False
  let ?p = "remote_put (remote_reference a) (remote_owner a) (expose v) WorkloadOnly []"
  obtain y z where y: "client_put C ?p w = (y, z)" by (cases "client_put C ?p w")
  have "pt_owner ?p \<noteq> []" using owner_nonempty [OF w(3)] by (simp add: remote_put_def)
  from client_put_asked [OF w(1) y this] obtain c' where c': "holds z c'"
    "asked (PutReq ?p) MetadataAns client_error_of (\<lambda>s. s) failed_call c y c'" by blast
  have x: "w' = z" "x = (case y of
      Inl e \<Rightarrow> Inl (remote_refusal e)
    | Inr m \<Rightarrow> Inr (if md_version m = 1 then Created (Some (remote_version R m)) else Replaced (Some (remote_version R m))))"
    using h y False
    by (cases y; auto simp: remote_write_def remote_client unbound_def Let_def bindE_apply)+
  from c'(2) show ?thesis
    unfolding asked_def
  proof (elim disjE exE conjE)
    fix e assume "y = Inl e" "failed_call e" "c' = c"
    with x c'(1) w(2) failed_step [where q = "WriteReq a v"] show ?thesis by auto
  next
    fix n b assume b: "custody_spec n c (PutReq ?p) (MetadataAns b) c'" "y = map_sum client_error_of (\<lambda>s. s) b"
    note s = spec_put [OF b(1)]
    show ?thesis
    proof (cases b)
      case (Inl er)
      with s have "remote_view c' = remote_view c" "tidy c'" "excused (WriteReq a v) (remote_refusal (client_error_of er))"
        using w(2) refusal_excused(2,3) by (auto simp: tidy_def intro: remote_view_eq)
      with x b(2) Inl c'(1) remote_step_excused [where q = "WriteReq a v"] show ?thesis by auto
    next
      case (Inr m)
      let ?e = "put_entry ?p (cu_vault c (remote_reference a))"
      from s Inr have vault: "cu_vault c' = (cu_vault c)(remote_reference a \<mapsto> ?e)"
        and ver: "sint (md_version m) = en_version ?e"
        by (simp_all add: remote_put_def)
      have "0 < en_version ?e" "en_version ?e = 1 \<longleftrightarrow> cu_vault c (remote_reference a) = None"
        using tidyD [OF w(2), of "remote_reference a"] by (auto simp: put_entry_def split: option.split)
      moreover from this have "tidy c'"
        using w(2) by (auto simp: tidy_def vault put_entry_def remote_put_def)
      moreover have "remote_view c' = (remote_view c)(a \<mapsto> v)"
        using view_put [OF w(3) vault] by (simp add: put_entry_def remote_put_def)
      moreover have "remote_step (remote_view c) (WriteReq a v) (WriteAns x) ((remote_view c)(a \<mapsto> v))"
      proof -
        have "md_version m = 1 \<longleftrightarrow> remote_view c a = None"
          using version_one [of m] ver calculation(2) view_None [OF w(2,3)] by simp
        then have "storage_spec (versioned (Version []) (remote_view c)) (WriteReq a v) (WriteAns x)
            ((versioned (Version []) (remote_view c))(a \<mapsto> (v, remote_version R m)))"
          using x b(2) Inr by (auto intro: storage_spec.create storage_spec.replace simp: versioned_def)
        then show ?thesis unfolding remote_step_def by (metis values_of_versioned values_of_upd(1))
      qed
      ultimately show ?thesis using c'(1) x(1) by auto
    qed
  qed
qed

lemma delete_step:
  assumes w: "holds w c" "tidy c" "wf_address a" and h: "remote_delete R (unbound a) w = (x, w')"
  shows "\<exists>c'. holds w' c' \<and> tidy c' \<and> remote_step (remote_view c) (DeleteReq a) (DeleteAns x) (remote_view c')"
proof -
  let ?r = "remote_reference a"
  obtain y z where y: "client_delete C ?r (remote_owner a) w = (y, z)" by (cases "client_delete C ?r (remote_owner a) w")
  from client_delete_asked [OF w(1) y] obtain c' where c': "holds z c'"
    "asked (RemoveReq ?r (remote_owner a)) DoneAns client_error_of (\<lambda>_. ()) failed_call c y c'" by blast
  have x: "w' = z" "x = map_err remote_refusal y"
    using h y by (simp_all add: remote_delete_def remote_client unbound_def)
  from c'(2) show ?thesis
    unfolding asked_def
  proof (elim disjE exE conjE)
    fix e assume "y = Inl e" "failed_call e" "c' = c"
    with x c'(1) w(2) failed_step [where q = "DeleteReq a"] show ?thesis by auto
  next
    fix n b assume b: "custody_spec n c (RemoveReq ?r (remote_owner a)) (DoneAns b) c'"
      "y = map_sum client_error_of (\<lambda>_. ()) b"
    note s = spec_remove [OF b(1)]
    show ?thesis
    proof (cases b)
      case (Inl er)
      with s have same: "remote_view c' = remote_view c" "tidy c'"
        using w(2) by (auto simp: tidy_def intro: remote_view_eq)
      from s Inl have "fault er \<or> er = StoreNotFound \<and> remote_view c a = None"
        using view_None [OF w(2,3)] by auto
      then have "remote_step (remote_view c) (DeleteReq a) (DeleteAns x) (remote_view c)"
      proof
        assume "fault er"
        with x b(2) Inl fault_step [where q = "DeleteReq a"] show ?thesis by auto
      next
        assume "er = StoreNotFound \<and> remote_view c a = None"
        with x b(2) Inl remote_step_same [of "Version []" "remote_view c" "DeleteReq a", OF storage_spec.delete_missing]
        show ?thesis by simp
      qed
      with same c'(1) x(1) show ?thesis by auto
    next
      case (Inr un)
      with s have v: "cu_vault c ?r \<noteq> None" "cu_vault c' = (cu_vault c)(?r := None)" by simp_all
      have "tidy c'" using w(2) v(2) by (simp add: tidy_def)
      moreover have "remote_view c' = (remote_view c)(a := None)" by (rule view_remove [OF w(3) v(2)])
      moreover have "storage_spec (versioned (Version []) (remote_view c)) (DeleteReq a) (DeleteAns x)
          ((versioned (Version []) (remote_view c))(a := None))"
        using x b(2) Inr v(1) view_None [OF w(2,3)] by (auto intro: storage_spec.delete)
      then have "remote_step (remote_view c) (DeleteReq a) (DeleteAns x) ((remote_view c)(a := None))"
        unfolding remote_step_def by (metis values_of_versioned values_of_upd(2))
      ultimately show ?thesis using c'(1) x(1) by auto
    qed
  qed
qed

end

end
