(* ===== verification/Remote_Simulation.thy ===== *)
theory Remote_Simulation
  imports Remote_Refines
begin

text \<open>
  Renames and listings of the remote backend, and with them the whole simulation: each request of
  the storage port, over the client, the service and the store, is a step of the named values.
\<close>

section \<open>A listing\<close>

text \<open>Rows that name each value of a scope once are a listing of the values, for some versions.\<close>

lemma listing_of_rows:
  assumes d: "distinct (map sm_address rows)"
    and v: "\<forall>row \<in> set rows. sm_version row \<noteq> None"
    and s: "sm_address ` set rows = {a. ad_scope a = s \<and> f a \<noteq> None}"
  shows "\<exists>m. values_of m = f \<and> listing m s (sort rows)"
proof -
  define ver where "ver a = (case map_of (map (\<lambda>row. (sm_address row, the (sm_version row))) rows) a of
    Some x \<Rightarrow> x | None \<Rightarrow> Version [])" for a
  define m where "m a = map_option (\<lambda>x. (x, ver a)) (f a)" for a
  have ver: "sm_version row = Some (ver (sm_address row))" if "row \<in> set rows" for row
  proof -
    have "map_of (map (\<lambda>row. (sm_address row, the (sm_version row))) rows) (sm_address row) = Some (the (sm_version row))"
      using d that by (intro map_of_is_SomeI) (auto simp: comp_def)
    with v that show ?thesis by (auto simp: ver_def)
  qed
  have "row \<in> set rows \<longleftrightarrow> (\<exists>x y. m (sm_address row) = Some (x, y) \<and> sm_version row = Some y \<and>
      ad_scope (sm_address row) = s)" for row
  proof
    assume r: "row \<in> set rows"
    then have "sm_address row \<in> sm_address ` set rows" by simp
    with s ver [OF r] show "\<exists>x y. m (sm_address row) = Some (x, y) \<and> sm_version row = Some y \<and> ad_scope (sm_address row) = s"
      by (auto simp: m_def)
  next
    assume "\<exists>x y. m (sm_address row) = Some (x, y) \<and> sm_version row = Some y \<and> ad_scope (sm_address row) = s"
    then have a: "f (sm_address row) \<noteq> None" "sm_version row = Some (ver (sm_address row))" "ad_scope (sm_address row) = s"
      by (auto simp: m_def)
    then have "sm_address row \<in> sm_address ` set rows" using s by simp
    then obtain r where r: "r \<in> set rows" "sm_address r = sm_address row" by auto
    with ver [OF r(1)] a(2) have "r = row" by (intro secret_metadata.equality) simp_all
    with r show "row \<in> set rows" by simp
  qed
  with sorted_rows [OF d] have "listing m s (sort rows)" by (simp add: listing_def)
  moreover have "values_of m = f" by (simp add: values_of_def m_def fun_eq_iff option.map_comp comp_def option.map_ident)
  ultimately show ?thesis by blast
qed

context remote_service begin

lemma remote_rows:
  assumes t: "tidy c" "wf_scope s"
    and d: "distinct (map md_reference ms)"
    and e: "\<forall>md \<in> set ms. \<exists>e. cu_vault c (md_reference md) = Some e \<and> md_state md = en_state e"
    and r: "md_reference ` set ms = {r. rf_tenant r = scope_str (sc_tenant s) \<and> cu_vault c r \<noteq> None}"
    and rows: "rows = List.map_filter (remote_row R s)
      (filter (\<lambda>m. md_state m = Active) (filter (\<lambda>m. rf_namespace (md_reference m) = scope_str (sc_namespace s)) ms))"
  shows "\<exists>m. values_of m = remote_view c \<and> listing m s (sort rows)"
proof (rule listing_of_rows)
  define ls where "ls = filter (\<lambda>m. md_state m = Active) (filter (\<lambda>m. rf_namespace (md_reference m) = scope_str (sc_namespace s)) ms)"
  have dl: "distinct (map md_reference ls)" using d by (simp add: ls_def distinct_map_filter)
  have row: "remote_row R s md = Some row \<longleftrightarrow> remote_address s (md_reference md) = Some (sm_address row) \<and>
      sm_version row = Some (remote_version R md)" for md row
    by (auto simp: remote_row_def intro: secret_metadata.equality)
  have set_rows: "set rows = {row. \<exists>md \<in> set ls. remote_row R s md = Some row}"
    unfolding rows ls_def [symmetric] by (force simp: List.map_filter_def)
  show "\<forall>row \<in> set rows. sm_version row \<noteq> None" by (auto simp: set_rows row)
  have "distinct (map sm_address (List.map_filter (remote_row R s) ls))"
    using dl
  proof (induction ls)
    case (Cons md ls)
    have "sm_address row \<noteq> sm_address row'"
      if "remote_row R s md = Some row" "md' \<in> set ls" "remote_row R s md' = Some row'" for row md' row'
    proof
      assume "sm_address row = sm_address row'"
      with that have "md_reference md = md_reference md'"
        using remote_address_Some [OF _ t(2)] by (metis row)
      with Cons.prems that(2) show False by auto
    qed
    with Cons show ?case by (auto simp: List.map_filter_def split: option.splits)
  qed (simp add: List.map_filter_def)
  then show "distinct (map sm_address rows)" by (simp add: rows ls_def)
  show "sm_address ` set rows = {a. ad_scope a = s \<and> remote_view c a \<noteq> None}"
  proof (intro equalityI subsetI)
    fix a assume "a \<in> sm_address ` set rows"
    then obtain row md where "a = sm_address row" "md \<in> set ls" "remote_row R s md = Some row"
      by (auto simp: set_rows)
    then have a: "remote_address s (md_reference md) = Some a" "md \<in> set ms" by (simp_all add: row ls_def)
    with e obtain x where x: "cu_vault c (md_reference md) = Some x" by auto
    from remote_address_Some [OF a(1) t(2)] x tidyD [OF t(1) x]
    show "a \<in> {a. ad_scope a = s \<and> remote_view c a \<noteq> None}" by (auto simp: remote_view_def)
  next
    fix a assume a: "a \<in> {a. ad_scope a = s \<and> remote_view c a \<noteq> None}"
    then have w: "wf_address a" "ad_scope a = s" by (auto simp: remote_view_def split: if_splits)
    with a view_None [OF t(1) w(1)] have v: "cu_vault c (remote_reference a) \<noteq> None" by auto
    have "rf_tenant (remote_reference a) = scope_str (sc_tenant s)"
      "rf_namespace (remote_reference a) = scope_str (sc_namespace s)"
      using w(2) by (simp_all add: remote_reference_def)
    with v r have "remote_reference a \<in> md_reference ` set ms" by blast
    then obtain md where md: "md \<in> set ms" "md_reference md = remote_reference a" by auto
    with e v tidyD [OF t(1)] have "md_state md = Active" by fastforce
    with md have l: "md \<in> set ls" by (simp add: ls_def remote_reference_def w(2))
    have "remote_row R s md = Some \<lparr>sm_address = a, sm_version = Some (remote_version R md)\<rparr>"
      using remote_address_of_reference [OF w(1)] md(2) w(2) by (simp add: row)
    with l have "\<lparr>sm_address = a, sm_version = Some (remote_version R md)\<rparr> \<in> set rows" by (auto simp: set_rows)
    then show "a \<in> sm_address ` set rows" by force
  qed
qed

lemma list_step:
  assumes w: "holds w c" "tidy c" "wf_scope s" and h: "remote_list R s w = (x, w')"
  shows "\<exists>c'. holds w' c' \<and> tidy c' \<and> remote_step (remote_view c) (ListReq s) (ListAns x) (remote_view c')"
proof -
  let ?t = "scope_str (sc_tenant s)" and ?n = "scope_str (sc_namespace s)"
  obtain y z where y: "client_references C ?t ?n w = (y, z)" by (cases "client_references C ?t ?n w")
  from client_references_asked [OF w(1) y] obtain c' where c': "holds z c'"
    "asked (CustodyListReq ?t None) CustodyListAns client_error_of
      (filter (\<lambda>m. rf_namespace (md_reference m) = ?n)) failed_call c y c'" by blast
  have x: "w' = z" "x = (case y of
      Inl e \<Rightarrow> Inl (remote_refusal e)
    | Inr ms \<Rightarrow> Inr (sort (List.map_filter (remote_row R s) (filter (\<lambda>m. md_state m = Active) ms))))"
    using h y by (cases y; auto simp: remote_list_def remote_client bindE_apply)+
  from c'(2) show ?thesis
    unfolding asked_def
  proof (elim disjE exE conjE)
    fix e assume "y = Inl e" "failed_call e" "c' = c"
    with x c'(1) w(2) failed_step [where q = "ListReq s"] show ?thesis by auto
  next
    fix n b assume b: "custody_spec n c (CustodyListReq ?t None) (CustodyListAns b) c'"
      "y = map_sum client_error_of (filter (\<lambda>m. rf_namespace (md_reference m) = ?n)) b"
    note sp = spec_list [OF b(1)]
    have same: "remote_view c' = remote_view c" "tidy c'"
      using sp w(2) by (auto simp: tidy_def intro: remote_view_eq)
    have "remote_step (remote_view c) (ListReq s) (ListAns x) (remote_view c)"
    proof (cases b)
      case (Inl er)
      with sp x b(2) fault_step [where q = "ListReq s"] show ?thesis by auto
    next
      case (Inr ms)
      with sp have ms: "distinct (map md_reference ms)"
        "\<forall>md \<in> set ms. \<exists>e. cu_vault c (md_reference md) = Some e \<and> md_state md = en_state e"
        "md_reference ` set ms = {r. rf_tenant r = ?t \<and> cu_vault c r \<noteq> None}" by simp_all
      obtain m where "values_of m = remote_view c" "listing m s (sort (List.map_filter (remote_row R s)
          (filter (\<lambda>m. md_state m = Active) (filter (\<lambda>m. rf_namespace (md_reference m) = ?n) ms))))"
        using remote_rows [OF w(2,3) ms refl] by blast
      with x b(2) Inr show ?thesis unfolding remote_step_def by (auto intro: storage_spec.list)
    qed
    with same c'(1) x(1) show ?thesis by auto
  qed
qed

end

section \<open>A rename\<close>

lemma apply_rename:
  assumes "apply_all x [Put p, Delete r] c = Inr d" "pt_reference p \<noteq> r"
  shows "cu_vault d = (cu_vault c)(pt_reference p \<mapsto> put_entry p (cu_vault c (pt_reference p)), r := None)"
  using assms by (auto simp: put_into_def delete_from_def audited_def split: option.splits if_splits)

context remote_service begin

text \<open>Committing the prepared batch of a rename, or giving up.\<close>

lemma commit_step:
  assumes w: "holds w c" and t: "plain_segment t"
    and b: "\<And>b. cu_batches c (t, i) = Some b \<Longrightarrow> ba_mutations b = ms"
    and h: "remote_commit R t i w = (x, w')"
  shows "\<exists>c'. holds w' c' \<and>
    (case x of
       Inr _ \<Rightarrow> \<exists>a d. apply_all a ms c = Inr d \<and> cu_vault c' = cu_vault d
     | Inl e \<Rightarrow> cu_vault c' = cu_vault c \<and> excused (RenameReq a n) e)"
proof -
  obtain y z where y: "client_commit C t i w = (y, z)" by (cases "client_commit C t i w")
  from client_commit_asked [OF w y t] obtain c1 where c1: "holds z c1"
    "asked (CommitReq t i) DoneAns client_error_of (\<lambda>_. ()) failed_call c y c1" by blast
  have y': "case y of Inr _ \<Rightarrow> \<exists>a d. apply_all a ms c = Inr d \<and> cu_vault c1 = cu_vault d
    | Inl e \<Rightarrow> cu_vault c1 = cu_vault c"
    using c1(2) unfolding asked_def
  proof (elim disjE exE conjE)
    fix m k assume k: "custody_spec m c (CommitReq t i) (DoneAns k) c1" "y = map_sum client_error_of (\<lambda>_. ()) k"
    from spec_commit [OF k(1)] b k(2) show ?thesis by (cases k) fastforce+
  qed simp
  show ?thesis
  proof (cases y)
    case (Inr u)
    with h y have "w' = z" "x = Inr ()" by (simp_all add: remote_commit_def remote_client)
    with y' Inr c1(1) show ?thesis by (intro exI [of _ c1]) simp
  next
    case (Inl e)
    obtain y2 z2 where a: "client_abort C t i z = (y2, z2)" by (cases "client_abort C t i z")
    from client_abort_asked [OF c1(1) a t] obtain c2 where c2: "holds z2 c2"
      "asked (AbortReq t i) DoneAns client_error_of (\<lambda>_. ()) failed_call c1 y2 c2" by blast
    have "cu_vault c2 = cu_vault c1"
      using c2(2) unfolding asked_def by (auto dest: spec_abort)
    moreover have "excused (RenameReq a n) (remote_refusal e)"
      by (cases e) (simp_all add: excused_def)
    ultimately show ?thesis
      using h y Inl a c2(1) y' by (auto simp: remote_commit_def remote_client)
  qed
qed

end

context remote_service begin

lemma rename_mutations:
  assumes "wf_address a" "wf_secret_name n" "bt_wf l"
  shows "plain_segment (rf_tenant (remote_reference a))"
    "list_all wf_mutation [Put (remote_put (remote_reference (renamed a n)) x v d l), Delete (remote_reference a)]"
    "wf_address (renamed a n)"
  using assms plain_scope_name
  by (simp_all add: wf_mutation_def remote_put_def remote_reference_def wf_address_def wf_scope_def)

text \<open>The end of a rename, once the value is read and the new name is free.\<close>

lemma rename_tail:
  assumes w: "holds w c" "tidy c" "wf_address a" "wf_secret_name n" "bt_wf l"
    and src: "remote_view c a = Some (SecretValue v)" and dst: "remote_view c (renamed a n) = None"
    and ms: "ms = [Put (remote_put (remote_reference (renamed a n)) (remote_owner a) v d l), Delete (remote_reference a)]"
    and h: "bindE (rm_now_v7 R) (\<lambda>i.
        bindE (map_errE remote_refusal (client_prepare C (rf_tenant (remote_reference a)) i (remote_owner a) ms)) (\<lambda>_.
        remote_commit R (rf_tenant (remote_reference a)) i)) w = (x, w')"
  shows "\<exists>c'. holds w' c' \<and> tidy c' \<and> remote_step (remote_view c) (RenameReq a n) (RenameAns x) (remote_view c')"
proof -
  let ?t = "rf_tenant (remote_reference a)"
  note p = rename_mutations [OF w(3-5)]
  have refused: ?thesis if "holds w' c'" "cu_vault c' = cu_vault c" "x = Inl e" "excused (RenameReq a n) e" for c' e
  proof -
    have "tidy c'" "remote_view c' = remote_view c" using that(2) w(2) remote_view_eq [OF that(2)] by (simp_all add: tidy_def)
    then show ?thesis using that(1,3) remote_step_excused [OF that(4), of "remote_view c"] by (intro exI [of _ c']) simp
  qed
  obtain i z where i: "rm_now_v7 R w = (i, z)" by (cases "rm_now_v7 R w")
  note dr = drawn [OF i w(1)]
  show ?thesis
  proof (cases i)
    case (Inl e)
    with h i dr refused [of c e] show ?thesis by (simp add: excused_def)
  next
    case (Inr tx)
    obtain y z1 where y: "client_prepare C ?t tx (remote_owner a) ms z = (y, z1)"
      by (cases "client_prepare C ?t tx (remote_owner a) ms z")
    from dr have "holds z c" by simp
    from client_prepare_asked [OF this y p(1)] p(2) obtain c1 where c1: "holds z1 c1"
      "asked (PrepareReq ?t tx ms (remote_owner a)) DoneAns client_error_of (\<lambda>_. ()) failed_call c y c1"
      unfolding ms by blast
    have y': "cu_vault c1 = cu_vault c" "y = Inl e \<Longrightarrow> excused (RenameReq a n) (remote_refusal e)"
      "y = Inr u \<Longrightarrow> cu_batches c1 (?t, tx) = Some b \<Longrightarrow> ba_mutations b = ms" for e u b
    proof -
      have "cu_vault c1 = cu_vault c \<and> (\<forall>e. y = Inl e \<longrightarrow> excused (RenameReq a n) (remote_refusal e)) \<and>
        (y = Inr () \<longrightarrow> (\<forall>b. cu_batches c1 (?t, tx) = Some b \<longrightarrow> ba_mutations b = ms))"
        using c1(2) unfolding asked_def
      proof (elim disjE exE conjE)
        fix m k assume k: "custody_spec m c (PrepareReq ?t tx ms (remote_owner a)) (DoneAns k) c1"
          "y = map_sum client_error_of (\<lambda>_. ()) k"
        from spec_prepare [OF k(1)] k(2) show ?thesis by (cases k) (auto simp: excused_def fault_def)
      qed (auto intro: refusal_excused)
      then show "cu_vault c1 = cu_vault c" "y = Inl e \<Longrightarrow> excused (RenameReq a n) (remote_refusal e)"
        "y = Inr u \<Longrightarrow> cu_batches c1 (?t, tx) = Some b \<Longrightarrow> ba_mutations b = ms" by auto
    qed
    show ?thesis
    proof (cases y)
      case (Inl e)
      with h i \<open>i = Inr tx\<close> y have "x = Inl (remote_refusal e)" "w' = z1" by simp_all
      with y'(1) y'(2) [OF Inl] c1(1) refused show ?thesis by blast
    next
      case (Inr u)
      with h i \<open>i = Inr tx\<close> y have h': "remote_commit R ?t tx z1 = (x, w')" by simp
      from commit_step [OF c1(1) p(1) y'(3) [OF Inr] h', where a = a and n = n] obtain c2 where c2: "holds w' c2"
        "case x of Inr _ \<Rightarrow> \<exists>a d. apply_all a ms c1 = Inr d \<and> cu_vault c2 = cu_vault d
         | Inl e \<Rightarrow> cu_vault c2 = cu_vault c1 \<and> excused (RenameReq a n) e" by blast
      show ?thesis
      proof (cases x)
        case (Inl e)
        with c2 y'(1) refused [of c2 e] show ?thesis by simp
      next
        case (Inr u)
        with c2 obtain k f where kd: "apply_all k ms c1 = Inr f" "cu_vault c2 = cu_vault f" by auto
        have "renamed a n \<noteq> a" using src dst by (metis option.distinct(1))
        then have ne: "remote_reference (renamed a n) \<noteq> remote_reference a"
          using remote_reference_inject [OF p(3) w(3)] by simp
        have free: "cu_vault c (remote_reference (renamed a n)) = None" using view_None [OF w(2) p(3)] dst by simp
        define e where "e = put_entry (remote_put (remote_reference (renamed a n)) (remote_owner a) v d l) None"
        have e: "en_state e = Active" "en_version e = 1" "en_labels e = l" "en_value e = v"
          by (simp_all add: e_def put_entry_def remote_put_def)
        have v: "cu_vault c2 = (cu_vault c)(remote_reference (renamed a n) \<mapsto> e, remote_reference a := None)"
          using apply_rename [OF kd(1) [unfolded ms]] ne kd(2) y'(1) free by (simp add: remote_put_def e_def)
        have "tidy c2" using w(2,5) e by (auto simp: tidy_def v)
        moreover have "remote_view c2 = (remote_view c)(a := None, renamed a n \<mapsto> SecretValue v)"
        proof -
          let ?c = "c\<lparr>cu_vault := (cu_vault c)(remote_reference (renamed a n) \<mapsto> e)\<rparr>"
          have "remote_view ?c = (remote_view c)(renamed a n \<mapsto> SecretValue v)"
            using view_put [OF p(3), of ?c c e] e by simp
          with view_remove [OF w(3), of c2 ?c] v \<open>renamed a n \<noteq> a\<close> show ?thesis
            by (simp add: fun_upd_twist)
        qed
        moreover have "storage_spec (versioned (Version []) (remote_view c)) (RenameReq a n) (RenameAns (Inr ()))
            ((versioned (Version []) (remote_view c))(a := None, renamed a n \<mapsto> (SecretValue v, Version [])))"
          using src dst by (intro storage_spec.rename) simp_all
        then have "remote_step (remote_view c) (RenameReq a n) (RenameAns (Inr ()))
            ((remote_view c)(a := None, renamed a n \<mapsto> SecretValue v))"
          unfolding remote_step_def by (metis values_of_versioned values_of_upd)
        ultimately show ?thesis using c2(1) Inr by auto
      qed
    qed
  qed
qed

end

definition wf_remote_request :: "request \<Rightarrow> bool" where
  "wf_remote_request q \<longleftrightarrow> (case q of
     ReadReq a \<Rightarrow> wf_address a | WriteReq a v \<Rightarrow> wf_address a | DeleteReq a \<Rightarrow> wf_address a
   | RenameReq a n \<Rightarrow> wf_address a \<and> wf_secret_name n | ListReq s \<Rightarrow> wf_scope s)"

context remote_service begin

lemma rename_step:
  assumes w: "holds w c" "tidy c" "wf_address a" "wf_secret_name n" and h: "remote_rename R (unbound a) n w = (x, w')"
  shows "\<exists>c'. holds w' c' \<and> tidy c' \<and> remote_step (remote_view c) (RenameReq a n) (RenameAns x) (remote_view c')"
proof -
  let ?r = "remote_reference a" and ?d = "remote_reference (renamed a n)"
  have refused: ?thesis
    if "holds w' c'" "cu_vault c' = cu_vault c" "remote_step (remote_view c) (RenameReq a n) (RenameAns x) (remote_view c)" for c'
    using that w(2) remote_view_eq [OF that(2)] by (intro exI [of _ c']) (simp add: tidy_def)
  have excuse: "remote_step (remote_view c) (RenameReq a n) (RenameAns (Inl e)) (remote_view c)"
    if "excused (RenameReq a n) e" for e
    using remote_step_excused [OF that] by simp
  obtain y z where y: "client_get C ?r w = (y, z)" by (cases "client_get C ?r w")
  from client_get_asked [OF w(1) y] obtain c1 where c1: "holds z c1"
    "asked (GetReq ?r) GetAns client_error_of (\<lambda>s. s) failed_call c y c1" by blast
  have y': "cu_vault c1 = cu_vault c \<and> (case y of
      Inl e \<Rightarrow> excused (RenameReq a n) (remote_refusal e)
    | Inr s \<Rightarrow> remote_view c a = Some (SecretValue (ss_value s)) \<and> bt_wf (md_labels (ss_metadata s)))"
    using c1(2) unfolding asked_def
  proof (elim disjE exE conjE)
    fix m k assume k: "custody_spec m c (GetReq ?r) (GetAns k) c1" "y = map_sum client_error_of (\<lambda>s. s) k"
    from spec_get [OF k(1)] k(2) tidyD [OF w(2), of ?r] w(3) show ?thesis
      by (cases k) (auto simp: excused_def fault_def remote_view_def)
  qed (auto intro: refusal_excused)
  show ?thesis
  proof (cases y)
    case (Inl e)
    with h y have "x = Inl (remote_refusal e)" "w' = z"
      by (simp_all add: remote_rename_def remote_client unbound_def Let_def)
    with y' Inl c1(1) refused excuse show ?thesis by auto
  next
    case (Inr s)
    obtain q z1 where q: "client_exists C ?d z = (q, z1)" by (cases "client_exists C ?d z")
    from client_exists_asked [OF c1(1) q] obtain c2 where c2: "holds z1 c2"
      "asked (ExistsReq ?d) ExistsAns client_error_of (\<lambda>s. s) failed_call c1 q c2" by blast
    have q': "cu_vault c2 = cu_vault c \<and> (case q of
        Inl e \<Rightarrow> excused (RenameReq a n) (remote_refusal e)
      | Inr t \<Rightarrow> t = (\<exists>e. cu_vault c ?d = Some e \<and> en_state e = Active))"
      using c2(2) unfolding asked_def
    proof (elim disjE exE conjE)
      fix m k assume k: "custody_spec m c1 (ExistsReq ?d) (ExistsAns k) c2" "q = map_sum client_error_of (\<lambda>s. s) k"
      from spec_exists [OF k(1)] k(2) y' show ?thesis
        by (cases k) (auto simp: excused_def fault_def)
    qed (use y' in \<open>auto intro: refusal_excused\<close>)
    have dst: "wf_address (renamed a n)" using w(3,4) by (simp add: wf_address_def)
    then have taken: "(\<exists>e. cu_vault c ?d = Some e \<and> en_state e = Active) \<longleftrightarrow> remote_view c (renamed a n) \<noteq> None"
      by (auto simp: remote_view_def split: option.splits)
    show ?thesis
    proof (cases q)
      case (Inl e)
      with h y \<open>y = Inr s\<close> q have "x = Inl (remote_refusal e)" "w' = z1"
        by (simp_all add: remote_rename_def remote_client unbound_def Let_def renamed_def)
      with q' Inl c2(1) refused excuse show ?thesis by auto
    next
      case (Inr t)
      show ?thesis
      proof (cases t)
        case True
        with h y \<open>y = Inr s\<close> q Inr have "x = Inl Conflict" "w' = z1"
          by (simp_all add: remote_rename_def remote_client unbound_def Let_def renamed_def)
        moreover from True Inr q' taken have "remote_view c (renamed a n) \<noteq> None" by simp
        with remote_step_same [of "Version []" "remote_view c" "RenameReq a n" "RenameAns (Inl Conflict)"]
        have "remote_step (remote_view c) (RenameReq a n) (RenameAns (Inl Conflict)) (remote_view c)"
          by (simp add: storage_spec.rename_taken)
        ultimately show ?thesis using q' c2(1) refused by auto
      next
        case False
        from q' have "cu_vault c2 = cu_vault c" by (rule conjunct1)
        then have v: "remote_view c2 = remote_view c" "tidy c2" using w(2) remote_view_eq [of c2 c] by (simp_all add: tidy_def)
        have free: "remote_view c2 (renamed a n) = None" using q' Inr False taken v(1) by simp
        have src: "remote_view c2 a = Some (SecretValue (ss_value s))" "bt_wf (md_labels (ss_metadata s))"
          using y' \<open>y = Inr s\<close> v(1) by simp_all
        from rename_tail [OF c2(1) v(2) w(3,4) src(2,1) free refl, of "md_disclosure (ss_metadata s)" x w']
          h y \<open>y = Inr s\<close> q Inr False v(1)
        show ?thesis by (simp add: remote_rename_def remote_client unbound_def Let_def renamed_def)
      qed
    qed
  qed
qed

section \<open>The simulation\<close>

lemma remote_simulates:
  assumes w: "holds w c" "tidy c" "wf_remote_request q" and h: "perform (remote_storage R) q w = (r, w')"
  shows "\<exists>c'. holds w' c' \<and> tidy c' \<and> remote_step (remote_view c) q r (remote_view c')"
proof (cases q)
  case (ReadReq a)
  then show ?thesis using w h read_step [OF w(1,2)] by (cases "remote_read R (unbound a) w")
    (auto simp: wf_remote_request_def remote_storage_def)
next
  case (WriteReq a v)
  then show ?thesis using w h write_step [OF w(1,2)] by (cases "remote_write R (unbound a) v w")
    (auto simp: wf_remote_request_def remote_storage_def)
next
  case (DeleteReq a)
  then show ?thesis using w h delete_step [OF w(1,2)] by (cases "remote_delete R (unbound a) w")
    (auto simp: wf_remote_request_def remote_storage_def)
next
  case (RenameReq a n)
  then show ?thesis using w h rename_step [OF w(1,2)] by (cases "remote_rename R (unbound a) n w")
    (auto simp: wf_remote_request_def remote_storage_def)
next
  case (ListReq s)
  then show ?thesis using w h list_step [OF w(1,2)] by (cases "remote_list R s w")
    (auto simp: wf_remote_request_def remote_storage_def)
qed

end

section \<open>Revoked entries\<close>

context remote_service begin

text \<open>A revoked entry does not read, and a write over it never says that it created a secret.\<close>

lemma revoked_read:
  assumes w: "holds w c" and e: "cu_vault c (remote_reference a) = Some e" "en_state e = Revoked"
  shows "fst (remote_read R (unbound a) w) \<noteq> Inr x"
proof
  assume h: "fst (remote_read R (unbound a) w) = Inr x"
  obtain y v where y: "client_get C (remote_reference a) w = (y, v)" by (cases "client_get C (remote_reference a) w")
  obtain s where s: "y = Inr s" using h y by (cases y) (auto simp: remote_read_def remote_client unbound_def Let_def)
  from client_get_asked [OF w y] obtain c' where
    "asked (GetReq (remote_reference a)) GetAns client_error_of (\<lambda>s. s) failed_call c y c'" by blast
  then show False unfolding asked_def
  proof (elim disjE exE conjE)
    fix n b assume b: "custody_spec n c (GetReq (remote_reference a)) (GetAns b) c'" "y = map_sum client_error_of (\<lambda>s. s) b"
    with s spec_get [OF b(1)] e show False by (cases b) auto
  qed (use s in simp)
qed

lemma revoked_write:
  assumes w: "holds w c" "wf_address a" and e: "cu_vault c (remote_reference a) = Some e" "0 < en_version e"
  shows "fst (remote_write R (unbound a) v w) \<noteq> Inr (Created x)"
proof
  assume h: "fst (remote_write R (unbound a) v w) = Inr (Created x)"
  let ?p = "remote_put (remote_reference a) (remote_owner a) (expose v) WorkloadOnly []"
  obtain y z where y: "client_put C ?p w = (y, z)" by (cases "client_put C ?p w")
  have s: "\<exists>m. y = Inr m \<and> md_version m = 1"
    using h y by (cases y) (auto simp: remote_write_def remote_client unbound_def Let_def split: if_splits)
  have "pt_owner ?p \<noteq> []" using owner_nonempty [OF w(2)] by (simp add: remote_put_def)
  from client_put_asked [OF w(1) y this] obtain c' where
    "asked (PutReq ?p) MetadataAns client_error_of (\<lambda>s. s) failed_call c y c'" by blast
  then show False unfolding asked_def
  proof (elim disjE exE conjE)
    fix n b assume b: "custody_spec n c (PutReq ?p) (MetadataAns b) c'" "y = map_sum client_error_of (\<lambda>s. s) b"
    with s spec_put [OF b(1)] e show False
      by (cases b) (auto simp: version_one remote_put_def put_entry_def)
  qed (use s in auto)
qed

end

end
