(* ===== verification/Postgres_Frame.thy ===== *)
theory Postgres_Frame
  imports Postgres_Store
begin

text \<open>
  What the steps of a transaction leave alone, and all-or-nothing: until its commit a transaction
  changes none of the committed tables, whatever becomes of each call, so an operation that
  answers an error left them as they were, unless the answer to a change was lost.
\<close>

named_theorems tx_frame \<open>steps that leave the committed tables alone\<close>

text \<open>The worlds before and after a step of a transaction.\<close>

definition in_tx :: "pg \<Rightarrow> pg \<Rightarrow> bool" where
  "in_tx w w' \<longleftrightarrow> pg_db w' = pg_db w \<and> pg_now w' = pg_now w \<and> pg_clock w' = pg_clock w \<and>
     set (pg_outcomes w') \<subseteq> set (pg_outcomes w)"

definition tx_step :: "(pg, 'e, 'a) io \<Rightarrow> bool" where
  "tx_step m \<longleftrightarrow> (\<forall>w. in_tx w (snd (m w)))"

lemma in_tx_refl [simp]: "in_tx w w"
  by (simp add: in_tx_def)

lemma in_tx_trans: "in_tx w w' \<Longrightarrow> in_tx w' w'' \<Longrightarrow> in_tx w w''"
  by (auto simp: in_tx_def)

lemma tx_stepD: "tx_step m \<Longrightarrow> m w = (r, w') \<Longrightarrow> in_tx w w'"
  unfolding tx_step_def by (metis snd_conv)

lemma tx_step_bind [tx_frame]: "tx_step m \<Longrightarrow> (\<And>a. tx_step (k a)) \<Longrightarrow> tx_step (bindE m k)"
  unfolding tx_step_def bindE_apply
  by (fastforce split: prod.split sum.split intro: in_tx_trans)

lemma tx_step_pure [tx_frame]: "tx_step (retE a)" "tx_step (failE e)" "tx_step (liftE r)"
  by (simp_all add: tx_step_def)

lemma tx_step_map_err [tx_frame]: "tx_step m \<Longrightarrow> tx_step (map_errE f m)"
  by (simp add: tx_step_def)

lemma next_outcome_frame:
  "next_outcome w = (oc, w') \<Longrightarrow> pg_db w' = pg_db w \<and> pg_work w' = pg_work w \<and> pg_now w' = pg_now w \<and>
     pg_clock w' = pg_clock w \<and> pg_entropy w' = pg_entropy w \<and> pg_ids w' = pg_ids w \<and>
     pg_drawn w' = pg_drawn w \<and> set (pg_outcomes w') \<subseteq> set (pg_outcomes w) \<and>
     (oc = Answered \<or> oc \<in> set (pg_outcomes w))"
  by (auto simp: next_outcome_def split: list.splits)

lemma tx_step_execute [tx_frame]: "tx_step (execute_tx texts stmt)"
  unfolding tx_step_def execute_tx_def
  by (auto simp: in_tx_def split: prod.split call_outcome.split dest!: next_outcome_frame)

lemma tx_step_on_tx [tx_frame]: "tx_step (on_tx texts stmt)"
  unfolding on_tx_def by (intro tx_frame)

lemma tx_step_begin [tx_frame]: "tx_step begin_tx"
  unfolding tx_step_def begin_tx_def
  by (auto simp: in_tx_def split: prod.split call_outcome.split dest!: next_outcome_frame)

lemma tx_step_crypt [tx_frame]: "tx_step (crypt m)"
  by (simp add: tx_step_def crypt_def zoomE_apply in_tx_def)

lemma tx_step_now [tx_frame]: "tx_step now_v7"
  by (simp add: tx_step_def now_v7_def in_tx_def)

lemma tx_step_audit [tx_frame]: "tx_step (audit t i a x)"
  unfolding audit_def by (intro tx_frame)

lemma tx_step_metadata [tx_frame]: "tx_step (metadata_tx S r)"
  unfolding metadata_tx_def by (intro tx_frame)

lemma tx_step_option [tx_frame]:
  "tx_step a \<Longrightarrow> (\<And>x. tx_step (b x)) \<Longrightarrow> tx_step (case y of None \<Rightarrow> a | Some x \<Rightarrow> b x)"
  by (cases y) simp_all

lemma tx_step_prod [tx_frame]: "(\<And>a b. tx_step (f a b)) \<Longrightarrow> tx_step (case p of (a, b) \<Rightarrow> f a b)"
  by (cases p) simp

lemma tx_step_put [tx_frame]: "tx_step (put_tx S input actor)"
  unfolding put_tx_def Let_def by (intro tx_frame)

lemma tx_step_delete [tx_frame]: "tx_step (delete_tx S r actor)"
  unfolding delete_tx_def by (intro tx_frame)

lemma tx_step_apply [tx_frame]: "tx_step (apply_mutation S actor m)"
  unfolding apply_mutation_def by (cases m) (simp_all, (intro tx_frame)+)

lemma tx_step_for_each [tx_frame]: "(\<And>x. tx_step (f x)) \<Longrightarrow> tx_step (for_each f xs)"
  by (induction xs) (auto intro: tx_frame)

lemma tx_step_rewrap [tx_frame]: "tx_step (rewrap_row S actor x)"
  unfolding rewrap_row_def Let_def by (intro tx_frame)

lemma tx_step_reseal [tx_frame]: "tx_step (reseal_row S p)"
  unfolding reseal_row_def by (intro tx_frame)

section \<open>All or nothing\<close>

text \<open>No answer to a change is lost.\<close>

definition acked :: "pg \<Rightarrow> bool" where
  "acked w \<longleftrightarrow> Unacknowledged \<notin> set (pg_outcomes w)"

lemma acked_in_tx: "acked w \<Longrightarrow> in_tx w w' \<Longrightarrow> acked w'"
  by (auto simp: acked_def in_tx_def)

lemma commit_tx_cases:
  assumes "commit_tx w = (r, w')" "acked w"
  obtains "r = Inr ()" "pg_db w' = pg_work w" "acked w'" "pg_now w' = pg_now w" "pg_clock w' = pg_clock w"
  | "r = Inl StoreUnavailable" "pg_db w' = pg_db w" "acked w'" "pg_now w' = pg_now w" "pg_clock w' = pg_clock w"
proof -
  obtain oc v where oc: "next_outcome w = (oc, v)" by (cases "next_outcome w")
  note f = next_outcome_frame [OF oc]
  have "oc \<noteq> Unacknowledged" using f assms(2) by (auto simp: acked_def)
  moreover have "acked v" using f assms(2) by (auto simp: acked_def)
  ultimately show thesis
    using that oc f assms(1) by (cases oc) (auto simp: commit_tx_def acked_def)
qed

lemma begin_tx_cases:
  assumes "begin_tx w = (r, w')"
  obtains "r = Inr ()" "pg_work w' = pg_db w" "in_tx w w'" "pg_entropy w' = pg_entropy w"
  | "r = Inl StoreUnavailable" "in_tx w w'"
proof -
  obtain oc v where oc: "next_outcome w = (oc, v)" by (cases "next_outcome w")
  note f = next_outcome_frame [OF oc]
  show thesis
    using that oc f assms by (cases oc) (auto simp: begin_tx_def in_tx_def)
qed

text \<open>A transaction: its body between \<open>begin\<close> and \<open>commit\<close>.\<close>

definition transaction :: "(pg, store_error, 'a) io \<Rightarrow> (pg, store_error, 'a) io" where
  "transaction body = bindE begin_tx (\<lambda>_. bindE body (\<lambda>a. bindE commit_tx (\<lambda>_. retE a)))"

lemma transaction_cases:
  assumes t: "transaction body w = (r, w')" and b: "tx_step body" and a: "acked w"
  obtains (committed) v where "in_tx w v" "pg_work v = pg_db w" "\<exists>x v'. body v = (Inr x, v') \<and> r = Inr x \<and> pg_db w' = pg_work v'"
      "acked w'" "pg_now w' = pg_now w" "pg_clock w' = pg_clock w"
  | (failed) e where "r = Inl e" "pg_db w' = pg_db w" "acked w'" "pg_now w' = pg_now w" "pg_clock w' = pg_clock w"
      "e = StoreUnavailable \<or> (\<exists>v v'. in_tx w v \<and> pg_work v = pg_db w \<and> body v = (Inl e, v'))"
proof -
  obtain r1 v where v: "begin_tx w = (r1, v)" by (cases "begin_tx w")
  show thesis
  proof (cases r1)
    case (Inl e)
    with v t have "r = Inl e" "w' = v" by (simp_all add: transaction_def)
    moreover from v Inl have "in_tx w v" "e = StoreUnavailable"
      by (auto elim!: begin_tx_cases)
    moreover have "acked v" using a \<open>in_tx w v\<close> by (rule acked_in_tx)
    ultimately show thesis
      using failed [of e] by (simp add: in_tx_def)
  next
    case (Inr u)
    with v have w: "pg_work v = pg_db w" "in_tx w v"
      by (auto elim!: begin_tx_cases)
    obtain r2 v2 where v2: "body v = (r2, v2)" by (cases "body v")
    have i: "in_tx w v2" using w(2) tx_stepD [OF b v2] by (rule in_tx_trans)
    show thesis
    proof (cases r2)
      case (Inl e)
      with v Inr v2 t have "r = Inl e" "w' = v2" by (simp_all add: transaction_def)
      with i a w v2 Inl show thesis
        using failed [of e] by (auto simp: in_tx_def acked_def)
    next
      case (Inr x)
      obtain r3 v3 where v3: "commit_tx v2 = (r3, v3)" by (cases "commit_tx v2")
      have a2: "acked v2" using a i by (rule acked_in_tx)
      from v3 a2 show thesis
      proof (cases rule: commit_tx_cases)
        case 1
        with v \<open>r1 = Inr u\<close> v2 Inr v3 t have "r = Inr x" "w' = v3" by (simp_all add: transaction_def)
        with 1 w v2 Inr i show thesis
          using committed [of v] by (auto simp: in_tx_def)
      next
        case 2
        with v \<open>r1 = Inr u\<close> v2 Inr v3 t have "r = Inl StoreUnavailable" "w' = v3"
          by (simp_all add: transaction_def)
        with 2 i show thesis
          using failed [of StoreUnavailable] by (auto simp: in_tx_def)
      qed
    qed
  qed
qed

lemma bindE_retE_right [simp]: "bindE m (\<lambda>a. retE a) = m"
  by (rule ext) (simp add: bindE_def split: prod.split sum.split)

lemma bindE_retE_unit [simp]: "bindE m (\<lambda>_. retE ()) = m"
  by (rule ext) (simp add: bindE_def split: prod.split sum.split)

lemma pg_put_transaction: "pg_put S input = transaction (put_tx S input (pt_owner input))"
  by (simp add: pg_put_def transaction_def)

lemma pg_delete_transaction: "pg_delete S r actor = transaction (delete_tx S r actor)"
  by (simp add: pg_delete_def transaction_def)

definition revoke_tx :: "postgres \<Rightarrow> secret_ref \<Rightarrow> string \<Rightarrow> (pg, store_error, custody_metadata) io" where
  "revoke_tx S r actor =
     bindE (on_tx (ref_texts r) (revoke_secret r)) (\<lambda>found.
     bindE (liftE (ok_or found StoreNotFound)) (\<lambda>i.
     bindE (audit (rf_tenant r) (Some i) actor ''revoke'') (\<lambda>_.
     metadata_tx S r)))"

lemma pg_revoke_transaction: "pg_revoke S r actor = transaction (revoke_tx S r actor)"
  by (simp add: pg_revoke_def revoke_tx_def transaction_def bindE_assoc)

lemma tx_step_revoke [tx_frame]: "tx_step (revoke_tx S r actor)"
  unfolding revoke_tx_def by (intro tx_frame)

end
