(* ===== verification/Postgres_Shows.thy ===== *)
theory Postgres_Shows
  imports Postgres_Frame Custody_Contract
begin

text \<open>
  How the tables show the contents of the custody specification. \<open>vault_rows\<close> relates the secrets
  and their versions to a vault: every entry is a row, and the current version of the row is an
  envelope of the entry's value, sealed for its reference, version and disclosure under a key of
  the ring. \<open>batch_rows\<close> does the same for prepared batches. What each step of a transaction does
  to the tables is proved to be what the specification does to the contents.
\<close>

fun state_text :: "secret_state \<Rightarrow> string" where
  "state_text Active = ''active''"
| "state_text Revoked = ''revoked''"

lemma read_disclosure_text [simp]: "read_disclosure (disclosure_text d) = Inr d"
  by (cases d) (simp_all add: read_disclosure_def)

lemma read_state_text [simp]: "read_state (state_text t) = Inr t"
  by (cases t) (simp_all add: read_state_def)

lemma state_text_simps [simp]:
  "state_text t = ''active'' \<longleftrightarrow> t = Active" "state_text t = ''revoked'' \<longleftrightarrow> t = Revoked"
  "''active'' = state_text t \<longleftrightarrow> t = Active" "''revoked'' = state_text t \<longleftrightarrow> t = Revoked"
  by (cases t; simp)+

definition row_shows :: "secret_row \<Rightarrow> entry \<Rightarrow> bool" where
  "row_shows s e \<longleftrightarrow> sr_owner s = en_owner e \<and> sr_disclosure s = disclosure_text (en_disclosure e) \<and>
     sr_state s = state_text (en_state e) \<and> sint (sr_version s) = en_version e \<and> 0 < en_version e \<and>
     sr_labels s = en_labels e"

definition current_sealed :: "postgres \<Rightarrow> version_row list \<Rightarrow> secret_row \<Rightarrow> entry \<Rightarrow> bool" where
  "current_sealed S vs s e \<longleftrightarrow>
     (\<exists>v \<in> set vs. vr_secret v = sr_id s \<and> vr_version v = sr_version s \<and>
        sealed (ps_aead S) (ps_keyring S)
          (associated_data (sr_ref s) (sr_version s) (en_disclosure e)) (en_value e) (vr_envelope v))"

definition vault_rows ::
  "postgres \<Rightarrow> secret_row list \<Rightarrow> version_row list \<Rightarrow> (secret_ref \<Rightarrow> entry option) \<Rightarrow> bool" where
  "vault_rows S ss vs V \<longleftrightarrow>
     distinct (map sr_ref ss) \<and> distinct (map sr_id ss) \<and>
     distinct (map (\<lambda>v. (vr_secret v, vr_version v)) vs) \<and> dom V = sr_ref ` set ss \<and>
     (\<forall>s \<in> set ss. \<exists>e. V (sr_ref s) = Some e \<and> row_shows s e \<and> current_sealed S vs s e)"

lemma vault_rowsD:
  "vault_rows S ss vs V \<Longrightarrow> s \<in> set ss \<Longrightarrow>
   \<exists>e. V (sr_ref s) = Some e \<and> row_shows s e \<and> current_sealed S vs s e"
  by (simp add: vault_rows_def)

lemma vault_rows_none: "vault_rows S ss vs V \<Longrightarrow> r \<notin> sr_ref ` set ss \<longleftrightarrow> V r = None"
  unfolding vault_rows_def by blast

lemma vault_row_of:
  assumes "vault_rows S ss vs V" "V r = Some e"
  obtains s where "s \<in> set ss" "sr_ref s = r" "row_shows s e" "current_sealed S vs s e"
proof -
  have "r \<in> sr_ref ` set ss"
    using assms vault_rows_none [OF assms(1), of r] by auto
  then obtain s where "s \<in> set ss" "sr_ref s = r" by blast
  with vault_rowsD [OF assms(1) this(1)] assms(2) show thesis using that by auto
qed

lemma find_ref_Some: "find (\<lambda>s. sr_ref s = r) ss = Some s \<Longrightarrow> s \<in> set ss \<and> sr_ref s = r"
  by (auto simp: find_Some_iff)

lemma find_ref_None: "find (\<lambda>s. sr_ref s = r) ss = None \<longleftrightarrow> r \<notin> sr_ref ` set ss"
  by (auto simp: find_None_iff)

lemma find_unique:
  assumes "distinct (map f xs)" "x \<in> set xs" "f x = k"
  shows "find (\<lambda>y. f y = k) xs = Some x"
proof (cases "find (\<lambda>y. f y = k) xs")
  case None
  with assms show ?thesis by (auto simp: find_None_iff)
next
  case (Some y)
  then have "y \<in> set xs" "f y = k"
    by (auto simp: find_Some_iff)
  with assms Some show ?thesis
    by (auto simp: distinct_map dest: inj_onD)
qed

lemma find_ref_row:
  "vault_rows S ss vs V \<Longrightarrow> s \<in> set ss \<Longrightarrow> find (\<lambda>x. sr_ref x = sr_ref s) ss = Some s"
  by (rule find_unique [where f = sr_ref]) (simp_all add: vault_rows_def)

lemma vault_rows_same:
  "vault_rows S ss vs V \<Longrightarrow> s \<in> set ss \<Longrightarrow> t \<in> set ss \<Longrightarrow> sr_ref s = sr_ref t \<Longrightarrow> s = t"
  unfolding vault_rows_def distinct_map by (blast dest: inj_onD)

lemma current_sealed_mono: "current_sealed S vs s e \<Longrightarrow> set vs \<subseteq> set vs' \<Longrightarrow> current_sealed S vs' s e"
  unfolding current_sealed_def by blast

text \<open>One row is changed, and versions may be added.\<close>

lemma vault_rows_update:
  assumes rows: "vault_rows S ss vs V" and r: "r \<in> sr_ref ` set ss"
    and f: "\<And>s. sr_ref (f s) = sr_ref s" "\<And>s. sr_id (f s) = sr_id s"
    and vs: "distinct (map (\<lambda>v. (vr_secret v, vr_version v)) vs')" "set vs \<subseteq> set vs'"
    and new: "\<And>s. s \<in> set ss \<Longrightarrow> sr_ref s = r \<Longrightarrow> row_shows (f s) e \<and> current_sealed S vs' (f s) e"
  shows "vault_rows S (map (\<lambda>s. if sr_ref s = r then f s else s) ss) vs' (V(r \<mapsto> e))"
proof -
  let ?g = "\<lambda>s. if sr_ref s = r then f s else s"
  have g: "sr_ref \<circ> ?g = sr_ref" "sr_id \<circ> ?g = sr_id"
    using f by (auto simp: fun_eq_iff)
  have one: "\<exists>e'. (V(r \<mapsto> e)) (sr_ref (?g s)) = Some e' \<and> row_shows (?g s) e' \<and> current_sealed S vs' (?g s) e'"
    if "s \<in> set ss" for s
    using new [OF that] vault_rowsD [OF rows that] current_sealed_mono [OF _ vs(2)]
    by (cases "sr_ref s = r") (auto simp: f)
  have "\<forall>x \<in> set (map ?g ss). \<exists>e'. (V(r \<mapsto> e)) (sr_ref x) = Some e' \<and> row_shows x e' \<and> current_sealed S vs' x e'"
    unfolding set_map using one by blast
  moreover have "distinct (map sr_ref (map ?g ss))" "distinct (map sr_id (map ?g ss))"
    unfolding map_map g using rows by (simp_all add: vault_rows_def)
  moreover have "dom (V(r \<mapsto> e)) = sr_ref ` set (map ?g ss)"
  proof -
    have "sr_ref ` set (map ?g ss) = sr_ref ` set ss"
      using g(1) by (simp only: set_map image_comp)
    then show ?thesis
      using rows r by (auto simp: vault_rows_def)
  qed
  ultimately show ?thesis
    unfolding vault_rows_def using vs(1) by blast
qed

text \<open>A row is added with its first version.\<close>

lemma vault_rows_add:
  assumes rows: "vault_rows S ss vs V" and "sr_ref s \<notin> sr_ref ` set ss" "sr_id s \<notin> sr_id ` set ss"
    and vs: "distinct (map (\<lambda>v. (vr_secret v, vr_version v)) vs')" "set vs \<subseteq> set vs'"
    and new: "row_shows s e" "current_sealed S vs' s e"
  shows "vault_rows S (ss @ [s]) vs' (V(sr_ref s \<mapsto> e))"
proof -
  have "\<exists>e'. (V(sr_ref s \<mapsto> e)) (sr_ref x) = Some e' \<and> row_shows x e' \<and> current_sealed S vs' x e'"
    if "x \<in> set ss" for x
  proof -
    from that assms(2) have "sr_ref x \<noteq> sr_ref s" by (metis imageI)
    with vault_rowsD [OF rows that] current_sealed_mono [OF _ vs(2)] show ?thesis by auto
  qed
  with assms show ?thesis
    unfolding vault_rows_def by auto
qed

text \<open>A row is removed with its versions.\<close>

lemma vault_rows_remove:
  assumes rows: "vault_rows S ss vs V" and s: "s \<in> set ss"
  shows "vault_rows S (filter (\<lambda>x. sr_ref x \<noteq> sr_ref s) ss) (filter (\<lambda>v. vr_secret v \<noteq> sr_id s) vs)
    (V(sr_ref s := None))"
proof -
  have id: "sr_id x \<noteq> sr_id s" if "x \<in> set ss" "sr_ref x \<noteq> sr_ref s" for x
    using rows that s by (auto simp: vault_rows_def distinct_map dest: inj_onD)
  have "\<exists>e. (V(sr_ref s := None)) (sr_ref x) = Some e \<and> row_shows x e \<and>
      current_sealed S (filter (\<lambda>v. vr_secret v \<noteq> sr_id s) vs) x e"
    if "x \<in> set ss" "sr_ref x \<noteq> sr_ref s" for x
    using vault_rowsD [OF rows that(1)] that id [OF that] by (fastforce simp: current_sealed_def)
  moreover have "dom (V(sr_ref s := None)) = sr_ref ` set (filter (\<lambda>x. sr_ref x \<noteq> sr_ref s) ss)"
    using rows by (auto simp: vault_rows_def)
  ultimately show ?thesis
    using rows by (auto simp: vault_rows_def distinct_map intro: inj_on_subset)
qed

section \<open>Reading rows\<close>

lemma row_to_metadata_shows:
  "row_shows s e \<Longrightarrow> \<exists>md. row_to_metadata S s = Inr md \<and> describes md (sr_ref s) e \<and>
     md_version md = sr_version s \<and> md_disclosure md = en_disclosure e"
  by (simp add: row_to_metadata_def row_shows_def describes_def)

lemma read_envelope_wf [simp]: "wf_envelope ev \<Longrightarrow> read_envelope ev = Inr ev"
  by (simp add: read_envelope_def array12_def wf_envelope_def)

lemma sealed_wf: "sealed A K aad m ev \<Longrightarrow> wf_envelope ev"
  by (simp add: sealed_def)

lemma current_version_found:
  assumes rows: "vault_rows S ss vs V" and "current_sealed S vs s e"
  obtains v where "find (\<lambda>v. vr_secret v = sr_id s \<and> vr_version v = sr_version s) vs = Some v"
    "sealed (ps_aead S) (ps_keyring S)
       (associated_data (sr_ref s) (sr_version s) (en_disclosure e)) (en_value e) (vr_envelope v)"
proof -
  from assms(2) obtain v where v: "v \<in> set vs" "vr_secret v = sr_id s" "vr_version v = sr_version s"
    "sealed (ps_aead S) (ps_keyring S)
       (associated_data (sr_ref s) (sr_version s) (en_disclosure e)) (en_value e) (vr_envelope v)"
    by (auto simp: current_sealed_def)
  have "distinct (map (\<lambda>v. (vr_secret v, vr_version v)) vs)"
    using rows by (simp add: vault_rows_def)
  from find_unique [OF this v(1), of "(sr_id s, sr_version s)"] v show thesis
    using that [of v] by simp
qed

end
