(* ===== verification/Postgres_Steps.thy ===== *)
theory Postgres_Steps
  imports Postgres_Shows
begin

text \<open>
  \<open>shows_db S d c\<close>: the tables \<open>d\<close> show the contents \<open>c\<close>. Each step inside a transaction, putting,
  deleting and revoking a secret, takes tables that show \<open>c\<close> to tables that show what the
  specification makes of \<open>c\<close>, or answers one of the errors the specification allows.
\<close>

text \<open>
  The parts of the store that are other crates' code keep their documented laws, and the ring is
  one that was read by \<open>Keyring::from_json\<close>.
\<close>

definition store_ok :: "postgres \<Rightarrow> bool" where
  "store_ok S \<longleftrightarrow> aead_exact (ps_aead S) \<and> wf_keyring (ps_keyring S) \<and>
     (\<forall>ms. list_all wf_mutation ms \<longrightarrow> ps_unjson S (ps_json S ms) = Some ms)"

definition batch_shows :: "postgres \<Rightarrow> prepared_row \<Rightarrow> batch \<Rightarrow> bool" where
  "batch_shows S p b \<longleftrightarrow> ba_actor b = pr_actor p \<and> pr_expires p = ba_expires b * 1000000 \<and>
     - (2 ^ 63) \<le> ba_expires b \<and> ba_expires b < 2 ^ 63 \<and> list_all wf_mutation (ba_mutations b) \<and>
     sealed (ps_aead S) (ps_keyring S) (batch_associated_data (pr_tenant p) (pr_id p) (pr_actor p))
       (i64_be (ba_expires b) @ ps_json S (ba_mutations b)) (pr_envelope p)"

definition prepared_key :: "prepared_row \<Rightarrow> string \<times> uuid" where
  "prepared_key p = (pr_tenant p, pr_id p)"

definition batch_rows :: "postgres \<Rightarrow> prepared_row list \<Rightarrow> (string \<times> uuid \<Rightarrow> batch option) \<Rightarrow> bool" where
  "batch_rows S ps B \<longleftrightarrow> distinct (map prepared_key ps) \<and> dom B = prepared_key ` set ps \<and>
     (\<forall>p \<in> set ps. \<exists>b. B (prepared_key p) = Some b \<and> batch_shows S p b)"

definition shows_db :: "postgres \<Rightarrow> db \<Rightarrow> custody \<Rightarrow> bool" where
  "shows_db S d c \<longleftrightarrow> vault_rows S (db_secrets d) (db_versions d) (cu_vault c) \<and>
     batch_rows S (db_prepared d) (cu_batches c) \<and>
     map (\<lambda>a. (au_tenant a, au_actor a, au_action a)) (db_audit d) = cu_audit c"

lemma shows_db_rows: "shows_db S d c \<Longrightarrow> vault_rows S (db_secrets d) (db_versions d) (cu_vault c)"
  by (simp add: shows_db_def)

section \<open>One call\<close>

lemma run_statement_Inr:
  "run_statement texts stmt now d = (Inr a, d') \<longleftrightarrow> list_all no_nul texts \<and> stmt now d = (Inr a, d')"
  by (auto simp: run_statement_def split: prod.splits sum.splits)

lemma on_tx_Inr:
  "on_tx texts stmt w = (Inr a, w') \<Longrightarrow>
   stmt (pg_now w) (pg_work w) = (Inr a, pg_work w') \<and> list_all no_nul texts \<and> in_tx w w'"
  using tx_stepD [OF tx_step_on_tx, of texts stmt w "Inr a" w']
  by (auto simp: on_tx_def execute_tx_def run_statement_Inr dest!: next_outcome_frame
      split: prod.splits call_outcome.splits)

lemma on_tx_Inl: "on_tx texts stmt w = (Inl e, w') \<Longrightarrow> e = StoreUnavailable"
  by (auto simp: on_tx_def map_err_def unavailable_def split: sum.splits)

lemma crypt_Inr:
  "crypt m w = (Inr a, w') \<Longrightarrow> (\<exists>e e'. m e = (Inr a, e')) \<and> pg_work w' = pg_work w \<and> pg_now w' = pg_now w"
  by (auto simp: crypt_def zoomE_apply) (metis prod.collapse)

lemma crypt_Inl: "crypt m w = (Inl e, w') \<Longrightarrow> e = StoreCrypto"
  by (auto simp: crypt_def map_err_def split: sum.splits)

lemma now_v7_Inr: "now_v7 w = (Inr a, w') \<Longrightarrow> pg_work w' = pg_work w \<and> pg_now w' = pg_now w"
  by (auto simp: now_v7_def)

lemma now_v7_not_Inl: "now_v7 w \<noteq> (Inl e, w')"
  by (simp add: now_v7_def)

lemma audit_Inr:
  "audit t i a x w = (Inr u, w') \<Longrightarrow>
   pg_work w' = (pg_work w)\<lparr>db_audit := db_audit (pg_work w) @
     [\<lparr>au_tenant = t, au_secret = i, au_actor = a, au_action = x\<rparr>]\<rparr> \<and> pg_now w' = pg_now w"
  by (auto simp: audit_def insert_audit_def in_tx_def dest!: on_tx_Inr)

lemma audit_Inl: "audit t i a x w = (Inl e, w') \<Longrightarrow> e = StoreUnavailable"
  unfolding audit_def by (rule on_tx_Inl)

lemma select_secret_Inr:
  "on_tx texts (select_secret r) w = (Inr x, w') \<Longrightarrow>
   x = find (\<lambda>s. sr_ref s = r) (db_secrets (pg_work w)) \<and> pg_work w' = pg_work w \<and> pg_now w' = pg_now w"
  by (auto simp: select_secret_def in_tx_def dest!: on_tx_Inr)

lemma validate_ref_eq:
  "validate_ref r = (case ref_refusal r of None \<Rightarrow> Inr () | Some i \<Rightarrow> Inl (Invalid i))"
  by (auto simp: validate_ref_def ref_refusal_def nul_def Let_def)

lemma metadata_tx_shows:
  assumes "vault_rows S (db_secrets (pg_work w)) vs V" "metadata_tx S r w = (x, w')"
  shows "pg_now w' = pg_now w \<and> (case x of
      Inr md \<Rightarrow> pg_work w' = pg_work w \<and> (\<exists>e. V r = Some e \<and> describes md r e)
    | Inl err \<Rightarrow> err = StoreUnavailable \<or> err = StoreNotFound \<and> V r = None)"
proof -
  have now: "pg_now w' = pg_now w"
    using tx_stepD [OF tx_step_metadata assms(2)] by (simp add: in_tx_def)
  obtain y w1 where y: "on_tx (ref_texts r) (select_secret r) w = (y, w1)"
    by (cases "on_tx (ref_texts r) (select_secret r) w")
  show ?thesis
  proof (cases y)
    case (Inl e)
    with y assms(2) now show ?thesis by (auto simp: metadata_tx_def dest: on_tx_Inl)
  next
    case (Inr f)
    with y have f: "f = find (\<lambda>s. sr_ref s = r) (db_secrets (pg_work w))" "pg_work w1 = pg_work w"
      by (auto dest: select_secret_Inr)
    show ?thesis
    proof (cases f)
      case None
      then have "V r = None"
        using f vault_rows_none [OF assms(1)] by (simp add: find_ref_None)
      with None y Inr assms(2) now show ?thesis by (auto simp: metadata_tx_def)
    next
      case (Some s)
      then have s: "s \<in> set (db_secrets (pg_work w))" "sr_ref s = r"
        using f by (auto dest: find_ref_Some)
      then obtain e where "V r = Some e" "row_shows s e"
        using vault_rowsD [OF assms(1)] by blast
      with row_to_metadata_shows [of s e S] s Some y Inr f assms(2) now show ?thesis
        by (auto simp: metadata_tx_def)
    qed
  qed
qed

section \<open>Putting\<close>

lemma sint_succ:
  assumes "0 < sint (v :: 64 word)" "0 < sint (v + 1)"
  shows "sint (v + 1) = sint v + 1"
proof -
  have r: "sint v < 2 ^ 63"
    using sint_lt [of v] by simp
  have "sint (v + 1) = signed_take_bit 63 (sint v + 1)"
    by (simp add: sint_word_ariths)
  moreover have "sint v + 1 < 2 ^ 63"
  proof (rule ccontr)
    assume "\<not> sint v + 1 < 2 ^ 63"
    with r have "sint v = 2 ^ 63 - 1" by simp
    then have "sint (v + 1) = signed_take_bit 63 (2 ^ 63)"
      using calculation by simp
    then show False using assms(2) by simp
  qed
  ultimately show ?thesis
    using assms(1) by (simp add: signed_take_bit_int_eq_self)
qed

text \<open>The changes of \<open>put_tx\<close>, before it reads the metadata back.\<close>

definition put_row :: "put_secret \<Rightarrow> uuid \<Rightarrow> 64 word \<Rightarrow> secret_row" where
  "put_row p i ver = \<lparr>sr_id = i, sr_ref = pt_reference p, sr_owner = pt_owner p,
     sr_disclosure = disclosure_text (pt_disclosure p), sr_state = ''active'',
     sr_version = ver, sr_labels = pt_labels p, sr_created = 0, sr_updated = 0\<rparr>"

definition next_version :: "secret_row option \<Rightarrow> (pg, store_error, uuid \<times> 64 word) io" where
  "next_version existing =
     (case existing of
        Some row \<Rightarrow> retE (sr_id row, sr_version row + 1)
      | None \<Rightarrow> bindE now_v7 (\<lambda>i. retE (i, 1)))"

definition put_rows :: "postgres \<Rightarrow> put_secret \<Rightarrow> string \<Rightarrow> (pg, store_error, unit) io" where
  "put_rows S p actor =
     (let r = pt_reference p in
      bindE (liftE (validate_ref r)) (\<lambda>_.
      bindE (on_tx (ref_texts r) (select_secret r)) (\<lambda>existing.
      bindE (next_version existing) (\<lambda>(i, ver).
      bindE (crypt (encrypt (ps_aead S) (ps_keyring S) r ver (pt_disclosure p) (pt_value p))) (\<lambda>ev.
      bindE (on_tx (ref_texts r @ [pt_owner p] @ label_texts (pt_labels p)) (upsert_secret (put_row p i ver))) (\<lambda>_.
      bindE (on_tx [ev_key_id ev] (insert_version \<lparr>vr_secret = i, vr_version = ver, vr_envelope = ev\<rparr>)) (\<lambda>_.
      audit (rf_tenant r) (Some i) actor ''put'')))))))"

lemma put_tx_rows: "put_tx S p actor = bindE (put_rows S p actor) (\<lambda>_. metadata_tx S (pt_reference p))"
  by (simp add: put_tx_def put_rows_def put_row_def next_version_def bindE_assoc Let_def split_def)

lemma next_version_not_Inl: "next_version x w \<noteq> (Inl e, w')"
  by (cases x) (simp_all add: next_version_def bindE_eq_Inl now_v7_not_Inl)

lemma next_version_Inr:
  "next_version x w = (Inr (i, ver), w') \<Longrightarrow>
   pg_work w' = pg_work w \<and> pg_now w' = pg_now w \<and>
   (case x of Some row \<Rightarrow> i = sr_id row \<and> ver = sr_version row + 1 | None \<Rightarrow> ver = 1)"
  by (cases x) (auto simp: next_version_def bindE_eq_Inr dest!: now_v7_Inr)

lemma put_rows_Inl:
  assumes "put_rows S p actor w = (Inl e, w')"
  shows "e = StoreUnavailable \<or> e = StoreCrypto \<or> (\<exists>i. ref_refusal (pt_reference p) = Some i \<and> e = Invalid i)"
  using assms
  by (auto simp: put_rows_def Let_def bindE_eq_Inl validate_ref_eq split_def next_version_not_Inl
      split: option.splits dest!: on_tx_Inl crypt_Inl audit_Inl)

lemma upsert_Inr:
  assumes "upsert_secret row now d = (Inr u, d')"
  shows "secret_checks row \<and>
    (if sr_ref row \<in> sr_ref ` set (db_secrets d)
     then d' = d\<lparr>db_secrets := map (\<lambda>s. if sr_ref s = sr_ref row
           then s\<lparr>sr_owner := sr_owner row, sr_disclosure := sr_disclosure row, sr_state := ''active'',
                  sr_version := sr_version row, sr_labels := sr_labels row, sr_updated := now\<rparr>
           else s) (db_secrets d)\<rparr>
     else sr_id row \<notin> sr_id ` set (db_secrets d) \<and>
       d' = d\<lparr>db_secrets := db_secrets d @ [row\<lparr>sr_created := now, sr_updated := now\<rparr>]\<rparr>)"
proof -
  have "list_ex (\<lambda>s. sr_ref s = sr_ref row) (db_secrets d) \<longleftrightarrow> sr_ref row \<in> sr_ref ` set (db_secrets d)"
    "list_ex (\<lambda>s. sr_id s = sr_id row) (db_secrets d) \<longleftrightarrow> sr_id row \<in> sr_id ` set (db_secrets d)"
    unfolding list_ex_iff image_iff by metis+
  with assms show ?thesis
    by (simp add: upsert_secret_def split: if_splits)
qed

lemma insert_version_Inr:
  assumes "insert_version v now d = (Inr u, d')"
  shows "d' = d\<lparr>db_versions := db_versions d @ [v]\<rparr> \<and>
    (vr_secret v, vr_version v) \<notin> (\<lambda>v. (vr_secret v, vr_version v)) ` set (db_versions d)"
  using assms by (auto simp: insert_version_def list_ex_iff split: if_splits)

text \<open>The tables after the row and the version are in place.\<close>

lemma put_tables:
  assumes rows: "vault_rows S (db_secrets d) (db_versions d) V"
    and up: "upsert_secret (put_row p i ver) now d = (Inr u, d1)"
    and iv: "insert_version \<lparr>vr_secret = i, vr_version = ver, vr_envelope = ev\<rparr> now d1 = (Inr u', d2)"
    and i: "case find (\<lambda>s. sr_ref s = pt_reference p) (db_secrets d) of
        Some row \<Rightarrow> i = sr_id row \<and> ver = sr_version row + 1 | None \<Rightarrow> ver = 1"
    and sealed: "sealed (ps_aead S) (ps_keyring S)
      (associated_data (pt_reference p) ver (pt_disclosure p)) (pt_value p) ev"
  shows "vault_rows S (db_secrets d2) (db_versions d2) (V(pt_reference p \<mapsto> put_entry p (V (pt_reference p)))) \<and>
    db_prepared d2 = db_prepared d \<and> db_audit d2 = db_audit d"
proof -
  let ?r = "pt_reference p" and ?v = "\<lparr>vr_secret = i, vr_version = ver, vr_envelope = ev\<rparr>"
  note u = upsert_Inr [OF up]
  have d2: "d2 = d1\<lparr>db_versions := db_versions d1 @ [?v]\<rparr>"
    and fresh: "(i, ver) \<notin> (\<lambda>v. (vr_secret v, vr_version v)) ` set (db_versions d1)"
    using insert_version_Inr [OF iv] by simp_all
  have checks: "0 < sint ver"
    using u by (simp add: secret_checks_def put_row_def)
  have vs: "db_versions d1 = db_versions d" "db_prepared d1 = db_prepared d" "db_audit d1 = db_audit d"
    using u by (auto split: if_splits)
  have dist: "distinct (map (\<lambda>v. (vr_secret v, vr_version v)) (db_versions d @ [?v]))"
    using rows fresh vs(1) by (auto simp: vault_rows_def)
  have cs: "current_sealed S (db_versions d @ [?v]) s (put_entry p old)"
    if "sr_id s = i" "sr_version s = ver" "sr_ref s = ?r" for s old
    using sealed that by (auto simp: current_sealed_def put_entry_def)
  have "vault_rows S (db_secrets d1) (db_versions d @ [?v]) (V(?r \<mapsto> put_entry p (V ?r)))"
  proof (cases "find (\<lambda>s. sr_ref s = ?r) (db_secrets d)")
    case None
    then have ver: "ver = 1" using i by simp
    from None have n: "?r \<notin> sr_ref ` set (db_secrets d)" "V ?r = None"
      using vault_rows_none [OF rows] by (simp_all add: find_ref_None)
    let ?s = "(put_row p i ver)\<lparr>sr_created := now, sr_updated := now\<rparr>"
    have "db_secrets d1 = db_secrets d @ [?s]" "sr_id ?s \<notin> sr_id ` set (db_secrets d)"
      using u n by (simp_all add: put_row_def)
    moreover have "row_shows ?s (put_entry p (V ?r))"
      using n(2) ver by (simp add: row_shows_def put_row_def put_entry_def)
    ultimately show ?thesis
      using vault_rows_add [OF rows _ _ dist, of ?s "put_entry p (V ?r)"] n cs [of ?s "V ?r"]
      by (auto simp: put_row_def)
  next
    case (Some row)
    then have row: "row \<in> set (db_secrets d)" "sr_ref row = ?r" "i = sr_id row" "ver = sr_version row + 1"
      using i by (auto dest: find_ref_Some)
    then obtain e where e: "V ?r = Some e" "row_shows row e"
      using vault_rowsD [OF rows] by metis
    let ?f = "\<lambda>s. s\<lparr>sr_owner := pt_owner p, sr_disclosure := disclosure_text (pt_disclosure p),
      sr_state := ''active'', sr_version := ver, sr_labels := pt_labels p, sr_updated := now\<rparr>"
    have mem: "?r \<in> sr_ref ` set (db_secrets d)"
      using row(1,2) by (metis imageI)
    then have d1: "db_secrets d1 = map (\<lambda>s. if sr_ref s = ?r then ?f s else s) (db_secrets d)"
      using u by (simp add: put_row_def)
    have "sint ver = en_version e + 1" "0 < en_version e"
      using sint_succ [of "sr_version row"] checks row(4) e(2) by (auto simp: row_shows_def)
    then have rs: "row_shows (?f s) (put_entry p (V ?r))" for s
      using e(1) by (simp add: row_shows_def put_entry_def)
    have same: "s = row" if "s \<in> set (db_secrets d)" "sr_ref s = ?r" for s
      using vault_rows_same [OF rows that(1) row(1)] that(2) row(2) by simp
    show ?thesis
      unfolding d1
      by (rule vault_rows_update [OF rows _ _ _ dist])
        (use mem row(3) same rs cs in auto)
  qed
  then show ?thesis
    using d2 vs by simp
qed

lemma put_rows_shows:
  assumes c: "shows_db S (pg_work w) c" and p: "put_rows S p actor w = (Inr u, w')"
  shows "ref_refusal (pt_reference p) = None \<and> shows_db S (pg_work w') (put_into p actor c)"
proof -
  let ?r = "pt_reference p"
  from p obtain x w1 i ver w2 ev w3 u4 w4 u5 w5 where
    v: "validate_ref ?r = Inr ()" and
    1: "on_tx (ref_texts ?r) (select_secret ?r) w = (Inr x, w1)" and
    2: "next_version x w1 = (Inr (i, ver), w2)" and
    3: "crypt (encrypt (ps_aead S) (ps_keyring S) ?r ver (pt_disclosure p) (pt_value p)) w2 = (Inr ev, w3)" and
    4: "on_tx (ref_texts ?r @ [pt_owner p] @ label_texts (pt_labels p)) (upsert_secret (put_row p i ver)) w3 = (Inr u4, w4)" and
    5: "on_tx [ev_key_id ev] (insert_version \<lparr>vr_secret = i, vr_version = ver, vr_envelope = ev\<rparr>) w4 = (Inr u5, w5)" and
    6: "audit (rf_tenant ?r) (Some i) actor ''put'' w5 = (Inr u, w')"
    by (auto simp: put_rows_def Let_def bindE_eq_Inr)
  have x: "x = find (\<lambda>s. sr_ref s = ?r) (db_secrets (pg_work w))" "pg_work w1 = pg_work w" "pg_now w1 = pg_now w"
    using select_secret_Inr [OF 1] by simp_all
  note n = next_version_Inr [OF 2] and cr = crypt_Inr [OF 3]
  have "sealed (ps_aead S) (ps_keyring S) (associated_data ?r ver (pt_disclosure p)) (pt_value p) ev"
    using cr seal_sealed by (auto simp: encrypt_def)
  moreover have "upsert_secret (put_row p i ver) (pg_now w3) (pg_work w) = (Inr u4, pg_work w4)"
    using on_tx_Inr [OF 4] cr n x(2) by simp
  moreover have "insert_version \<lparr>vr_secret = i, vr_version = ver, vr_envelope = ev\<rparr> (pg_now w3) (pg_work w4) = (Inr u5, pg_work w5)"
    using on_tx_Inr [OF 5] on_tx_Inr [OF 4] by (simp add: in_tx_def)
  ultimately have "vault_rows S (db_secrets (pg_work w5)) (db_versions (pg_work w5))
        ((cu_vault c)(?r \<mapsto> put_entry p (cu_vault c ?r))) \<and>
      db_prepared (pg_work w5) = db_prepared (pg_work w) \<and> db_audit (pg_work w5) = db_audit (pg_work w)"
    using put_tables [OF shows_db_rows [OF c]] n x(1) by blast
  then show ?thesis
    using audit_Inr [OF 6] c v
    by (auto simp: shows_db_def put_into_def audited_def validate_ref_eq split: option.splits)
qed

end
