(* ===== verification/Postgres_Refines.thy ===== *)
theory Postgres_Refines
  imports Postgres_Steps
begin

text \<open>
  The store over PostgreSQL keeps the contract of a custody store: the simulation of
  \<open>custody_spec\<close>, operation by operation, over every script of call outcomes in which no answer to
  a change is lost.
\<close>

section \<open>Bodies of transactions\<close>

lemma put_tx_shows:
  assumes c: "shows_db S (pg_work w) c" and p: "put_tx S p actor w = (x, w')"
  shows "case x of
      Inr md \<Rightarrow> ref_refusal (pt_reference p) = None \<and>
        describes md (pt_reference p) (put_entry p (cu_vault c (pt_reference p))) \<and>
        shows_db S (pg_work w') (put_into p actor c)
    | Inl e \<Rightarrow> e = StoreUnavailable \<or> e = StoreCrypto \<or>
        (\<exists>i. ref_refusal (pt_reference p) = Some i \<and> e = Invalid i)"
proof -
  obtain y w1 where y: "put_rows S p actor w = (y, w1)" by (cases "put_rows S p actor w")
  show ?thesis
  proof (cases y)
    case (Inl e)
    with y p have "x = Inl e" by (simp add: put_tx_rows)
    with put_rows_Inl y Inl show ?thesis by simp
  next
    case (Inr u)
    with y have r: "ref_refusal (pt_reference p) = None" "shows_db S (pg_work w1) (put_into p actor c)"
      using put_rows_shows [OF c] by blast+
    have m: "metadata_tx S (pt_reference p) w1 = (x, w')"
      using p y Inr by (simp add: put_tx_rows)
    from metadata_tx_shows [OF shows_db_rows [OF r(2)] m] r show ?thesis
      by (auto simp: put_into_def audited_def split: sum.splits)
  qed
qed

lemma delete_secret_Inr:
  assumes c: "shows_db S d c" and s: "delete_secret r now d = (Inr x, d')"
  shows "(x = None \<longleftrightarrow> cu_vault c r = None) \<and>
    (x \<noteq> None \<longrightarrow> shows_db S d' (c\<lparr>cu_vault := (cu_vault c)(r := None)\<rparr>))"
proof (cases "find (\<lambda>s. sr_ref s = r) (db_secrets d)")
  case None
  with s have "x = None" by (simp add: delete_secret_def)
  moreover have "cu_vault c r = None"
    using None vault_rows_none [OF shows_db_rows [OF c]] by (simp add: find_ref_None)
  ultimately show ?thesis by simp
next
  case (Some row)
  then have row: "row \<in> set (db_secrets d)" "sr_ref row = r"
    by (auto dest: find_ref_Some)
  then have "cu_vault c r \<noteq> None"
    using vault_rowsD [OF shows_db_rows [OF c] row(1)] by auto
  moreover have "shows_db S d' (c\<lparr>cu_vault := (cu_vault c)(r := None)\<rparr>)"
    using vault_rows_remove [OF shows_db_rows [OF c] row(1)] c s Some row(2)
    by (auto simp: delete_secret_def shows_db_def)
  ultimately show ?thesis
    using s Some by (auto simp: delete_secret_def)
qed

lemma audit_shows:
  "shows_db S (pg_work w) c \<Longrightarrow> audit t i a x w = (Inr u, w') \<Longrightarrow> shows_db S (pg_work w') (audited t a x c)"
  by (auto simp: shows_db_def audited_def dest!: audit_Inr)

lemma delete_tx_shows:
  assumes c: "shows_db S (pg_work w) c" and p: "delete_tx S r actor w = (x, w')"
  shows "case x of
      Inr u \<Rightarrow> cu_vault c r \<noteq> None \<and> shows_db S (pg_work w') (delete_from r actor c)
    | Inl e \<Rightarrow> e = StoreUnavailable \<or> e = StoreNotFound \<and> cu_vault c r = None"
proof -
  obtain y w1 where y: "on_tx (ref_texts r) (delete_secret r) w = (y, w1)"
    by (cases "on_tx (ref_texts r) (delete_secret r) w")
  show ?thesis
  proof (cases y)
    case (Inl e)
    with y p have "x = Inl e" by (simp add: delete_tx_def)
    moreover have "e = StoreUnavailable" using y Inl on_tx_Inl by blast
    ultimately show ?thesis by simp
  next
    case (Inr f)
    from on_tx_Inr [OF y [unfolded Inr]] have "delete_secret r (pg_now w) (pg_work w) = (Inr f, pg_work w1)"
      by simp
    note d = delete_secret_Inr [OF c this]
    show ?thesis
    proof (cases f)
      case None
      with y Inr p d show ?thesis by (auto simp: delete_tx_def)
    next
      case (Some i)
      with y Inr p have a: "audit (rf_tenant r) (Some i) actor ''delete'' w1 = (x, w')"
        by (simp add: delete_tx_def)
      show ?thesis
      proof (cases x)
        case (Inl e)
        with a audit_Inl show ?thesis by auto
      next
        case (Inr u)
        with a Some d show ?thesis
          by (auto simp: delete_from_def intro: audit_shows)
      qed
    qed
  qed
qed

lemma revoke_secret_Inr:
  assumes c: "shows_db S d c" and s: "revoke_secret r now d = (Inr x, d')"
  shows "(x = None \<longleftrightarrow> cu_vault c r = None) \<and>
    (\<forall>e. cu_vault c r = Some e \<longrightarrow> shows_db S d' (c\<lparr>cu_vault := (cu_vault c)(r \<mapsto> e\<lparr>en_state := Revoked\<rparr>)\<rparr>))"
proof -
  note rows = shows_db_rows [OF c]
  have x: "x = None \<longleftrightarrow> cu_vault c r = None"
    using s vault_rows_none [OF rows] by (auto simp: revoke_secret_def find_ref_None)
  have "shows_db S d' (c\<lparr>cu_vault := (cu_vault c)(r \<mapsto> e\<lparr>en_state := Revoked\<rparr>)\<rparr>)"
    if e: "cu_vault c r = Some e" for e
  proof -
    have r: "r \<in> sr_ref ` set (db_secrets d)"
      using vault_rows_none [OF rows, of r] e by auto
    let ?f = "\<lambda>s. s\<lparr>sr_state := ''revoked'', sr_updated := now\<rparr>"
    have new: "row_shows (?f s) (e\<lparr>en_state := Revoked\<rparr>) \<and>
        current_sealed S (db_versions d) (?f s) (e\<lparr>en_state := Revoked\<rparr>)"
      if "s \<in> set (db_secrets d)" "sr_ref s = r" for s
      using vault_rowsD [OF rows that(1)] that(2) e
      by (auto simp: row_shows_def current_sealed_def)
    have "vault_rows S (map (\<lambda>s. if sr_ref s = r then ?f s else s) (db_secrets d)) (db_versions d)
        ((cu_vault c)(r \<mapsto> e\<lparr>en_state := Revoked\<rparr>))"
      by (rule vault_rows_update [OF rows r _ _ _ _ new]) (use rows in \<open>auto simp: vault_rows_def\<close>)
    with c s show ?thesis by (auto simp: revoke_secret_def shows_db_def)
  qed
  with x show ?thesis by blast
qed

lemma revoke_tx_shows:
  assumes c: "shows_db S (pg_work w) c" and p: "revoke_tx S r actor w = (x, w')"
  shows "case x of
      Inr md \<Rightarrow> (\<exists>e. cu_vault c r = Some e \<and> describes md r (e\<lparr>en_state := Revoked\<rparr>)) \<and>
        shows_db S (pg_work w') (revoke_in r actor c)
    | Inl e \<Rightarrow> e = StoreUnavailable \<or> e = StoreNotFound \<and> cu_vault c r = None"
proof -
  obtain y w1 where y: "on_tx (ref_texts r) (revoke_secret r) w = (y, w1)"
    by (cases "on_tx (ref_texts r) (revoke_secret r) w")
  show ?thesis
  proof (cases y)
    case (Inl e)
    with y p have "x = Inl e" by (simp add: revoke_tx_def)
    moreover have "e = StoreUnavailable" using y Inl on_tx_Inl by blast
    ultimately show ?thesis by simp
  next
    case (Inr f)
    from on_tx_Inr [OF y [unfolded Inr]] have "revoke_secret r (pg_now w) (pg_work w) = (Inr f, pg_work w1)"
      by simp
    note d = revoke_secret_Inr [OF c this]
    show ?thesis
    proof (cases f)
      case None
      with y Inr p d show ?thesis by (auto simp: revoke_tx_def)
    next
      case (Some i)
      with d obtain e where e: "cu_vault c r = Some e" by auto
      obtain z w2 where a: "audit (rf_tenant r) (Some i) actor ''revoke'' w1 = (z, w2)"
        by (cases "audit (rf_tenant r) (Some i) actor ''revoke'' w1")
      show ?thesis
      proof (cases z)
        case (Inl er)
        with y \<open>y = Inr f\<close> Some p a have "x = Inl er" by (simp add: revoke_tx_def)
        with a Inl audit_Inl show ?thesis by auto
      next
        case (Inr u)
        with y \<open>y = Inr f\<close> Some p a have m: "metadata_tx S r w2 = (x, w')" by (simp add: revoke_tx_def)
        have s: "shows_db S (pg_work w2) (revoke_in r actor c)"
          using audit_shows [OF _ a [unfolded Inr]] d e by (auto simp: revoke_in_def)
        from metadata_tx_shows [OF shows_db_rows [OF s] m] s e show ?thesis
          by (auto simp: revoke_in_def audited_def split: sum.splits)
      qed
    qed
  qed
qed

lemma apply_mutation_shows:
  assumes c: "shows_db S (pg_work w) c" and p: "apply_mutation S actor m w = (x, w')"
  shows "case x of
      Inr u \<Rightarrow> \<exists>c'. apply_to actor m c = Inr c' \<and> shows_db S (pg_work w') c'
    | Inl e \<Rightarrow> e = StoreUnavailable \<or> e = StoreCrypto \<or> apply_to actor m c = Inl e"
proof (cases m)
  case (Put q)
  obtain y w1 where y: "put_tx S q actor w = (y, w1)" by (cases "put_tx S q actor w")
  from put_tx_shows [OF c y] y p Put show ?thesis
    by (cases y) (auto simp: apply_mutation_def)
next
  case (Delete r)
  obtain y w1 where y: "delete_tx S r actor w = (y, w1)" by (cases "delete_tx S r actor w")
  from delete_tx_shows [OF c y] y p Delete show ?thesis
    by (cases y) (auto simp: apply_mutation_def)
qed

lemma apply_mutations_shows:
  assumes "shows_db S (pg_work w) c" "for_each (apply_mutation S actor) ms w = (x, w')"
  shows "case x of
      Inr u \<Rightarrow> \<exists>c'. apply_all actor ms c = Inr c' \<and> shows_db S (pg_work w') c'
    | Inl e \<Rightarrow> e = StoreUnavailable \<or> e = StoreCrypto \<or> apply_all actor ms c = Inl e"
  using assms
proof (induction ms arbitrary: w c)
  case Nil
  then show ?case by auto
next
  case (Cons m ms)
  obtain y w1 where y: "apply_mutation S actor m w = (y, w1)" by (cases "apply_mutation S actor m w")
  note a = apply_mutation_shows [OF Cons.prems(1) y]
  show ?case
  proof (cases y)
    case (Inl e)
    with y a Cons.prems(2) show ?thesis by auto
  next
    case (Inr u)
    with a obtain c1 where c1: "apply_to actor m c = Inr c1" "shows_db S (pg_work w1) c1" by auto
    with Cons.IH [OF c1(2)] Cons.prems(2) y Inr show ?thesis by (cases x) simp_all
  qed
qed

end
