(* ===== verification/Postgres_Batches.thy ===== *)
theory Postgres_Batches
  imports Postgres_Refines
begin

text \<open>
  Prepared batches in the tables: what purging, taking, deleting and inserting rows does to the
  batches shown, and the body of the transaction \<open>commit\<close> runs.
\<close>

section \<open>Rows of batches\<close>

lemma batch_rowsD:
  "batch_rows S ps B \<Longrightarrow> p \<in> set ps \<Longrightarrow> \<exists>b. B (prepared_key p) = Some b \<and> batch_shows S p b"
  by (simp add: batch_rows_def)

lemma batch_rows_same:
  "batch_rows S ps B \<Longrightarrow> p \<in> set ps \<Longrightarrow> q \<in> set ps \<Longrightarrow> prepared_key p = prepared_key q \<Longrightarrow> p = q"
  unfolding batch_rows_def distinct_map by (blast dest: inj_onD)

lemma batch_row_of:
  assumes "batch_rows S ps B" "B k \<noteq> None"
  obtains p where "p \<in> set ps" "prepared_key p = k"
proof -
  from assms have "k \<in> prepared_key ` set ps"
    unfolding batch_rows_def by blast
  then show thesis using that by blast
qed

lemma batch_rows_filter:
  assumes rows: "batch_rows S ps B"
    and kept: "\<And>p. p \<in> set ps \<Longrightarrow> P p \<Longrightarrow> B' (prepared_key p) = B (prepared_key p)"
    and gone: "\<And>k. B' k \<noteq> None \<Longrightarrow> \<exists>p \<in> set ps. P p \<and> prepared_key p = k"
  shows "batch_rows S (filter P ps) B'"
proof -
  have "dom B' = prepared_key ` set (filter P ps)"
  proof (rule set_eqI)
    fix k
    show "k \<in> dom B' \<longleftrightarrow> k \<in> prepared_key ` set (filter P ps)"
      using gone [of k] kept batch_rowsD [OF rows] by (fastforce simp: domIff)
  qed
  with rows kept show ?thesis
    by (auto simp: batch_rows_def distinct_map_filter)
qed

lemma live_None: "cu_batches c k = None \<Longrightarrow> live now c k = None"
  by (simp add: live_def)

lemma live_row:
  assumes rows: "batch_rows S ps (cu_batches c)" and p: "p \<in> set ps"
  shows "live now c (prepared_key p) =
    (if now < pr_expires p then cu_batches c (prepared_key p) else None)"
  using batch_rowsD [OF rows p] by (auto simp: live_def batch_shows_def)

lemma live_Some_row:
  assumes rows: "batch_rows S ps (cu_batches c)" and "live now c k = Some b"
  obtains p where "p \<in> set ps" "prepared_key p = k" "now < pr_expires p" "batch_shows S p b"
proof -
  have "cu_batches c k = Some b" "now < ba_expires b * 1000000"
    using assms(2) by (auto simp: live_def split: option.splits if_splits)
  moreover from this(1) obtain p where "p \<in> set ps" "prepared_key p = k"
    using batch_row_of [OF rows, of k] by auto
  moreover from batch_rowsD [OF rows this(1)] this(2) calculation(1) have "batch_shows S p b"
    by auto
  ultimately show thesis
    using that [of p] by (auto simp: batch_shows_def)
qed

text \<open>Dropping expired rows only forgets.\<close>

lemma delete_expired_shows:
  assumes c: "shows_db S d c" and s: "delete_expired t now d = (Inr u, d')"
  obtains c' where "shows_db S d' c'" "forgets now c c'"
    "\<And>k. (t = None \<or> t = Some (fst k)) \<Longrightarrow> cu_batches c' k = live now c k"
proof -
  let ?P = "\<lambda>p. \<not> ((t = None \<or> t = Some (pr_tenant p)) \<and> pr_expires p \<le> now)"
  let ?B = "\<lambda>k. if t = None \<or> t = Some (fst k) then live now c k else cu_batches c k"
  have rows: "batch_rows S (db_prepared d) (cu_batches c)"
    using c by (simp add: shows_db_def)
  have "batch_rows S (filter ?P (db_prepared d)) ?B"
  proof (rule batch_rows_filter [OF rows])
    fix p assume "p \<in> set (db_prepared d)" "?P p"
    then show "?B (prepared_key p) = cu_batches c (prepared_key p)"
      using live_row [OF rows, of p now] by (auto simp: prepared_key_def)
  next
    fix k assume k: "?B k \<noteq> None"
    then have "cu_batches c k \<noteq> None"
      by (auto simp: live_def split: if_splits option.splits)
    then obtain p where p: "p \<in> set (db_prepared d)" "prepared_key p = k"
      by (rule batch_row_of [OF rows])
    with k live_row [OF rows p(1), of now] have "?P p"
      by (auto simp: prepared_key_def split: if_splits)
    with p show "\<exists>p \<in> set (db_prepared d). ?P p \<and> prepared_key p = k" by blast
  qed
  then have "shows_db S d' (c\<lparr>cu_batches := ?B\<rparr>)"
    using c s by (auto simp: delete_expired_def shows_db_def)
  moreover have "forgets now c (c\<lparr>cu_batches := ?B\<rparr>)"
    by (auto simp: forgets_def live_def split: option.split)
  ultimately show thesis
    using that [of "c\<lparr>cu_batches := ?B\<rparr>"] by simp
qed

text \<open>Removing the live row of a key removes its batch.\<close>

lemma batch_rows_remove:
  assumes rows: "batch_rows S ps B" and p: "p \<in> set ps" "P p"
    and P: "\<And>q. q \<in> set ps \<Longrightarrow> P q \<Longrightarrow> prepared_key q = prepared_key p"
  shows "batch_rows S (filter (\<lambda>q. \<not> P q) ps) (B(prepared_key p := None))"
proof (rule batch_rows_filter [OF rows])
  fix q assume q: "q \<in> set ps" "\<not> P q"
  with p batch_rows_same [OF rows q(1) p(1)] have "prepared_key q \<noteq> prepared_key p" by blast
  then show "(B(prepared_key p := None)) (prepared_key q) = B (prepared_key q)" by simp
next
  fix k assume k: "(B(prepared_key p := None)) k \<noteq> None"
  then have "k \<noteq> prepared_key p" "B k \<noteq> None"
    by (auto split: if_splits)
  moreover from this(2) obtain q where "q \<in> set ps" "prepared_key q = k"
    by (rule batch_row_of [OF rows])
  ultimately show "\<exists>q \<in> set ps. \<not> P q \<and> prepared_key q = k" using P by blast
qed

lemma without_batch_simps [simp]:
  "cu_vault (without_batch k c) = cu_vault c" "cu_audit (without_batch k c) = cu_audit c"
  "cu_batches (without_batch k c) = (cu_batches c)(k := None)"
  by (simp_all add: without_batch_def)

lemma take_prepared_shows:
  assumes c: "shows_db S d c" and s: "take_prepared t i now d = (Inr x, d')"
  shows "case x of
      None \<Rightarrow> live now c (t, i) = None
    | Some (p, n) \<Rightarrow> n = now \<and> pr_tenant p = t \<and> pr_id p = i \<and>
        (\<exists>b. live now c (t, i) = Some b \<and> batch_shows S p b) \<and> shows_db S d' (without_batch (t, i) c)"
proof -
  let ?hit = "\<lambda>p. pr_tenant p = t \<and> pr_id p = i \<and> now < pr_expires p"
  have rows: "batch_rows S (db_prepared d) (cu_batches c)"
    using c by (simp add: shows_db_def)
  have x: "x = map_option (\<lambda>p. (p, now)) (find ?hit (db_prepared d))"
    and d': "d' = d\<lparr>db_prepared := filter (\<lambda>p. \<not> ?hit p) (db_prepared d)\<rparr>"
    using s by (auto simp: take_prepared_def Let_def)
  show ?thesis
  proof (cases "find ?hit (db_prepared d)")
    case None
    have "live now c (t, i) = None"
    proof (rule ccontr)
      assume "live now c (t, i) \<noteq> None"
      then obtain b where "live now c (t, i) = Some b" by auto
      with live_Some_row [OF rows] obtain p where "p \<in> set (db_prepared d)" "?hit p"
        by (metis prepared_key_def prod.inject)
      with None show False by (auto simp: find_None_iff)
    qed
    with None x show ?thesis by simp
  next
    case (Some p)
    then have p: "p \<in> set (db_prepared d)" "?hit p"
      by (auto simp: find_Some_iff)
    then have k: "prepared_key p = (t, i)" by (simp add: prepared_key_def)
    from batch_rowsD [OF rows p(1)] k live_row [OF rows p(1), of now] p(2)
    obtain b where "live now c (t, i) = Some b" "batch_shows S p b" by auto
    moreover have "batch_rows S (filter (\<lambda>p. \<not> ?hit p) (db_prepared d)) ((cu_batches c)((t, i) := None))"
      using batch_rows_remove [OF rows p(1), of ?hit] p(2) k by (auto simp: prepared_key_def)
    ultimately show ?thesis
      using x d' Some p c by (auto simp: shows_db_def)
  qed
qed

lemma delete_prepared_shows:
  assumes c: "shows_db S d c" and K: "ids = keyring_key_ids (ps_keyring S)"
    and s: "delete_prepared t i ids now d = (Inr n, d')"
  shows "if n = 0 then live now c (t, i) = None \<and> shows_db S d' c
    else live now c (t, i) \<noteq> None \<and> shows_db S d' (without_batch (t, i) c)"
proof -
  let ?hit = "\<lambda>p. pr_tenant p = t \<and> pr_id p = i \<and> now < pr_expires p \<and> ev_key_id (pr_envelope p) \<in> set ids"
  have rows: "batch_rows S (db_prepared d) (cu_batches c)"
    using c by (simp add: shows_db_def)
  have n: "n = length (filter ?hit (db_prepared d))"
    and d': "d' = d\<lparr>db_prepared := filter (\<lambda>p. \<not> ?hit p) (db_prepared d)\<rparr>"
    using s by (auto simp: delete_prepared_def Let_def)
  have ids: "ev_key_id (pr_envelope p) \<in> set ids" if "batch_shows S p b" for p b
  proof -
    have "map_of (kr_keys (ps_keyring S)) (ev_key_id (pr_envelope p)) \<noteq> None"
      using that by (auto simp: batch_shows_def sealed_def)
    then show ?thesis
      using K by (simp add: keyring_key_ids_def map_of_eq_None_iff del: not_None_eq)
  qed
  show ?thesis
  proof (cases "n = 0")
    case True
    then have none: "\<not> ?hit p" if "p \<in> set (db_prepared d)" for p
      using n that by (auto simp: filter_empty_conv)
    have "live now c (t, i) = None"
    proof (rule ccontr)
      assume "live now c (t, i) \<noteq> None"
      then obtain b where "live now c (t, i) = Some b" by auto
      with live_Some_row [OF rows] obtain p where "p \<in> set (db_prepared d)" "prepared_key p = (t, i)"
        "now < pr_expires p" "batch_shows S p b" by metis
      with none ids show False by (auto simp: prepared_key_def)
    qed
    moreover have "d' = d"
      using none d' by (simp add: filter_id_conv)
    ultimately show ?thesis using True c by simp
  next
    case False
    then obtain p where p: "p \<in> set (db_prepared d)" "?hit p"
      using n by (auto simp: filter_empty_conv)
    then have k: "prepared_key p = (t, i)" by (simp add: prepared_key_def)
    have "live now c (t, i) \<noteq> None"
      using batch_rowsD [OF rows p(1)] k live_row [OF rows p(1), of now] p(2) by auto
    moreover have "batch_rows S (filter (\<lambda>p. \<not> ?hit p) (db_prepared d)) ((cu_batches c)((t, i) := None))"
      using batch_rows_remove [OF rows p(1), of ?hit] p(2) k by (auto simp: prepared_key_def)
    ultimately show ?thesis
      using d' False c by (auto simp: shows_db_def)
  qed
qed

lemma insert_prepared_Inr:
  assumes c: "shows_db S d c" and s: "insert_prepared i t a ev x now d = (Inr u, d')"
    and b: "batch_shows S \<lparr>pr_id = i, pr_tenant = t, pr_actor = a, pr_envelope = ev, pr_expires = x * 1000000\<rparr> b"
  shows "cu_batches c (t, i) = None \<and> shows_db S d' (c\<lparr>cu_batches := (cu_batches c)((t, i) \<mapsto> b)\<rparr>)"
proof -
  have rows: "batch_rows S (db_prepared d) (cu_batches c)"
    using c by (simp add: shows_db_def)
  have f: "(t, i) \<notin> prepared_key ` set (db_prepared d)"
    and d': "d' = d\<lparr>db_prepared := db_prepared d @
      [\<lparr>pr_id = i, pr_tenant = t, pr_actor = a, pr_envelope = ev, pr_expires = x * 1000000\<rparr>]\<rparr>"
    using s by (auto simp: insert_prepared_def prepared_key_def list_ex_iff split: if_splits)
  have n: "cu_batches c (t, i) = None"
    using rows f by (auto simp: batch_rows_def)
  have "\<exists>b'. ((cu_batches c)((t, i) \<mapsto> b)) (prepared_key p) = Some b' \<and> batch_shows S p b'"
    if "p \<in> set (db_prepared d)" for p
    using batch_rowsD [OF rows that] n by auto
  then have "shows_db S d' (c\<lparr>cu_batches := (cu_batches c)((t, i) \<mapsto> b)\<rparr>)"
    using c f d' b rows by (auto simp: shows_db_def batch_rows_def prepared_key_def)
  with n show ?thesis by blast
qed

lemma insert_prepared_unique:
  assumes c: "shows_db S d c" and s: "insert_prepared i t a ev x now d = (Inl UniqueViolation, d')"
  shows "cu_batches c (t, i) \<noteq> None"
proof -
  have "(t, i) \<in> prepared_key ` set (db_prepared d)"
    using s by (auto simp: insert_prepared_def prepared_key_def list_ex_iff image_iff split: if_splits)
  then show ?thesis
    using c by (auto simp: shows_db_def batch_rows_def)
qed

end
