(* ===== verification/Postgres_Contract.thy ===== *)
theory Postgres_Contract
  imports Postgres_Batches
begin

text \<open>
  The simulation for the whole store: each request performed on the store over PostgreSQL is
  answered as \<open>custody_spec\<close> allows.
\<close>

definition pg_shows :: "postgres \<Rightarrow> pg \<Rightarrow> custody \<Rightarrow> bool" where
  "pg_shows S w c \<longleftrightarrow> store_ok S \<and> acked w \<and> shows_db S (pg_db w) c"

section \<open>Statements on the pool\<close>

lemma execute_pool_cases:
  assumes "execute_pool texts stmt w = (x, w')" "acked w"
  shows "acked w' \<and> pg_now w' = pg_now w \<and> pg_clock w' = pg_clock w \<and>
    (case x of
       Inr a \<Rightarrow> stmt (pg_now w) (pg_db w) = (Inr a, pg_db w')
     | Inl e \<Rightarrow> pg_db w' = pg_db w \<and>
         (e = OtherSql \<or> (\<exists>d. stmt (pg_now w) (pg_db w) = (Inl e, d))))"
proof -
  obtain oc v where oc: "next_outcome w = (oc, v)" by (cases "next_outcome w")
  note f = next_outcome_frame [OF oc]
  have "oc \<noteq> Unacknowledged" "acked v"
    using f assms(2) by (auto simp: acked_def)
  then show ?thesis
    using assms(1) oc f
    by (cases oc) (auto simp: execute_pool_def run_statement_def acked_def split: sum.splits prod.splits if_splits)
qed

lemma on_pool_cases:
  assumes "on_pool texts stmt w = (x, w')" "acked w"
  shows "acked w' \<and> pg_now w' = pg_now w \<and> pg_clock w' = pg_clock w \<and>
    (case x of
       Inr a \<Rightarrow> stmt (pg_now w) (pg_db w) = (Inr a, pg_db w')
     | Inl e \<Rightarrow> e = StoreUnavailable \<and> pg_db w' = pg_db w)"
proof -
  obtain y v where y: "execute_pool texts stmt w = (y, v)" by (cases "execute_pool texts stmt w")
  from execute_pool_cases [OF y assms(2)] y assms(1) show ?thesis
    by (cases y) (auto simp: on_pool_def unavailable_def)
qed

lemma pg_fault: "pg_shows S w c \<Longrightarrow> e = StoreUnavailable \<or> e = StoreCrypto \<Longrightarrow> acked w' \<Longrightarrow> pg_db w' = pg_db w \<Longrightarrow>
    \<exists>c'. custody_spec (pg_now w) c q (refusal q e) c' \<and> pg_shows S w' c'"
  by (metis core_fault core_spec pg_shows_def)

lemma pg_answer:
  assumes "pg_shows S w c" "custody_core (pg_now w) c q r c1" "acked w'" "shows_db S (pg_db w') c1"
  shows "\<exists>c'. custody_spec (pg_now w) c q r c' \<and> pg_shows S w' c'"
  using assms by (metis core_spec pg_shows_def)

lemma pg_same:
  assumes "pg_shows S w c" "custody_core (pg_now w) c q r c" "acked w'" "pg_db w' = pg_db w"
  shows "\<exists>c'. custody_spec (pg_now w) c q r c' \<and> pg_shows S w' c'"
  using pg_answer assms by (metis pg_shows_def)

section \<open>Transactions\<close>

lemma pg_put_sim:
  assumes w: "pg_shows S w c" and p: "pg_put S input w = (x, w')"
  shows "\<exists>c'. custody_spec (pg_now w) c (PutReq input) (MetadataAns x) c' \<and> pg_shows S w' c'"
proof -
  have a: "acked w" "shows_db S (pg_db w) c" using w by (simp_all add: pg_shows_def)
  from p [unfolded pg_put_transaction] tx_step_put a(1) show ?thesis
  proof (cases rule: transaction_cases)
    case (committed v)
    then obtain md v' where b: "put_tx S input (pt_owner input) v = (Inr md, v')" "x = Inr md"
      "pg_db w' = pg_work v'" by auto
    have "shows_db S (pg_work v) c" using a committed(2) by simp
    from put_tx_shows [OF this b(1)] b(2,3) committed(4) show ?thesis
      by (auto intro: pg_answer [OF w core_put])
  next
    case (failed e)
    have "e = StoreUnavailable \<or> e = StoreCrypto \<or>
        (\<exists>i. ref_refusal (pt_reference input) = Some i \<and> e = Invalid i)"
      using failed(6)
    proof (elim disjE exE conjE)
      fix v v' assume "pg_work v = pg_db w" "put_tx S input (pt_owner input) v = (Inl e, v')"
      with put_tx_shows [of S v c input "pt_owner input" "Inl e" v'] a show ?thesis by simp
    qed simp
    with failed(1-3) pg_fault [OF w, of e w' "PutReq input"] show ?thesis
      by (auto intro: pg_same [OF w core_put_refused])
  qed
qed

lemma pg_delete_sim:
  assumes w: "pg_shows S w c" and p: "pg_delete S r actor w = (x, w')"
  shows "\<exists>c'. custody_spec (pg_now w) c (RemoveReq r actor) (DoneAns x) c' \<and> pg_shows S w' c'"
proof -
  have a: "acked w" "shows_db S (pg_db w) c" using w by (simp_all add: pg_shows_def)
  from p [unfolded pg_delete_transaction] tx_step_delete a(1) show ?thesis
  proof (cases rule: transaction_cases)
    case (committed v)
    then obtain v' where b: "delete_tx S r actor v = (Inr (), v')" "x = Inr ()" "pg_db w' = pg_work v'"
      by auto
    have "shows_db S (pg_work v) c" using a committed(2) by simp
    from delete_tx_shows [OF this b(1)] b(2,3) committed(4) show ?thesis
      by (auto intro: pg_answer [OF w core_delete])
  next
    case (failed e)
    have "e = StoreUnavailable \<or> e = StoreNotFound \<and> cu_vault c r = None"
      using failed(6)
    proof (elim disjE exE conjE)
      fix v v' assume "pg_work v = pg_db w" "delete_tx S r actor v = (Inl e, v')"
      with delete_tx_shows [of S v c r actor "Inl e" v'] a show ?thesis by simp
    qed simp
    with failed(1-3) pg_fault [OF w, of e w' "RemoveReq r actor"] show ?thesis
      by (auto intro: pg_same [OF w core_delete_none])
  qed
qed

lemma pg_revoke_sim:
  assumes w: "pg_shows S w c" and p: "pg_revoke S r actor w = (x, w')"
  shows "\<exists>c'. custody_spec (pg_now w) c (RevokeReq r actor) (MetadataAns x) c' \<and> pg_shows S w' c'"
proof -
  have a: "acked w" "shows_db S (pg_db w) c" using w by (simp_all add: pg_shows_def)
  from p [unfolded pg_revoke_transaction] tx_step_revoke a(1) show ?thesis
  proof (cases rule: transaction_cases)
    case (committed v)
    then obtain md v' where b: "revoke_tx S r actor v = (Inr md, v')" "x = Inr md" "pg_db w' = pg_work v'"
      by auto
    have "shows_db S (pg_work v) c" using a committed(2) by simp
    from revoke_tx_shows [OF this b(1)] b(2,3) committed(4) show ?thesis
      by (auto intro: pg_answer [OF w core_revoke])
  next
    case (failed e)
    have "e = StoreUnavailable \<or> e = StoreNotFound \<and> cu_vault c r = None"
      using failed(6)
    proof (elim disjE exE conjE)
      fix v v' assume "pg_work v = pg_db w" "revoke_tx S r actor v = (Inl e, v')"
      with revoke_tx_shows [of S v c r actor "Inl e" v'] a show ?thesis by simp
    qed simp
    with failed(1-3) pg_fault [OF w, of e w' "RevokeReq r actor"] show ?thesis
      by (auto intro: pg_same [OF w core_revoke_none])
  qed
qed

section \<open>Queries\<close>

lemma select_active_shows:
  assumes rows: "vault_rows S (db_secrets d) (db_versions d) V" and s: "select_active r now d = (Inr x, d')"
  shows "d' = d \<and> (case x of
      None \<Rightarrow> V r = None \<or> (\<exists>e. V r = Some e \<and> en_state e = Revoked)
    | Some (s, v) \<Rightarrow> sr_ref s = r \<and> (\<exists>e. V r = Some e \<and> en_state e = Active \<and> row_shows s e \<and>
        sealed (ps_aead S) (ps_keyring S)
          (associated_data r (sr_version s) (en_disclosure e)) (en_value e) (vr_envelope v)))"
proof (cases "find (\<lambda>s. sr_ref s = r \<and> sr_state s = ''active'') (db_secrets d)")
  case None
  have "en_state e = Revoked" if e: "V r = Some e" for e
  proof -
    obtain t where "t \<in> set (db_secrets d)" "sr_ref t = r" "row_shows t e"
      by (rule vault_row_of [OF rows e])
    then show ?thesis
      using None by (cases "en_state e") (auto simp: find_None_iff row_shows_def)
  qed
  with None s show ?thesis
    by (cases "V r") (auto simp: select_active_def)
next
  case (Some t)
  then have t: "t \<in> set (db_secrets d)" "sr_ref t = r" "sr_state t = ''active''"
    by (auto simp: find_Some_iff)
  from vault_rowsD [OF rows t(1)] t obtain e where e: "V r = Some e" "row_shows t e"
    "current_sealed S (db_versions d) t e" by auto
  obtain v where v: "find (\<lambda>v. vr_secret v = sr_id t \<and> vr_version v = sr_version t) (db_versions d) = Some v"
    "sealed (ps_aead S) (ps_keyring S)
       (associated_data r (sr_version t) (en_disclosure e)) (en_value e) (vr_envelope v)"
    by (rule current_version_found [OF rows e(3), unfolded t(2)])
  have "x = Some (t, v)" "d' = d"
    using s Some v(1) by (simp_all add: select_active_def)
  moreover have "en_state e = Active"
    using t(3) e(2) by (simp add: row_shows_def)
  ultimately show ?thesis
    using t(2) e(1,2) v(2) by simp
qed

lemma pg_get_sim:
  assumes w: "pg_shows S w c" and p: "pg_get S r w = (x, w')"
  shows "\<exists>c'. custody_spec (pg_now w) c (GetReq r) (GetAns x) c' \<and> pg_shows S w' c'"
proof -
  have a: "acked w" "shows_db S (pg_db w) c" "aead_exact (ps_aead S)"
    using w by (simp_all add: pg_shows_def store_ok_def)
  obtain y w1 where y: "on_pool (ref_texts r) (select_active r) w = (y, w1)"
    by (cases "on_pool (ref_texts r) (select_active r) w")
  note f = on_pool_cases [OF y a(1)]
  show ?thesis
  proof (cases y)
    case (Inl e)
    with y p f pg_fault [OF w, of e w' "GetReq r"] show ?thesis by (auto simp: pg_get_def)
  next
    case (Inr found)
    with f have "select_active r (pg_now w) (pg_db w) = (Inr found, pg_db w1)" by simp
    note s = select_active_shows [OF shows_db_rows [OF a(2)] this]
    show ?thesis
    proof (cases found)
      case None
      with y Inr p s f have "x = Inl StoreNotFound" "w' = w1" by (auto simp: pg_get_def)
      with None s f show ?thesis by (auto intro: pg_same [OF w core_get_none])
    next
      case (Some sv)
      obtain t v where sv: "sv = (t, v)" by (cases sv)
      with Some s obtain e where t: "sr_ref t = r" and e: "cu_vault c r = Some e" "en_state e = Active"
        "row_shows t e" "sealed (ps_aead S) (ps_keyring S)
           (associated_data r (sr_version t) (en_disclosure e)) (en_value e) (vr_envelope v)"
        by auto
      obtain md where md: "row_to_metadata S t = Inr md" "describes md r e"
        "md_version md = sr_version t" "md_disclosure md = en_disclosure e"
        using row_to_metadata_shows [OF e(3), of S] t by auto
      have "x = Inr \<lparr>ss_metadata = md, ss_value = en_value e\<rparr> \<and> w' = w1"
        using y Inr p Some sv md sealed_wf [OF e(4)] open_sealed [OF a(3) e(4)]
        by (simp add: pg_get_def decrypt_def)
      with core_get [OF e(1,2) md(2)] s f show ?thesis
        by (auto intro: pg_same [OF w])
    qed
  qed
qed

lemma pg_exists_sim:
  assumes w: "pg_shows S w c" and p: "pg_exists S r w = (x, w')"
  shows "\<exists>c'. custody_spec (pg_now w) c (ExistsReq r) (ExistsAns x) c' \<and> pg_shows S w' c'"
proof -
  have a: "acked w" "shows_db S (pg_db w) c" using w by (simp_all add: pg_shows_def)
  note rows = shows_db_rows [OF a(2)]
  note f = on_pool_cases [OF p [unfolded pg_exists_def] a(1)]
  show ?thesis
  proof (cases x)
    case (Inl e)
    with f pg_fault [OF w, of e w' "ExistsReq r"] show ?thesis by auto
  next
    case (Inr b)
    have "b = list_ex (\<lambda>s. sr_ref s = r \<and> sr_state s = ''active'') (db_secrets (pg_db w))"
      and d: "pg_db w' = pg_db w"
      using f Inr by (auto simp: select_exists_def)
    moreover have "list_ex (\<lambda>s. sr_ref s = r \<and> sr_state s = ''active'') (db_secrets (pg_db w)) \<longleftrightarrow>
        (\<exists>e. cu_vault c r = Some e \<and> en_state e = Active)"
    proof
      assume "list_ex (\<lambda>s. sr_ref s = r \<and> sr_state s = ''active'') (db_secrets (pg_db w))"
      then show "\<exists>e. cu_vault c r = Some e \<and> en_state e = Active"
        using vault_rowsD [OF rows] by (fastforce simp: list_ex_iff row_shows_def)
    next
      assume "\<exists>e. cu_vault c r = Some e \<and> en_state e = Active"
      then obtain e where e: "cu_vault c r = Some e" "en_state e = Active" by blast
      obtain t where "t \<in> set (db_secrets (pg_db w))" "sr_ref t = r" "row_shows t e"
        by (rule vault_row_of [OF rows e(1)])
      with e
      show "list_ex (\<lambda>s. sr_ref s = r \<and> sr_state s = ''active'') (db_secrets (pg_db w))"
        by (auto simp: list_ex_iff row_shows_def)
    qed
    ultimately show ?thesis
      using Inr f core_exists [of b c r] by (auto intro!: pg_same [OF w])
  qed
qed

lemma pg_list_sim:
  assumes w: "pg_shows S w c" and p: "pg_list S t x w = (y, w')"
  shows "\<exists>c'. custody_spec (pg_now w) c (CustodyListReq t x) (CustodyListAns y) c' \<and> pg_shows S w' c'"
proof -
  have a: "acked w" "shows_db S (pg_db w) c" using w by (simp_all add: pg_shows_def)
  note rows = shows_db_rows [OF a(2)]
  let ?texts = "t # (case x of None \<Rightarrow> [] | Some o' \<Rightarrow> [o'])"
  obtain z w1 where z: "on_pool ?texts (select_list t x) w = (z, w1)"
    by (cases "on_pool ?texts (select_list t x) w")
  note f = on_pool_cases [OF z a(1)]
  show ?thesis
  proof (cases z)
    case (Inl e)
    with z p f pg_fault [OF w, of e w' "CustodyListReq t x"] show ?thesis by (auto simp: pg_list_def)
  next
    case (Inr ss)
    let ?P = "\<lambda>s. rf_tenant (sr_ref s) = t \<and> (x = None \<or> x = Some (sr_owner s))"
    have ss: "ss = sort_key (\<lambda>s. - sr_updated s) (filter ?P (db_secrets (pg_db w)))" and d: "pg_db w1 = pg_db w"
      using f Inr by (auto simp: select_list_def)
    then have set: "set ss = {s \<in> set (db_secrets (pg_db w)). ?P s}" by auto
    define md where "md s = (SOME m. row_to_metadata S s = Inr m)" for s
    have md: "row_to_metadata S s = Inr (md s) \<and>
        (\<exists>e. cu_vault c (sr_ref s) = Some e \<and> describes (md s) (sr_ref s) e \<and> sr_owner s = en_owner e)"
      if "s \<in> set ss" for s
    proof -
      from that set vault_rowsD [OF rows, of s] obtain e where "cu_vault c (sr_ref s) = Some e" "row_shows s e"
        by auto
      with row_to_metadata_shows [of s e S] show ?thesis
        by (auto simp: md_def row_shows_def)
    qed
    then have refs: "md_reference (md s) = sr_ref s" if "s \<in> set ss" for s
      using that by (auto simp: describes_def)
    have y: "y = Inr (map md ss)" "w' = w1"
      using z Inr p try_map_map [of ss "row_to_metadata S" md] md by (auto simp: pg_list_def)
    have "distinct (map md_reference (map md ss))"
    proof -
      have "distinct (map sr_ref ss)"
        using rows ss by (auto simp: vault_rows_def distinct_map intro: inj_on_subset)
      moreover have "map md_reference (map md ss) = map sr_ref ss"
        using refs by simp
      ultimately show ?thesis by (simp only:)
    qed
    moreover have "\<forall>m \<in> set (map md ss). \<exists>e. cu_vault c (md_reference m) = Some e \<and> describes m (md_reference m) e"
      using md refs by auto
    moreover have "set (map md_reference (map md ss)) =
        {r. rf_tenant r = t \<and> (\<exists>e. cu_vault c r = Some e \<and> (x = None \<or> x = Some (en_owner e)))}"
    proof (rule set_eqI)
      fix r
      have "r \<in> set (map md_reference (map md ss)) \<longleftrightarrow> (\<exists>s \<in> set ss. sr_ref s = r)"
        using refs by force
      also have "\<dots> \<longleftrightarrow> rf_tenant r = t \<and> (\<exists>e. cu_vault c r = Some e \<and> (x = None \<or> x = Some (en_owner e)))"
      proof
        assume "\<exists>s \<in> set ss. sr_ref s = r"
        then show "rf_tenant r = t \<and> (\<exists>e. cu_vault c r = Some e \<and> (x = None \<or> x = Some (en_owner e)))"
          using md set by fastforce
      next
        assume r: "rf_tenant r = t \<and> (\<exists>e. cu_vault c r = Some e \<and> (x = None \<or> x = Some (en_owner e)))"
        then obtain e where e: "cu_vault c r = Some e" "x = None \<or> x = Some (en_owner e)" by blast
        obtain s where "s \<in> set (db_secrets (pg_db w))" "sr_ref s = r" "row_shows s e"
          by (rule vault_row_of [OF rows e(1)])
        with set r e(2) show "\<exists>s \<in> set ss. sr_ref s = r" by (auto simp: row_shows_def)
      qed
      finally show "r \<in> set (map md_reference (map md ss)) \<longleftrightarrow>
          r \<in> {r. rf_tenant r = t \<and> (\<exists>e. cu_vault c r = Some e \<and> (x = None \<or> x = Some (en_owner e)))}"
        by simp
    qed
    ultimately have "custody_core (pg_now w) c (CustodyListReq t x) (CustodyListAns (Inr (map md ss))) c"
      by (rule core_list)
    with y d f show ?thesis
      by (auto intro: pg_same [OF w])
  qed
qed

section \<open>Batches\<close>

lemma purge_shows:
  assumes w: "pg_shows S w c" and p: "purge_expired S t w = (x, w')"
  obtains c' where "pg_shows S w' c'" "forgets (pg_now w) c c'" "pg_now w' = pg_now w" "pg_clock w' = pg_clock w"
    "case x of Inl e \<Rightarrow> e = StoreUnavailable \<and> c' = c
       | Inr u \<Rightarrow> (\<forall>i. cu_batches c' (t, i) = live (pg_now w) c (t, i))"
proof -
  have a: "acked w" "shows_db S (pg_db w) c" "store_ok S" using w by (simp_all add: pg_shows_def)
  note f = on_pool_cases [OF p [unfolded purge_expired_def] a(1)]
  show thesis
  proof (cases x)
    case (Inl e)
    with f a that [of c] show thesis by (simp add: pg_shows_def)
  next
    case (Inr u)
    with f have "delete_expired (Some t) (pg_now w) (pg_db w) = (Inr u, pg_db w')" by simp
    from delete_expired_shows [OF a(2) this] obtain c' where "shows_db S (pg_db w') c'"
      "forgets (pg_now w) c c'" "\<And>k. Some t = None \<or> Some t = Some (fst k) \<Longrightarrow> cu_batches c' k = live (pg_now w) c k"
      by blast
    with f a Inr that [of c'] show thesis by (simp add: pg_shows_def)
  qed
qed

lemma pg_abort_sim:
  assumes w: "pg_shows S w c" and p: "pg_abort S t i w = (x, w')"
  shows "\<exists>c'. custody_spec (pg_now w) c (AbortReq t i) (DoneAns x) c' \<and> pg_shows S w' c'"
proof -
  have a: "acked w" "shows_db S (pg_db w) c" using w by (simp_all add: pg_shows_def)
  let ?ids = "keyring_key_ids (ps_keyring S)"
  obtain y w1 where y: "on_pool (t # ?ids) (delete_prepared t i ?ids) w = (y, w1)"
    by (cases "on_pool (t # ?ids) (delete_prepared t i ?ids) w")
  note f = on_pool_cases [OF y a(1)]
  show ?thesis
  proof (cases y)
    case (Inl e)
    with y p f pg_fault [OF w, of e w' "AbortReq t i"] show ?thesis by (auto simp: pg_abort_def)
  next
    case (Inr n)
    with f have "delete_prepared t i ?ids (pg_now w) (pg_db w) = (Inr n, pg_db w1)" by simp
    note d = delete_prepared_shows [OF a(2) refl this]
    show ?thesis
    proof (cases "n = 0")
      case True
      with y Inr p have "x = Inl StoreNotFound" "w' = w1" by (auto simp: pg_abort_def)
      with d True f show ?thesis by (auto intro: pg_answer [OF w core_abort_none])
    next
      case False
      with y Inr p have "x = Inr ()" "w' = w1" by (auto simp: pg_abort_def)
      with d False f show ?thesis by (auto intro: pg_answer [OF w core_abort])
    qed
  qed
qed

lemma live_vault [simp]:
  "live now (c\<lparr>cu_vault := V\<rparr>) k = live now c k" "live now (c\<lparr>cu_audit := A\<rparr>) k = live now c k"
  by (simp_all add: live_def)

lemma forgets_insert:
  "forgets now c c' \<Longrightarrow>
   forgets now (c\<lparr>cu_batches := (cu_batches c)(k \<mapsto> b)\<rparr>) (c'\<lparr>cu_batches := (cu_batches c')(k \<mapsto> b)\<rparr>)"
  unfolding forgets_def by (auto simp: live_def split: option.splits)

lemma try_for_each_tenant:
  "try_for_each (same_tenant t) ms = Inr () \<longleftrightarrow> (\<forall>m \<in> set ms. rf_tenant (mutation_reference m) = t)"
  "try_for_each (same_tenant t) ms = Inl e \<Longrightarrow>
     e = Invalid CrossTenantBatch \<and> (\<exists>m \<in> set ms. rf_tenant (mutation_reference m) \<noteq> t)"
proof -
  show "try_for_each (same_tenant t) ms = Inr () \<longleftrightarrow> (\<forall>m \<in> set ms. rf_tenant (mutation_reference m) = t)"
    by (auto simp: try_for_each_ok same_tenant_def split: if_splits)
  show "try_for_each (same_tenant t) ms = Inl e \<Longrightarrow>
      e = Invalid CrossTenantBatch \<and> (\<exists>m \<in> set ms. rf_tenant (mutation_reference m) \<noteq> t)"
    by (induction ms) (auto simp: same_tenant_def bindR_eq_Inl split: if_splits)
qed

lemma crypt_frame: "crypt m w = (x, w') \<Longrightarrow> pg_db w' = pg_db w \<and> pg_now w' = pg_now w \<and> pg_outcomes w' = pg_outcomes w"
  by (auto simp: crypt_def zoomE_apply)

lemma pg_shows_crypt: "pg_shows S w c \<Longrightarrow> crypt m w = (x, w') \<Longrightarrow> pg_shows S w' c"
  by (auto simp: pg_shows_def acked_def dest!: crypt_frame)

lemma saturating_bounds: "- (2 ^ 63) \<le> saturating_add a b \<and> saturating_add a b < 2 ^ 63"
  by (simp add: saturating_add_def)

text \<open>The end of \<open>prepare\<close>, once the batch is sealed.\<close>

lemma insert_sealed_sim:
  assumes w: "pg_shows S w c" and x: "- (2 ^ 63) \<le> x" "x < 2 ^ 63" and ms: "list_all wf_mutation ms"
    and s: "sealed (ps_aead S) (ps_keyring S) (batch_associated_data t i a) (i64_be x @ ps_json S ms) ev"
    and ok: "ms \<noteq> []" "\<forall>m \<in> set ms. rf_tenant (mutation_reference m) = t"
    and p: "bindE (purge_expired S t) (\<lambda>_. map_errE insert_error (execute_pool texts
        (insert_prepared i t a ev x))) w = (y, w')"
  shows "\<exists>c'. custody_spec (pg_now w) c (PrepareReq t i ms a) (DoneAns y) c' \<and> pg_shows S w' c'"
proof -
  obtain z w1 where z: "purge_expired S t w = (z, w1)" by (cases "purge_expired S t w")
  from w z obtain c1 where c1: "pg_shows S w1 c1" "forgets (pg_now w) c c1" "pg_now w1 = pg_now w"
    "case z of Inl e \<Rightarrow> e = StoreUnavailable \<and> c1 = c
       | Inr u \<Rightarrow> (\<forall>i. cu_batches c1 (t, i) = live (pg_now w) c (t, i))"
    by (rule purge_shows)
  note fault = custody_specI [OF core_fault [of _ "pg_now w" c "PrepareReq t i ms a"] c1(2)]
  show ?thesis
  proof (cases z)
    case (Inl e)
    with z p have "y = Inl e" "w' = w1" by simp_all
    with c1 Inl fault [of e] show ?thesis by auto
  next
    case (Inr u)
    let ?e = "execute_pool texts (insert_prepared i t a ev x)"
    obtain v w2 where v: "?e w1 = (v, w2)" by (cases "?e w1")
    with z Inr p have y: "y = map_err insert_error v" "w' = w2" by simp_all
    have a1: "acked w1" "shows_db S (pg_db w1) c1" "store_ok S" using c1(1) by (simp_all add: pg_shows_def)
    note f = execute_pool_cases [OF v a1(1)]
    have l: "cu_batches c1 (t, i) = live (pg_now w) c (t, i)" using c1(4) Inr by simp
    show ?thesis
    proof (cases v)
      case (Inl e)
      have same: "pg_shows S w' c1"
        using f Inl a1 y by (simp add: pg_shows_def)
      show ?thesis
      proof (cases e)
        case UniqueViolation
        with f Inl obtain d where "insert_prepared i t a ev x (pg_now w1) (pg_db w1) = (Inl UniqueViolation, d)"
          by auto
        from insert_prepared_unique [OF a1(2) this] l have "live (pg_now w) c (t, i) \<noteq> None" by simp
        from custody_specI [OF core_prepare_again [OF this] c1(2)] same y Inl UniqueViolation
        show ?thesis by (auto simp: insert_error_def is_unique_def)
      next
        case OtherSql
        with y Inl same fault [of StoreUnavailable] show ?thesis
          by (auto simp: insert_error_def is_unique_def unavailable_def)
      qed
    next
      case (Inr u')
      let ?b = "\<lparr>ba_actor = a, ba_mutations = ms, ba_expires = x\<rparr>"
      have "insert_prepared i t a ev x (pg_now w1) (pg_db w1) = (Inr u', pg_db w2)"
        using f Inr by simp
      from insert_prepared_Inr [OF a1(2) this, of ?b]
      have n: "cu_batches c1 (t, i) = None"
        and sh: "shows_db S (pg_db w2) (c1\<lparr>cu_batches := (cu_batches c1)((t, i) \<mapsto> ?b)\<rparr>)"
        using x ms s by (simp_all add: batch_shows_def)
      have "live (pg_now w) c (t, i) = None" using n l by simp
      from custody_specI [OF core_prepare [OF ok this] forgets_insert [OF c1(2)]] sh f y Inr a1(3)
      show ?thesis by (auto simp: pg_shows_def)
    qed
  qed
qed

lemma pg_prepare_sim:
  assumes w: "pg_shows S w c" and ms: "list_all wf_mutation ms" and p: "pg_prepare S t i ms a w = (x, w')"
  shows "\<exists>c'. custody_spec (pg_now w) c (PrepareReq t i ms a) (DoneAns x) c' \<and> pg_shows S w' c'"
proof -
  have ak: "acked w" using w by (simp add: pg_shows_def)
  note fault = pg_fault [OF w, of _ _ "PrepareReq t i ms a"]
  consider (empty) "ms = []"
    | (cross) e where "ms \<noteq> []" "try_for_each (same_tenant t) ms = Inl e"
    | (clock) "ms \<noteq> []" "try_for_each (same_tenant t) ms = Inr ()" "pg_clock w < 0 \<or> 2 ^ 63 \<le> pg_clock w \<or> 2 ^ 63 \<le> int (ps_batch_lifetime S)"
    | (go) "ms \<noteq> []" "try_for_each (same_tenant t) ms = Inr ()" "\<not> (pg_clock w < 0 \<or> 2 ^ 63 \<le> pg_clock w \<or> 2 ^ 63 \<le> int (ps_batch_lifetime S))"
    by (cases "try_for_each (same_tenant t) ms") auto
  then show ?thesis
  proof cases
    case empty
    with p have "x = Inl (Invalid EmptyBatch)" "w' = w" by (simp_all add: pg_prepare_def)
    with empty w show ?thesis by (auto intro: core_spec core_prepare_empty)
  next
    case cross
    with p have "x = Inl e" "w' = w" by (simp_all add: pg_prepare_def)
    with try_for_each_tenant(2) [OF cross(2)] w show ?thesis by (auto intro: core_spec core_prepare_cross)
  next
    case clock
    with p have "x = Inl StoreUnavailable" "w' = w"
      by (auto simp: pg_prepare_def unix_seconds_def bindE_apply split: if_splits)
    with fault ak show ?thesis by auto
  next
    case go
    let ?x = "saturating_add (pg_clock w) (int (ps_batch_lifetime S))"
    let ?seal = "crypt (seal_batch (ps_aead S) (ps_keyring S) t i a (i64_be ?x @ ps_json S ms))"
    obtain y w1 where y: "?seal w = (y, w1)" by (cases "?seal w")
    have e: "pg_prepare S t i ms a w = (case y of Inl e \<Rightarrow> (Inl e, w1)
        | Inr ev \<Rightarrow> bindE (purge_expired S t) (\<lambda>_. map_errE insert_error (execute_pool [t, a, ev_key_id ev]
            (insert_prepared i t a ev ?x))) w1)"
      using go y by (auto simp: pg_prepare_def unix_seconds_def bindE_apply batch_payload_def Let_def
          split: sum.split)
    note w1 = pg_shows_crypt [OF w y] and fr = crypt_frame [OF y]
    show ?thesis
    proof (cases y)
      case (Inl er)
      with e p have "x = Inl er" "w' = w1" by simp_all
      moreover have "er = StoreCrypto" using y Inl crypt_Inl by blast
      ultimately show ?thesis using fault w1 fr by (auto simp: pg_shows_def)
    next
      case (Inr ev)
      have "sealed (ps_aead S) (ps_keyring S) (batch_associated_data t i a) (i64_be ?x @ ps_json S ms) ev"
        using crypt_Inr [OF y [unfolded Inr]] seal_sealed by (auto simp: seal_batch_def)
      from insert_sealed_sim [OF w1 _ _ ms this go(1) _ p [unfolded e Inr sum.case]] saturating_bounds
        try_for_each_tenant(1) [of t ms] go(2) fr
      show ?thesis by auto
    qed
  qed
qed

end
