(* ===== verification/Postgres_Commit.thy ===== *)
theory Postgres_Commit
  imports Postgres_Contract
begin

text \<open>
  Committing a prepared batch, and with it the whole simulation: the interpretation of the
  contract of a custody store on the store over PostgreSQL.
\<close>

definition commit_body :: "postgres \<Rightarrow> string \<Rightarrow> uuid \<Rightarrow> (pg, store_error, bool) io" where
  "commit_body S tenant i =
     bindE (on_tx [tenant] (take_prepared tenant i)) (\<lambda>found.
     bindE (liftE (ok_or found StoreNotFound)) (\<lambda>(row, db_now).
     bindE (liftE (read_envelope (pr_envelope row))) (\<lambda>ev.
     bindE (liftE (map_err unavailable
              (open_batch (ps_aead S) (ps_keyring S) tenant i (pr_actor row) ev))) (\<lambda>batch.
     bindE (liftE (if length batch < 8 then Inl StoreUnavailable
                   else Inr (take 8 batch, drop 8 batch))) (\<lambda>(sealed_expiry, json).
     if i64_of_be sealed_expiry * 1000000 \<le> db_now then retE False
     else
       bindE (liftE (ok_or (ps_unjson S json) StoreUnavailable)) (\<lambda>ms.
       bindE (for_each (apply_mutation S (pr_actor row)) ms) (\<lambda>_.
       bindE (audit tenant None (pr_actor row) ''commit_batch'') (\<lambda>_. retE True))))))))"

lemma bindE_if: "bindE (if b then m else m') k = (if b then bindE m k else bindE m' k)"
  by simp

lemma pg_commit_eq:
  "pg_commit S tenant i =
     bindE (purge_expired S tenant) (\<lambda>_.
     bindE (transaction (commit_body S tenant i)) (\<lambda>b. if b then retE () else failE StoreNotFound))"
  by (simp add: pg_commit_def transaction_def commit_body_def bindE_assoc split_def bindE_if
      del: retE_apply failE_apply cong: if_cong)

lemma tx_step_commit_body: "tx_step (commit_body S t i)"
  unfolding commit_body_def
  by (intro tx_frame) (auto intro!: tx_frame)

lemma apply_to_without:
  "apply_to actor m (without_batch k c) = map_sum id (without_batch k) (apply_to actor m c)"
  by (cases m) (auto simp: without_batch_def put_into_def delete_from_def audited_def split: option.split)

lemma apply_all_without:
  "apply_all actor ms (without_batch k c) = map_sum id (without_batch k) (apply_all actor ms c)"
proof (induction ms arbitrary: c)
  case (Cons m ms)
  then show ?case by (cases "apply_to actor m c") (simp_all add: apply_to_without)
qed simp

lemma apply_to_batches:
  "apply_to actor m (c\<lparr>cu_batches := B\<rparr>) = map_sum id (\<lambda>d. d\<lparr>cu_batches := B\<rparr>) (apply_to actor m c)"
  by (cases m) (auto simp: put_into_def delete_from_def audited_def split: option.split)

lemma apply_all_update_batches:
  "apply_all actor ms (c\<lparr>cu_batches := B\<rparr>) = map_sum id (\<lambda>d. d\<lparr>cu_batches := B\<rparr>) (apply_all actor ms c)"
proof (induction ms arbitrary: c)
  case (Cons m ms)
  then show ?case by (cases "apply_to actor m c") (simp_all add: apply_to_batches)
qed simp

lemma forgets_eq: "forgets now c c' \<Longrightarrow> c' = c\<lparr>cu_batches := cu_batches c'\<rparr>"
  by (cases c; cases c') (simp add: forgets_def)

lemma apply_all_forgets:
  "forgets now c c' \<Longrightarrow>
   apply_all a ms c' = map_sum id (\<lambda>d. d\<lparr>cu_batches := cu_batches c'\<rparr>) (apply_all a ms c)"
  by (metis apply_all_update_batches forgets_eq)

lemma apply_all_batches: "apply_all a ms c = Inr d \<Longrightarrow> cu_batches d = cu_batches c"
  using apply_all_update_batches [of a ms "cu_batches c" c] by (cases d) auto

lemma open_prepared:
  assumes "store_ok S" "batch_shows S p b"
  shows "read_envelope (pr_envelope p) = Inr (pr_envelope p)"
    and "open_batch (ps_aead S) (ps_keyring S) (pr_tenant p) (pr_id p) (pr_actor p) (pr_envelope p) =
      Inr (i64_be (ba_expires b) @ ps_json S (ba_mutations b))"
    and "i64_of_be (i64_be (ba_expires b)) = ba_expires b"
    and "ps_unjson S (ps_json S (ba_mutations b)) = Some (ba_mutations b)"
proof -
  have s: "sealed (ps_aead S) (ps_keyring S) (batch_associated_data (pr_tenant p) (pr_id p) (pr_actor p))
      (i64_be (ba_expires b) @ ps_json S (ba_mutations b)) (pr_envelope p)"
    using assms(2) by (simp add: batch_shows_def)
  show "read_envelope (pr_envelope p) = Inr (pr_envelope p)"
    using sealed_wf [OF s] by simp
  show "open_batch (ps_aead S) (ps_keyring S) (pr_tenant p) (pr_id p) (pr_actor p) (pr_envelope p) =
      Inr (i64_be (ba_expires b) @ ps_json S (ba_mutations b))"
    using open_sealed [OF _ s] assms(1) by (simp add: open_batch_def store_ok_def)
  show "i64_of_be (i64_be (ba_expires b)) = ba_expires b"
    using assms(2) by (intro i64_of_be_i64_be) (simp_all add: batch_shows_def)
  show "ps_unjson S (ps_json S (ba_mutations b)) = Some (ba_mutations b)"
    using assms by (simp add: store_ok_def batch_shows_def)
qed

lemma commit_body_shows:
  assumes S: "store_ok S" and c: "shows_db S (pg_work w) c" and p: "commit_body S t i w = (x, w')"
  shows "case x of
      Inr ok \<Rightarrow> ok \<and> (\<exists>b c'. live (pg_now w) c (t, i) = Some b \<and>
        apply_all (ba_actor b) (ba_mutations b) c = Inr c' \<and>
        shows_db S (pg_work w') (audited t (ba_actor b) ''commit_batch'' (without_batch (t, i) c')))
    | Inl e \<Rightarrow> e = StoreUnavailable \<or> e = StoreCrypto \<or>
        live (pg_now w) c (t, i) = None \<and> e = StoreNotFound \<or>
        (\<exists>b. live (pg_now w) c (t, i) = Some b \<and> apply_all (ba_actor b) (ba_mutations b) c = Inl e)"
proof -
  obtain y w1 where y: "on_tx [t] (take_prepared t i) w = (y, w1)" by (cases "on_tx [t] (take_prepared t i) w")
  show ?thesis
  proof (cases y)
    case (Inl e)
    with y p have "x = Inl e" by (simp add: commit_body_def)
    moreover have "e = StoreUnavailable" using y Inl on_tx_Inl by blast
    ultimately show ?thesis by simp
  next
    case (Inr found)
    from on_tx_Inr [OF y [unfolded Inr]]
    have "take_prepared t i (pg_now w) (pg_work w) = (Inr found, pg_work w1)" by simp
    note tk = take_prepared_shows [OF c this]
    show ?thesis
    proof (cases found)
      case None
      with y Inr p have "x = Inl StoreNotFound" by (auto simp: commit_body_def)
      with tk None show ?thesis by simp
    next
      case (Some pn)
      with tk obtain r b where r: "found = Some (r, pg_now w)" "pr_tenant r = t" "pr_id r = i"
        and b: "live (pg_now w) c (t, i) = Some b" "batch_shows S r b"
        and s: "shows_db S (pg_work w1) (without_batch (t, i) c)"
        by (cases pn) auto
      note o = open_prepared [OF S b(2)]
      have actor: "pr_actor r = ba_actor b" using b(2) by (simp add: batch_shows_def)
      have "pg_now w < ba_expires b * 1000000"
        using b(1) by (auto simp: live_def split: option.splits if_splits)
      then have e: "commit_body S t i w =
          bindE (for_each (apply_mutation S (ba_actor b)) (ba_mutations b)) (\<lambda>_.
          bindE (audit t None (ba_actor b) ''commit_batch'') (\<lambda>_. retE True)) w1"
        using y Inr r o actor by (simp add: commit_body_def)
      obtain z w2 where z: "for_each (apply_mutation S (ba_actor b)) (ba_mutations b) w1 = (z, w2)"
        by (cases "for_each (apply_mutation S (ba_actor b)) (ba_mutations b) w1")
      note ap = apply_mutations_shows [OF s z, unfolded apply_all_without]
      show ?thesis
      proof (cases z)
        case (Inl er)
        with z e p have "x = Inl er" by simp
        moreover from ap Inl have "er = StoreUnavailable \<or> er = StoreCrypto \<or>
            apply_all (ba_actor b) (ba_mutations b) c = Inl er"
          by (cases "apply_all (ba_actor b) (ba_mutations b) c") auto
        ultimately show ?thesis using b(1) by auto
      next
        case (Inr u)
        with ap obtain c' where c': "apply_all (ba_actor b) (ba_mutations b) c = Inr c'"
          "shows_db S (pg_work w2) (without_batch (t, i) c')"
          by (cases "apply_all (ba_actor b) (ba_mutations b) c") auto
        obtain v w3 where v: "audit t None (ba_actor b) ''commit_batch'' w2 = (v, w3)"
          by (cases "audit t None (ba_actor b) ''commit_batch'' w2")
        show ?thesis
        proof (cases v)
          case (Inl er)
          with v z Inr e p have "x = Inl er" by simp
          moreover have "er = StoreUnavailable" using v Inl audit_Inl by blast
          ultimately show ?thesis by simp
        next
          case (Inr u')
          with v z \<open>z = Inr u\<close> e p have "x = Inr True" "w' = w3" by simp_all
          with audit_shows [OF c'(2) v [unfolded Inr]] c'(1) b(1) show ?thesis by auto
        qed
      qed
    qed
  qed
qed

lemma pg_commit_sim:
  assumes w: "pg_shows S w c" and p: "pg_commit S t i w = (x, w')"
  shows "\<exists>c'. custody_spec (pg_now w) c (CommitReq t i) (DoneAns x) c' \<and> pg_shows S w' c'"
proof -
  obtain z w1 where z: "purge_expired S t w = (z, w1)" by (cases "purge_expired S t w")
  from w z obtain c1 where c1: "pg_shows S w1 c1" "forgets (pg_now w) c c1" "pg_now w1 = pg_now w"
    "case z of Inl e \<Rightarrow> e = StoreUnavailable \<and> c1 = c
       | Inr u \<Rightarrow> (\<forall>i. cu_batches c1 (t, i) = live (pg_now w) c (t, i))"
    by (rule purge_shows)
  have l: "live (pg_now w) c1 (t, i) = live (pg_now w) c (t, i)"
    using forgets_live [OF c1(2)] .
  have ap: "apply_all a ms c1 = map_sum id (\<lambda>d. d\<lparr>cu_batches := cu_batches c1\<rparr>) (apply_all a ms c)" for a ms
    using apply_all_forgets [OF c1(2)] .
  have S: "store_ok S" "acked w1" "shows_db S (pg_db w1) c1"
    using c1(1) by (simp_all add: pg_shows_def)
  show ?thesis
  proof (cases z)
    case (Inl e)
    with z p have "x = Inl e" "w' = w1" by (simp_all add: pg_commit_eq)
    with c1 Inl custody_specI [OF core_fault c1(2), of e "CommitReq t i"] show ?thesis by auto
  next
    case (Inr u)
    obtain y w2 where y: "transaction (commit_body S t i) w1 = (y, w2)"
      by (cases "transaction (commit_body S t i) w1")
    from y tx_step_commit_body S(2) show ?thesis
    proof (cases rule: transaction_cases)
      case (committed v)
      then obtain ok v' where b: "commit_body S t i v = (Inr ok, v')" "y = Inr ok" "pg_db w2 = pg_work v'" by auto
      have sv: "shows_db S (pg_work v) c1" "pg_now v = pg_now w"
        using S(3) committed(1,2) c1(3) by (simp_all add: in_tx_def)
      from commit_body_shows [OF S(1) sv(1) b(1)] sv(2) l obtain bt d where
        bt: "ok" "live (pg_now w) c (t, i) = Some bt" "apply_all (ba_actor bt) (ba_mutations bt) c1 = Inr d"
        "shows_db S (pg_work v') (audited t (ba_actor bt) ''commit_batch'' (without_batch (t, i) d))" by auto
      from bt(3) ap [of "ba_actor bt" "ba_mutations bt"] obtain d' where
        d': "apply_all (ba_actor bt) (ba_mutations bt) c = Inr d'" "d = d'\<lparr>cu_batches := cu_batches c1\<rparr>"
        by (cases "apply_all (ba_actor bt) (ba_mutations bt) c") auto
      have "forgets (pg_now w) (audited t (ba_actor bt) ''commit_batch'' (without_batch (t, i) d'))
          (audited t (ba_actor bt) ''commit_batch'' (without_batch (t, i) d))"
        using c1(2) apply_all_batches [OF d'(1)] d'(2)
        by (auto simp: forgets_def live_def audited_def without_batch_def)
      from custody_specI [OF core_commit [OF bt(2) d'(1)] this] bt(1,4) b z Inr y p committed(4) S(1)
      show ?thesis by (auto simp: pg_commit_eq pg_shows_def)
    next
      case (failed e)
      have same: "pg_shows S w2 c1" using failed S by (simp add: pg_shows_def)
      have x: "x = Inl e" "w' = w2" using z Inr y p failed(1) by (simp_all add: pg_commit_eq)
      have "custody_core (pg_now w) c (CommitReq t i) (DoneAns (Inl e)) c"
        using failed(6)
      proof (elim disjE exE conjE)
        assume "e = StoreUnavailable"
        then show ?thesis using core_fault [of e "pg_now w" c "CommitReq t i"] by simp
      next
        fix v v' assume v: "in_tx w1 v" "pg_work v = pg_db w1" "commit_body S t i v = (Inl e, v')"
        have sv: "shows_db S (pg_work v) c1" "pg_now v = pg_now w"
          using S(3) v(1,2) c1(3) by (simp_all add: in_tx_def)
        have "apply_all a ms c1 = Inl e \<longleftrightarrow> apply_all a ms c = Inl e" for a ms
          using ap [of a ms] by (cases "apply_all a ms c") auto
        with commit_body_shows [OF S(1) sv(1) v(3)] sv(2) l
        show ?thesis
          using core_fault [of e "pg_now w" c "CommitReq t i"] core_commit_none core_commit_refused
          by (auto simp del: refusal.simps simp: refusal.simps(8))
      qed
      from custody_specI [OF this c1(2)] same x show ?thesis by blast
    qed
  qed
qed

theorem pg_simulates:
  assumes "pg_shows S w c" "wf_custody_request q" "perform_custody (postgres_store S) q w = (r, w')"
  shows "\<exists>c'. custody_spec (pg_now w) c q r c' \<and> pg_shows S w' c'"
  using assms
  by (cases q)
    (auto simp: postgres_store_def wf_custody_request_def apfst_def map_prod_def
      dest: pg_put_sim pg_get_sim pg_exists_sim pg_delete_sim pg_revoke_sim pg_list_sim pg_prepare_sim
        pg_commit_sim pg_abort_sim split: prod.splits)

interpretation pg: custody_contract "postgres_store S" "pg_shows S" pg_now
  by unfold_locales (rule pg_simulates)

end
