(* ===== verification/Postgres_Atomic.thy ===== *)
theory Postgres_Atomic
  imports Postgres_Commit
begin

text \<open>
  All or nothing, for every store whatever its keys and its cipher: a request that answers an
  error has changed no secret, no version and no audit event, unless the error is \<open>StoreUnavailable\<close>
  and the answer to a change was lost. And reading back: what was put is what \<open>get\<close> answers, when the database answers.
\<close>

definition same_custody :: "db \<Rightarrow> db \<Rightarrow> bool" where
  "same_custody d d' \<longleftrightarrow> db_secrets d' = db_secrets d \<and> db_versions d' = db_versions d \<and> db_audit d' = db_audit d"

definition spares :: "(pg, 'e, 'a) io \<Rightarrow> bool" where
  "spares m \<longleftrightarrow> (\<forall>w. same_custody (pg_db w) (pg_db (snd (m w))))"

named_theorems spared \<open>steps that spare the secrets and their audit\<close>

lemma same_custody_refl [simp]: "same_custody d d"
  by (simp add: same_custody_def)

lemma same_custody_trans: "same_custody d d' \<Longrightarrow> same_custody d' d'' \<Longrightarrow> same_custody d d''"
  by (simp add: same_custody_def)

lemma sparesD: "spares m \<Longrightarrow> m w = (r, w') \<Longrightarrow> same_custody (pg_db w) (pg_db w')"
  unfolding spares_def by (metis snd_conv)

lemma spares_bind [spared]: "spares m \<Longrightarrow> (\<And>a. spares (k a)) \<Longrightarrow> spares (bindE m k)"
  unfolding spares_def bindE_apply
  by (fastforce split: prod.split sum.split intro: same_custody_trans)

lemma spares_pure [spared]: "spares (retE a)" "spares (failE e)" "spares (liftE r)"
  by (simp_all add: spares_def)

lemma spares_map_err [spared]: "spares m \<Longrightarrow> spares (map_errE f m)"
  by (simp add: spares_def)

lemma spares_execute:
  assumes "\<And>now d a d'. stmt now d = (Inr a, d') \<Longrightarrow> same_custody d d'"
  shows "spares (execute_pool texts stmt)"
proof -
  have "same_custody d (snd (run_statement texts stmt now d))" for now d
    using assms by (auto simp: run_statement_def split: prod.splits sum.splits)
  moreover have "pg_db (snd (next_outcome w)) = pg_db w" for w
    using next_outcome_frame [of w] by (metis prod.collapse)
  ultimately show ?thesis
    unfolding spares_def execute_pool_def
    by (auto simp: split_def split: call_outcome.split)
qed

lemma spares_on_pool:
  "(\<And>now d a d'. stmt now d = (Inr a, d') \<Longrightarrow> same_custody d d') \<Longrightarrow> spares (on_pool texts stmt)"
  unfolding on_pool_def by (intro spared spares_execute)

lemma spares_crypt [spared]: "spares (crypt m)"
  by (simp add: spares_def crypt_def zoomE_apply)

lemma spares_unix [spared]: "spares unix_seconds"
  by (simp add: spares_def unix_seconds_def)

lemma spares_if [spared]: "spares a \<Longrightarrow> spares b \<Longrightarrow> spares (if c then a else b)"
  by simp

lemma spares_prod [spared]: "(\<And>a b. spares (f a b)) \<Longrightarrow> spares (case p of (a, b) \<Rightarrow> f a b)"
  by (cases p) simp

lemma spares_queries [spared]:
  "spares (pg_get S r)" "spares (pg_exists S r)" "spares (pg_list S t x)" "spares (pg_abort S t i)"
  "spares (purge_expired S t)"
proof -
  show "spares (pg_get S r)"
    unfolding pg_get_def by (intro spared spares_on_pool) (simp add: select_active_def)
  show "spares (pg_exists S r)"
    unfolding pg_exists_def by (intro spares_on_pool) (simp add: select_exists_def)
  show "spares (pg_list S t x)"
    unfolding pg_list_def by (intro spared spares_on_pool) (simp add: select_list_def)
  show "spares (pg_abort S t i)"
    unfolding pg_abort_def
    by (intro spared spares_on_pool) (auto simp: delete_prepared_def Let_def same_custody_def)
  show "spares (purge_expired S t)"
    unfolding purge_expired_def by (intro spares_on_pool) (auto simp: delete_expired_def same_custody_def)
qed

lemma spares_prepare [spared]: "spares (pg_prepare S t i ms a)"
  unfolding pg_prepare_def Let_def
  by (intro spared spares_execute) (auto simp: insert_prepared_def same_custody_def split: if_splits)

text \<open>Only \<open>begin\<close> and \<open>commit\<close> fail as \<open>StoreUnavailable\<close> of their own; a commit that answers was made.\<close>

lemma commit_tx_Inr: "commit_tx w = (Inr u, w') \<Longrightarrow> pg_db w' = pg_work w"
  by (cases "next_outcome w") (auto simp: commit_tx_def dest: next_outcome_frame split: call_outcome.splits)

lemma commit_tx_Inl: "commit_tx w = (Inl e, w') \<Longrightarrow> e = StoreUnavailable"
  by (auto simp: commit_tx_def split: prod.splits call_outcome.splits)

lemma begin_tx_Inl: "begin_tx w = (Inl e, w') \<Longrightarrow> e = StoreUnavailable"
  by (auto simp: begin_tx_def split: prod.splits call_outcome.splits)

lemma answered_transaction:
  assumes "transaction body w = (Inr x, w')"
  obtains v v' where "pg_work v = pg_db w" "body v = (Inr x, v')" "pg_db w' = pg_work v'"
proof -
  from assms obtain v v' where "begin_tx w = (Inr (), v)" "body v = (Inr x, v')" "commit_tx v' = (Inr (), w')"
    by (auto simp: transaction_def bindE_eq_Inr)
  then show thesis by (auto intro: that elim!: begin_tx_cases dest: commit_tx_Inr)
qed

lemma failed_transaction:
  assumes t: "transaction body w = (Inl e, w')" and b: "tx_step body" and a: "acked w \<or> e \<noteq> StoreUnavailable"
  shows "pg_db w' = pg_db w"
proof (cases "acked w")
  case True
  from t b this show ?thesis by (cases rule: transaction_cases) auto
next
  case False
  with a have ne: "e \<noteq> StoreUnavailable" by simp
  obtain r v where v: "begin_tx w = (r, v)" by (cases "begin_tx w")
  obtain r' v' where v': "body v = (r', v')" by (cases "body v")
  have "in_tx w v" using v by (auto elim!: begin_tx_cases)
  from in_tx_trans [OF this tx_stepD [OF b v']] have "pg_db v' = pg_db w" by (simp add: in_tx_def)
  with t v v' ne show ?thesis
    by (cases r; cases r') (auto simp: transaction_def dest: begin_tx_Inl commit_tx_Inl split: prod.splits sum.splits
        simp: bindE_apply)
qed

lemma take_prepared_same: "take_prepared t i now d = (Inr x, d') \<Longrightarrow> same_custody d d'"
  by (auto simp: take_prepared_def Let_def same_custody_def)

lemma commit_expired:
  assumes "commit_body S t i w = (Inr False, w')"
  shows "same_custody (pg_work w) (pg_work w')"
proof -
  from assms obtain x where "on_tx [t] (take_prepared t i) w = (Inr x, w')"
    by (auto simp: commit_body_def bindE_eq_Inr split: if_splits)
  from on_tx_Inr [OF this] show ?thesis
    by (auto intro: take_prepared_same)
qed

lemma failed_commit:
  assumes p: "pg_commit S t i w = (Inl e, w')" and a: "acked w \<or> e \<noteq> StoreUnavailable"
  shows "same_custody (pg_db w) (pg_db w')"
proof -
  obtain x w1 where x: "purge_expired S t w = (x, w1)" by (cases "purge_expired S t w")
  have s1: "same_custody (pg_db w) (pg_db w1)"
    using spares_queries(5) [of S t] x unfolding spares_def by (metis snd_conv)
  have a1: "acked w1 \<or> e \<noteq> StoreUnavailable"
    using a on_pool_cases [OF x [unfolded purge_expired_def]] by blast
  show ?thesis
  proof (cases x)
    case (Inl er)
    with x p s1 show ?thesis by (simp add: pg_commit_eq)
  next
    case (Inr u)
    obtain y w2 where y: "transaction (commit_body S t i) w1 = (y, w2)"
      by (cases "transaction (commit_body S t i) w1")
    show ?thesis
    proof (cases y)
      case (Inl er)
      with x Inr y p have "er = e" "w' = w2" by (simp_all add: pg_commit_eq)
      with y Inl failed_transaction [OF _ tx_step_commit_body a1] s1 show ?thesis by simp
    next
      case (Inr b)
      with x \<open>x = Inr u\<close> y p have b: "b = False" "w' = w2"
        by (auto simp: pg_commit_eq split: if_splits)
      with y Inr obtain v v' where "pg_work v = pg_db w1" "commit_body S t i v = (Inr False, v')" "pg_db w2 = pg_work v'"
        by (auto elim: answered_transaction)
      with commit_expired s1 b(2) show ?thesis by (metis same_custody_trans)
    qed
  qed
qed

lemma refused_spares:
  assumes a: "acked w \<or> e \<noteq> StoreUnavailable" and p: "perform_custody (postgres_store S) q w = (refusal q e, w')"
  shows "same_custody (pg_db w) (pg_db w')"
proof -
  note tx = failed_transaction [OF _ _ a]
  show ?thesis
  proof (cases q)
    case (PutReq x)
    with p tx [OF _ tx_step_put] show ?thesis
      by (auto simp: postgres_store_def pg_put_transaction apfst_def map_prod_def split: prod.splits)
  next
    case (RemoveReq r x)
    with p tx [OF _ tx_step_delete] show ?thesis
      by (auto simp: postgres_store_def pg_delete_transaction apfst_def map_prod_def split: prod.splits)
  next
    case (RevokeReq r x)
    with p tx [OF _ tx_step_revoke] show ?thesis
      by (auto simp: postgres_store_def pg_revoke_transaction apfst_def map_prod_def split: prod.splits)
  next
    case (CommitReq t i)
    with p failed_commit [OF _ a] show ?thesis
      by (auto simp: postgres_store_def apfst_def map_prod_def split: prod.splits)
  next
    case (GetReq r)
    with p sparesD [OF spares_queries(1)] show ?thesis
      by (auto simp: postgres_store_def apfst_def map_prod_def split: prod.splits)
  next
    case (ExistsReq r)
    with p sparesD [OF spares_queries(2)] show ?thesis
      by (auto simp: postgres_store_def apfst_def map_prod_def split: prod.splits)
  next
    case (CustodyListReq t x)
    with p sparesD [OF spares_queries(3)] show ?thesis
      by (auto simp: postgres_store_def apfst_def map_prod_def split: prod.splits)
  next
    case (AbortReq t i)
    with p sparesD [OF spares_queries(4)] show ?thesis
      by (auto simp: postgres_store_def apfst_def map_prod_def split: prod.splits)
  next
    case (PrepareReq t i ms x)
    with p sparesD [OF spares_prepare] show ?thesis
      by (auto simp: postgres_store_def apfst_def map_prod_def split: prod.splits)
  qed
qed

section \<open>Reading back\<close>

lemma pg_get_answers:
  assumes w: "pg_shows S w c" and r: "cu_vault c r = Some e" "en_state e = Active"
    and db: "fst (next_outcome w) = Answered" "list_all no_nul (ref_texts r)"
  shows "\<exists>md w'. pg_get S r w = (Inr \<lparr>ss_metadata = md, ss_value = en_value e\<rparr>, w') \<and> describes md r e"
proof -
  have S: "aead_exact (ps_aead S)" "shows_db S (pg_db w) c"
    using w by (simp_all add: pg_shows_def store_ok_def)
  obtain oc v where oc: "next_outcome w = (oc, v)" by (cases "next_outcome w")
  note f = next_outcome_frame [OF oc]
  obtain found where fd: "select_active r (pg_now w) (pg_db w) = (Inr found, pg_db w)"
    by (simp add: select_active_def)
  note s = select_active_shows [OF shows_db_rows [OF S(2)] fd]
  with r obtain t ver where t: "found = Some (t, ver)" "sr_ref t = r" "row_shows t e"
    "sealed (ps_aead S) (ps_keyring S)
       (associated_data r (sr_version t) (en_disclosure e)) (en_value e) (vr_envelope ver)"
    by (cases found) auto
  obtain md where md: "row_to_metadata S t = Inr md" "describes md r e"
    "md_version md = sr_version t" "md_disclosure md = en_disclosure e"
    using row_to_metadata_shows [OF t(3), of S] t(2) by auto
  have "\<exists>w'. on_pool (ref_texts r) (select_active r) w = (Inr found, w')"
    using db oc f fd by (auto simp: on_pool_def execute_pool_def run_statement_def)
  then show ?thesis
    using t(1) md sealed_wf [OF t(4)] open_sealed [OF S(1) t(4)]
    by (auto simp: pg_get_def decrypt_def)
qed

lemma ref_refusal_no_nul: "ref_refusal r = None \<Longrightarrow> list_all no_nul (ref_texts r)"
  by (auto simp: ref_refusal_def ref_texts_def no_nul_def nul_def Let_def split: if_splits)

lemma put_then_get_answers:
  assumes w: "pg_shows S w c" and p: "pg_put S p w = (Inr md, w')" and db: "fst (next_outcome w') = Answered"
  shows "\<exists>md' w''. pg_get S (pt_reference p) w' = (Inr \<lparr>ss_metadata = md', ss_value = pt_value p\<rparr>, w'') \<and>
    md_version md' = md_version md \<and> md_owner md' = pt_owner p \<and> md_disclosure md' = pt_disclosure p \<and>
    md_labels md' = pt_labels p \<and> md_state md' = Active"
proof -
  let ?e = "put_entry p (cu_vault c (pt_reference p))"
  obtain c1 c' where c: "custody_core (pg_now w) c (PutReq p) (MetadataAns (Inr md)) c1"
    "forgets (pg_now w) c1 c'" "pg_shows S w' c'"
    using pg_put_sim [OF w p] by (auto simp: custody_spec_def)
  from c(1) have d: "describes md (pt_reference p) ?e" "ref_refusal (pt_reference p) = None"
    "cu_vault c1 (pt_reference p) = Some ?e"
    by (auto elim!: core_putE simp: put_into_def audited_def)
  then have "cu_vault c' (pt_reference p) = Some ?e"
    using forgets_vault [OF c(2)] by simp
  from pg_get_answers [OF c(3) this _ db ref_refusal_no_nul [OF d(2)]] obtain md' w'' where
    g: "pg_get S (pt_reference p) w' = (Inr \<lparr>ss_metadata = md', ss_value = en_value ?e\<rparr>, w'')"
    "describes md' (pt_reference p) ?e"
    by (auto simp: put_entry_def)
  have "md_version md' = md_version md"
    using d(1) g(2) by (simp add: describes_def word_eq_iff_signed [where 'a = int])
  with g show ?thesis by (auto simp: describes_def put_entry_def)
qed

end
