(* ===== verification/Countable_Custody.thy ===== *)
theory Countable_Custody
  imports Custody "HOL-Library.Countable"
begin

text \<open>
  The types of the custody domain are countable. The witnesses take the number of a value in such
  an enumeration for its text, which satisfies the laws of the JSON that the code relies on.
\<close>

instance word :: (len) countable
  by (rule countable_classI [of unat]) (simp add: word_unat_eq_iff)

instance char :: countable
  by (rule countable_classI [of of_char]) simp

instance secret_ref_ext :: (countable) countable
  by (rule countable_classI [of "\<lambda>r. to_nat (rf_tenant r, rf_namespace r, rf_key r, secret_ref.more r)"])
    (simp add: secret_ref.equality)

instance disclosure :: countable
  by countable_datatype

instance put_secret_ext :: (countable) countable
  by (rule countable_classI [of "\<lambda>p. to_nat (pt_reference p, pt_owner p, pt_value p, pt_disclosure p,
      pt_labels p, put_secret.more p)"]) (simp add: put_secret.equality)

instance mutation :: countable
  by countable_datatype

instance secret_state :: countable
  by countable_datatype

instance custody_metadata_ext :: (countable) countable
  by (rule countable_classI [of "\<lambda>m. to_nat (md_id m, md_reference m, md_owner m, md_disclosure m, md_state m,
      md_version m, md_labels m, md_created m, md_updated m, custody_metadata.more m)"])
    (simp add: custody_metadata.equality)

instance stored_secret_ext :: (countable) countable
  by (rule countable_classI [of "\<lambda>s. to_nat (ss_metadata s, ss_value s, stored_secret.more s)"])
    (simp add: stored_secret.equality)

text \<open>A value as the number of zero bytes that is its place in the enumeration.\<close>

definition number_text :: "'a :: countable \<Rightarrow> bytes" where
  "number_text x = replicate (to_nat x) 0"

definition number_parse :: "bytes \<Rightarrow> 'a :: countable option" where
  "number_parse b = Some (from_nat (length b))"

lemma number_parse_text [simp]: "number_parse (number_text x) = Some x"
  by (simp add: number_parse_def number_text_def)

end
