(* ===== verification/Postgres_Properties.thy ===== *)
theory Postgres_Properties
  imports Postgres_Atomic Countable_Custody
begin

text \<open>
  A concrete store over PostgreSQL for the witnesses, and the properties of the custody store:
  the contract, reading back what was put, all-or-nothing, batches applied at most once, and the
  isolation of tenants.
\<close>

section \<open>A store to evaluate\<close>

text \<open>
  The text of a batch stands for its number in an enumeration of all batches, written in unary;
  it satisfies the law of the JSON text that the store relies on.
\<close>

definition example_store :: postgres where
  "example_store =
     \<lparr>ps_aead = open_aead, ps_keyring = example_keyring, ps_batch_lifetime = batch_lifetime,
      ps_json = (\<lambda>ms. replicate (to_nat ms) 0), ps_unjson = (\<lambda>b. Some (from_nat (length b))),
      ps_time_text = (\<lambda>_. ''now'')\<rparr>"

definition example_db :: db where
  "example_db = \<lparr>db_secrets = [], db_versions = [], db_prepared = [], db_audit = []\<rparr>"

definition example_pg :: pg where
  "example_pg =
     \<lparr>pg_db = example_db, pg_work = example_db, pg_outcomes = [], pg_now = 1000000000000000,
      pg_clock = 1000000000, pg_entropy = example_entropy, pg_ids = of_nat, pg_drawn = 0\<rparr>"

definition empty_custody :: custody where
  "empty_custody = \<lparr>cu_vault = Map.empty, cu_batches = Map.empty, cu_audit = []\<rparr>"

definition example_put :: put_secret where
  "example_put =
     \<lparr>pt_reference = example_ref, pt_owner = ''user:one'', pt_value = [9, 9], pt_disclosure = WorkloadOnly,
      pt_labels = []\<rparr>"

lemma example_store_ok: "store_ok example_store"
  by (simp add: store_ok_def example_store_def open_aead_laws wf_keyring_def example_keyring_def bt_wf_def)

lemma example_shows: "pg_shows example_store example_pg empty_custody"
  by (simp add: pg_shows_def example_store_ok acked_def example_pg_def shows_db_def example_db_def
      empty_custody_def vault_rows_def batch_rows_def)

lemma example_put_ok: "\<exists>md w'. pg_put example_store example_put example_pg = (Inr md, w') \<and> pg_outcomes w' = []"
  by (simp add: Let_def pg_put_def put_tx_def begin_tx_def commit_tx_def next_outcome_def example_pg_def bindE_apply
      example_put_def example_ref_def validate_ref_def nul_def on_tx_def execute_tx_def run_statement_def
      ref_texts_def no_nul_def select_secret_def example_db_def now_v7_def crypt_def zoomE_apply
      encrypt_def seal_def example_store_def example_keyring_def entropy_fill_def example_entropy_def
      eval_nat_numeral cipher_encrypt_def open_aead_def label_texts_def upsert_secret_def secret_checks_def
      insert_version_def envelope_checks_def audit_def insert_audit_def metadata_tx_def row_to_metadata_def
      read_disclosure_def read_state_def)

section \<open>Properties\<close>

text \<open>
  C1: the store over PostgreSQL implements the custody contract: for every request and every
  script of what becomes of its calls in which no answer to a change is lost, the answer and the
  tables afterwards are ones the abstract specification allows.
\<close>

theorem postgres_keeps_contract:
  assumes "pg_shows S w c" "wf_custody_request q" "perform_custody (postgres_store S) q w = (r, w')"
  shows "\<exists>c'. custody_spec (pg_now w) c q r c' \<and> pg_shows S w' c'"
  by (rule pg.simulates [OF assms])

theorem postgres_keeps_contract_witness:
  "\<exists>c'. custody_spec (pg_now example_pg) empty_custody (PutReq example_put)
       (fst (perform_custody (postgres_store example_store) (PutReq example_put) example_pg)) c' \<and>
     pg_shows example_store
       (snd (perform_custody (postgres_store example_store) (PutReq example_put) example_pg)) c'"
proof -
  have "wf_custody_request (PutReq example_put)" by (simp add: wf_custody_request_def)
  from postgres_keeps_contract [OF example_shows this surjective_pairing] show ?thesis .
qed

text \<open>
  After a \<open>put\<close> that succeeded, a \<open>get\<close> the database answers returns the value, with the
  version the \<open>put\<close> answered and the owner, disclosure and labels it was given.
\<close>

theorem get_after_put:
  assumes "pg_shows S w c" "pg_put S p w = (Inr md, w')" "fst (next_outcome w') = Answered"
  shows "\<exists>md' w''. pg_get S (pt_reference p) w' = (Inr \<lparr>ss_metadata = md', ss_value = pt_value p\<rparr>, w'') \<and>
    md_version md' = md_version md \<and> md_owner md' = pt_owner p \<and> md_disclosure md' = pt_disclosure p \<and>
    md_labels md' = pt_labels p \<and> md_state md' = Active"
  by (rule put_then_get_answers [OF assms])

theorem get_after_put_witness:
  "\<exists>w'. snd (pg_put example_store example_put example_pg) = w' \<and>
     (\<exists>md'. fst (pg_get example_store example_ref w') = Inr \<lparr>ss_metadata = md', ss_value = [9, 9]\<rparr>)"
proof -
  obtain md w' where p: "pg_put example_store example_put example_pg = (Inr md, w')" "pg_outcomes w' = []"
    using example_put_ok by blast
  have "fst (next_outcome w') = Answered" using p(2) by (simp add: next_outcome_def)
  from get_after_put [OF example_shows p(1) this] p(1) show ?thesis
    by (auto simp: example_put_def)
qed

text \<open>
  C23: all or nothing. Whatever the store's keys are and whatever becomes of its calls, a request
  that answers an error, a commit of a batch included, has changed no secret, no version and no
  audit event, except where the error is \<open>StoreUnavailable\<close> and the answer to a change may be lost:
  then the change may have been made.
\<close>

theorem errors_change_nothing:
  assumes "acked w \<or> e \<noteq> StoreUnavailable" "perform_custody (postgres_store S) q w = (refusal q e, w')"
  shows "db_secrets (pg_db w') = db_secrets (pg_db w) \<and> db_versions (pg_db w') = db_versions (pg_db w) \<and>
    db_audit (pg_db w') = db_audit (pg_db w)"
  using refused_spares [OF assms] by (simp add: same_custody_def)

text \<open>A store whose third answer would be lost: the refusal comes before it.\<close>

definition lossy_pg :: pg where
  "lossy_pg = example_pg\<lparr>pg_outcomes := [Answered, Answered, Unacknowledged]\<rparr>"

theorem errors_change_nothing_witness:
  "\<not> acked lossy_pg \<and>
   db_audit (pg_db (snd (perform_custody (postgres_store example_store) (RemoveReq example_ref ''a'') lossy_pg))) = []"
proof -
  let ?q = "RemoveReq example_ref ''a''"
  have "fst (perform_custody (postgres_store example_store) ?q lossy_pg) = refusal ?q StoreNotFound"
    by (simp add: postgres_store_def pg_delete_def delete_tx_def begin_tx_def next_outcome_def lossy_pg_def example_pg_def
        bindE_apply on_tx_def execute_tx_def run_statement_def ref_texts_def example_ref_def no_nul_def nul_def
        delete_secret_def example_db_def)
  then have "perform_custody (postgres_store example_store) ?q lossy_pg =
      (refusal ?q StoreNotFound, snd (perform_custody (postgres_store example_store) ?q lossy_pg))"
    by (metis prod.collapse)
  from errors_change_nothing [OF _ this] show ?thesis
    by (simp add: lossy_pg_def example_pg_def example_db_def acked_def)
qed

text \<open>
  C6: a prepared batch is applied whole and at most once. A commit that succeeds applies every
  mutation of a batch that was prepared and is not over, in order, and the batch is gone; a
  commit that is refused applies none.
\<close>

theorem commit_whole_and_once:
  assumes "pg_shows S w c" "pg_commit S t i w = (x, w')"
  shows "\<exists>c'. pg_shows S w' c' \<and>
    (case x of
       Inr u \<Rightarrow> \<exists>b d. live (pg_now w) c (t, i) = Some b \<and> apply_all (ba_actor b) (ba_mutations b) c = Inr d \<and>
         cu_vault c' = cu_vault d \<and> live (pg_now w) c' (t, i) = None
     | Inl e \<Rightarrow> cu_vault c' = cu_vault c \<and> cu_audit c' = cu_audit c)"
proof -
  have "cs_commit (postgres_store S) t i w = (x, w')"
    using assms(2) by (simp add: postgres_store_def)
  from pg.commit_outcome [OF assms(1) this] show ?thesis by blast
qed

theorem commit_whole_and_once_witness:
  "\<exists>c'. pg_shows example_store (snd (pg_commit example_store ''t'' 1 example_pg)) c'"
  using commit_whole_and_once [OF example_shows surjective_pairing, of "''t''" 1] by blast

text \<open>
  C24: tenants are isolated: no request of one tenant, and no batch it prepared, changes an entry
  of another tenant.
\<close>

theorem tenants_are_isolated:
  assumes "pg_shows S w c" "wf_custody_request q" "batches_in_tenant c"
    and "perform_custody (postgres_store S) q w = (r, w')"
  shows "\<exists>c'. pg_shows S w' c' \<and> batches_in_tenant c' \<and>
    (\<forall>x. rf_tenant x \<noteq> request_tenant q \<longrightarrow> cu_vault c' x = cu_vault c x)"
  by (rule pg.tenants_isolated [OF assms])

theorem tenants_are_isolated_witness:
  "\<exists>c'. pg_shows example_store (snd (perform_custody (postgres_store example_store)
       (PutReq example_put) example_pg)) c' \<and> cu_vault c' (example_ref\<lparr>rf_tenant := ''u''\<rparr>) = None"
proof -
  have "wf_custody_request (PutReq example_put)" "batches_in_tenant empty_custody"
    by (simp_all add: wf_custody_request_def batches_in_tenant_def empty_custody_def)
  from tenants_are_isolated [OF example_shows this surjective_pairing]
  obtain c' where c': "pg_shows example_store (snd (perform_custody (postgres_store example_store)
       (PutReq example_put) example_pg)) c'"
    "\<forall>x. rf_tenant x \<noteq> request_tenant (PutReq example_put) \<longrightarrow> cu_vault c' x = cu_vault empty_custody x"
    by blast
  have "rf_tenant (example_ref\<lparr>rf_tenant := ''u''\<rparr>) \<noteq> request_tenant (PutReq example_put)"
    by (simp add: example_put_def example_ref_def)
  with c' show ?thesis
    by (metis empty_custody_def custody.select_convs(1))
qed

end
