(* ===== verification/Deployment.thy ===== *)
theory Deployment
  imports Custody_App Remote_Simulation Postgres_Properties
begin

text \<open>
  The whole of the custody side put together: the remote backend, its client, the service of the
  process and the store over PostgreSQL. The locales are interpreted on the model's definitions,
  with the parameters that are other crates' code given as functions that have their documented
  behaviour; the properties hold for every such choice.
\<close>

section \<open>The store as the service sees it\<close>

lemma perform_in_db:
  "perform_custody (store_in_db M) q w =
     (fst (perform_custody M q (fst w)), (snd (perform_custody M q (fst w)), snd w))"
  by (cases q) (simp_all add: store_in_db_def in_db_apply apfst_def map_prod_def split: prod.split)

lemma contract_in_db:
  assumes "custody_contract M holds now"
  shows "custody_contract (store_in_db M) (\<lambda>w. holds (fst w)) (\<lambda>w. now (fst w))"
proof
  fix w :: "'a \<times> 'b" and c q r w'
  assume h: "holds (fst w) c" "wf_custody_request q" "perform_custody (store_in_db M) q w = (r, w')"
  then have "perform_custody M q (fst w) = (r, fst w')" by (auto simp: perform_in_db)
  from custody_contract.simulates [OF assms h(1,2) this]
  show "\<exists>c'. custody_spec (now (fst w)) c q r c' \<and> holds (fst w') c'" .
qed

section \<open>Parameters with their documented behaviour\<close>

definition uuid_text :: "uuid \<Rightarrow> string" where
  "uuid_text i = dec_nat (unat i)"

definition example_framework :: framework where
  "example_framework =
     \<lparr>fw_match = (\<lambda>p path. match_segments (split_on CHR ''/'' p) (split_on CHR ''/'' path)),
      fw_overlong = (\<lambda>n rq. n < length (hq_body rq)),
      fw_json = (\<lambda>n rq. if map_of (hq_headers rq) ''content-type'' = Some ''application/json''
        then (if length (hq_body rq) \<le> n then Inr (hq_body rq) else Inl 413) else Inl 415),
      fw_uuid = (\<lambda>s. Some (word_of_nat (undigits s))),
      fw_token = (\<lambda>rq. map_of (hq_headers rq) ''authorization''), fw_openapi = [], fw_docs = []\<rparr>"

definition example_codec :: codec where
  "example_codec =
     \<lparr>jc_error = (\<lambda>t k. str_bytes k), jc_ref = number_text, jc_unref = number_parse,
      jc_put = number_text, jc_unput = number_parse,
      jc_scope = (\<lambda>x. number_text (sq_tenant x, sq_namespace x)),
      jc_unscope = (\<lambda>b. map_option (\<lambda>(t, n). \<lparr>sq_tenant = t, sq_namespace = n\<rparr>) (number_parse b)),
      jc_delete = (\<lambda>x. number_text (dq_reference x, dq_actor x)),
      jc_undelete = (\<lambda>b. map_option (\<lambda>(r, a). \<lparr>dq_reference = r, dq_actor = a\<rparr>) (number_parse b)),
      jc_prepare = (\<lambda>x. number_text (pq_actor x, pq_mutations x)),
      jc_unprepare = (\<lambda>b. map_option (\<lambda>(a, ms). \<lparr>pq_actor = a, pq_mutations = ms\<rparr>) (number_parse b)),
      jc_metadata = number_text, jc_unmetadata = number_parse, jc_stored = number_text, jc_unstored = number_parse,
      jc_exists = number_text, jc_unexists = number_parse, jc_list = number_text, jc_unlist = number_parse\<rparr>"

lemma example_codec_ok: "codec_ok example_codec"
  by (simp add: codec_ok_def example_codec_def)

lemma example_framework_ok: "framework_ok example_framework uuid_text"
proof -
  have "path_char c \<and> c \<noteq> CHR ''/''" if "c \<in> set (dec_nat n)" for c n
    using dec_nat_chars [OF that] by (auto simp: path_char_def is_ascii_digit_def less_eq_char_def)
  moreover have "dec_nat n \<noteq> []" for n by (subst dec_nat.simps) simp
  ultimately show ?thesis
    by (simp add: framework_ok_def example_framework_def uuid_text_def undigits_dec_nat)
qed

text \<open>
  A network in front of a service: a request is lost before it arrives, or served. The origin of
  the URLs is taken off on arrival.
\<close>

definition example_origin :: string where "example_origin = ''http://secrets''"

definition network_client :: "(http_request \<Rightarrow> 'n \<Rightarrow> bool \<times> 'n) \<Rightarrow> ('s \<times> 'n) service \<Rightarrow> ('s \<times> 'n) http_client" where
  "network_client net V rq w =
     (case net rq (snd w) of
        (False, n) \<Rightarrow> (Inl (), (fst w, n))
      | (True, n) \<Rightarrow> apfst Inr (serve V (rq\<lparr>hq_path := drop (length example_origin) (hq_path rq)\<rparr>) (fst w, n)))"

definition network_to :: "(http_request \<Rightarrow> 'n \<Rightarrow> bool \<times> 'n) \<Rightarrow> string \<Rightarrow> ('s \<times> 'n) service \<Rightarrow> ('s \<times> 'n) client" where
  "network_to net token V =
     \<lparr>ct_http = network_client net V, ct_join = (\<lambda>path. Some (example_origin @ CHR ''/'' # path)), ct_token = token,
      ct_codec = sv_codec V, ct_uuid = uuid_text\<rparr>"

definition remote_over :: "('w, storage_error, uuid) io \<Rightarrow> 'w client \<Rightarrow> 'w remote" where
  "remote_over draw C =
     \<lparr>rm_client = C, rm_to_vec = (\<lambda>q. Some (number_text (pq_actor q, pq_mutations q))), rm_simple = uuid_text,
      rm_now_v7 = draw\<rparr>"

text \<open>A service over the database with the two authorities, with the parameters above.\<close>

definition served :: "postgres \<Rightarrow> 'n authority \<Rightarrow> 'n authority \<Rightarrow> (pg \<times> 'n) service" where
  "served S users workloads =
     \<lparr>sv_framework = example_framework, sv_codec = example_codec,
      sv_state = \<lparr>ap_store = store_in_db (postgres_store S), ap_user = (\<lambda>t. in_net (users t)),
        ap_workload = (\<lambda>t. in_net (workloads t))\<rparr>\<rparr>"

section \<open>The locales on the model\<close>

interpretation sd: custody_contract "store_in_db (postgres_store S)" "\<lambda>w. pg_shows S (fst w)" "\<lambda>w. pg_now (fst w)"
  by (rule contract_in_db) (rule pg.custody_contract_axioms)

interpretation sv: custody_service "store_in_db (postgres_store S)" "\<lambda>w. pg_shows S (fst w)" "\<lambda>w. pg_now (fst w)"
    "served S users workloads" uuid_text
  by unfold_locales
    (auto simp: served_def example_framework_ok example_codec_ok in_net_apply)

interpretation cl: custody_client "store_in_db (postgres_store S)" "\<lambda>w. pg_shows S (fst w)" "\<lambda>w. pg_now (fst w)"
    "served S users workloads" uuid_text "network_to net token (served S users workloads)"
proof
  fix path url rq w x w' c
  assume j: "ct_join (network_to net token (served S users workloads)) path = Some url" "hq_path rq = url"
    and h: "ct_http (network_to net token (served S users workloads)) rq w = (x, w')" and w: "pg_shows S (fst w) c"
  obtain b n where n: "net rq (snd w) = (b, n)" by (cases "net rq (snd w)")
  from j have "drop (length example_origin) (hq_path rq) = CHR ''/'' # path" by (auto simp: network_to_def)
  with h n w show "x = Inl () \<and> pg_shows S (fst w') c \<or> (\<exists>w1 a. x = Inr a \<and> pg_shows S (fst w1) c \<and>
      serve (served S users workloads) (rq\<lparr>hq_path := CHR ''/'' # path\<rparr>) w1 = (a, w'))"
    by (cases b; cases "serve (served S users workloads) (rq\<lparr>hq_path := CHR ''/'' # path\<rparr>) (fst w, n)")
      (auto simp: network_to_def network_client_def)
qed (simp_all add: network_to_def)

text \<open>Drawing an identifier does not touch the database.\<close>

interpretation rs: remote_service "store_in_db (postgres_store S)" "\<lambda>w. pg_shows S (fst w)" "\<lambda>w. pg_now (fst w)"
    "served S users workloads" uuid_text "network_to net token (served S users workloads)"
    "remote_over (in_net (\<lambda>n. (map_err (\<lambda>_. Unavailable) (fst (draw n)), snd (draw n))))
       (network_to net token (served S users workloads))"
  by unfold_locales (auto simp: remote_over_def in_net_apply map_err_eq_Inl)

end
