(* ===== verification/User_Safety.thy ===== *)
theory User_Safety
  imports Service_Contract
begin

text \<open>
  What a request of a user may change: the entries the user owns, by revoking or deleting them. It
  is proved in the locale of the service, over any store that keeps the custody contract.
\<close>

text \<open>How an entry of a principal may change.\<close>

definition own_change :: "principal \<Rightarrow> custody \<Rightarrow> custody \<Rightarrow> secret_ref \<Rightarrow> bool" where
  "own_change p c c' r \<longleftrightarrow>
     (\<exists>e. cu_vault c r = Some e \<and> rf_tenant r = pr_of_tenant p \<and> en_owner e = pr_subject p \<and>
        (permits p ''secret:revoke'' \<and> cu_vault c' r = Some (e\<lparr>en_state := Revoked\<rparr>) \<or>
         permits p ''secret:delete'' \<and> cu_vault c' r = None))"

definition only_own_changes :: "principal \<Rightarrow> custody \<Rightarrow> custody \<Rightarrow> bool" where
  "only_own_changes p c c' \<longleftrightarrow> (\<forall>r. cu_vault c' r \<noteq> cu_vault c r \<longrightarrow> own_change p c c' r)"

definition user_endpoint :: "endpoint \<Rightarrow> bool" where
  "user_endpoint e \<longleftrightarrow> e \<in> {EUserList, EUserDetail, EUserRevoke, EUserDelete}"

lemma unchanged_own: "cu_vault c' = cu_vault c \<Longrightarrow> only_own_changes p c c'"
  by (simp add: only_own_changes_def)

context custody_contract begin

lemma list_outcome:
  assumes w: "holds w c" and p: "cs_list M t x w = (y, w')"
  obtains c' where "holds w' c'" "cu_vault c' = cu_vault c"
    "\<And>rows md. y = Inr rows \<Longrightarrow> md \<in> set rows \<Longrightarrow> \<exists>e. cu_vault c (md_reference md) = Some e \<and>
       rf_tenant (md_reference md) = t \<and> (x = None \<or> x = Some (en_owner e))"
proof -
  obtain c1 c' where c: "custody_core (now w) c (CustodyListReq t x) (CustodyListAns y) c1" "forgets (now w) c1 c'"
    "holds w' c'"
    using simulates [OF w, of "CustodyListReq t x" "CustodyListAns y" w'] p
    by (auto simp: wf_custody_request_def custody_spec_def)
  have m: "\<exists>e. cu_vault c (md_reference md) = Some e \<and> rf_tenant (md_reference md) = t \<and> (x = None \<or> x = Some (en_owner e))"
    if "md \<in> set rows" "set (map md_reference rows) =
      {r. rf_tenant r = t \<and> (\<exists>e. cu_vault c r = Some e \<and> (x = None \<or> x = Some (en_owner e)))}" for rows md
  proof -
    have "md_reference md \<in> set (map md_reference rows)" using that(1) by simp
    with that(2) show ?thesis by blast
  qed
  from c(1) show thesis
    by (rule core_listE) (use that [of c'] c(3) forgets_vault [OF c(2)] m in auto)
qed

lemma revoke_change:
  assumes w: "holds w c" and p: "cs_revoke M r a w = (x, w')"
  obtains c' where "holds w' c'"
    "cu_vault c' = cu_vault c \<or> cu_vault c' = (cu_vault c)(r := map_option (en_state_update (\<lambda>_. Revoked)) (cu_vault c r))"
proof -
  obtain c1 c' where c: "custody_core (now w) c (RevokeReq r a) (MetadataAns x) c1" "forgets (now w) c1 c'" "holds w' c'"
    using simulates [OF w, of "RevokeReq r a" "MetadataAns x" w'] p
    by (auto simp: wf_custody_request_def custody_spec_def)
  from c(1) show thesis
    by (rule core_revokeE) (use that [of c'] c(3) forgets_vault [OF c(2)] in \<open>auto simp: revoke_in_def audited_def\<close>)
qed

lemma delete_change:
  assumes w: "holds w c" and p: "cs_delete M r a w = (x, w')"
  obtains c' where "holds w' c'" "cu_vault c' = cu_vault c \<or> cu_vault c' = (cu_vault c)(r := None)"
proof -
  obtain c1 c' where c: "custody_core (now w) c (RemoveReq r a) (DoneAns x) c1" "forgets (now w) c1 c'" "holds w' c'"
    using simulates [OF w, of "RemoveReq r a" "DoneAns x" w'] p
    by (auto simp: wf_custody_request_def custody_spec_def)
  from c(1) show thesis
    by (rule core_deleteE) (use that [of c'] c(3) forgets_vault [OF c(2)] in \<open>auto simp: delete_from_def audited_def\<close>)
qed

end

context custody_service begin

lemma user_authorize:
  assumes "http_authorize (sv_framework V) rq (ap_user (sv_state V)) action w = (x, w')" "holds w c"
  shows "holds w' c \<and> (\<forall>p. x = Inr p \<longrightarrow> permits p action \<and>
    (\<exists>t. bearer_token (sv_framework V) rq = Some t \<and> ap_user (sv_state V) t w = (Inr p, w')))"
proof (cases "bearer_token (sv_framework V) rq")
  case None
  with assms show ?thesis by (auto simp: http_authorize_def bearer_token_def [symmetric])
next
  case (Some t)
  obtain y v where y: "ap_user (sv_state V) t w = (y, v)" by (cases "ap_user (sv_state V) t w")
  with assms Some quiet_user [OF y assms(2)] show ?thesis
    by (cases y) (auto simp: http_authorize_def bearer_token_def [symmetric] bindE_apply split: if_splits)
qed

text \<open>The outcome of a step after the caller is known: the principal may only change what it owns.\<close>

definition by_user :: "http_request \<Rightarrow> 'w \<Rightarrow> 'w \<Rightarrow> custody \<Rightarrow> bool" where
  "by_user rq w w' c \<longleftrightarrow> (\<exists>c'. holds w' c' \<and>
     (cu_vault c' = cu_vault c \<or> (\<exists>t p w1. bearer_token (sv_framework V) rq = Some t \<and>
        ap_user (sv_state V) t w = (Inr p, w1) \<and> only_own_changes p c c')))"

lemma by_user_same: "holds w' c' \<Longrightarrow> cu_vault c' = cu_vault c \<Longrightarrow> by_user rq w w' c"
  unfolding by_user_def by blast

lemma authorized_user:
  assumes w: "holds w c" and h: "bindE (http_authorize (sv_framework V) rq (ap_user (sv_state V)) action) k w = (x, w')"
    and k: "\<And>p v. holds v c \<Longrightarrow> permits p action \<Longrightarrow> k p v = (x, w') \<Longrightarrow>
      \<exists>c'. holds w' c' \<and> only_own_changes p c c'"
  shows "by_user rq w w' c"
proof -
  obtain y v where y: "http_authorize (sv_framework V) rq (ap_user (sv_state V)) action w = (y, v)"
    by (cases "http_authorize (sv_framework V) rq (ap_user (sv_state V)) action w")
  note u = user_authorize [OF y w]
  show ?thesis
  proof (cases y)
    case (Inl e)
    with h y u show ?thesis by (auto intro: by_user_same)
  next
    case (Inr p)
    with h y have "k p v = (x, w')" by simp
    with k u Inr obtain c' where "holds w' c'" "only_own_changes p c c'" by blast
    with u Inr show ?thesis unfolding by_user_def by blast
  qed
qed

text \<open>A listing in front of a step.\<close>

lemma listed_first:
  assumes w: "holds w c" and h: "bindE (map_errE refusal_of_store (cs_list M t x)) k w = (y, w')"
    and k: "\<And>rows v d. holds v d \<Longrightarrow> cu_vault d = cu_vault c \<Longrightarrow>
      \<forall>md \<in> set rows. \<exists>e. cu_vault c (md_reference md) = Some e \<and> rf_tenant (md_reference md) = t \<and>
        (x = None \<or> x = Some (en_owner e)) \<Longrightarrow> k rows v = (y, w') \<Longrightarrow>
      \<exists>c'. holds w' c' \<and> only_own_changes p c c'"
  shows "\<exists>c'. holds w' c' \<and> only_own_changes p c c'"
proof -
  obtain z v where z: "cs_list M t x w = (z, v)" by (cases "cs_list M t x w")
  obtain d where d: "holds v d" "cu_vault d = cu_vault c"
    "\<And>rows md. z = Inr rows \<Longrightarrow> md \<in> set rows \<Longrightarrow> \<exists>e. cu_vault c (md_reference md) = Some e \<and>
       rf_tenant (md_reference md) = t \<and> (x = None \<or> x = Some (en_owner e))"
    using list_outcome [OF w z] by blast
  show ?thesis
  proof (cases z)
    case (Inl e)
    with h z d show ?thesis by (auto intro: unchanged_own)
  next
    case (Inr rows)
    with h z have "k rows v = (y, w')" by simp
    with k [OF d(1,2)] d(3) [OF Inr] show ?thesis by blast
  qed
qed

end

context custody_service begin

text \<open>A body and the caller in front of a step.\<close>

lemma bodied_user:
  assumes w: "holds w c"
    and h: "bindE (liftE body) (\<lambda>r. bindE (authorize_ref (sv_framework V) rq (ap_user (sv_state V)) action r) (k r)) w = (x, w')"
    and k: "\<And>r p v. holds v c \<Longrightarrow> permits p action \<Longrightarrow> pr_of_tenant p = rf_tenant r \<Longrightarrow> k r p v = (x, w') \<Longrightarrow>
      \<exists>c'. holds w' c' \<and> only_own_changes p c c'"
  shows "by_user rq w w' c"
proof (cases body)
  case (Inl e)
  with h w show ?thesis by (auto intro: by_user_same)
next
  case (Inr r)
  with h have "bindE (http_authorize (sv_framework V) rq (ap_user (sv_state V)) action)
      (\<lambda>p. bindE (liftE (tenant_match p (rf_tenant r))) (\<lambda>_. k r p)) w = (x, w')"
    by (simp add: authorize_ref_def bindE_assoc)
  then show ?thesis
  proof (rule authorized_user [OF w])
    fix p v assume v: "holds v c" "permits p action" "bindE (liftE (tenant_match p (rf_tenant r))) (\<lambda>_. k r p) v = (x, w')"
    then show "\<exists>c'. holds w' c' \<and> only_own_changes p c c'"
      by (cases "pr_of_tenant p = rf_tenant r") (auto simp: tenant_match_def intro: k unchanged_own)
  qed
qed

lemma owned_step:
  assumes w: "holds w c" and p: "pr_of_tenant p = rf_tenant r"
    and h: "bindE (assert_owner V p r) (\<lambda>_. bindE (map_errE refusal_of_store oper) g) w = (x, w')"
    and oper: "\<And>v d y v'. holds v d \<Longrightarrow> oper v = (y, v') \<Longrightarrow>
      \<exists>c'. holds v' c' \<and> (cu_vault c' = cu_vault d \<or> cu_vault c' = (cu_vault d)(r := f (cu_vault d r)))"
    and f: "\<And>c' e. cu_vault c r = Some e \<Longrightarrow> en_owner e = pr_subject p \<Longrightarrow> cu_vault c' r = f (Some e) \<Longrightarrow> own_change p c c' r"
    and g: "\<And>a v. snd (g a v) = v"
  shows "\<exists>c'. holds w' c' \<and> only_own_changes p c c'"
proof (rule listed_first [OF w, of "pr_of_tenant p" "Some (pr_subject p)"])
  show "bindE (map_errE refusal_of_store (cs_list M (pr_of_tenant p) (Some (pr_subject p))))
      (\<lambda>listed. bindE (if list_ex (\<lambda>m. md_reference m = r) listed then retE () else failE RNotOwned)
        (\<lambda>_. bindE (map_errE refusal_of_store oper) g)) w = (x, w')"
    using h by (simp add: assert_owner_def store bindE_assoc)
  fix rows v d
  assume d: "holds v d" "cu_vault d = cu_vault c"
    and rows: "\<forall>md \<in> set rows. \<exists>e. cu_vault c (md_reference md) = Some e \<and>
      rf_tenant (md_reference md) = pr_of_tenant p \<and> (Some (pr_subject p) = None \<or> Some (pr_subject p) = Some (en_owner e))"
    and k: "bindE (if list_ex (\<lambda>m. md_reference m = r) rows then retE () else failE RNotOwned)
        (\<lambda>_. bindE (map_errE refusal_of_store oper) g) v = (x, w')"
  show "\<exists>c'. holds w' c' \<and> only_own_changes p c c'"
  proof (cases "list_ex (\<lambda>m. md_reference m = r) rows")
    case False
    with k d show ?thesis by (auto intro: unchanged_own)
  next
    case True
    with rows obtain e where e: "cu_vault c r = Some e" "en_owner e = pr_subject p" by (auto simp: list_ex_iff)
    obtain y v' where y: "oper v = (y, v')" by (cases "oper v")
    have "w' = v'" using k True y g by (cases y) (auto simp: bindE_apply dest: arg_cong [where f = snd])
    from oper [OF d(1) y] obtain c' where c': "holds v' c'" "cu_vault c' = cu_vault d \<or> cu_vault c' = (cu_vault d)(r := f (cu_vault d r))"
      by blast
    then have "only_own_changes p c c'"
      using f [OF e, of c'] e d(2) by (auto simp: only_own_changes_def split: if_splits)
    with c'(1) \<open>w' = v'\<close> show ?thesis by blast
  qed
qed

lemma user_handlers_by_user:
  assumes w: "holds w c" and e: "user_endpoint e" and h: "handle e V rq ps w = (x, w')"
  shows "by_user rq w w' c"
proof -
  consider "e = EUserList" | "e = EUserDetail" | "e = EUserRevoke" | "e = EUserDelete"
    using e by (auto simp: user_endpoint_def)
  then show ?thesis
  proof cases
    case 1
    with h have "user_list V rq ps w = (x, w')" by simp
    from this [unfolded user_list_def store] show ?thesis
      by (rule authorized_user [OF w]) (erule listed_first, assumption, auto intro: unchanged_own)
  next
    case 2
    with h have "user_detail V rq ps w = (x, w')" by simp
    from this [unfolded user_detail_def store] show ?thesis
      by (rule bodied_user [OF w])
        (erule listed_first, assumption, auto simp: bindE_apply intro: unchanged_own split: prod.splits sum.splits)
  next
    case 3
    with h have "user_revoke V rq ps w = (x, w')" by simp
    from this [unfolded user_revoke_def store] show ?thesis
    proof (rule bodied_user [OF w])
      fix r p v assume v: "holds v c" "permits p ''secret:revoke''" "pr_of_tenant p = rf_tenant r"
        "bindE (assert_owner V p r) (\<lambda>_. bindE (map_errE refusal_of_store (cs_revoke M r (pr_subject p)))
          (\<lambda>m. retE (json_response (jc_metadata (sv_codec V) m)))) v = (x, w')"
      show "\<exists>c'. holds w' c' \<and> only_own_changes p c c'"
      proof (rule owned_step [OF v(1,3,4), of "map_option (en_state_update (\<lambda>_. Revoked))"])
        fix v d y v' assume d: "holds v d" "cs_revoke M r (pr_subject p) v = (y, v')"
        show "\<exists>c'. holds v' c' \<and> (cu_vault c' = cu_vault d \<or> cu_vault c' = (cu_vault d)(r := (map_option (en_state_update (\<lambda>_. Revoked))) (cu_vault d r)))"
          using revoke_change [OF d] by blast
      qed (use v(2,3) in \<open>simp_all add: own_change_def\<close>)
    qed
  next
    case 4
    with h have "user_delete V rq ps w = (x, w')" by simp
    from this [unfolded user_delete_def store] show ?thesis
    proof (rule bodied_user [OF w])
      fix r p v assume v: "holds v c" "permits p ''secret:delete''" "pr_of_tenant p = rf_tenant r"
        "bindE (assert_owner V p r) (\<lambda>_. bindE (map_errE refusal_of_store (cs_delete M r (pr_subject p)))
          (\<lambda>_. retE (status_response 204))) v = (x, w')"
      show "\<exists>c'. holds w' c' \<and> only_own_changes p c c'"
      proof (rule owned_step [OF v(1,3,4), of "\<lambda>_. None"])
        fix v d y v' assume d: "holds v d" "cs_delete M r (pr_subject p) v = (y, v')"
        show "\<exists>c'. holds v' c' \<and> (cu_vault c' = cu_vault d \<or> cu_vault c' = (cu_vault d)(r := (\<lambda>_. None) (cu_vault d r)))"
          using delete_change [OF d] by blast
      qed (use v(2,3) in \<open>simp_all add: own_change_def\<close>)
    qed
  qed
qed

lemma user_request_by_user:
  assumes w: "holds w c" and s: "serve V rq w = (a, w')" and d: "dispatch (sv_framework V) rq = Inr (e, ps)"
    and e: "user_endpoint e"
  shows "by_user rq w w' c"
proof (cases "fw_overlong (sv_framework V) body_limit rq")
  case True
  with s w show ?thesis by (auto simp: serve_def intro: by_user_same)
next
  case False
  obtain x v where x: "handle e V rq ps w = (x, v)" by (cases "handle e V rq ps w")
  with s d False have "v = w'" by (cases x) (auto simp: serve_def)
  with user_handlers_by_user [OF w e x] show ?thesis by simp
qed

end

end
