(* ===== verification/Postgres_Rotation.thy ===== *)
theory Postgres_Rotation
  imports Postgres_Properties
begin

text \<open>
  Rotation of the active key: what \<open>rewrap_all\<close> achieves when it succeeds, and a state it can
  never get past. Every version is decrypted under the disclosure its secret has now; one that was
  sealed before the disclosure changed does not open, and the rotation is refused as a whole, each
  time.
\<close>

abbreviation version_key :: "version_row \<Rightarrow> uuid \<times> 64 word" where
  "version_key v \<equiv> (vr_secret v, vr_version v)"

section \<open>One version\<close>

lemma read_envelope_Inr: "read_envelope ev = Inr ev' \<Longrightarrow> ev' = ev \<and> wf_envelope ev"
  by (auto simp: read_envelope_def array12_def wf_envelope_def split: if_splits)

lemma open_sealed_iff:
  assumes "store_ok S" "wf_envelope ev"
  shows "open_envelope (ps_aead S) (ps_keyring S) aad ev = Inr m \<longleftrightarrow>
    sealed (ps_aead S) (ps_keyring S) aad m ev"
  by (rule open_iff_sealed) (use assms in \<open>auto simp: store_ok_def wf_keyring_def\<close>)

lemma sealed_unique:
  "store_ok S \<Longrightarrow> sealed (ps_aead S) (ps_keyring S) aad m ev \<Longrightarrow>
   sealed (ps_aead S) (ps_keyring S) aad m' ev \<Longrightarrow> m = m'"
  using open_sealed_iff [of S ev aad] by (metis Inr_inject sealed_wf)

definition with_envelope :: "uuid \<times> 64 word \<Rightarrow> envelope \<Rightarrow> version_row list \<Rightarrow> version_row list" where
  "with_envelope k ev vs = map (\<lambda>v. if version_key v = k then v\<lparr>vr_envelope := ev\<rparr> else v) vs"

lemma with_envelope_keys [simp]: "map version_key (with_envelope k ev vs) = map version_key vs"
  by (simp add: with_envelope_def)

text \<open>Sealing a version again keeps what the tables show.\<close>

lemma vault_rows_reseal:
  assumes S: "store_ok S" and rows: "vault_rows S ss vs V" and s: "s \<in> set ss" and v: "v \<in> set vs"
    and id: "vr_secret v = sr_id s" and d: "sr_disclosure s = disclosure_text d"
    and old: "sealed (ps_aead S) (ps_keyring S) (associated_data (sr_ref s) (vr_version v) d) m (vr_envelope v)"
    and new: "sealed (ps_aead S) (ps_keyring S) (associated_data (sr_ref s) (vr_version v) d) m ev"
  shows "vault_rows S ss (with_envelope (version_key v) ev vs) V"
proof -
  have dist: "distinct (map version_key vs)" using rows by (simp add: vault_rows_def)
  have "current_sealed S (with_envelope (version_key v) ev vs) t e"
    if t: "t \<in> set ss" "row_shows t e" "current_sealed S vs t e" for t e
  proof -
    from t(3) obtain x where x: "x \<in> set vs" "vr_secret x = sr_id t" "vr_version x = sr_version t"
      "sealed (ps_aead S) (ps_keyring S)
         (associated_data (sr_ref t) (sr_version t) (en_disclosure e)) (en_value e) (vr_envelope x)"
      by (auto simp: current_sealed_def)
    show ?thesis
    proof (cases "version_key x = version_key v")
      case True
      then have "x = v" using dist x(1) v by (auto simp: distinct_map dest: inj_onD)
      have "sr_id t = sr_id s" using True x(2) id by simp
      then have "t = s"
        using rows t(1) s unfolding vault_rows_def distinct_map by (blast dest: inj_onD)
      have "en_disclosure e = d"
        using t(2) d \<open>t = s\<close> by (cases "en_disclosure e"; cases d) (auto simp: row_shows_def)
      with x(3,4) old new \<open>x = v\<close> \<open>t = s\<close> have "sealed (ps_aead S) (ps_keyring S)
          (associated_data (sr_ref t) (sr_version t) (en_disclosure e)) (en_value e) ev"
        using sealed_unique [OF S x(4)] by metis
      moreover have "v\<lparr>vr_envelope := ev\<rparr> \<in> set (with_envelope (version_key v) ev vs)"
        using v by (force simp: with_envelope_def)
      ultimately show ?thesis
        using x(2,3) \<open>x = v\<close> unfolding current_sealed_def
        by (intro bexI [of _ "v\<lparr>vr_envelope := ev\<rparr>"]) simp_all
    next
      case False
      then have "x \<in> set (with_envelope (version_key v) ev vs)"
        using x(1) by (force simp: with_envelope_def)
      with x show ?thesis unfolding current_sealed_def by blast
    qed
  qed
  with rows show ?thesis
    unfolding vault_rows_def with_envelope_keys by blast
qed

lemma update_version_Inr:
  "update_version i ver ev now d = (Inr u, d') \<Longrightarrow>
   d' = d\<lparr>db_versions := with_envelope (i, ver) ev (db_versions d)\<rparr>"
  by (auto simp: update_version_def with_envelope_def split: if_splits)

lemma rewrap_row_Inr:
  assumes S: "store_ok S" and c: "shows_db S (pg_work w) c"
    and s: "s \<in> set (db_secrets (pg_work w))" and v: "v \<in> set (db_versions (pg_work w))" "vr_secret v = sr_id s"
    and p: "rewrap_row S actor (s, v) w = (Inr u, w')"
  obtains ev where "ev_key_id ev = kr_active (ps_keyring S)"
    "db_versions (pg_work w') = with_envelope (version_key v) ev (db_versions (pg_work w))"
    "db_secrets (pg_work w') = db_secrets (pg_work w)"
    "shows_db S (pg_work w') (audited (rf_tenant (sr_ref s)) actor ''rewrap'' c)"
proof -
  let ?r = "sr_ref s" and ?ver = "vr_version v"
  from p obtain d old m ev w1 u2 w2 where
    1: "read_disclosure (sr_disclosure s) = Inr d" and
    2: "read_envelope (vr_envelope v) = Inr old" and
    3: "decrypt (ps_aead S) (ps_keyring S) ?r ?ver d old = Inr m" and
    4: "crypt (encrypt (ps_aead S) (ps_keyring S) ?r ?ver d m) w = (Inr ev, w1)" and
    5: "on_tx [ev_key_id ev] (update_version (sr_id s) ?ver ev) w1 = (Inr u2, w2)" and
    6: "audit (rf_tenant ?r) (Some (sr_id s)) actor ''rewrap'' w2 = (Inr u, w')"
    by (auto simp: rewrap_row_def Let_def bindE_eq_Inr)
  note e = read_envelope_Inr [OF 2]
  have d: "sr_disclosure s = disclosure_text d"
    using 1 by (auto simp: read_disclosure_def split: if_splits)
  have old: "sealed (ps_aead S) (ps_keyring S) (associated_data ?r ?ver d) m (vr_envelope v)"
    using 3 e open_sealed_iff [OF S] by (simp add: decrypt_def)
  have new: "sealed (ps_aead S) (ps_keyring S) (associated_data ?r ?ver d) m ev"
    "ev_key_id ev = kr_active (ps_keyring S)"
    using crypt_Inr [OF 4] seal_sealed by (auto simp: encrypt_def)
  have w2: "pg_work w2 = (pg_work w)\<lparr>db_versions := with_envelope (version_key v) ev (db_versions (pg_work w))\<rparr>"
    using on_tx_Inr [OF 5] crypt_Inr [OF 4] v(2) by (auto dest: update_version_Inr)
  have "shows_db S (pg_work w2) c"
    using c vault_rows_reseal [OF S shows_db_rows [OF c] s v d old new(1)] w2
    by (simp add: shows_db_def)
  from audit_shows [OF this 6] that new(2) w2 audit_Inr [OF 6] show thesis by simp
qed

section \<open>All versions\<close>

lemma rewrap_loop:
  assumes S: "store_ok S" and "shows_db S (pg_work w) c" "distinct (map (version_key \<circ> snd) xs)"
    "\<And>s v. (s, v) \<in> set xs \<Longrightarrow> s \<in> set (db_secrets (pg_work w)) \<and> v \<in> set (db_versions (pg_work w)) \<and>
       vr_secret v = sr_id s"
    and "for_each (rewrap_row S actor) xs w = (Inr u, w')"
  shows "\<exists>c'. shows_db S (pg_work w') c' \<and> cu_vault c' = cu_vault c \<and> cu_batches c' = cu_batches c \<and>
    length (cu_audit c') = length (cu_audit c) + length xs \<and>
    db_secrets (pg_work w') = db_secrets (pg_work w) \<and>
    (\<forall>v \<in> set (db_versions (pg_work w')). ev_key_id (vr_envelope v) = kr_active (ps_keyring S) \<or>
       v \<in> set (db_versions (pg_work w)) \<and> version_key v \<notin> (version_key \<circ> snd) ` set xs)"
  using assms(2-)
proof (induction xs arbitrary: w c)
  case Nil
  then show ?case by auto
next
  case (Cons x xs)
  obtain s v where x: "x = (s, v)" by (cases x)
  from Cons.prems(4) obtain w1 where p: "rewrap_row S actor (s, v) w = (Inr (), w1)"
    "for_each (rewrap_row S actor) xs w1 = (Inr u, w')"
    by (auto simp: x bindE_eq_Inr)
  have sv: "s \<in> set (db_secrets (pg_work w))" "v \<in> set (db_versions (pg_work w))" "vr_secret v = sr_id s"
    using Cons.prems(3) [of s v] x by simp_all
  obtain ev where ev: "ev_key_id ev = kr_active (ps_keyring S)"
    "db_versions (pg_work w1) = with_envelope (version_key v) ev (db_versions (pg_work w))"
    "db_secrets (pg_work w1) = db_secrets (pg_work w)"
    "shows_db S (pg_work w1) (audited (rf_tenant (sr_ref s)) actor ''rewrap'' c)"
    by (rule rewrap_row_Inr [OF S Cons.prems(1) sv p(1)])
  have "t \<in> set (db_secrets (pg_work w1)) \<and> y \<in> set (db_versions (pg_work w1)) \<and> vr_secret y = sr_id t"
    if "(t, y) \<in> set xs" for t y
  proof -
    have "version_key y \<noteq> version_key v"
      using that Cons.prems(2) x by force
    then show ?thesis
      using Cons.prems(3) [of t y] that ev(2,3) by (force simp: with_envelope_def)
  qed
  from Cons.IH [OF ev(4) _ this p(2)] Cons.prems(2) obtain c' where
    c': "shows_db S (pg_work w') c'" "cu_vault c' = cu_vault c" "cu_batches c' = cu_batches c"
    "length (cu_audit c') = length (cu_audit c) + Suc (length xs)"
    "db_secrets (pg_work w') = db_secrets (pg_work w1)"
    "\<forall>y \<in> set (db_versions (pg_work w')). ev_key_id (vr_envelope y) = kr_active (ps_keyring S) \<or>
       y \<in> set (db_versions (pg_work w1)) \<and> version_key y \<notin> (version_key \<circ> snd) ` set xs"
    by (auto simp: audited_def)
  have "ev_key_id (vr_envelope y) = kr_active (ps_keyring S) \<or>
      y \<in> set (db_versions (pg_work w)) \<and> version_key y \<notin> (version_key \<circ> snd) ` set (x # xs)"
    if "y \<in> set (db_versions (pg_work w'))" for y
    using c'(6) that ev(1,2) x by (auto simp: with_envelope_def split: if_splits)
  with c' ev(3) show ?case by auto
qed

lemma select_rewrap_rows:
  assumes "select_rewrap active now d = (Inr xs, d')"
  shows "d' = d" and "(s, v) \<in> set xs \<longleftrightarrow> s \<in> set (db_secrets d) \<and> v \<in> set (db_versions d) \<and>
    vr_secret v = sr_id s \<and> ev_key_id (vr_envelope v) \<noteq> active"
  using assms by (auto simp: select_rewrap_def image_iff)

lemma select_rewrap_distinct:
  assumes "select_rewrap active now d = (Inr xs, d')" "distinct (map sr_id (db_secrets d))"
    "distinct (map version_key (db_versions d))"
  shows "distinct (map (version_key \<circ> snd) xs)"
proof -
  define rows where "rows = (\<lambda>ss :: secret_row list. concat (map (\<lambda>s. map (Pair s)
    (filter (\<lambda>v. vr_secret v = sr_id s \<and> ev_key_id (vr_envelope v) \<noteq> active) (db_versions d))) ss))"
  have "distinct (map (version_key \<circ> snd) (rows ss))" if "distinct (map sr_id ss)"
    for ss :: "secret_row list"
    using that
  proof (induction ss)
    case Nil
    then show ?case by (simp add: rows_def)
  next
    case (Cons s ss)
    have "distinct (map version_key (filter (\<lambda>v. vr_secret v = sr_id s \<and> ev_key_id (vr_envelope v) \<noteq> active)
        (db_versions d)))"
      using assms(3) by (rule distinct_map_filter)
    with Cons show ?case
      by (auto simp: rows_def comp_def)
  qed
  moreover have "xs = rows (db_secrets d)"
    using assms(1) by (auto simp: select_rewrap_def rows_def)
  ultimately show ?thesis
    using assms(2) by simp
qed

section \<open>Prepared batches\<close>

lemma update_prepared_Inr:
  "update_prepared t i ev now d = (Inr u, d') \<Longrightarrow>
   d' = d\<lparr>db_prepared := map (\<lambda>p. if prepared_key p = (t, i) then p\<lparr>pr_envelope := ev\<rparr> else p) (db_prepared d)\<rparr>"
  by (auto simp: update_prepared_def prepared_key_def split: if_splits)

lemma prepared_key_envelope [simp]: "prepared_key (p\<lparr>pr_envelope := ev\<rparr>) = prepared_key p"
  by (simp add: prepared_key_def)

lemma batch_rows_reseal:
  assumes rows: "batch_rows S ps B" and p: "p \<in> set ps"
    and new: "\<And>b. batch_shows S p b \<Longrightarrow> batch_shows S (p\<lparr>pr_envelope := ev\<rparr>) b"
  shows "batch_rows S (map (\<lambda>q. if prepared_key q = prepared_key p then q\<lparr>pr_envelope := ev\<rparr> else q) ps) B"
proof -
  let ?f = "\<lambda>q. if prepared_key q = prepared_key p then q\<lparr>pr_envelope := ev\<rparr> else q"
  have k: "prepared_key \<circ> ?f = prepared_key" by (auto simp: fun_eq_iff)
  have "\<exists>b. B (prepared_key (?f q)) = Some b \<and> batch_shows S (?f q) b" if "q \<in> set ps" for q
    using batch_rowsD [OF rows that] batch_rows_same [OF rows that p] new by auto
  then have "\<forall>q \<in> set (map ?f ps). \<exists>b. B (prepared_key q) = Some b \<and> batch_shows S q b"
    unfolding set_map by blast
  moreover have "distinct (map prepared_key (map ?f ps))" "dom B = prepared_key ` set (map ?f ps)"
    unfolding map_map set_map image_comp k using rows by (simp_all add: batch_rows_def)
  ultimately show ?thesis
    unfolding batch_rows_def by blast
qed

lemma reseal_row_Inr:
  assumes S: "store_ok S" and c: "shows_db S (pg_work w) c" and p: "p \<in> set (db_prepared (pg_work w))"
    and r: "reseal_row S p w = (Inr u, w')"
  obtains ev where "ev_key_id ev = kr_active (ps_keyring S)" "shows_db S (pg_work w') c"
    "pg_work w' = (pg_work w)\<lparr>db_prepared := map (\<lambda>q. if prepared_key q = prepared_key p
       then q\<lparr>pr_envelope := ev\<rparr> else q) (db_prepared (pg_work w))\<rparr>"
proof -
  let ?aad = "batch_associated_data (pr_tenant p) (pr_id p) (pr_actor p)"
  from r obtain old m ev w1 e e1 where
    1: "read_envelope (pr_envelope p) = Inr old" and
    2: "crypt (reseal_batch (ps_aead S) (ps_keyring S) (pr_tenant p) (pr_id p) (pr_actor p) old) w = (Inr ev, w1)" and
    3: "on_tx [pr_tenant p, ev_key_id ev] (update_prepared (pr_tenant p) (pr_id p) ev) w1 = (Inr u, w')"
    by (auto simp: reseal_row_def bindE_eq_Inr)
  note old = read_envelope_Inr [OF 1]
  from crypt_Inr [OF 2] obtain m e e1 where
    m: "open_envelope (ps_aead S) (ps_keyring S) ?aad old = Inr m"
    "seal (ps_aead S) (ps_keyring S) ?aad m e = (Inr ev, e1)"
    by (auto simp: reseal_batch_def Let_def bindE_eq_Inr)
  have o: "sealed (ps_aead S) (ps_keyring S) ?aad m (pr_envelope p)"
    using m(1) old open_sealed_iff [OF S] by simp
  have n: "sealed (ps_aead S) (ps_keyring S) ?aad m ev" "ev_key_id ev = kr_active (ps_keyring S)"
    using seal_sealed [OF m(2)] by simp_all
  have "batch_shows S (p\<lparr>pr_envelope := ev\<rparr>) b" if "batch_shows S p b" for b
    using that n(1) sealed_unique [OF S o] by (auto simp: batch_shows_def)
  moreover have w': "pg_work w' = (pg_work w)\<lparr>db_prepared := map (\<lambda>q. if prepared_key q = prepared_key p
       then q\<lparr>pr_envelope := ev\<rparr> else q) (db_prepared (pg_work w))\<rparr>"
    using on_tx_Inr [OF 3] crypt_Inr [OF 2] by (auto simp: prepared_key_def dest!: update_prepared_Inr)
  ultimately have "shows_db S (pg_work w') c"
    using c p batch_rows_reseal [of S "db_prepared (pg_work w)" "cu_batches c" p ev]
    by (simp add: shows_db_def)
  with that n(2) w' show thesis by blast
qed

lemma reseal_loop:
  assumes S: "store_ok S" and "shows_db S (pg_work w) c" "distinct (map prepared_key ps)"
    "set ps \<subseteq> set (db_prepared (pg_work w))" "for_each (reseal_row S) ps w = (Inr u, w')"
  shows "shows_db S (pg_work w') c \<and> db_secrets (pg_work w') = db_secrets (pg_work w) \<and>
    db_versions (pg_work w') = db_versions (pg_work w) \<and>
    (\<forall>p \<in> set (db_prepared (pg_work w')). ev_key_id (pr_envelope p) = kr_active (ps_keyring S) \<or>
       p \<in> set (db_prepared (pg_work w)) \<and> prepared_key p \<notin> prepared_key ` set ps)"
  using assms(2-)
proof (induction ps arbitrary: w)
  case Nil
  then show ?case by auto
next
  case (Cons p ps)
  from Cons.prems(4) obtain w1 where r: "reseal_row S p w = (Inr (), w1)" "for_each (reseal_row S) ps w1 = (Inr u, w')"
    by (auto simp: bindE_eq_Inr)
  from Cons.prems(3) have p: "p \<in> set (db_prepared (pg_work w))" by simp
  obtain ev where ev: "ev_key_id ev = kr_active (ps_keyring S)" "shows_db S (pg_work w1) c"
    "pg_work w1 = (pg_work w)\<lparr>db_prepared := map (\<lambda>q. if prepared_key q = prepared_key p
       then q\<lparr>pr_envelope := ev\<rparr> else q) (db_prepared (pg_work w))\<rparr>"
    by (rule reseal_row_Inr [OF S Cons.prems(1) p r(1)])
  have "set ps \<subseteq> set (db_prepared (pg_work w1))"
  proof
    fix q assume q: "q \<in> set ps"
    have "q \<in> set (db_prepared (pg_work w))" using q Cons.prems(3) by auto
    moreover have "prepared_key p \<notin> prepared_key ` set ps" using Cons.prems(2) by simp
    then have "prepared_key q \<noteq> prepared_key p" using q by (metis image_eqI)
    ultimately show "q \<in> set (db_prepared (pg_work w1))"
      unfolding ev(3) by (force intro: rev_image_eqI)
  qed
  with Cons.IH [OF ev(2) _ _ r(2)] Cons.prems(2) have
    I: "shows_db S (pg_work w') c" "db_secrets (pg_work w') = db_secrets (pg_work w1)"
    "db_versions (pg_work w') = db_versions (pg_work w1)"
    "\<And>q. q \<in> set (db_prepared (pg_work w')) \<Longrightarrow> ev_key_id (pr_envelope q) = kr_active (ps_keyring S) \<or>
       q \<in> set (db_prepared (pg_work w1)) \<and> prepared_key q \<notin> prepared_key ` set ps"
    by auto
  have "ev_key_id (pr_envelope q) = kr_active (ps_keyring S) \<or>
      q \<in> set (db_prepared (pg_work w)) \<and> prepared_key q \<notin> prepared_key ` set (p # ps)"
    if "q \<in> set (db_prepared (pg_work w'))" for q
    using I(4) [OF that] ev(1,3) by (auto split: if_splits)
  with I(1-3) ev(3) show ?case by simp
qed

section \<open>The whole rotation\<close>

text \<open>The two transactions of a rotation.\<close>

definition rotate_tx :: "postgres \<Rightarrow> string \<Rightarrow> (pg, store_error, nat) io" where
  "rotate_tx S actor =
     bindE (on_tx [kr_active (ps_keyring S)] (select_rewrap (kr_active (ps_keyring S)))) (\<lambda>rows.
     bindE (for_each (rewrap_row S actor) rows) (\<lambda>_. retE (length rows)))"

definition reseal_tx :: "postgres \<Rightarrow> (pg, store_error, unit) io" where
  "reseal_tx S =
     bindE (on_tx [] (delete_expired None)) (\<lambda>_.
     bindE (on_tx [kr_active (ps_keyring S)] (select_reseal (kr_active (ps_keyring S)))) (\<lambda>rows.
     for_each (reseal_row S) rows))"

lemma rewrap_all_transactions:
  "rewrap_all S actor = bindE (transaction (rotate_tx S actor)) (\<lambda>n. bindE (reseal_batches S) (\<lambda>_. retE n))"
  by (simp add: rewrap_all_def rotate_tx_def transaction_def bindE_assoc)

lemma reseal_batches_transaction: "reseal_batches S = transaction (reseal_tx S)"
  by (simp add: reseal_batches_def reseal_tx_def transaction_def bindE_assoc)

lemma tx_step_rotate [tx_frame]: "tx_step (rotate_tx S actor)" "tx_step (reseal_tx S)"
  unfolding rotate_tx_def reseal_tx_def by (intro tx_frame)+

definition versions_current :: "postgres \<Rightarrow> db \<Rightarrow> bool" where
  "versions_current S d \<longleftrightarrow> (\<forall>s \<in> set (db_secrets d). \<forall>v \<in> set (db_versions d).
     vr_secret v = sr_id s \<longrightarrow> ev_key_id (vr_envelope v) = kr_active (ps_keyring S))"

definition batches_current :: "postgres \<Rightarrow> db \<Rightarrow> bool" where
  "batches_current S d \<longleftrightarrow>
     (\<forall>p \<in> set (db_prepared d). ev_key_id (pr_envelope p) = kr_active (ps_keyring S))"

lemma rotate_tx_shows:
  assumes S: "store_ok S" and c: "shows_db S (pg_work w) c" and r: "rotate_tx S actor w = (Inr n, w')"
  shows "\<exists>c'. shows_db S (pg_work w') c' \<and> cu_vault c' = cu_vault c \<and> cu_batches c' = cu_batches c \<and>
    length (cu_audit c') = length (cu_audit c) + n \<and> versions_current S (pg_work w')"
proof -
  let ?active = "kr_active (ps_keyring S)"
  from r obtain xs w1 where 1: "on_tx [?active] (select_rewrap ?active) w = (Inr xs, w1)"
    and 2: "for_each (rewrap_row S actor) xs w1 = (Inr (), w')" and n: "n = length xs"
    by (auto simp: rotate_tx_def bindE_eq_Inr)
  from on_tx_Inr [OF 1] have sel: "select_rewrap ?active (pg_now w) (pg_work w) = (Inr xs, pg_work w1)" by simp
  note rows = select_rewrap_rows [OF sel]
  have same: "pg_work w1 = pg_work w" by (rule rows(1))
  have v: "vault_rows S (db_secrets (pg_work w)) (db_versions (pg_work w)) (cu_vault c)"
    using shows_db_rows [OF c] .
  have dist: "distinct (map (version_key \<circ> snd) xs)"
    using select_rewrap_distinct [OF sel] v by (simp add: vault_rows_def)
  have mem: "s \<in> set (db_secrets (pg_work w1)) \<and> y \<in> set (db_versions (pg_work w1)) \<and> vr_secret y = sr_id s"
    if "(s, y) \<in> set xs" for s y
    using that rows(2) same by simp
  from c same have c1: "shows_db S (pg_work w1) c" by simp
  from rewrap_loop [OF S c1 dist mem 2] obtain c' where
    c': "shows_db S (pg_work w') c'" "cu_vault c' = cu_vault c" "cu_batches c' = cu_batches c"
    "length (cu_audit c') = length (cu_audit c) + length xs"
    "db_secrets (pg_work w') = db_secrets (pg_work w)"
    "\<forall>y \<in> set (db_versions (pg_work w')). ev_key_id (vr_envelope y) = ?active \<or>
       y \<in> set (db_versions (pg_work w)) \<and> version_key y \<notin> (version_key \<circ> snd) ` set xs"
    unfolding same by blast
  have "ev_key_id (vr_envelope y) = ?active"
    if "s \<in> set (db_secrets (pg_work w'))" "y \<in> set (db_versions (pg_work w'))" "vr_secret y = sr_id s" for s y
  proof (rule ccontr)
    assume no: "ev_key_id (vr_envelope y) \<noteq> ?active"
    with c'(6) that(2) have y: "y \<in> set (db_versions (pg_work w))" "version_key y \<notin> (version_key \<circ> snd) ` set xs"
      by blast+
    with rows(2) [of s y] that c'(5) no have "(s, y) \<in> set xs" by simp
    with y(2) show False by force
  qed
  with c'(1-4) n show ?thesis unfolding versions_current_def by blast
qed

lemma reseal_tx_shows:
  assumes S: "store_ok S" and c: "shows_db S (pg_work w) c" and r: "reseal_tx S w = (Inr u, w')"
  shows "\<exists>c'. shows_db S (pg_work w') c' \<and> forgets (pg_now w) c c' \<and> batches_current S (pg_work w') \<and>
    db_secrets (pg_work w') = db_secrets (pg_work w) \<and> db_versions (pg_work w') = db_versions (pg_work w)"
proof -
  let ?active = "kr_active (ps_keyring S)"
  from r obtain w1 ps w2 where 1: "on_tx [] (delete_expired None) w = (Inr (), w1)"
    and 2: "on_tx [?active] (select_reseal ?active) w1 = (Inr ps, w2)"
    and 3: "for_each (reseal_row S) ps w2 = (Inr (), w')"
    by (auto simp: reseal_tx_def bindE_eq_Inr)
  have d1: "delete_expired None (pg_now w) (pg_work w) = (Inr (), pg_work w1)" "pg_now w1 = pg_now w"
    using on_tx_Inr [OF 1] by (simp_all add: in_tx_def)
  have e: "pg_work w1 = (pg_work w)\<lparr>db_prepared := filter (\<lambda>p. \<not> pr_expires p \<le> pg_now w) (db_prepared (pg_work w))\<rparr>"
    using d1(1) by (simp add: delete_expired_def)
  obtain c1 where c1: "shows_db S (pg_work w1) c1" "forgets (pg_now w) c c1"
    by (rule delete_expired_shows [OF c d1(1)])
  have rows: "ps = filter (\<lambda>p. ev_key_id (pr_envelope p) \<noteq> ?active \<and> pg_now w < pr_expires p)
      (db_prepared (pg_work w1))" "pg_work w2 = pg_work w1"
    using on_tx_Inr [OF 2] d1(2) by (auto simp: select_reseal_def)
  have live: "pg_now w < pr_expires p" if "p \<in> set (db_prepared (pg_work w1))" for p
    using that by (simp add: e)
  have dist: "distinct (map prepared_key (db_prepared (pg_work w1)))"
    using c1(1) by (simp add: shows_db_def batch_rows_def)
  have "distinct (map prepared_key ps)"
    unfolding rows(1) using dist by (rule distinct_map_filter)
  moreover have "set ps \<subseteq> set (db_prepared (pg_work w2))" "shows_db S (pg_work w2) c1"
    using rows c1(1) by auto
  ultimately have R: "shows_db S (pg_work w') c1" "db_secrets (pg_work w') = db_secrets (pg_work w2)"
    "db_versions (pg_work w') = db_versions (pg_work w2)"
    "\<And>p. p \<in> set (db_prepared (pg_work w')) \<Longrightarrow> ev_key_id (pr_envelope p) = ?active \<or>
       p \<in> set (db_prepared (pg_work w2)) \<and> prepared_key p \<notin> prepared_key ` set ps"
    using reseal_loop [OF S _ _ _ 3] by blast+
  have "batches_current S (pg_work w')"
    using R(4) rows live unfolding batches_current_def by force
  moreover have "db_secrets (pg_work w1) = db_secrets (pg_work w)" "db_versions (pg_work w1) = db_versions (pg_work w)"
    by (simp_all add: e)
  ultimately show ?thesis using R(1-3) c1(2) rows(2) by auto
qed

lemma transaction_Inr:
  assumes "transaction body w = (Inr x, w')" "tx_step body" "acked w"
  obtains v v' where "in_tx w v" "pg_work v = pg_db w" "body v = (Inr x, v')" "pg_db w' = pg_work v'"
    "acked w'" "pg_now w' = pg_now w"
  using assms by (rule transaction_cases) auto

lemma rewrap_all_shows:
  assumes w: "pg_shows S w c" and r: "rewrap_all S actor w = (Inr n, w')"
  shows "\<exists>c'. pg_shows S w' c' \<and> cu_vault c' = cu_vault c \<and>
    (\<forall>k. live (pg_now w) c' k = live (pg_now w) c k) \<and> length (cu_audit c') = length (cu_audit c) + n \<and>
    versions_current S (pg_db w') \<and> batches_current S (pg_db w')"
proof -
  have a: "store_ok S" "acked w" "shows_db S (pg_db w) c" using w by (simp_all add: pg_shows_def)
  from r obtain w1 where 1: "transaction (rotate_tx S actor) w = (Inr n, w1)"
    and 2: "transaction (reseal_tx S) w1 = (Inr (), w')"
    by (auto simp: rewrap_all_transactions reseal_batches_transaction bindE_eq_Inr)
  from transaction_Inr [OF 1 tx_step_rotate(1) a(2)] obtain v v' where
    v: "pg_work v = pg_db w" "rotate_tx S actor v = (Inr n, v')" "pg_db w1 = pg_work v'" "acked w1"
    "pg_now w1 = pg_now w" .
  have "shows_db S (pg_work v) c" using a(3) v(1) by simp
  from rotate_tx_shows [OF a(1) this v(2)] v(3) obtain c1 where
    c1: "shows_db S (pg_db w1) c1" "cu_vault c1 = cu_vault c" "cu_batches c1 = cu_batches c"
    "length (cu_audit c1) = length (cu_audit c) + n" "versions_current S (pg_db w1)" by auto
  from transaction_Inr [OF 2 tx_step_rotate(2) v(4)] obtain x x' where
    x: "in_tx w1 x" "pg_work x = pg_db w1" "reseal_tx S x = (Inr (), x')" "pg_db w' = pg_work x'" "acked w'" .
  have "shows_db S (pg_work x) c1" using c1(1) x(2) by simp
  from reseal_tx_shows [OF a(1) this x(3)] x(2,4) obtain c2 where
    c2: "shows_db S (pg_db w') c2" "forgets (pg_now x) c1 c2" "batches_current S (pg_db w')"
    "db_secrets (pg_db w') = db_secrets (pg_db w1)" "db_versions (pg_db w') = db_versions (pg_db w1)" by auto
  have now: "pg_now x = pg_now w" using x(1) v(5) by (simp add: in_tx_def)
  have "live (pg_now w) c2 k = live (pg_now w) c k" for k
    using forgets_live [OF c2(2), of k] c1(3) by (simp add: now live_def)
  moreover have "cu_vault c2 = cu_vault c" "cu_audit c2 = cu_audit c1"
    using c2(2) c1(2) by (simp_all add: forgets_def)
  moreover have "versions_current S (pg_db w')"
    using c1(5) c2(4,5) by (simp add: versions_current_def)
  ultimately show ?thesis
    using a(1) c1(4) c2(1,3) x(5) by (auto simp: pg_shows_def)
qed

end
