(* ===== verification/Postgres_Disclosure.thy ===== *)
theory Postgres_Disclosure
  imports Postgres_Rotation
begin

text \<open>
  A rotation that cannot succeed. \<open>rewrap_all\<close> joins every version of a secret with the disclosure
  the secret has now, but a version is sealed under the disclosure it was put with. After two puts
  under one reference with different disclosures the first version does not open, so each rotation
  to another key is refused as a whole.
\<close>

section \<open>What a put leaves in the tables\<close>

definition version_of :: "postgres \<Rightarrow> db \<Rightarrow> secret_row \<Rightarrow> disclosure \<Rightarrow> bool" where
  "version_of S d s dis \<longleftrightarrow> (\<exists>v \<in> set (db_versions d). \<exists>m. vr_secret v = sr_id s \<and>
     ev_key_id (vr_envelope v) = kr_active (ps_keyring S) \<and>
     sealed (ps_aead S) (ps_keyring S) (associated_data (sr_ref s) (vr_version v) dis) m (vr_envelope v))"

lemma put_tables_rows:
  assumes up: "upsert_secret (put_row p i ver) now d = (Inr u, d1)"
    and iv: "insert_version \<lparr>vr_secret = i, vr_version = ver, vr_envelope = ev\<rparr> now d1 = (Inr u', d2)"
    and i: "case find (\<lambda>s. sr_ref s = pt_reference p) (db_secrets d) of
        Some row \<Rightarrow> i = sr_id row \<and> ver = sr_version row + 1 | None \<Rightarrow> ver = 1"
  shows "\<exists>s \<in> set (db_secrets d2). sr_ref s = pt_reference p \<and> sr_id s = i \<and>
      sr_disclosure s = disclosure_text (pt_disclosure p)"
    and "\<lparr>vr_secret = i, vr_version = ver, vr_envelope = ev\<rparr> \<in> set (db_versions d2)"
    and "set (db_versions d) \<subseteq> set (db_versions d2)"
    and "s \<in> set (db_secrets d) \<Longrightarrow> sr_ref s = pt_reference p \<Longrightarrow>
      \<exists>t \<in> set (db_secrets d2). sr_ref t = sr_ref s \<and> sr_id t = sr_id s \<and>
        sr_disclosure t = disclosure_text (pt_disclosure p)"
proof -
  note u = upsert_Inr [OF up] and d2 = insert_version_Inr [OF iv]
  have v: "db_versions d1 = db_versions d" using u by (auto split: if_splits)
  show "\<lparr>vr_secret = i, vr_version = ver, vr_envelope = ev\<rparr> \<in> set (db_versions d2)"
    "set (db_versions d) \<subseteq> set (db_versions d2)"
    using d2 v by auto
  have s2: "db_secrets d2 = db_secrets d1" using d2 by simp
  have kept: "\<exists>t \<in> set (db_secrets d2). sr_ref t = sr_ref s \<and> sr_id t = sr_id s \<and>
      sr_disclosure t = disclosure_text (pt_disclosure p)"
    if s: "s \<in> set (db_secrets d)" "sr_ref s = pt_reference p" for s
  proof -
    let ?f = "\<lambda>s. s\<lparr>sr_owner := pt_owner p, sr_disclosure := disclosure_text (pt_disclosure p),
      sr_state := ''active'', sr_version := ver, sr_labels := pt_labels p, sr_updated := now\<rparr>"
    have "pt_reference p \<in> sr_ref ` set (db_secrets d)" using s by (metis imageI)
    with u have "db_secrets d1 = map (\<lambda>s. if sr_ref s = pt_reference p then ?f s else s) (db_secrets d)"
      by (simp add: put_row_def)
    with s have "?f s \<in> set (db_secrets d1)" by (force simp: image_iff)
    then show ?thesis unfolding s2 by (rule bexI [rotated]) simp
  qed
  then show "s \<in> set (db_secrets d) \<Longrightarrow> sr_ref s = pt_reference p \<Longrightarrow>
      \<exists>t \<in> set (db_secrets d2). sr_ref t = sr_ref s \<and> sr_id t = sr_id s \<and>
        sr_disclosure t = disclosure_text (pt_disclosure p)" .
  show "\<exists>s \<in> set (db_secrets d2). sr_ref s = pt_reference p \<and> sr_id s = i \<and>
      sr_disclosure s = disclosure_text (pt_disclosure p)"
  proof (cases "find (\<lambda>s. sr_ref s = pt_reference p) (db_secrets d)")
    case None
    then have "pt_reference p \<notin> sr_ref ` set (db_secrets d)" by (simp add: find_ref_None)
    with u show ?thesis unfolding s2 by (simp add: put_row_def)
  next
    case (Some row)
    with i kept [of row] show ?thesis by (auto dest: find_ref_Some)
  qed
qed

lemma put_tx_version:
  assumes v: "vault_rows S (db_secrets (pg_work w)) (db_versions (pg_work w)) V"
    and p: "put_tx S p actor w = (Inr md, w')"
  shows "\<exists>s \<in> set (db_secrets (pg_work w')). sr_ref s = pt_reference p \<and>
      version_of S (pg_work w') s (pt_disclosure p)" (is ?here)
    and "wf_ref (pt_reference p)"
    and "s \<in> set (db_secrets (pg_work w)) \<Longrightarrow> sr_ref s = pt_reference p \<Longrightarrow> version_of S (pg_work w) s dis \<Longrightarrow>
      \<exists>t \<in> set (db_secrets (pg_work w')). sr_ref t = sr_ref s \<and>
        sr_disclosure t = disclosure_text (pt_disclosure p) \<and> version_of S (pg_work w') t dis"
proof -
  let ?r = "pt_reference p"
  from p obtain x w1 i ver w2 ev w3 u4 w4 u5 w5 u6 w6 where
    1: "on_tx (ref_texts ?r) (select_secret ?r) w = (Inr x, w1)" and
    2: "next_version x w1 = (Inr (i, ver), w2)" and
    3: "crypt (encrypt (ps_aead S) (ps_keyring S) ?r ver (pt_disclosure p) (pt_value p)) w2 = (Inr ev, w3)" and
    4: "on_tx (ref_texts ?r @ [pt_owner p] @ label_texts (pt_labels p)) (upsert_secret (put_row p i ver)) w3 = (Inr u4, w4)" and
    5: "on_tx [ev_key_id ev] (insert_version \<lparr>vr_secret = i, vr_version = ver, vr_envelope = ev\<rparr>) w4 = (Inr u5, w5)" and
    6: "audit (rf_tenant ?r) (Some i) actor ''put'' w5 = (Inr u6, w6)" and
    7: "metadata_tx S ?r w6 = (Inr md, w')"
    by (auto simp: put_tx_rows put_rows_def Let_def bindE_eq_Inr)
  have x: "x = find (\<lambda>s. sr_ref s = ?r) (db_secrets (pg_work w))" "pg_work w1 = pg_work w"
    using select_secret_Inr [OF 1] by simp_all
  note n = next_version_Inr [OF 2] and cr = crypt_Inr [OF 3]
  have ev: "sealed (ps_aead S) (ps_keyring S) (associated_data ?r ver (pt_disclosure p)) (pt_value p) ev"
    "ev_key_id ev = kr_active (ps_keyring S)"
    using cr seal_sealed by (auto simp: encrypt_def)
  have up: "upsert_secret (put_row p i ver) (pg_now w3) (pg_work w) = (Inr u4, pg_work w4)"
    using on_tx_Inr [OF 4] cr n x(2) by simp
  have iv: "insert_version \<lparr>vr_secret = i, vr_version = ver, vr_envelope = ev\<rparr> (pg_now w3) (pg_work w4) = (Inr u5, pg_work w5)"
    using on_tx_Inr [OF 5] on_tx_Inr [OF 4] by (simp add: in_tx_def)
  have f: "case find (\<lambda>s. sr_ref s = ?r) (db_secrets (pg_work w)) of
      Some row \<Rightarrow> i = sr_id row \<and> ver = sr_version row + 1 | None \<Rightarrow> ver = 1"
    using n x(1) by simp
  note rows = put_tables_rows [OF up iv f]
  have "vault_rows S (db_secrets (pg_work w6)) (db_versions (pg_work w6)) (V(?r \<mapsto> put_entry p (V ?r)))"
    using put_tables [OF v up iv f ev(1)] audit_Inr [OF 6] by simp
  from metadata_tx_shows [OF this 7] audit_Inr [OF 6]
  have same: "db_secrets (pg_work w') = db_secrets (pg_work w5)" "db_versions (pg_work w') = db_versions (pg_work w5)"
    by simp_all
  show ?here
    using rows(1,2) ev unfolding same version_of_def by force
  show "wf_ref ?r"
    using on_tx_Inr [OF 1] by (simp add: ref_texts_def wf_ref_def)
  show "\<exists>t \<in> set (db_secrets (pg_work w')). sr_ref t = sr_ref s \<and>
      sr_disclosure t = disclosure_text (pt_disclosure p) \<and> version_of S (pg_work w') t dis"
    if "s \<in> set (db_secrets (pg_work w))" "sr_ref s = ?r" "version_of S (pg_work w) s dis"
    using rows(4) [OF that(1,2)] that(3) rows(3) unfolding same version_of_def by force
qed

section \<open>A rotation refused as a whole\<close>

lemma for_each_fails:
  "x \<in> set xs \<Longrightarrow> (\<And>w u w'. f x w \<noteq> (Inr u, w')) \<Longrightarrow> for_each f xs w \<noteq> (Inr u, w')"
  by (induction xs arbitrary: w) (auto simp: bindE_eq_Inr)

lemma sealed_more_keys:
  "sealed A K aad m ev \<Longrightarrow> (\<And>i k. map_of (kr_keys K) i = Some k \<Longrightarrow> map_of (kr_keys K') i = Some k) \<Longrightarrow>
   sealed A K' aad m ev"
  unfolding sealed_def by blast

lemma rewrap_row_refused:
  assumes S: "store_ok S" "aead_binds (ps_aead S)" and s: "wf_ref (sr_ref s)"
    "sr_disclosure s = disclosure_text d" "d \<noteq> dis"
    and v: "sealed (ps_aead S) (ps_keyring S) (associated_data (sr_ref s) (vr_version v) dis) m (vr_envelope v)"
  shows "rewrap_row S actor (s, v) w \<noteq> (Inr u, w')"
proof -
  have "associated_data (sr_ref s) (vr_version v) d \<noteq> associated_data (sr_ref s) (vr_version v) dis"
    using s associated_data_inject [OF s(1) s(1)] by simp
  with S open_elsewhere [OF _ S(2) v] have
    "open_envelope (ps_aead S) (ps_keyring S) (associated_data (sr_ref s) (vr_version v) d) (vr_envelope v) = Inl Failed"
    by (simp add: store_ok_def)
  then show ?thesis
    using s(2) sealed_wf [OF v]
    by (simp add: rewrap_row_def decrypt_def bindE_apply)
qed

lemma rewrap_all_refused:
  assumes S: "store_ok S" "aead_binds (ps_aead S)" and a: "acked w"
    and s: "s \<in> set (db_secrets (pg_db w))" "wf_ref (sr_ref s)" "sr_disclosure s = disclosure_text d" "d \<noteq> dis"
    and v: "v \<in> set (db_versions (pg_db w))" "vr_secret v = sr_id s"
      "ev_key_id (vr_envelope v) \<noteq> kr_active (ps_keyring S)"
      "sealed (ps_aead S) (ps_keyring S) (associated_data (sr_ref s) (vr_version v) dis) m (vr_envelope v)"
  shows "\<exists>e w'. rewrap_all S actor w = (Inl e, w') \<and> pg_db w' = pg_db w"
proof -
  obtain x w1 where t: "transaction (rotate_tx S actor) w = (x, w1)"
    by (cases "transaction (rotate_tx S actor) w")
  have never: "rotate_tx S actor z \<noteq> (Inr n, z')" if z: "pg_work z = pg_db w" for z n z'
  proof
    assume "rotate_tx S actor z = (Inr n, z')"
    then obtain xs z1 u where 1: "on_tx [kr_active (ps_keyring S)] (select_rewrap (kr_active (ps_keyring S))) z = (Inr xs, z1)"
      and 2: "for_each (rewrap_row S actor) xs z1 = (Inr u, z')"
      by (auto simp: rotate_tx_def bindE_eq_Inr)
    have "(s, v) \<in> set xs"
      using select_rewrap_rows(2) [OF conjunct1 [OF on_tx_Inr [OF 1]]] s(1) v z by simp
    with 2 for_each_fails rewrap_row_refused [OF S s(2-4) v(4)] show False by metis
  qed
  from t tx_step_rotate(1) a show ?thesis
  proof (cases rule: transaction_cases)
    case (committed z)
    with never show ?thesis by metis
  next
    case (failed e)
    with t show ?thesis by (simp add: rewrap_all_transactions bindE_apply)
  qed
qed

text \<open>A ring with more keys shows the same contents.\<close>

lemma shows_db_more_keys:
  assumes "ps_aead T = ps_aead S" "ps_json T = ps_json S" and d: "shows_db S d c"
    and k: "\<And>i k. map_of (kr_keys (ps_keyring S)) i = Some k \<Longrightarrow> map_of (kr_keys (ps_keyring T)) i = Some k"
  shows "shows_db T d c"
proof -
  have more: "sealed A (ps_keyring S) aad m ev \<Longrightarrow> sealed A (ps_keyring T) aad m ev" for A aad m ev
    by (erule sealed_more_keys) (rule k)
  have "batch_shows S p b \<Longrightarrow> batch_shows T p b" for p b
    using assms(1,2) more by (simp add: batch_shows_def)
  moreover have "current_sealed S vs s e \<Longrightarrow> current_sealed T vs s e" for vs s e
    unfolding current_sealed_def assms(1) using more by blast
  ultimately have "\<And>V ss vs. vault_rows S ss vs V \<Longrightarrow> vault_rows T ss vs V"
    "\<And>B ps. batch_rows S ps B \<Longrightarrow> batch_rows T ps B"
    unfolding vault_rows_def batch_rows_def by metis+
  with d show ?thesis by (simp add: shows_db_def)
qed

lemma puts_block_rotation:
  assumes w: "pg_shows S w c" and p: "pg_put S p w = (Inr md, w1)" and q: "pg_put S q w1 = (Inr md', w2)"
    and r: "pt_reference q = pt_reference p" "pt_disclosure q \<noteq> pt_disclosure p"
    and T: "store_ok T" "ps_aead T = ps_aead S" "aead_binds (ps_aead S)"
      "kr_active (ps_keyring T) \<noteq> kr_active (ps_keyring S)"
      "\<And>i k. map_of (kr_keys (ps_keyring S)) i = Some k \<Longrightarrow> map_of (kr_keys (ps_keyring T)) i = Some k"
    and w3: "acked w3" "pg_db w3 = pg_db w2"
  shows "\<exists>e w'. rewrap_all T actor w3 = (Inl e, w') \<and> pg_db w' = pg_db w3"
proof -
  have a: "acked w" and c: "shows_db S (pg_db w) c" using w by (simp_all add: pg_shows_def)
  from transaction_Inr [OF p [unfolded pg_put_transaction] tx_step_put a] obtain x x' where
    x: "pg_work x = pg_db w" "put_tx S p (pt_owner p) x = (Inr md, x')" "pg_db w1 = pg_work x'" "acked w1" .
  have rx: "vault_rows S (db_secrets (pg_work x)) (db_versions (pg_work x)) (cu_vault c)"
    using shows_db_rows [OF c] x(1) by simp
  from put_tx_version [OF rx x(2)] obtain s where s: "s \<in> set (db_secrets (pg_db w1))"
    "sr_ref s = pt_reference p" "version_of S (pg_db w1) s (pt_disclosure p)" "wf_ref (pt_reference p)"
    unfolding x(3) by blast
  from transaction_Inr [OF q [unfolded pg_put_transaction] tx_step_put x(4)] obtain y y' where
    y: "pg_work y = pg_db w1" "put_tx S q (pt_owner q) y = (Inr md', y')" "pg_db w2 = pg_work y'" .
  obtain c1 where "pg_shows S w1 c1"
    using pg_put_sim [OF w p] by blast
  then have ry: "vault_rows S (db_secrets (pg_work y)) (db_versions (pg_work y)) (cu_vault c1)"
    using y(1) by (simp add: pg_shows_def shows_db_def)
  from put_tx_version(3) [OF ry y(2)] s r(1) obtain t where t: "t \<in> set (db_secrets (pg_db w3))"
    "sr_ref t = pt_reference p" "sr_disclosure t = disclosure_text (pt_disclosure q)"
    "version_of S (pg_db w3) t (pt_disclosure p)"
    unfolding y(1) w3(2) y(3) by metis
  from t(4) obtain v m where v: "v \<in> set (db_versions (pg_db w3))" "vr_secret v = sr_id t"
    "ev_key_id (vr_envelope v) = kr_active (ps_keyring S)"
    "sealed (ps_aead S) (ps_keyring S) (associated_data (sr_ref t) (vr_version v) (pt_disclosure p)) m (vr_envelope v)"
    unfolding version_of_def by blast
  from sealed_more_keys [OF v(4) T(5)]
  have "sealed (ps_aead T) (ps_keyring T) (associated_data (sr_ref t) (vr_version v) (pt_disclosure p)) m (vr_envelope v)"
    using T(2) by simp
  from rewrap_all_refused [OF T(1) _ w3(1) t(1) _ t(3) r(2) v(1,2) _ this]
  show ?thesis using T(2-4) t(2) s(4) v(3) by simp
qed

section \<open>Properties\<close>

definition example_keyring2 :: keyring where
  "example_keyring2 = \<lparr>kr_active = ''v2'', kr_keys = [(''v1'', replicate 32 7), (''v2'', replicate 32 8)]\<rparr>"

definition example_rotated :: postgres where
  "example_rotated = example_store\<lparr>ps_keyring := example_keyring2\<rparr>"

lemma example_rotated_ok: "store_ok example_rotated"
  using example_store_ok
  by (simp add: store_ok_def example_rotated_def example_store_def wf_keyring_def example_keyring2_def bt_wf_def)

lemmas run_put =
  Let_def pg_put_def put_tx_def begin_tx_def commit_tx_def next_outcome_def bindE_apply validate_ref_def nul_def
  on_tx_def execute_tx_def run_statement_def ref_texts_def no_nul_def select_secret_def now_v7_def crypt_def
  zoomE_apply encrypt_def seal_def entropy_fill_def cipher_encrypt_def label_texts_def upsert_secret_def
  secret_checks_def insert_version_def envelope_checks_def audit_def insert_audit_def metadata_tx_def
  row_to_metadata_def read_disclosure_def read_state_def

lemmas example_defs =
  example_pg_def example_db_def example_put_def example_ref_def example_store_def example_keyring_def
  example_entropy_def open_aead_def

definition example_put2 :: put_secret where
  "example_put2 = example_put\<lparr>pt_disclosure := UserRevealable\<rparr>"

lemma example_put_twice:
  "\<exists>md w1 md' w2. pg_put example_store example_put example_pg = (Inr md, w1) \<and>
     pg_put example_store example_put2 w1 = (Inr md', w2) \<and> pg_outcomes w2 = []"
  by (simp add: example_put2_def example_defs run_put eval_nat_numeral)

lemma example_rotated_keys:
  "ps_aead example_rotated = ps_aead example_store" "ps_json example_rotated = ps_json example_store"
  "map_of (kr_keys (ps_keyring example_store)) i = Some k \<Longrightarrow>
   map_of (kr_keys (ps_keyring example_rotated)) i = Some k"
  by (auto simp: example_rotated_def example_store_def example_keyring_def example_keyring2_def split: if_splits)

lemma unspell_spell [simp]: "unspell a (spell a @ m) = Some m"
  by (simp add: unspell_iff)

lemma example_put_rotated:
  "\<exists>md w1 w2. pg_put example_store example_put example_pg = (Inr md, w1) \<and>
     rewrap_all example_rotated ''operator'' w1 = (Inr 1, w2)"
  by (simp add: example_rotated_def example_keyring2_def example_defs run_put eval_nat_numeral rewrap_all_def
      select_rewrap_def rewrap_row_def read_envelope_def array12_def decrypt_def open_envelope_def
      cipher_decrypt_def update_version_def reseal_batches_def delete_expired_def select_reseal_def)

text \<open>
  C10: a rotation that succeeds changes no entry and no live batch, writes one audit event per
  version it sealed again, and leaves every version of a stored secret and every prepared batch
  under the active key.
\<close>

theorem rotation_reaches_everything:
  assumes "pg_shows S w c" "rewrap_all S actor w = (Inr n, w')"
  shows "\<exists>c'. pg_shows S w' c' \<and> cu_vault c' = cu_vault c \<and>
    (\<forall>k. live (pg_now w) c' k = live (pg_now w) c k) \<and> length (cu_audit c') = length (cu_audit c) + n \<and>
    versions_current S (pg_db w') \<and> batches_current S (pg_db w')"
  by (rule rewrap_all_shows [OF assms])

theorem rotation_reaches_everything_witness:
  "\<exists>w1 n w2. pg_put example_store example_put example_pg = (Inr n, w1) \<and>
     rewrap_all example_rotated ''operator'' w1 = (Inr 1, w2) \<and>
     versions_current example_rotated (pg_db w2) \<and> batches_current example_rotated (pg_db w2)"
proof -
  obtain md w1 w2 where p: "pg_put example_store example_put example_pg = (Inr md, w1)"
    "rewrap_all example_rotated ''operator'' w1 = (Inr 1, w2)"
    using example_put_rotated by blast
  have "pg_shows example_store w1 c \<Longrightarrow> pg_shows example_rotated w1 c" for c
    using shows_db_more_keys [of example_rotated example_store] example_rotated_ok
    by (simp add: pg_shows_def example_rotated_keys)
  with pg_put_sim [OF example_shows p(1)] obtain c where "pg_shows example_rotated w1 c" by blast
  from rotation_reaches_everything [OF this p(2)] p show ?thesis by blast
qed

text \<open>
  C25: the rotation has a state it never gets past. After two puts under one reference with
  different disclosures, a rotation to another key is an error however often it is tried, whatever
  becomes of its calls, and leaves the tables as they were, although the ring still holds the old key.
\<close>

theorem disclosure_change_blocks_rotation:
  assumes "pg_shows S w c" "pg_put S p w = (Inr md, w1)" "pg_put S q w1 = (Inr md', w2)"
    and "pt_reference q = pt_reference p" "pt_disclosure q \<noteq> pt_disclosure p"
    and "store_ok T" "ps_aead T = ps_aead S" "aead_binds (ps_aead S)"
    and "kr_active (ps_keyring T) \<noteq> kr_active (ps_keyring S)"
    and "\<And>i k. map_of (kr_keys (ps_keyring S)) i = Some k \<Longrightarrow> map_of (kr_keys (ps_keyring T)) i = Some k"
    and "acked w3" "pg_db w3 = pg_db w2"
  shows "\<exists>e w'. rewrap_all T actor w3 = (Inl e, w') \<and> pg_db w' = pg_db w3"
  by (rule puts_block_rotation [OF assms])

theorem disclosure_change_blocks_rotation_witness:
  "\<exists>md w1 md' w2 e w'. pg_put example_store example_put example_pg = (Inr md, w1) \<and>
     pg_put example_store example_put2 w1 = (Inr md', w2) \<and>
     rewrap_all example_rotated ''operator'' w2 = (Inl e, w')"
proof -
  obtain md w1 md' w2 where p: "pg_put example_store example_put example_pg = (Inr md, w1)"
    "pg_put example_store example_put2 w1 = (Inr md', w2)" "pg_outcomes w2 = []"
    using example_put_twice by blast
  have r: "pt_reference example_put2 = pt_reference example_put"
    "pt_disclosure example_put2 \<noteq> pt_disclosure example_put"
    by (simp_all add: example_put2_def example_put_def)
  have T: "ps_aead example_rotated = ps_aead example_store" "aead_binds (ps_aead example_store)"
    "kr_active (ps_keyring example_rotated) \<noteq> kr_active (ps_keyring example_store)"
    "\<And>i k. map_of (kr_keys (ps_keyring example_store)) i = Some k \<Longrightarrow>
       map_of (kr_keys (ps_keyring example_rotated)) i = Some k"
    using example_rotated_keys
    by (simp_all add: example_rotated_def example_store_def example_keyring_def example_keyring2_def open_aead_laws)
  have "acked w2" using p(3) by (simp add: acked_def)
  from disclosure_change_blocks_rotation [OF example_shows p(1,2) r example_rotated_ok T this refl] p
  show ?thesis by blast
qed

end
