(* ===== verification/Example_Revocation.thy ===== *)
theory Example_Revocation
  imports Postgres_Disclosure
begin

text \<open>
  A database with a revoked entry, for the witnesses: a put and a revocation on the empty tables.
\<close>

definition example_remote_ref :: secret_ref where
  "example_remote_ref = \<lparr>rf_tenant = ''t'', rf_namespace = ''n'', rf_key = ''u/k''\<rparr>"

definition example_remote_put :: put_secret where
  "example_remote_put = example_put\<lparr>pt_reference := example_remote_ref\<rparr>"

lemma example_revoked:
  "\<exists>md w1 md' w2. pg_put example_store example_remote_put example_pg = (Inr md, w1) \<and>
     pg_revoke example_store example_remote_ref ''user:one'' w1 = (Inr md', w2)"
  by (simp add: example_remote_put_def example_remote_ref_def example_defs run_put eval_nat_numeral)
    (simp add: example_defs run_put eval_nat_numeral pg_revoke_def revoke_secret_def)

lemma example_revoked_shows:
  "\<exists>w2 c e. pg_shows example_store w2 c \<and> cu_vault c example_remote_ref = Some e \<and>
     en_state e = Revoked \<and> 0 < en_version e"
proof -
  obtain md w1 md' w2 where p: "pg_put example_store example_remote_put example_pg = (Inr md, w1)"
    "pg_revoke example_store example_remote_ref ''user:one'' w1 = (Inr md', w2)"
    using example_revoked by blast
  have put: "cs_put (postgres_store example_store) example_remote_put example_pg = (Inr md, w1)"
    using p(1) by (simp add: postgres_store_def)
  obtain c1 where c1: "pg_shows example_store w1 c1"
    "cu_vault c1 example_remote_ref = Some (put_entry example_remote_put None)"
  proof -
    obtain c1 where "pg_shows example_store w1 c1" "cu_vault c1 = (cu_vault empty_custody)(pt_reference example_remote_put \<mapsto>
        put_entry example_remote_put (cu_vault empty_custody (pt_reference example_remote_put)))"
      using pg.put_outcome [OF example_shows put] by metis
    with that show thesis by (simp add: example_remote_put_def empty_custody_def)
  qed
  have "perform_custody (postgres_store example_store) (RevokeReq example_remote_ref ''user:one'') w1 =
      (MetadataAns (Inr md'), w2)"
    using p(2) by (simp add: postgres_store_def)
  from pg.simulates [OF c1(1) _ this] obtain d c2 where
    d: "custody_core (pg_now w1) c1 (RevokeReq example_remote_ref ''user:one'') (MetadataAns (Inr md')) d"
      "forgets (pg_now w1) d c2" "pg_shows example_store w2 c2"
    by (auto simp: custody_spec_def wf_custody_request_def)
  from d(1) show ?thesis
    by (rule core_revokeE) (use c1(2) d(2,3) forgets_vault [OF d(2)] in
      \<open>auto simp: revoke_in_def audited_def put_entry_def intro!: exI [of _ w2] exI [of _ c2]\<close>)
qed

end
