(* ===== verification/Deployment_Properties.thy ===== *)
theory Deployment_Properties
  imports Deployment User_Safety Example_Revocation
begin

text \<open>
  The properties of the custody side as the process composes it: for a service that \<open>serve\<close> of the
  process answers, over the parameters with their documented behaviour, and a client whose requests
  are lost before they are served, or served.
\<close>

section \<open>What is assumed of the network\<close>

definition client_reaches :: "('s \<times> 'n) client \<Rightarrow> ('s \<times> 'n) service \<Rightarrow> bool" where
  "client_reaches C V \<longleftrightarrow>
     (\<forall>path url rq w. ct_join C path = Some url \<longrightarrow> hq_path rq = url \<longrightarrow>
        fst (ct_http C rq w) = Inl () \<and> fst (snd (ct_http C rq w)) = fst w \<or>
        (\<exists>w1. fst w1 = fst w \<and>
           ct_http C rq w = apfst Inr (serve V (rq\<lparr>hq_path := CHR ''/'' # path\<rparr>) w1)))"

definition draws_apart :: "('s \<times> 'n, storage_error, uuid) io \<Rightarrow> bool" where
  "draws_apart draw \<longleftrightarrow>
     (\<forall>w. fst (snd (draw w)) = fst w \<and> (\<forall>e. fst (draw w) = Inl e \<longrightarrow> e = Unavailable))"

lemma app_custody_service:
  assumes "app_serve A args = Inr V" "framework_ok (ma_framework A) u" "codec_ok (ma_codec A)"
  obtains S where "app_connect A (sa_database args) = Inr S"
    "custody_service (store_in_db (postgres_store S)) (\<lambda>w. pg_shows S (fst w)) (\<lambda>w. pg_now (fst w)) V u"
proof -
  obtain S where S: "app_connect A (sa_database args) = Inr S" "sv_store V = store_in_db (postgres_store S)"
    "sv_framework V = ma_framework A" "sv_codec V = ma_codec A"
    "\<And>t w. fst (snd (ap_user (sv_state V) t w)) = fst w" "\<And>t w. fst (snd (ap_workload (sv_state V) t w)) = fst w"
    using app_serve_Inr [OF assms(1)] by blast
  have q: "pg_shows S (fst w') c" if "f t w = (x, w')" "pg_shows S (fst w) c" "\<And>t w. fst (snd (f t w)) = fst w"
    for f :: "string \<Rightarrow> pg \<times> 'a \<Rightarrow> (auth_error + principal) \<times> (pg \<times> 'a)" and t w x w' c
    using that(1,2) that(3) [of t w] by simp
  have "custody_service (store_in_db (postgres_store S)) (\<lambda>w. pg_shows S (fst w)) (\<lambda>w. pg_now (fst w)) V u"
  proof (intro custody_service.intro custody_service_axioms.intro sd.custody_contract_axioms)
    fix t w x w' c assume "ap_workload (sv_state V) t w = (x, w')" "pg_shows S (fst w) c"
    then show "pg_shows S (fst w') c" using S(6) by (rule q)
  next
    fix t w x w' c assume "ap_user (sv_state V) t w = (x, w')" "pg_shows S (fst w) c"
    then show "pg_shows S (fst w') c" using S(5) by (rule q)
  qed (use S assms(2,3) in simp_all)
  with S(1) that show thesis by blast
qed

lemma app_remote_service:
  assumes "app_serve A args = Inr V" "framework_ok (ma_framework A) (ct_uuid C)" "codec_ok (ma_codec A)"
    and "ct_codec C = sv_codec V" "client_reaches C V" "rm_client R = C" "draws_apart (rm_now_v7 R)"
  obtains S where "app_connect A (sa_database args) = Inr S"
    "remote_service (store_in_db (postgres_store S)) (\<lambda>w. pg_shows S (fst w)) (\<lambda>w. pg_now (fst w)) V (ct_uuid C) C R"
proof -
  obtain S where S: "app_connect A (sa_database args) = Inr S"
    "custody_service (store_in_db (postgres_store S)) (\<lambda>w. pg_shows S (fst w)) (\<lambda>w. pg_now (fst w)) V (ct_uuid C)"
    using app_custody_service [OF assms(1-3)] by blast
  have "(x = Inl () \<and> pg_shows S (fst w') c) \<or>
      (\<exists>w1 a. x = Inr a \<and> pg_shows S (fst w1) c \<and> serve V (rq\<lparr>hq_path := CHR ''/'' # path\<rparr>) w1 = (a, w'))"
    if h: "ct_join C path = Some url" "hq_path rq = url" "ct_http C rq w = (x, w')" "pg_shows S (fst w) c"
    for path url rq w x w' c
  proof -
    from assms(5) h(1,2) consider "fst (ct_http C rq w) = Inl () \<and> fst (snd (ct_http C rq w)) = fst w"
      | w1 where "fst w1 = fst w" "ct_http C rq w = apfst Inr (serve V (rq\<lparr>hq_path := CHR ''/'' # path\<rparr>) w1)"
      unfolding client_reaches_def by metis
    then show ?thesis
    proof cases
      case (2 w1)
      then show ?thesis using h(3,4)
        by (cases "serve V (rq\<lparr>hq_path := CHR ''/'' # path\<rparr>) w1") (auto intro!: exI [of _ w1] simp del: split_paired_Ex)
    qed (use h(3,4) in simp)
  qed
  then have c: "custody_client (store_in_db (postgres_store S)) (\<lambda>w. pg_shows S (fst w)) (\<lambda>w. pg_now (fst w)) V (ct_uuid C) C"
    using assms(4) by (intro custody_client.intro S(2) custody_client_axioms.intro) auto
  have "pg_shows S (fst w') c \<and> (\<forall>e. x = Inl e \<longrightarrow> e = Unavailable)"
    if "rm_now_v7 R w = (x, w')" "pg_shows S (fst w) c" for w x w' c
    using assms(7) that unfolding draws_apart_def by (metis fst_conv snd_conv)
  then have "remote_service (store_in_db (postgres_store S)) (\<lambda>w. pg_shows S (fst w)) (\<lambda>w. pg_now (fst w)) V (ct_uuid C) C R"
    using assms(6) by (intro remote_service.intro c remote_service_axioms.intro) auto
  with S(1) that show thesis by blast
qed

section \<open>A process to evaluate\<close>

definition example_machine :: "unit machine" where
  "example_machine =
     \<lparr>ma_file = (\<lambda>_. Some []),
      ma_unjson_keyring = (\<lambda>_. Some \<lparr>kf_active = ''v1'', kf_keys = [(''v1'', ''seven'')]\<rparr>),
      ma_unbase64 = (\<lambda>_. Some (replicate 32 7)), ma_pool = (\<lambda>_. Some ()), ma_migrate = (\<lambda>_. Some ()),
      ma_aead = ps_aead example_store, ma_json = ps_json example_store, ma_unjson = ps_unjson example_store,
      ma_time_text = ps_time_text example_store,
      ma_http = Some (\<lambda>rq n. (Inr \<lparr>hr_status = 200, hr_body = []\<rparr>, n)),
      ma_parse_verify = (\<lambda>_. Some \<lparr>vf_sub = ''user:one'', vf_aud = ''secrets'', vf_tenant = ''t'',
        vf_scope = ''secret:list secret:revoke''\<rparr>),
      ma_cluster = \<lparr>cl_host = Some ''kubernetes'', cl_port = None, cl_ca = Some [], cl_certificate = Some,
        cl_grants = None, cl_parse_grants = (\<lambda>_. Some [\<lparr>wg_subject = ''agent'', wg_tenant = ''t'', wg_actions = {''*''}\<rparr>]),
        cl_build = (\<lambda>_. Some (\<lambda>rq n. (Inr \<lparr>hr_status = 201, hr_body = []\<rparr>, n)))\<rparr>,
      ma_encode_review = (\<lambda>_. []),
      ma_parse_review = (\<lambda>_. Some (Some \<lparr>ts_authenticated = Some True, ts_user = Some ''agent'', ts_audiences = [''secrets'']\<rparr>)),
      ma_reviewer = (\<lambda>n. (Inr ''own token'', n)), ma_framework = example_framework, ma_codec = example_codec,
      ma_listen = (\<lambda>_. Some ())\<rparr>"

definition example_args :: serve_args where
  "example_args =
     \<lparr>sa_database = \<lparr>da_url = ''postgres:'', da_keyring_file = ''keys''\<rparr>, sa_bind = ''0.0.0.0:8080'',
      sa_identity_origin = ''https://identity/'', sa_identity_audience = ''secrets'',
      sa_workload_audience = ''secrets'', sa_workload_grants_file = ''grants''\<rparr>"

lemma example_connect: "app_connect example_machine (sa_database example_args) = Inr example_store"
  by (simp add: app_connect_def postgres_connect_def keyring_from_file_def keyring_from_json_def example_machine_def
      example_args_def example_store_def example_keyring_def bt_contains_def)

lemma example_serves: "\<exists>V. app_serve example_machine example_args = Inr V"
  unfolding app_serve_def example_connect
  by (simp add: example_machine_def example_args_def identity_new_def in_cluster_def Let_def)

section \<open>Properties\<close>

text \<open>
  C4: the custody service as a storage backend. Let a process serve over PostgreSQL and a client
  reach it, with nothing revoked in it. Then each request of the storage port at well-formed names
  does to the named values what the abstract storage allows, or is refused as unavailable, denied,
  too large, or (a rename whose batch is over) missing, and changes no value.
\<close>

theorem remote_keeps_values:
  assumes "app_serve A args = Inr V" "framework_ok (ma_framework A) (ct_uuid C)" "codec_ok (ma_codec A)"
    and "ct_codec C = sv_codec V" "client_reaches C V" "rm_client R = C" "draws_apart (rm_now_v7 R)"
    and "app_connect A (sa_database args) = Inr S" "pg_shows S (fst w) c" "tidy c" "wf_remote_request q"
    and "perform (remote_storage R) q w = (r, w')"
  shows "\<exists>c'. pg_shows S (fst w') c' \<and> tidy c' \<and> remote_step (remote_view c) q r (remote_view c')"
proof -
  obtain S' where S: "app_connect A (sa_database args) = Inr S'"
    "remote_service (store_in_db (postgres_store S')) (\<lambda>w. pg_shows S' (fst w)) (\<lambda>w. pg_now (fst w)) V (ct_uuid C) C R"
    using app_remote_service [OF assms(1-7)] by blast
  have "S' = S" using S(1) assms(8) by simp
  with remote_service.remote_simulates [OF S(2), of w c q r w'] assms(9-12) show ?thesis by simp
qed

definition example_address :: address where
  "example_address =
     \<lparr>ad_scope = \<lparr>sc_tenant = ScopeName ''t'', sc_namespace = ScopeName ''n'', sc_user = ScopeName ''u''\<rparr>,
      ad_name = SecretName ''team/openai''\<rparr>"

lemma example_address_wf: "wf_address example_address"
proof -
  have "scope_name_parse ''t'' = Inr (ScopeName ''t'')" "scope_name_parse ''n'' = Inr (ScopeName ''n'')"
    "scope_name_parse ''u'' = Inr (ScopeName ''u'')" by code_simp+
  moreover have "secret_name_parse ''team/openai'' = Inr (SecretName ''team/openai'')" by code_simp
  ultimately show ?thesis
    by (simp add: wf_address_def wf_scope_def example_address_def wf_scope_name_def wf_secret_name_def
        secret_name_parse_ok scope_name_parse_ok)
qed

text \<open>The client of the example reaches the process; every request arrives.\<close>

definition example_remote :: "(pg \<times> unit) service \<Rightarrow> (pg \<times> unit) remote" where
  "example_remote V =
     remote_over (in_net (\<lambda>n. (Inr 7, n))) (network_to (\<lambda>_ n. (True, n)) ''token'' V)"

lemma example_reaches: "client_reaches (network_to (\<lambda>_ n. (True, n)) ''token'' V) V"
  by (auto simp: client_reaches_def network_to_def network_client_def)

theorem remote_keeps_values_witness:
  "\<exists>V c'. app_serve example_machine example_args = Inr V \<and>
     pg_shows example_store (fst (snd (perform (remote_storage (example_remote V))
       (WriteReq example_address (SecretValue [1])) (example_pg, ())))) c' \<and> tidy c' \<and>
     remote_step (remote_view empty_custody) (WriteReq example_address (SecretValue [1]))
       (fst (perform (remote_storage (example_remote V)) (WriteReq example_address (SecretValue [1])) (example_pg, ())))
       (remote_view c')"
proof -
  obtain V where V: "app_serve example_machine example_args = Inr V" using example_serves by blast
  let ?C = "network_to (\<lambda>_ n. (True, n)) ''token'' V"
  have "framework_ok (ma_framework example_machine) (ct_uuid ?C)" "codec_ok (ma_codec example_machine)"
    by (simp_all add: example_machine_def network_to_def example_framework_ok example_codec_ok)
  moreover have "ct_codec ?C = sv_codec V" "rm_client (example_remote V) = ?C" "draws_apart (rm_now_v7 (example_remote V))"
    by (simp_all add: network_to_def example_remote_def remote_over_def draws_apart_def in_net_apply)
  moreover have "pg_shows example_store (fst (example_pg, ())) empty_custody" using example_shows by simp
  moreover have "tidy empty_custody" by (simp add: tidy_def empty_custody_def)
  moreover have "wf_remote_request (WriteReq example_address (SecretValue [1]))"
    by (simp add: wf_remote_request_def example_address_wf)
  ultimately show ?thesis
    using remote_keeps_values [OF V _ _ _ example_reaches _ _ example_connect _ _ _ surjective_pairing] V by blast
qed

text \<open>
  A custody reference holds an address of a scope exactly when it is the reference of that
  address: mapping an address to its reference and back is the identity, and two well-formed
  addresses with one reference are equal.
\<close>

theorem remote_reference_roundtrip:
  assumes "wf_scope s"
  shows "(remote_address s r = Some a \<longleftrightarrow> wf_address a \<and> ad_scope a = s \<and> r = remote_reference a) \<and>
    (wf_address a \<and> wf_address b \<and> remote_reference a = remote_reference b \<longrightarrow> a = b)"
  using remote_address_Some [OF _ assms] remote_address_of_reference remote_reference_inject by blast

theorem remote_reference_roundtrip_witness:
  "remote_address (ad_scope example_address) \<lparr>rf_tenant = ''t'', rf_namespace = ''n'', rf_key = ''u/team/openai''\<rparr> =
     Some example_address"
proof -
  have "wf_scope (ad_scope example_address)" using example_address_wf by (simp add: wf_address_def)
  from remote_reference_roundtrip [OF this] show ?thesis
    using example_address_wf by (simp add: remote_reference_def example_address_def)
qed

text \<open>
  C8: users change nothing but what they own. Whatever a request to a user route is answered, an
  entry it changed belongs, by tenant and owner, to the principal the identity service named for the
  token of the request, and was revoked or deleted with the action for it.
\<close>

theorem users_change_only_their_own:
  assumes "app_serve A args = Inr V" "framework_ok (ma_framework A) u" "codec_ok (ma_codec A)"
    and "app_connect A (sa_database args) = Inr S" "pg_shows S (fst w) c"
    and "dispatch (sv_framework V) rq = Inr (e, ps)" "e \<in> {EUserList, EUserDetail, EUserRevoke, EUserDelete}"
    and "serve V rq w = (a, w')"
  shows "\<exists>c'. pg_shows S (fst w') c' \<and>
    (\<forall>r. cu_vault c' r \<noteq> cu_vault c r \<longrightarrow>
      (\<exists>t p w1 en. bearer_token (sv_framework V) rq = Some t \<and> ap_user (sv_state V) t w = (Inr p, w1) \<and>
        cu_vault c r = Some en \<and> rf_tenant r = pr_of_tenant p \<and> en_owner en = pr_subject p \<and>
        (permits p ''secret:revoke'' \<and> cu_vault c' r = Some (en\<lparr>en_state := Revoked\<rparr>) \<or>
         permits p ''secret:delete'' \<and> cu_vault c' r = None)))"
proof -
  obtain S' where S: "app_connect A (sa_database args) = Inr S'"
    "custody_service (store_in_db (postgres_store S')) (\<lambda>w. pg_shows S' (fst w)) (\<lambda>w. pg_now (fst w)) V u"
    using app_custody_service [OF assms(1-3)] by blast
  have "S' = S" using S(1) assms(4) by simp
  have "user_endpoint e" using assms(7) by (simp add: user_endpoint_def)
  from custody_service.user_request_by_user [OF S(2), of w c rq a w' e ps, OF _ assms(8,6) this] assms(5) \<open>S' = S\<close>
  have "custody_service.by_user (\<lambda>w. pg_shows S (fst w)) V rq w w' c" by simp
  then show ?thesis
    unfolding custody_service.by_user_def [OF S(2) [unfolded \<open>S' = S\<close>]] only_own_changes_def own_change_def
    by (elim exE conjE disjE) (intro exI conjI, assumption, simp, intro exI conjI, assumption, blast)
qed

definition example_revocation :: http_request where
  "example_revocation =
     \<lparr>hq_method = MPost, hq_path = ''/v1/user/secrets:revoke'',
      hq_headers = [(''content-type'', ''application/json''), (''authorization'', ''Bearer token'')],
      hq_body = jc_ref example_codec example_ref\<rparr>"

lemma example_revocation_routed: "dispatch example_framework example_revocation = Inr (EUserRevoke, [])"
  by (simp add: dispatch_segments [OF example_framework_ok] route_segments_eval example_revocation_def
      path_char_def is_ascii_lowercase_def is_ascii_digit_def method_serves_def)

theorem users_change_only_their_own_witness:
  "\<exists>V c'. app_serve example_machine example_args = Inr V \<and>
     pg_shows example_store (fst (snd (serve V example_revocation (example_pg, ())))) c' \<and> cu_vault c' = Map.empty"
proof -
  obtain V where V: "app_serve example_machine example_args = Inr V" using example_serves by blast
  obtain S where "sv_framework V = ma_framework example_machine" using app_serve_Inr [OF V] by blast
  then have f: "sv_framework V = example_framework" by (simp add: example_machine_def)
  have laws: "framework_ok (ma_framework example_machine) uuid_text" "codec_ok (ma_codec example_machine)"
    by (simp_all add: example_machine_def example_framework_ok example_codec_ok)
  have "pg_shows example_store (fst (example_pg, ())) empty_custody" using example_shows by simp
  from users_change_only_their_own [OF V laws example_connect this example_revocation_routed [folded f] _ surjective_pairing]
  obtain c' where c': "pg_shows example_store (fst (snd (serve V example_revocation (example_pg, ())))) c'"
    "\<forall>r. cu_vault c' r \<noteq> cu_vault empty_custody r \<longrightarrow> (\<exists>en. cu_vault empty_custody r = Some en)"
    by blast
  then have "cu_vault c' = Map.empty" by (auto simp: empty_custody_def)
  with V c' show ?thesis by blast
qed

section \<open>The bound on values\<close>

text \<open>
  The documented size of the JSON: its fixed text, the names as they are, and the value in base64,
  four characters for each three bytes begun.
\<close>

definition reference_size :: "secret_ref \<Rightarrow> nat" where
  "reference_size r = length (rf_tenant r) + length (rf_namespace r) + length (rf_key r)"

definition plain_reference :: "secret_ref \<Rightarrow> bool" where
  "plain_reference r \<longleftrightarrow> list_all path_char (rf_tenant r) \<and> list_all path_char (rf_namespace r) \<and> list_all path_char (rf_key r)"

definition rename_request :: "string \<Rightarrow> secret_ref \<Rightarrow> bytes \<Rightarrow> secret_ref \<Rightarrow> prepare_request" where
  "rename_request owner dest v source =
     \<lparr>pq_actor = owner, pq_mutations = [Put (remote_put dest owner v WorkloadOnly []), Delete source]\<rparr>"

definition json_sizes :: "(prepare_request \<Rightarrow> bytes option) \<Rightarrow> bool" where
  "json_sizes to_vec \<longleftrightarrow>
     (\<exists>k \<le> 1024. \<forall>owner dest v source. list_all path_char owner \<and> plain_reference dest \<and> plain_reference source \<longrightarrow>
        map_option length (to_vec (rename_request owner dest v source)) =
          Some (k + 2 * length owner + reference_size dest + reference_size source + 4 * ((length v + 2) div 3)))"

lemma wf_address_plain:
  assumes "wf_address a"
  shows "plain_reference (remote_reference a)" "reference_size (remote_reference a) \<le> 321"
    "list_all path_char (remote_owner a)" "length (remote_owner a) \<le> 64"
proof -
  have n: "list_all path_char (scope_str x) \<and> length (scope_str x) \<le> 64" if "wf_scope_name x" for x
    using plain_scope_name [OF that] that
    by (auto simp: plain_segment_def list_all_iff wf_scope_name_def segment_grammar_def)
  have "path_char x" if "x \<in> set (name_str (ad_name a))" for x
  proof -
    from assms obtain segs where s: "\<forall>p \<in> set segs. segment_grammar p" "name_str (ad_name a) = join CHR ''/'' segs"
      by (auto simp: wf_address_def wf_secret_name_def secret_name_grammar_def)
    have "x = CHR ''/'' \<or> (\<exists>p \<in> set segs. x \<in> set p)"
      using that unfolding s(2)
    proof (induction segs)
      case (Cons p ps)
      then show ?case by (cases ps) auto
    qed simp
    with s(1) show ?thesis
      using segment_grammar_chars by (auto simp: path_char_def name_char_iff is_punctuation_def)
  qed
  moreover have "length (name_str (ad_name a)) \<le> 128"
    using assms by (auto simp: wf_address_def wf_secret_name_def secret_name_grammar_def)
  moreover have "wf_scope_name (sc_tenant (ad_scope a))" "wf_scope_name (sc_namespace (ad_scope a))"
    "wf_scope_name (sc_user (ad_scope a))"
    using assms by (simp_all add: wf_address_def wf_scope_def)
  ultimately show "plain_reference (remote_reference a)" "reference_size (remote_reference a) \<le> 321"
    "list_all path_char (remote_owner a)" "length (remote_owner a) \<le> 64"
    using n [of "sc_tenant (ad_scope a)"] n [of "sc_namespace (ad_scope a)"] n [of "sc_user (ad_scope a)"]
    by (auto simp: plain_reference_def reference_size_def remote_reference_def remote_owner_def list_all_iff path_char_def)
qed

text \<open>
  C28: the bound on values. Whatever the fixed text of the JSON, the bound is between 700 KiB and the
  body limit, and any value within it that this backend wrote can be renamed: the batch fits the limit
  of the service, at every pair of names. At the widest names one byte more does not fit.
\<close>

theorem value_bound_fits_renames:
  assumes "json_sizes to_vec" "wf_address a" "wf_secret_name n" "length v \<le> remote_max_value_bytes to_vec"
  shows "700 * 1024 < remote_max_value_bytes to_vec \<and> remote_max_value_bytes to_vec < service_body_limit \<and>
    (\<exists>body. to_vec (rename_request (remote_owner a) (remote_reference (renamed a n)) v (remote_reference a)) = Some body \<and>
       length body \<le> service_body_limit) \<and>
    (\<exists>owner r. \<forall>x. length x = remote_max_value_bytes to_vec + 1 \<longrightarrow>
       (\<exists>body. to_vec (rename_request owner r x r) = Some body \<and> service_body_limit < length body))"
proof -
  obtain k where k: "k \<le> 1024" and size: "\<And>owner dest v source. list_all path_char owner \<Longrightarrow> plain_reference dest \<Longrightarrow>
      plain_reference source \<Longrightarrow> map_option length (to_vec (rename_request owner dest v source)) =
        Some (k + 2 * length owner + reference_size dest + reference_size source + 4 * ((length v + 2) div 3))"
    using assms(1) by (auto simp: json_sizes_def)
  define seg where "seg = replicate 64 CHR ''a''"
  define widest where "widest = \<lparr>rf_tenant = seg, rf_namespace = seg, rf_key = seg @ CHR ''/'' # replicate 128 CHR ''a''\<rparr>"
  have seg: "length seg = 64" "list_all path_char seg"
    by (simp_all add: seg_def list_all_iff path_char_def is_ascii_lowercase_def)
  have w: "plain_reference widest" "reference_size widest = 321"
    using seg by (simp_all add: widest_def plain_reference_def reference_size_def list_all_iff path_char_def is_ascii_lowercase_def)
  have e: "envelope_bytes to_vec = k + 770"
    using size [OF seg(2) w(1) w(1), of "[]"] seg(1) w(2)
    by (auto simp: envelope_bytes_def rename_request_def widest_def seg_def bounds Let_def)
  have m: "remote_max_value_bytes to_vec = (1048576 - (k + 770)) div 4 * 3"
    by (simp add: remote_max_value_bytes_def e service_body_limit_def)
  have d: "wf_address (renamed a n)" using assms(2,3) by (simp add: wf_address_def)
  note p = wf_address_plain [OF assms(2)] wf_address_plain [OF d]
  have base64: "4 * ((l + 2) div 3) \<le> room" if "l \<le> room div 4 * 3" for l room :: nat
  proof -
    have "(l + 2) div 3 \<le> (room div 4 * 3 + 2) div 3" using that by (intro div_le_mono) simp
    moreover have "(room div 4 * 3 + 2) div 3 = room div 4" by simp
    ultimately have "4 * ((l + 2) div 3) \<le> 4 * (room div 4)" by simp
    also have "\<dots> \<le> room" by simp
    finally show ?thesis .
  qed
  have "4 * ((length v + 2) div 3) \<le> 1048576 - (k + 770)" using assms(4) m base64 by simp
  moreover have "\<exists>body. to_vec (rename_request (remote_owner a) (remote_reference (renamed a n)) v (remote_reference a)) = Some body \<and>
      length body = k + 2 * length (remote_owner a) + reference_size (remote_reference (renamed a n)) +
        reference_size (remote_reference a) + 4 * ((length v + 2) div 3)"
    using size [OF p(3,5,1), of v] by auto
  ultimately have fits: "\<exists>body. to_vec (rename_request (remote_owner a) (remote_reference (renamed a n)) v (remote_reference a)) = Some body \<and>
      length body \<le> service_body_limit"
    using p(2,4,6) k by (auto simp: service_body_limit_def)
  have "\<exists>body. to_vec (rename_request seg widest x widest) = Some body \<and> service_body_limit < length body"
    if "length x = remote_max_value_bytes to_vec + 1" for x
  proof -
    have "room < 4 * ((room div 4 * 3 + 1 + 2) div 3)" for room :: nat
    proof -
      have "(room div 4 * 3 + 1 + 2) div 3 = room div 4 + 1" by simp
      moreover have "room < 4 * (room div 4 + 1)" by presburger
      ultimately show ?thesis by simp
    qed
    from this [of "1048576 - (k + 770)"] that m have "1048576 < k + 770 + 4 * ((length x + 2) div 3)" by simp
    with size [OF seg(2) w(1) w(1), of x] seg(1) w(2) show ?thesis by (auto simp: service_body_limit_def)
  qed
  moreover have "700 * 1024 < remote_max_value_bytes to_vec" "remote_max_value_bytes to_vec < service_body_limit"
    using m k by (simp_all add: service_body_limit_def)
  ultimately show ?thesis using fits by blast
qed

text \<open>A text of the documented size.\<close>

definition sized_text :: "prepare_request \<Rightarrow> bytes option" where
  "sized_text q =
     (case pq_mutations q of
        [Put p, Delete r] \<Rightarrow> Some (replicate (300 + length (pq_actor q) + length (pt_owner p) +
          reference_size (pt_reference p) + reference_size r + 4 * ((length (pt_value p) + 2) div 3)) 0)
      | _ \<Rightarrow> None)"

theorem value_bound_fits_renames_witness:
  "remote_max_value_bytes sized_text = 785628 \<and>
   (\<exists>body. sized_text (rename_request (remote_owner example_address)
      (remote_reference (renamed example_address (ad_name example_address))) [1] (remote_reference example_address)) = Some body \<and>
      length body \<le> service_body_limit)"
proof -
  have j: "json_sizes sized_text"
    unfolding json_sizes_def by (intro exI [of _ 300]) (simp add: sized_text_def rename_request_def remote_put_def)
  have m: "remote_max_value_bytes sized_text = 785628"
    by (simp add: remote_max_value_bytes_def envelope_bytes_def sized_text_def remote_put_def reference_size_def
        service_body_limit_def bounds Let_def)
  have "wf_secret_name (ad_name example_address)" using example_address_wf by (simp add: wf_address_def)
  moreover have "length [1 :: byte] \<le> remote_max_value_bytes sized_text" by (simp add: m)
  ultimately show ?thesis
    using value_bound_fits_renames [OF j example_address_wf] m by blast
qed

section \<open>Revocation\<close>

text \<open>
  C29: a revoked record is neither there nor gone for the storage port: reading its address never
  answers a value, yet writing to it never answers that a secret was created.
\<close>

theorem revoked_is_replaced_unread:
  assumes "app_serve A args = Inr V" "framework_ok (ma_framework A) (ct_uuid C)" "codec_ok (ma_codec A)"
    and "ct_codec C = sv_codec V" "client_reaches C V" "rm_client R = C" "draws_apart (rm_now_v7 R)"
    and "app_connect A (sa_database args) = Inr S" "pg_shows S (fst w) c" "wf_address a"
    and "cu_vault c (remote_reference a) = Some e" "en_state e = Revoked" "0 < en_version e"
  shows "fst (remote_read R (unbound a) w) \<noteq> Inr x \<and> fst (remote_write R (unbound a) v w) \<noteq> Inr (Created ver)"
proof -
  obtain S' where S: "app_connect A (sa_database args) = Inr S'"
    "remote_service (store_in_db (postgres_store S')) (\<lambda>w. pg_shows S' (fst w)) (\<lambda>w. pg_now (fst w)) V (ct_uuid C) C R"
    using app_remote_service [OF assms(1-7)] by blast
  have "S' = S" using S(1) assms(8) by simp
  with remote_service.revoked_read [OF S(2)] remote_service.revoked_write [OF S(2)] assms(9-13) show ?thesis by simp
qed

definition example_short :: address where
  "example_short = renamed example_address (SecretName ''k'')"

lemma example_short_wf: "wf_address example_short"
proof -
  have "secret_name_parse ''k'' = Inr (SecretName ''k'')" by code_simp
  then show ?thesis
    using example_address_wf by (simp add: wf_address_def example_short_def wf_secret_name_def secret_name_parse_ok)
qed

lemma example_short_reference: "remote_reference example_short = example_remote_ref"
  by (simp add: example_short_def example_address_def remote_reference_def example_remote_ref_def)

theorem revoked_is_replaced_unread_witness:
  "\<exists>V w2. app_serve example_machine example_args = Inr V \<and>
     (\<forall>x v ver. fst (remote_read (example_remote V) (unbound example_short) (w2, ())) \<noteq> Inr x \<and>
        fst (remote_write (example_remote V) (unbound example_short) v (w2, ())) \<noteq> Inr (Created ver))"
proof -
  obtain V where V: "app_serve example_machine example_args = Inr V" using example_serves by blast
  obtain w2 c e where c: "pg_shows example_store (fst (w2, ())) c" "cu_vault c (remote_reference example_short) = Some e"
    "en_state e = Revoked" "0 < en_version e"
    using example_revoked_shows by (auto simp: example_short_reference)
  let ?C = "network_to (\<lambda>_ n. (True, n)) ''token'' V"
  have "framework_ok (ma_framework example_machine) (ct_uuid ?C)" "codec_ok (ma_codec example_machine)"
    "ct_codec ?C = sv_codec V" "rm_client (example_remote V) = ?C" "draws_apart (rm_now_v7 (example_remote V))"
    by (simp_all add: example_machine_def network_to_def example_framework_ok example_codec_ok example_remote_def
        remote_over_def draws_apart_def in_net_apply)
  from revoked_is_replaced_unread [OF V this(1-3) example_reaches this(4,5) example_connect c(1) example_short_wf c(2-4)] V
  show ?thesis by blast
qed

section \<open>A witness for the guard\<close>

text \<open>A store that puts nothing answers a user alike.\<close>

definition putless :: "'w secret_store \<Rightarrow> 'w secret_store" where
  "putless M = M\<lparr>cs_put := (\<lambda>_. failE StoreUnavailable)\<rparr>"

theorem calls_within_grant_witness:
  "serve (served example_store (\<lambda>_ n. (Inr \<lparr>pr_subject = ''user:one'', pr_of_tenant = ''t'', pr_actions = {''secret:revoke''}\<rparr>, n))
       (\<lambda>_ n. (Inl Unauthorized, n))) example_revocation (example_pg, ()) =
   serve (with_store (served example_store
         (\<lambda>_ n. (Inr \<lparr>pr_subject = ''user:one'', pr_of_tenant = ''t'', pr_actions = {''secret:revoke''}\<rparr>, n))
         (\<lambda>_ n. (Inl Unauthorized, n)))
       (putless (store_in_db (postgres_store example_store)))) example_revocation (example_pg, ())"
  by (rule calls_within_grant)
    (auto simp: served_def putless_def alike_for_user_def alike_for_workload_def in_net_apply)

end
