(* ===== verification/File_Config.thy ===== *)
theory File_Config
  imports Namespace_Config
begin

text \<open>
  The configuration kept in one TOML file (\<open>crates/secrets-federation/src/file.rs\<close>). The TOML
  library is the parameter \<open>toml\<close> over its type of values \<open>'v\<close>; a file is its bytes, and text that
  is not UTF-8 is text the parser refuses. The world is \<open>disk\<close>: the files by directory and name, the
  script of what becomes of each system call (\<open>Works\<close>, or \<open>Breaks n\<close>, where a write has put \<open>n\<close>
  bytes), the readings of the clock, and the history of the files after each call that may change one, which
  is what another process may have seen. What survives a loss of power is not modelled: a sync is a call
  that may fail.
\<close>

section \<open>The document\<close>

record namespace_record =
  nr_tenant :: scope_name
  nr_name :: scope_name
  nr_mount :: "backend_ref option"

record binding_record =
  bd_tenant :: scope_name
  bd_namespace :: scope_name
  bd_user :: scope_name
  bd_name :: secret_name
  bd_locator :: locator

record 'v toml =
  tm_parse :: "string \<Rightarrow> (string, 'v) btree option"
  tm_get_namespaces :: "'v \<Rightarrow> namespace_record list option"
  tm_get_bindings :: "'v \<Rightarrow> binding_record list option"
  tm_put_namespaces :: "namespace_record list \<Rightarrow> 'v option"
  tm_put_bindings :: "binding_record list \<Rightarrow> 'v option"
  tm_render :: "(string, 'v) btree \<Rightarrow> string option"

record 'v document =
  dc_rest :: "(string, 'v) btree"
  dc_namespaces :: "(namespace_key, backend_ref option) btree"
  dc_bindings :: "(address, locator) btree"

definition namespaces_key :: string where "namespaces_key = ''namespace''"
definition bindings_key :: string where "bindings_key = ''binding''"

definition toml_records ::
  "('v \<Rightarrow> 'r list option) \<Rightarrow> (string, 'v) btree \<Rightarrow> string \<Rightarrow> storage_error + 'r list \<times> (string, 'v) btree" where
  "toml_records get table key =
     (case bt_remove key table of
        (None, table) \<Rightarrow> Inr ([], table)
      | (Some v, table) \<Rightarrow> bindR (ok_or (get v) Unavailable) (\<lambda>rs. Inr (rs, table)))"

text \<open>The loops of \<open>parse\<close>: a key that is there already refuses the file.\<close>

fun parse_namespaces ::
  "namespace_record list \<Rightarrow> (namespace_key, backend_ref option) btree \<Rightarrow>
   storage_error + (namespace_key, backend_ref option) btree" where
  "parse_namespaces [] m = Inr m"
| "parse_namespaces (r # rs) m =
     (case bt_insert \<lparr>nk_tenant = nr_tenant r, nk_namespace = nr_name r\<rparr> (nr_mount r) m of
        (Some _, _) \<Rightarrow> Inl Unavailable
      | (None, m) \<Rightarrow> parse_namespaces rs m)"

fun parse_bindings ::
  "binding_record list \<Rightarrow> (address, locator) btree \<Rightarrow> storage_error + (address, locator) btree" where
  "parse_bindings [] m = Inr m"
| "parse_bindings (r # rs) m =
     (case bt_insert \<lparr>ad_scope = \<lparr>sc_tenant = bd_tenant r, sc_namespace = bd_namespace r, sc_user = bd_user r\<rparr>,
         ad_name = bd_name r\<rparr> (bd_locator r) m of
        (Some _, _) \<Rightarrow> Inl Unavailable
      | (None, m) \<Rightarrow> parse_bindings rs m)"

definition document_parse :: "'v toml \<Rightarrow> string \<Rightarrow> storage_error + 'v document" where
  "document_parse T text =
     bindR (ok_or (tm_parse T text) Unavailable) (\<lambda>rest.
     bindR (toml_records (tm_get_namespaces T) rest namespaces_key) (\<lambda>(nrs, rest).
     bindR (parse_namespaces nrs []) (\<lambda>namespaces.
     let namespaces = (if bt_contains local_default namespaces then namespaces
       else bt_put local_default None namespaces) in
     bindR (toml_records (tm_get_bindings T) rest bindings_key) (\<lambda>(brs, rest).
     bindR (parse_bindings brs []) (\<lambda>bindings.
     Inr \<lparr>dc_rest = rest, dc_namespaces = namespaces, dc_bindings = bindings\<rparr>)))))"

definition namespace_record_of :: "namespace_key \<times> backend_ref option \<Rightarrow> namespace_record" where
  "namespace_record_of e = \<lparr>nr_tenant = nk_tenant (fst e), nr_name = nk_namespace (fst e), nr_mount = snd e\<rparr>"

definition binding_record_of :: "address \<times> locator \<Rightarrow> binding_record" where
  "binding_record_of e =
     \<lparr>bd_tenant = sc_tenant (ad_scope (fst e)), bd_namespace = sc_namespace (ad_scope (fst e)),
      bd_user = sc_user (ad_scope (fst e)), bd_name = ad_name (fst e), bd_locator = snd e\<rparr>"

definition document_render :: "'v toml \<Rightarrow> 'v document \<Rightarrow> storage_error + string" where
  "document_render T d =
     bindR (ok_or (tm_put_namespaces T (map namespace_record_of (dc_namespaces d))) Unavailable) (\<lambda>nv.
     let table = bt_put namespaces_key nv (dc_rest d) in
     bindR (if dc_bindings d = [] then Inr table
       else bindR (ok_or (tm_put_bindings T (map binding_record_of (dc_bindings d))) Unavailable) (\<lambda>bv.
         Inr (bt_put bindings_key bv table))) (\<lambda>table.
     ok_or (tm_render T table) Unavailable))"

section \<open>The disk\<close>

datatype fate = Works | Breaks nat

text \<open>A file by its directory and its name.\<close>

type_synonym file_key = "string \<times> string"
type_synonym files = "file_key \<Rightarrow> string option"

record disk =
  dk_files :: files
  dk_fates :: "fate list"
  dk_times :: "nat list"
  dk_pid :: nat
  dk_seen :: "files list"

text \<open>One call: what it does when it works (\<open>None\<close> where it answers an error), and after \<open>n\<close> bytes.\<close>

definition next_fate :: "disk \<Rightarrow> fate" where
  "next_fate w = (case dk_fates w of [] \<Rightarrow> Works | f # fs \<Rightarrow> f)"

definition after_call :: "files \<Rightarrow> disk \<Rightarrow> disk" where
  "after_call fs w = w\<lparr>dk_files := fs, dk_fates := tl (dk_fates w), dk_seen := dk_seen w @ [fs]\<rparr>"

definition disk_call :: "(files \<Rightarrow> files option) \<Rightarrow> (nat \<Rightarrow> files \<Rightarrow> files) \<Rightarrow> (disk, unit, unit) io" where
  "disk_call good bad w =
     (case next_fate w of
        Works \<Rightarrow>
          (case good (dk_files w) of
             Some fs \<Rightarrow> (Inr (), after_call fs w)
           | None \<Rightarrow> (Inl (), after_call (dk_files w) w))
      | Breaks n \<Rightarrow> (Inl (), after_call (bad n (dk_files w)) w))"

text \<open>A call that leaves the files alone; it is not in the history.\<close>

definition quiet_call :: "(disk, unit, unit) io" where
  "quiet_call w =
     (case next_fate w of
        Works \<Rightarrow> (Inr (), w\<lparr>dk_fates := tl (dk_fates w)\<rparr>)
      | Breaks n \<Rightarrow> (Inl (), w\<lparr>dk_fates := tl (dk_fates w)\<rparr>))"

section \<open>The store\<close>

text \<open>A path is the directory before its last part, empty when it has none, and the last part.\<close>

record file_config =
  fcg_parent :: string
  fcg_name :: string

definition config_directory :: "file_config \<Rightarrow> string" where
  "config_directory P = (if fcg_parent P \<noteq> [] then fcg_parent P else ''.'')"

definition config_file :: "file_config \<Rightarrow> file_key" where
  "config_file P = (config_directory P, fcg_name P)"

definition lock_path :: "file_config \<Rightarrow> file_key" where
  "lock_path P = (config_directory P, fcg_name P @ ''.lock'')"

definition create_private_dir :: "(disk, unit, unit) io" where
  "create_private_dir = quiet_call"

definition read_file :: "file_key \<Rightarrow> (disk, unit, string option) io" where
  "read_file k = bindE quiet_call (\<lambda>_ w. (Inr (dk_files w k), w))"

definition config_load :: "'v toml \<Rightarrow> file_config \<Rightarrow> (disk, storage_error, 'v document) io" where
  "config_load T P =
     bindE (map_errE (\<lambda>_. Unavailable) (read_file (config_file P))) (\<lambda>text.
     liftE (case text of Some t \<Rightarrow> document_parse T t | None \<Rightarrow> document_parse T []))"

text \<open>\<open>replace\<close>: a fresh file beside the path, written, synced, renamed over it, the directory
  synced; on any error the fresh file is removed.\<close>

definition staged_name :: "string \<Rightarrow> nat \<Rightarrow> nat \<Rightarrow> string" where
  "staged_name name pid nanos = name @ ''.tmp-'' @ dec_nat pid @ ''-'' @ dec_nat nanos"

definition read_clock :: "disk \<Rightarrow> nat \<times> disk" where
  "read_clock w = (case dk_times w of [] \<Rightarrow> (0, w) | t # ts \<Rightarrow> (t, w\<lparr>dk_times := ts\<rparr>))"

definition create_new :: "file_key \<Rightarrow> (disk, unit, unit) io" where
  "create_new k = disk_call (\<lambda>fs. if fs k = None then Some (fs(k \<mapsto> [])) else None) (\<lambda>_ fs. fs)"

definition write_all :: "file_key \<Rightarrow> string \<Rightarrow> (disk, unit, unit) io" where
  "write_all k text = disk_call (\<lambda>fs. Some (fs(k \<mapsto> text))) (\<lambda>n fs. fs(k \<mapsto> take n text))"

definition rename_file :: "file_key \<Rightarrow> file_key \<Rightarrow> (disk, unit, unit) io" where
  "rename_file from to = disk_call (\<lambda>fs. if fs from = None then None else Some (fs(to := fs from, from := None))) (\<lambda>_ fs. fs)"

definition remove_file :: "file_key \<Rightarrow> (disk, unit, unit) io" where
  "remove_file k = disk_call (\<lambda>fs. if fs k = None then None else Some (fs(k := None))) (\<lambda>_ fs. fs)"

definition replace_file :: "file_config \<Rightarrow> string \<Rightarrow> (disk, unit, unit) io" where
  "replace_file P text w =
     (let (nanos, w) = read_clock w;
          staged = (config_directory P, staged_name (fcg_name P) (dk_pid w) nanos)
      in case bindE (create_new staged) (\<lambda>_.
           bindE (write_all staged text) (\<lambda>_.
           bindE quiet_call (\<lambda>_.
           bindE (rename_file staged (config_file P)) (\<lambda>_.
           bindE quiet_call (\<lambda>_. quiet_call))))) w of
           (Inr u, w) \<Rightarrow> (Inr u, w)
         | (Inl e, w) \<Rightarrow> (Inl e, snd (remove_file staged w)))"

text \<open>Every change is a read, the change and a write under the lock.\<close>

definition open_lock :: "file_config \<Rightarrow> (disk, unit, unit) io" where
  "open_lock P = disk_call (\<lambda>fs. Some (if fs (lock_path P) = None then fs(lock_path P \<mapsto> []) else fs)) (\<lambda>_ fs. fs)"

definition config_change ::
  "'v toml \<Rightarrow> file_config \<Rightarrow> ('v document \<Rightarrow> storage_error + 'a \<times> 'v document) \<Rightarrow> (disk, storage_error, 'a) io" where
  "config_change T P change =
     bindE (map_errE (\<lambda>_. Unavailable) create_private_dir) (\<lambda>_.
     bindE (map_errE (\<lambda>_. Unavailable) (open_lock P)) (\<lambda>_.
     bindE (map_errE (\<lambda>_. Unavailable) quiet_call) (\<lambda>_.
     bindE (config_load T P) (\<lambda>document.
     bindE (liftE (change document)) (\<lambda>(answer, document).
     bindE (liftE (document_render T document)) (\<lambda>text.
     bindE (map_errE (\<lambda>_. Unavailable) (replace_file P text)) (\<lambda>_.
     retE answer)))))))"

section \<open>The methods\<close>

definition file_namespace :: "'v toml \<Rightarrow> file_config \<Rightarrow> namespace_key \<Rightarrow> (disk, storage_error, namespace option) io" where
  "file_namespace T P key = bindE (config_load T P) (\<lambda>d.
     retE (map_option (\<lambda>m. \<lparr>ns_key = key, ns_mount = m\<rparr>) (map_of (dc_namespaces d) key)))"

definition file_namespaces :: "'v toml \<Rightarrow> file_config \<Rightarrow> (disk, storage_error, namespace list) io" where
  "file_namespaces T P = bindE (config_load T P) (\<lambda>d.
     retE (map (\<lambda>(k, m). \<lparr>ns_key = k, ns_mount = m\<rparr>) (dc_namespaces d)))"

definition file_insert_namespace :: "'v toml \<Rightarrow> file_config \<Rightarrow> namespace \<Rightarrow> (disk, storage_error, unit) io" where
  "file_insert_namespace T P n = config_change T P (\<lambda>d.
     if bt_contains (ns_key n) (dc_namespaces d) then Inl Conflict
     else Inr ((), d\<lparr>dc_namespaces := bt_put (ns_key n) (ns_mount n) (dc_namespaces d)\<rparr>))"

definition file_remove_namespace :: "'v toml \<Rightarrow> file_config \<Rightarrow> namespace_key \<Rightarrow> (disk, storage_error, unit) io" where
  "file_remove_namespace T P key = config_change T P (\<lambda>d.
     if key = local_default then Inl Conflict
     else
       case bt_remove key (dc_namespaces d) of
         (None, _) \<Rightarrow> Inl NotFound
       | (Some _, m) \<Rightarrow> Inr ((), d\<lparr>dc_namespaces := m\<rparr>))"

definition file_set_mount :: "'v toml \<Rightarrow> file_config \<Rightarrow> namespace_key \<Rightarrow> backend_ref \<Rightarrow> (disk, storage_error, unit) io" where
  "file_set_mount T P key mount = config_change T P (\<lambda>d.
     case map_of (dc_namespaces d) key of
       None \<Rightarrow> Inl NotFound
     | Some _ \<Rightarrow> Inr ((), d\<lparr>dc_namespaces := bt_put key (Some mount) (dc_namespaces d)\<rparr>))"

definition file_binding :: "'v toml \<Rightarrow> file_config \<Rightarrow> address \<Rightarrow> (disk, storage_error, locator option) io" where
  "file_binding T P a = bindE (config_load T P) (\<lambda>d. retE (map_of (dc_bindings d) a))"

definition file_has_bindings :: "'v toml \<Rightarrow> file_config \<Rightarrow> namespace_key \<Rightarrow> (disk, storage_error, bool) io" where
  "file_has_bindings T P key = bindE (config_load T P) (\<lambda>d.
     retE (list_ex (\<lambda>a. sc_tenant (ad_scope a) = nk_tenant key \<and> sc_namespace (ad_scope a) = nk_namespace key)
       (map fst (dc_bindings d))))"

definition file_insert_binding :: "'v toml \<Rightarrow> file_config \<Rightarrow> address \<Rightarrow> locator \<Rightarrow> (disk, storage_error, unit) io" where
  "file_insert_binding T P a l = config_change T P (\<lambda>d.
     if bt_contains a (dc_bindings d) then Inl Conflict
     else Inr ((), d\<lparr>dc_bindings := bt_put a l (dc_bindings d)\<rparr>))"

definition file_remove_binding :: "'v toml \<Rightarrow> file_config \<Rightarrow> address \<Rightarrow> (disk, storage_error, unit) io" where
  "file_remove_binding T P a = config_change T P (\<lambda>d.
     case bt_remove a (dc_bindings d) of
       (None, _) \<Rightarrow> Inl NotFound
     | (Some _, m) \<Rightarrow> Inr ((), d\<lparr>dc_bindings := m\<rparr>))"

definition file_config_store :: "'v toml \<Rightarrow> file_config \<Rightarrow> disk namespace_config" where
  "file_config_store T P =
     \<lparr>cfg_namespace = file_namespace T P, cfg_namespaces = file_namespaces T P,
      cfg_insert_namespace = file_insert_namespace T P, cfg_remove_namespace = file_remove_namespace T P,
      cfg_set_mount = file_set_mount T P, cfg_binding = file_binding T P, cfg_has_bindings = file_has_bindings T P,
      cfg_insert_binding = file_insert_binding T P, cfg_remove_binding = file_remove_binding T P\<rparr>"

end
