(* ===== verification/File_Document.thy ===== *)
theory File_Document
  imports File_Config
begin

text \<open>
  What a file of the configuration says: under the documented behaviour of the TOML library a
  document that was parsed is well formed, and rendering one and parsing it gives it back, with
  every key the store does not own.
\<close>

definition toml_ok :: "'v toml \<Rightarrow> bool" where
  "toml_ok T \<longleftrightarrow>
     (\<forall>rs. \<exists>v. tm_put_namespaces T rs = Some v \<and> tm_get_namespaces T v = Some rs) \<and>
     (\<forall>rs. \<exists>v. tm_put_bindings T rs = Some v \<and> tm_get_bindings T v = Some rs) \<and>
     (\<forall>t. bt_wf t \<longrightarrow> (\<exists>s. tm_render T t = Some s \<and> tm_parse T s = Some t)) \<and>
     (\<forall>s t. tm_parse T s = Some t \<longrightarrow> bt_wf t)"

definition wf_document :: "'v document \<Rightarrow> bool" where
  "wf_document d \<longleftrightarrow> bt_wf (dc_rest d) \<and> bt_wf (dc_namespaces d) \<and> bt_wf (dc_bindings d) \<and>
     map_of (dc_rest d) namespaces_key = None \<and> map_of (dc_rest d) bindings_key = None \<and>
     map_of (dc_namespaces d) local_default \<noteq> None"

lemma record_keys [simp]:
  "\<lparr>nk_tenant = nr_tenant (namespace_record_of e), nk_namespace = nr_name (namespace_record_of e)\<rparr> = fst e"
  "nr_mount (namespace_record_of e) = snd e"
  "\<lparr>ad_scope = \<lparr>sc_tenant = bd_tenant (binding_record_of b), sc_namespace = bd_namespace (binding_record_of b),
     sc_user = bd_user (binding_record_of b)\<rparr>, ad_name = bd_name (binding_record_of b)\<rparr> = fst b"
  "bd_locator (binding_record_of b) = snd b"
  by (simp_all add: namespace_record_of_def binding_record_of_def)

section \<open>Parsing\<close>

lemma parse_namespaces_wf: "parse_namespaces rs m = Inr m' \<Longrightarrow> bt_wf m \<Longrightarrow> bt_wf m'"
  by (induction rs arbitrary: m) (auto simp: bt_insert_def split: option.splits)

lemma parse_bindings_wf: "parse_bindings rs m = Inr m' \<Longrightarrow> bt_wf m \<Longrightarrow> bt_wf m'"
  by (induction rs arbitrary: m) (auto simp: bt_insert_def split: option.splits)

lemma parse_loops_Inl:
  "parse_namespaces rs m = Inl e \<Longrightarrow> e = Unavailable" "parse_bindings bs b = Inl e \<Longrightarrow> e = Unavailable"
  by (induction rs arbitrary: m, auto split: option.splits prod.splits)
    (induction bs arbitrary: b, auto split: option.splits prod.splits)

lemma document_parse_Inl: "document_parse T text = Inl e \<Longrightarrow> e = Unavailable"
  by (auto simp: document_parse_def toml_records_def bindR_eq_Inl ok_or_def Let_def
      dest: parse_loops_Inl split: option.splits prod.splits)

lemma toml_records_Inr:
  "toml_records get table key = Inr (rs, table') \<Longrightarrow> bt_wf table \<Longrightarrow>
   bt_wf table' \<and> map_of table' = (map_of table)(key := None)"
  by (auto simp: toml_records_def bt_remove_def split: option.splits)

lemma document_parse_wf:
  assumes "toml_ok T" "document_parse T text = Inr d"
  shows "wf_document d"
proof -
  from assms(2) obtain rest nrs rest1 ns brs rest2 bs where
    p: "tm_parse T text = Some rest" "toml_records (tm_get_namespaces T) rest namespaces_key = Inr (nrs, rest1)"
      "parse_namespaces nrs [] = Inr ns" "toml_records (tm_get_bindings T) rest1 bindings_key = Inr (brs, rest2)"
      "parse_bindings brs [] = Inr bs"
    and d: "d = \<lparr>dc_rest = rest2, dc_namespaces = (if bt_contains local_default ns then ns else bt_put local_default None ns),
      dc_bindings = bs\<rparr>"
    by (auto simp: document_parse_def Let_def split: prod.splits)
  have "bt_wf rest" using assms(1) p(1) by (auto simp: toml_ok_def)
  note r1 = toml_records_Inr [OF p(2) this]
  note r2 = toml_records_Inr [OF p(4) conjunct1 [OF r1]]
  have "namespaces_key \<noteq> bindings_key" by (simp add: namespaces_key_def bindings_key_def)
  with r1 r2 parse_namespaces_wf [OF p(3)] parse_bindings_wf [OF p(5)] show ?thesis
    by (simp add: wf_document_def d)
qed

section \<open>Rendering\<close>

lemma bt_put_last: "\<forall>e \<in> set m. fst e < k \<Longrightarrow> bt_put k v m = m @ [(k, v)]"
  by (induction m) auto

lemma bt_wf_append_Cons: "bt_wf (m @ (k, v) # n) \<Longrightarrow> (\<forall>e \<in> set m. fst e < k) \<and> map_of m k = None \<and> bt_wf (m @ [(k, v)])"
  by (auto simp: bt_wf_def sorted_wrt_append map_of_eq_None_iff)

lemma parse_namespaces_of: "bt_wf (m @ n) \<Longrightarrow> parse_namespaces (map namespace_record_of n) m = Inr (m @ n)"
proof (induction n arbitrary: m)
  case (Cons e n)
  obtain k v where e: "e = (k, v)" by (cases e)
  from bt_wf_append_Cons [of m k v n] Cons.prems e have "bt_put k v m = m @ [e]" "map_of m k = None"
    using bt_put_last [of m k v] by auto
  with Cons.IH [of "m @ [e]"] Cons.prems e show ?case by (simp add: bt_insert_def)
qed simp

lemma parse_bindings_of: "bt_wf (m @ n) \<Longrightarrow> parse_bindings (map binding_record_of n) m = Inr (m @ n)"
proof (induction n arbitrary: m)
  case (Cons e n)
  obtain k v where e: "e = (k, v)" by (cases e)
  from bt_wf_append_Cons [of m k v n] Cons.prems e have "bt_put k v m = m @ [e]" "map_of m k = None"
    using bt_put_last [of m k v] by auto
  with Cons.IH [of "m @ [e]"] Cons.prems e show ?case by (simp add: bt_insert_def)
qed simp

lemma bt_del_put: "bt_wf m \<Longrightarrow> map_of m k = None \<Longrightarrow> bt_del k (bt_put k v m) = m"
  by (rule bt_eqI) auto

lemma bt_put_swap: "bt_wf m \<Longrightarrow> j \<noteq> k \<Longrightarrow> bt_del k (bt_put j w (bt_put k v m)) = bt_put j w (bt_del k m)"
  by (rule bt_eqI) auto

lemma document_render_parse:
  assumes T: "toml_ok T" and d: "wf_document d"
  obtains s where "document_render T d = Inr s" "document_parse T s = Inr d"
proof -
  have ne: "namespaces_key \<noteq> bindings_key" by (simp add: namespaces_key_def bindings_key_def)
  obtain nv where nv: "tm_put_namespaces T (map namespace_record_of (dc_namespaces d)) = Some nv"
    "tm_get_namespaces T nv = Some (map namespace_record_of (dc_namespaces d))"
    using T unfolding toml_ok_def by blast
  obtain bv where bv: "tm_put_bindings T (map binding_record_of (dc_bindings d)) = Some bv"
    "tm_get_bindings T bv = Some (map binding_record_of (dc_bindings d))"
    using T unfolding toml_ok_def by blast
  define n where "n = bt_put namespaces_key nv (dc_rest d)"
  define t where "t = (if dc_bindings d = [] then n else bt_put bindings_key bv n)"
  have w: "bt_wf (dc_rest d)" "bt_wf n" "bt_wf t" using d by (simp_all add: wf_document_def n_def t_def)
  obtain s where s: "tm_render T t = Some s" "tm_parse T s = Some t"
    using T w(3) unfolding toml_ok_def by blast
  have rest: "map_of (dc_rest d) namespaces_key = None" "map_of (dc_rest d) bindings_key = None"
    using d by (simp_all add: wf_document_def)
  have nl: "toml_records (tm_get_namespaces T) t namespaces_key =
      Inr (map namespace_record_of (dc_namespaces d), if dc_bindings d = [] then dc_rest d else bt_put bindings_key bv (dc_rest d))"
  proof -
    have "map_of t namespaces_key = Some nv" using w ne by (simp add: t_def n_def)
    moreover have "bt_del namespaces_key t = (if dc_bindings d = [] then dc_rest d else bt_put bindings_key bv (dc_rest d))"
      using w rest ne bt_del_put bt_put_swap [of "dc_rest d" bindings_key namespaces_key bv nv]
      by (auto simp: t_def n_def intro!: bt_eqI)
    ultimately show ?thesis by (simp add: toml_records_def bt_remove_def nv(2))
  qed
  have bl: "toml_records (tm_get_bindings T) (if dc_bindings d = [] then dc_rest d else bt_put bindings_key bv (dc_rest d)) bindings_key =
      Inr (map binding_record_of (dc_bindings d), dc_rest d)"
  proof -
    have "bt_del bindings_key (dc_rest d) = dc_rest d" using w(1) rest(2) by (intro bt_eqI) auto
    then show ?thesis
      using w(1) rest(2) bt_del_put [OF w(1) rest(2)] bv(2) by (simp add: toml_records_def bt_remove_def)
  qed
  have "parse_namespaces (map namespace_record_of (dc_namespaces d)) [] = Inr (dc_namespaces d)"
    "parse_bindings (map binding_record_of (dc_bindings d)) [] = Inr (dc_bindings d)"
    using parse_namespaces_of [of "[]"] parse_bindings_of [of "[]"] d by (simp_all add: wf_document_def)
  moreover have "bt_contains local_default (dc_namespaces d)" using d by (simp add: wf_document_def)
  ultimately have "document_parse T s = Inr d"
    using s(2) nl bl by (simp add: document_parse_def)
  moreover have "document_render T d = Inr s"
    using nv(1) bv(1) s(1) by (cases "dc_bindings d = []") (simp_all add: document_render_def n_def t_def Let_def)
  ultimately show thesis by (rule that [rotated])
qed

end
