(* ===== verification/File_Contract.thy ===== *)
theory File_Contract
  imports File_Document
begin

text \<open>
  The store over one file keeps the contract of a configuration when no call fails, and shows every
  reader, whatever call fails and wherever it is cut short, the whole file before a change or the
  whole file after it.
\<close>

section \<open>The names beside the file are others\<close>

lemma staged_apart [simp]: "staged_name n p t \<noteq> n" "staged_name n p t \<noteq> n @ ''.lock''"
  by (simp_all add: staged_name_def)

lemma config_keys_apart [simp]:
  "lock_path P \<noteq> config_file P" "config_file P \<noteq> lock_path P"
  "(config_directory P, staged_name (fcg_name P) p t) \<noteq> config_file P"
  "config_file P \<noteq> (config_directory P, staged_name (fcg_name P) p t)"
  "(config_directory P, staged_name (fcg_name P) p t) \<noteq> lock_path P"
  "lock_path P \<noteq> (config_directory P, staged_name (fcg_name P) p t)"
  using staged_apart [of "fcg_name P" p t] staged_apart [of "fcg_name P" p t, symmetric]
  by (auto simp: lock_path_def config_file_def)

section \<open>What a call does\<close>

lemma quiet_call_cases:
  "quiet_call w = (r, w') \<Longrightarrow> dk_files w' = dk_files w \<and> dk_seen w' = dk_seen w"
  by (auto simp: quiet_call_def split: fate.splits)

lemma disk_call_cases:
  assumes "disk_call good bad w = (r, w')"
  shows "dk_seen w' = dk_seen w @ [dk_files w'] \<and>
    (r = Inr () \<and> Some (dk_files w') = good (dk_files w) \<or>
     r = Inl () \<and> (dk_files w' = dk_files w \<or> (\<exists>n. dk_files w' = bad n (dk_files w))))"
  using assms by (auto simp: disk_call_def after_call_def split: fate.splits option.splits)

text \<open>\<open>shows_only A w w'\<close>: from \<open>w\<close> to \<open>w'\<close> the file \<open>k\<close> was only ever seen as one of \<open>A\<close>.\<close>

definition shows_only :: "file_key \<Rightarrow> string option set \<Rightarrow> disk \<Rightarrow> disk \<Rightarrow> bool" where
  "shows_only k A w w' \<longleftrightarrow> (\<exists>new. dk_seen w' = dk_seen w @ new \<and> (\<forall>fs \<in> set new. fs k \<in> A))"

lemma shows_only_refl [simp]: "shows_only k A w w"
  by (simp add: shows_only_def)

lemma shows_only_trans: "shows_only k A w w' \<Longrightarrow> shows_only k A w' w'' \<Longrightarrow> shows_only k A w w''"
  by (auto simp: shows_only_def)

lemma shows_only_mono: "shows_only k A w w' \<Longrightarrow> A \<subseteq> B \<Longrightarrow> shows_only k B w w'"
  by (auto simp: shows_only_def)

lemma quiet_shows: "quiet_call w = (r, w') \<Longrightarrow> dk_files w' = dk_files w \<and> shows_only k A w w'"
  using quiet_call_cases by (auto simp: shows_only_def)

text \<open>A call on another file.\<close>

lemma other_call:
  assumes "disk_call good bad w = (r, w')"
    and "\<And>fs. Some fs = good (dk_files w) \<Longrightarrow> fs k = dk_files w k" "\<And>n. bad n (dk_files w) k = dk_files w k"
  shows "dk_files w' k = dk_files w k \<and> shows_only k {dk_files w k} w w'"
  using disk_call_cases [OF assms(1)] assms(2,3) by (auto simp: shows_only_def)

lemma beside:
  assumes "j \<noteq> k"
  shows "create_new j w = (r, w') \<Longrightarrow> dk_files w' k = dk_files w k \<and> shows_only k {dk_files w k} w w'"
    and "write_all j t w = (r, w') \<Longrightarrow> dk_files w' k = dk_files w k \<and> shows_only k {dk_files w k} w w'"
    and "remove_file j w = (r, w') \<Longrightarrow> dk_files w' k = dk_files w k \<and> shows_only k {dk_files w k} w w'"
  using assms unfolding create_new_def write_all_def remove_file_def
  by (erule_tac [!] other_call) (auto split: if_splits)

section \<open>Replacing the file\<close>

lemma rename_over:
  assumes "rename_file j k w = (r, w')" "j \<noteq> k" "dk_files w j = Some t"
  shows "(r = Inr () \<and> dk_files w' k = Some t \<or> r = Inl () \<and> dk_files w' k = dk_files w k) \<and>
    shows_only k {dk_files w k, Some t} w w'"
  using disk_call_cases [OF assms(1) [unfolded rename_file_def]] assms(2,3) by (auto simp: shows_only_def)

lemma write_whole: "write_all k t w = (Inr (), w') \<Longrightarrow> dk_files w' k = Some t"
  unfolding write_all_def by (drule disk_call_cases) auto

lemma bind_chain: "bindE m (\<lambda>_. k) w = (r, w') \<Longrightarrow>
  (\<exists>e. m w = (Inl e, w') \<and> r = Inl e) \<or> (\<exists>a w1. m w = (Inr a, w1) \<and> k w1 = (r, w'))"
  by (auto simp: bindE_apply split: prod.splits sum.splits)

text \<open>The calls of a replacement, up to the removal of what a failure left.\<close>

lemma replace_calls:
  assumes h: "bindE (create_new j) (\<lambda>_. bindE (write_all j t) (\<lambda>_. bindE quiet_call (\<lambda>_.
      bindE (rename_file j k) (\<lambda>_. bindE quiet_call (\<lambda>_. quiet_call))))) w = (r, w')" and jk: "j \<noteq> k"
  shows "(dk_files w' k = Some t \<or> r = Inl () \<and> dk_files w' k = dk_files w k) \<and>
    shows_only k {dk_files w k, Some t} w w'"
proof -
  let ?A = "{dk_files w k, Some t}"
  have le: "shows_only k {dk_files w k} u v \<Longrightarrow> shows_only k ?A u v" for u v
    by (erule shows_only_mono) simp
  from bind_chain [OF h] show ?thesis
  proof (elim disjE exE conjE)
    fix e assume "create_new j w = (Inl e, w')" "r = Inl e"
    with beside(1) [OF jk] le show ?thesis by auto
  next
    fix a w1 assume c: "create_new j w = (Inr a, w1)"
      and h1: "bindE (write_all j t) (\<lambda>_. bindE quiet_call (\<lambda>_. bindE (rename_file j k) (\<lambda>_.
        bindE quiet_call (\<lambda>_. quiet_call)))) w1 = (r, w')"
    from beside(1) [OF jk c] le have 1: "dk_files w1 k = dk_files w k" "shows_only k ?A w w1" by auto
    from bind_chain [OF h1] show ?thesis
    proof (elim disjE exE conjE)
      fix e assume "write_all j t w1 = (Inl e, w')" "r = Inl e"
      with beside(2) [OF jk] le 1 shows_only_trans [OF 1(2)] show ?thesis by (metis old.unit.exhaust)
    next
      fix b w2 assume w: "write_all j t w1 = (Inr b, w2)"
        and h2: "bindE quiet_call (\<lambda>_. bindE (rename_file j k) (\<lambda>_. bindE quiet_call (\<lambda>_. quiet_call))) w2 = (r, w')"
      from beside(2) [OF jk w] le 1 have 2: "dk_files w2 k = dk_files w k" "shows_only k ?A w w2"
        by (auto intro: shows_only_trans)
      have j2: "dk_files w2 j = Some t" using w write_whole by auto
      from bind_chain [OF h2] show ?thesis
      proof (elim disjE exE conjE)
        fix e assume "quiet_call w2 = (Inl e, w')" "r = Inl e"
        with quiet_shows [of w2 "Inl e" w' k ?A] 2 show ?thesis by (auto intro: shows_only_trans)
      next
        fix b w3 assume q: "quiet_call w2 = (Inr b, w3)"
          and h3: "bindE (rename_file j k) (\<lambda>_. bindE quiet_call (\<lambda>_. quiet_call)) w3 = (r, w')"
        from quiet_shows [OF q, of k ?A] 2 j2 have 3: "dk_files w3 k = dk_files w k" "dk_files w3 j = Some t"
          "shows_only k ?A w w3" by (auto intro: shows_only_trans)
        from bind_chain [OF h3] show ?thesis
        proof (elim disjE exE conjE)
          fix e assume "rename_file j k w3 = (Inl e, w')" "r = Inl e"
          with rename_over [OF _ jk 3(2), of "Inl e" w'] 3 show ?thesis by (auto intro: shows_only_trans)
        next
          fix b w4 assume rn: "rename_file j k w3 = (Inr b, w4)" and h4: "bindE quiet_call (\<lambda>_. quiet_call) w4 = (r, w')"
          from rename_over [OF rn jk 3(2)] 3 have 4: "dk_files w4 k = Some t" "shows_only k ?A w w4"
            by (auto intro: shows_only_trans)
          have "dk_files w' = dk_files w4 \<and> shows_only k ?A w4 w'"
          proof -
            from bind_chain [OF h4] consider e where "quiet_call w4 = (Inl e, w')"
              | a w5 where "quiet_call w4 = (Inr a, w5)" "quiet_call w5 = (r, w')" by blast
            then show ?thesis
              by cases (auto dest!: quiet_shows [where k = k and A = ?A] intro: shows_only_trans)
          qed
          with 4 show ?thesis by (auto intro: shows_only_trans)
        qed
      qed
    qed
  qed
qed

lemma replace_file_shows:
  assumes "replace_file P t w = (r, w')"
  shows "(dk_files w' (config_file P) = Some t \<or> r = Inl () \<and> dk_files w' (config_file P) = dk_files w (config_file P)) \<and>
    shows_only (config_file P) {dk_files w (config_file P), Some t} w w'"
proof -
  obtain nanos w0 where c: "read_clock w = (nanos, w0)" by (cases "read_clock w")
  then have c0: "dk_files w0 = dk_files w" "dk_seen w0 = dk_seen w" "dk_pid w0 = dk_pid w"
    by (auto simp: read_clock_def split: list.splits)
  let ?k = "config_file P" and ?j = "(config_directory P, staged_name (fcg_name P) (dk_pid w0) nanos)"
  obtain x w1 where x: "bindE (create_new ?j) (\<lambda>_. bindE (write_all ?j t) (\<lambda>_. bindE quiet_call (\<lambda>_.
      bindE (rename_file ?j ?k) (\<lambda>_. bindE quiet_call (\<lambda>_. quiet_call))))) w0 = (x, w1)" by fastforce
  have jk: "?j \<noteq> ?k" by simp
  have m: "shows_only ?k A w0 v \<Longrightarrow> shows_only ?k A w v" for A v using c0(2) by (simp add: shows_only_def)
  note s = replace_calls [OF x jk]
  show ?thesis
  proof (cases x)
    case (Inr u)
    with assms c x have "r = Inr ()" "w' = w1" by (simp_all add: replace_file_def Let_def)
    with s c0 m Inr show ?thesis by auto
  next
    case (Inl e)
    obtain y w2 where y: "remove_file ?j w1 = (y, w2)" by (cases "remove_file ?j w1")
    from assms c x Inl y have r: "r = Inl ()" "w' = w2" by (simp_all add: replace_file_def Let_def)
    from beside(3) [OF jk y] have b: "dk_files w2 ?k = dk_files w1 ?k" "shows_only ?k {dk_files w1 ?k} w1 w2" by auto
    from s have "shows_only ?k {dk_files w0 ?k, Some t} w0 w2"
      by (rule conjE) (erule shows_only_trans, rule shows_only_mono [OF b(2)], use s in auto)
    with m c0 r b s show ?thesis by auto
  qed
qed

section \<open>A change\<close>

definition current_document :: "'v toml \<Rightarrow> file_config \<Rightarrow> disk \<Rightarrow> storage_error + 'v document" where
  "current_document T P w =
     (case dk_files w (config_file P) of Some t \<Rightarrow> document_parse T t | None \<Rightarrow> document_parse T [])"

lemma config_load_cases:
  assumes "config_load T P w = (x, w')"
  shows "dk_files w' = dk_files w \<and> dk_seen w' = dk_seen w \<and> (x = Inl Unavailable \<or> x = current_document T P w)"
proof -
  obtain y v where y: "quiet_call w = (y, v)" by (cases "quiet_call w")
  from quiet_call_cases [OF y] assms y show ?thesis
    by (cases y) (auto simp: config_load_def read_file_def current_document_def bindE_apply)
qed

lemma current_document_Inl: "current_document T P w = Inl e \<Longrightarrow> e = Unavailable"
  by (auto simp: current_document_def dest: document_parse_Inl split: option.splits)

text \<open>
  However the calls fare, readers see the whole old file or the whole file the change makes; the
  change is there when it was answered, and is not there when it was refused.
\<close>

definition changed_text :: "'v toml \<Rightarrow> file_config \<Rightarrow> ('v document \<Rightarrow> storage_error + 'a \<times> 'v document) \<Rightarrow> disk \<Rightarrow> 'a \<times> string \<Rightarrow> bool" where
  "changed_text T P f w x \<longleftrightarrow> (\<exists>d d'. current_document T P w = Inr d \<and> f d = Inr (fst x, d') \<and>
     document_render T d' = Inr (snd x))"

lemma config_change_shows:
  assumes h: "config_change T P f w = (r, w')"
  shows "shows_only (config_file P) ({dk_files w (config_file P)} \<union> {Some t |a t. changed_text T P f w (a, t)}) w w' \<and>
    (case r of
       Inr a \<Rightarrow> \<exists>t. changed_text T P f w (a, t) \<and> dk_files w' (config_file P) = Some t
     | Inl e \<Rightarrow> dk_files w' (config_file P) = dk_files w (config_file P) \<or>
         e = Unavailable \<and> (\<exists>a t. changed_text T P f w (a, t) \<and> dk_files w' (config_file P) = Some t))"
proof -
  let ?k = "config_file P"
  let ?A = "{dk_files w ?k} \<union> {Some t |a t. changed_text T P f w (a, t)}"
  obtain x1 w1 where c1: "quiet_call w = (x1, w1)" by (cases "quiet_call w")
  obtain x2 w2 where c2: "open_lock P w1 = (x2, w2)" by (cases "open_lock P w1")
  obtain x3 w3 where c3: "quiet_call w2 = (x3, w3)" by (cases "quiet_call w2")
  obtain x4 w4 where c4: "config_load T P w3 = (x4, w4)" by (cases "config_load T P w3")
  have 2: "dk_files w2 ?k = dk_files w1 ?k \<and> shows_only ?k {dk_files w1 ?k} w1 w2"
    using c2 unfolding open_lock_def by (rule other_call) (auto split: if_splits)
  note q = quiet_call_cases [OF c1] quiet_call_cases [OF c3] config_load_cases [OF c4]
  have 1: "dk_files w1 ?k = dk_files w ?k" "shows_only ?k ?A w w1" using q(1) by (simp_all add: shows_only_def)
  have 2: "dk_files w2 ?k = dk_files w ?k" "shows_only ?k ?A w w2"
    using 2 1 by (auto intro: shows_only_trans shows_only_mono)
  have 3: "dk_files w3 ?k = dk_files w ?k" "shows_only ?k ?A w w3"
    using 2 q(2) by (simp_all add: shows_only_def)
  have 4: "dk_files w4 ?k = dk_files w ?k" "shows_only ?k ?A w w4" "current_document T P w3 = current_document T P w"
    using 3 q(3) by (simp_all add: shows_only_def current_document_def)
  note u = config_change_def create_private_dir_def
  show ?thesis
  proof (cases "x1 = Inr () \<and> x2 = Inr () \<and> x3 = Inr ()")
    case False
    then have "r = Inl Unavailable \<and> (w' = w1 \<or> w' = w2 \<or> w' = w3)"
      using h c1 c2 c3 by (cases x1; cases x2; cases x3) (auto simp: u bindE_apply)
    with 1 2 3 show ?thesis by auto
  next
    case True
    with h c1 c2 c3 c4 have k: "(case x4 of Inl e \<Rightarrow> (Inl e, w4) | Inr d \<Rightarrow>
        bindE (liftE (f d)) (\<lambda>(answer, document). bindE (liftE (document_render T document)) (\<lambda>text.
        bindE (map_errE (\<lambda>_. Unavailable) (replace_file P text)) (\<lambda>_. retE answer))) w4) = (r, w')"
      by (simp add: u bindE_apply)
    show ?thesis
    proof (cases "\<exists>d a d' t. x4 = Inr d \<and> f d = Inr (a, d') \<and> document_render T d' = Inr t")
      case False
      with k have "w' = w4 \<and> (\<exists>e. r = Inl e)"
        by (cases x4; cases "f (projr x4)"; cases "document_render T (snd (projr (f (projr x4))))")
          (auto split: sum.splits prod.splits)
      with 4 show ?thesis by auto
    next
      case True
      then obtain d a d' t where d: "x4 = Inr d" "f d = Inr (a, d')" "document_render T d' = Inr t" by blast
      then have "current_document T P w = Inr d" using q(3) 4(3) by auto
      with d have ct: "changed_text T P f w (a, t)" by (auto simp: changed_text_def)
      obtain y v where y: "replace_file P t w4 = (y, v)" by (cases "replace_file P t w4")
      with k d have r: "w' = v" "r = (case y of Inl _ \<Rightarrow> Inl Unavailable | Inr _ \<Rightarrow> Inr a)"
        by (cases y; simp add: bindE_apply)+
      from replace_file_shows [OF y] 4(1) have y': "dk_files v ?k = Some t \<or> y = Inl () \<and> dk_files v ?k = dk_files w ?k"
        "shows_only ?k {dk_files w ?k, Some t} w4 v" by auto
      have "shows_only ?k ?A w v"
        using shows_only_trans [OF 4(2) shows_only_mono [OF y'(2), of ?A]] ct by auto
      with r y'(1) ct show ?thesis by (cases y) auto
    qed
  qed
qed

section \<open>Without failures\<close>

text \<open>No call fails, and no file that a change would create is there.\<close>

definition fc_inv :: "'v toml \<Rightarrow> file_config \<Rightarrow> disk \<Rightarrow> bool" where
  "fc_inv T P w \<longleftrightarrow> toml_ok T \<and> dk_fates w = [] \<and>
     (\<forall>p n. dk_files w (config_directory P, staged_name (fcg_name P) p n) = None)"

definition fc_up :: "'v toml \<Rightarrow> file_config \<Rightarrow> disk \<Rightarrow> bool" where
  "fc_up T P w \<longleftrightarrow> (\<exists>d. current_document T P w = Inr d)"

definition fc_mounts :: "'v toml \<Rightarrow> file_config \<Rightarrow> disk \<Rightarrow> namespace_key \<Rightarrow> backend_ref option option" where
  "fc_mounts T P w = (case current_document T P w of Inl _ \<Rightarrow> Map.empty | Inr d \<Rightarrow> map_of (dc_namespaces d))"

definition fc_bound :: "'v toml \<Rightarrow> file_config \<Rightarrow> disk \<Rightarrow> address \<Rightarrow> locator option" where
  "fc_bound T P w = (case current_document T P w of Inl _ \<Rightarrow> Map.empty | Inr d \<Rightarrow> map_of (dc_bindings d))"

lemma quiet_works: "dk_fates w = [] \<Longrightarrow> quiet_call w = (Inr (), w)"
  by (simp add: quiet_call_def next_fate_def)

lemma disk_works: "dk_fates w = [] \<Longrightarrow> good (dk_files w) = Some fs \<Longrightarrow>
  disk_call good bad w = (Inr (), w\<lparr>dk_files := fs, dk_seen := dk_seen w @ [fs]\<rparr>)"
  by (simp add: disk_call_def next_fate_def after_call_def)

lemma load_works: "dk_fates w = [] \<Longrightarrow> config_load T P w = (current_document T P w, w)"
  by (simp add: config_load_def read_file_def bindE_apply quiet_works current_document_def split: option.split)

text \<open>What a change leaves, up to the history and the clock.\<close>

lemma replace_works:
  assumes "dk_fates w = []" "\<And>p n. dk_files w (config_directory P, staged_name (fcg_name P) p n) = None"
  obtains w' where "replace_file P t w = (Inr (), w')" "dk_fates w' = []"
    "dk_files w' = (dk_files w)(config_file P \<mapsto> t)"
proof -
  obtain nanos w0 where c: "read_clock w = (nanos, w0)" by (cases "read_clock w")
  then have c0: "dk_files w0 = dk_files w" "dk_fates w0 = []" "dk_pid w0 = dk_pid w"
    using assms(1) by (auto simp: read_clock_def split: list.splits)
  have j: "dk_files w (config_directory P, staged_name (fcg_name P) (dk_pid w) nanos) = None" by (rule assms(2))
  have "(dk_files w)(config_file P \<mapsto> t, (config_directory P, staged_name (fcg_name P) (dk_pid w) nanos) := None) =
      (dk_files w)(config_file P \<mapsto> t)"
    using j by (auto simp: fun_eq_iff)
  moreover obtain x w' where x: "replace_file P t w = (x, w')" by (cases "replace_file P t w")
  ultimately have "x = Inr () \<and> dk_fates w' = [] \<and> dk_files w' = (dk_files w)(config_file P \<mapsto> t)"
    using c0 j by (auto simp: replace_file_def c Let_def bindE_apply create_new_def write_all_def
      rename_file_def disk_works quiet_works fun_upd_twist)
  with x that show thesis by blast
qed

text \<open>The lock is taken and the file read, whatever is done with it.\<close>

lemma change_loads:
  assumes w: "fc_inv T P w"
  obtains w1 where "fc_inv T P w1" "current_document T P w1 = current_document T P w"
    "config_change T P f w = bindE (liftE (current_document T P w)) (\<lambda>document. bindE (liftE (f document)) (\<lambda>(answer, document).
      bindE (liftE (document_render T document)) (\<lambda>text.
      bindE (map_errE (\<lambda>_. Unavailable) (replace_file P text)) (\<lambda>_. retE answer)))) w1"
proof -
  have i: "toml_ok T" "dk_fates w = []" using w by (simp_all add: fc_inv_def)
  define fs where "fs = (if dk_files w (lock_path P) = None then (dk_files w)(lock_path P \<mapsto> []) else dk_files w)"
  define w1 where "w1 = w\<lparr>dk_files := fs, dk_seen := dk_seen w @ [fs]\<rparr>"
  have o: "open_lock P w = (Inr (), w1)"
    unfolding open_lock_def by (subst disk_works [OF i(2)]) (simp_all add: fs_def w1_def)
  have 1: "dk_fates w1 = []" "dk_files w1 (config_file P) = dk_files w (config_file P)"
    "\<And>p n. dk_files w1 (config_directory P, staged_name (fcg_name P) p n) = None"
    using w by (simp_all add: w1_def fs_def fc_inv_def)
  then have inv1: "fc_inv T P w1" "current_document T P w1 = current_document T P w"
    using i(1) by (simp_all add: fc_inv_def current_document_def)
  with i(2) o 1(1) show thesis
    by (intro that [of w1]) (simp_all add: config_change_def create_private_dir_def bindE_apply quiet_works load_works)
qed

lemma change_down:
  assumes "fc_inv T P w" "current_document T P w = Inl Unavailable"
  shows "fst (config_change T P f w) = Inl Unavailable"
  using change_loads [OF assms(1), of f] assms(2) by (metis bindE_liftE_Inl failE_apply fst_conv)

lemma change_works:
  assumes w: "fc_inv T P w" and h: "config_change T P f w = (r, w')" and d: "current_document T P w = Inr d"
    and f: "\<And>a d'. f d = Inr (a, d') \<Longrightarrow> wf_document d'"
  shows "fc_inv T P w' \<and>
    (case f d of
       Inl e \<Rightarrow> r = Inl e \<and> current_document T P w' = Inr d
     | Inr (a, d') \<Rightarrow> r = Inr a \<and> current_document T P w' = Inr d')"
proof -
  obtain w1 where w1: "fc_inv T P w1" "current_document T P w1 = Inr d"
    "bindE (liftE (f d)) (\<lambda>(answer, document). bindE (liftE (document_render T document)) (\<lambda>text.
      bindE (map_errE (\<lambda>_. Unavailable) (replace_file P text)) (\<lambda>_. retE answer))) w1 = (r, w')"
    using change_loads [OF w, of f] d h by (metis bindE_liftE_Inr)
  have i: "toml_ok T" "dk_fates w1 = []" "\<And>p n. dk_files w1 (config_directory P, staged_name (fcg_name P) p n) = None"
    using w1(1) by (simp_all add: fc_inv_def)
  show ?thesis
  proof (cases "f d")
    case (Inl e)
    with w1 show ?thesis by auto
  next
    case (Inr x)
    obtain a d' where x: "x = (a, d')" by (cases x)
    with f Inr obtain s where s: "document_render T d' = Inr s" "document_parse T s = Inr d'"
      using document_render_parse [OF i(1)] by blast
    obtain w2 where w2: "replace_file P s w1 = (Inr (), w2)" "dk_fates w2 = []"
      "dk_files w2 = (dk_files w1)(config_file P \<mapsto> s)"
      using replace_works [OF i(2,3)] by blast
    with w1(3) Inr x s(1) have "r = Inr a" "w' = w2" by simp_all
    moreover have "fc_inv T P w2" using w2(2,3) i by (simp add: fc_inv_def)
    ultimately show ?thesis
      using Inr x s(2) w2(3) by (simp add: current_document_def)
  qed
qed

section \<open>The contract\<close>

lemma fc_bt_wf:
  assumes "fc_inv T P w" "current_document T P w = Inr d"
  shows "wf_document d"
  using assms document_parse_wf [of T] by (auto simp: fc_inv_def current_document_def split: option.splits)

lemmas file_ops =
  file_insert_namespace_def file_remove_namespace_def file_set_mount_def file_insert_binding_def file_remove_binding_def

lemmas file_reads = file_namespace_def file_namespaces_def file_binding_def file_has_bindings_def

lemma file_reads_eq:
  assumes "fc_inv T P w" "current_document T P w = Inr d"
  shows "file_namespace T P k w = (Inr (map_option (\<lambda>m. \<lparr>ns_key = k, ns_mount = m\<rparr>) (map_of (dc_namespaces d) k)), w)"
    and "file_namespaces T P w = (Inr (map (\<lambda>(k, m). \<lparr>ns_key = k, ns_mount = m\<rparr>) (dc_namespaces d)), w)"
    and "file_binding T P a w = (Inr (map_of (dc_bindings d) a), w)"
    and "file_has_bindings T P k w = (Inr (\<exists>a. in_namespace k a \<and> map_of (dc_bindings d) a \<noteq> None), w)"
proof -
  have l: "config_load T P w = (Inr d, w)" using assms by (simp add: load_works fc_inv_def)
  show "file_namespace T P k w = (Inr (map_option (\<lambda>m. \<lparr>ns_key = k, ns_mount = m\<rparr>) (map_of (dc_namespaces d) k)), w)"
    and "file_namespaces T P w = (Inr (map (\<lambda>(k, m). \<lparr>ns_key = k, ns_mount = m\<rparr>) (dc_namespaces d)), w)"
    and "file_binding T P a w = (Inr (map_of (dc_bindings d) a), w)"
    by (simp_all add: file_reads l)
  have "list_ex (in_namespace k) (map fst (dc_bindings d)) \<longleftrightarrow> (\<exists>a. in_namespace k a \<and> map_of (dc_bindings d) a \<noteq> None)"
    by (auto simp: list_ex_iff bt_keys_map_of [symmetric] simp del: not_None_eq)
  moreover have "in_namespace k = (\<lambda>a. sc_tenant (ad_scope a) = nk_tenant k \<and> sc_namespace (ad_scope a) = nk_namespace k)"
    by (simp add: in_namespace_def fun_eq_iff)
  ultimately show "file_has_bindings T P k w = (Inr (\<exists>a. in_namespace k a \<and> map_of (dc_bindings d) a \<noteq> None), w)"
    by (simp add: file_has_bindings_def l)
qed

lemma file_down:
  assumes "fc_inv T P w" "\<not> fc_up T P w"
  shows "all_down (file_config_store T P) w"
proof -
  from assms(2) obtain e where "current_document T P w = Inl e" by (cases "current_document T P w") (auto simp: fc_up_def)
  with current_document_Inl have c: "current_document T P w = Inl Unavailable" by metis
  have l: "config_load T P w = (Inl Unavailable, w)" using assms(1) c by (simp add: load_works fc_inv_def)
  with l show ?thesis
    by (simp add: all_down_def answers_down_def refuses_down_def file_config_store_def file_ops file_reads
        change_down [OF assms(1) c])
qed

text \<open>What a change that works does to the mounts and the bindings.\<close>

lemma file_change:
  assumes w: "fc_inv T P w" "fc_up T P w" and h: "config_change T P f w = (r, w')"
    and f: "\<forall>d a d'. wf_document d \<longrightarrow> f d = Inr (a, d') \<longrightarrow> wf_document d'"
  shows "fc_inv T P w' \<and> fc_up T P w' \<and> (\<exists>d. wf_document d \<and>
    fc_mounts T P w = map_of (dc_namespaces d) \<and> fc_bound T P w = map_of (dc_bindings d) \<and>
    (case f d of
       Inl e \<Rightarrow> r = Inl e \<and> fc_mounts T P w' = fc_mounts T P w \<and> fc_bound T P w' = fc_bound T P w
     | Inr (a, d') \<Rightarrow> r = Inr a \<and> fc_mounts T P w' = map_of (dc_namespaces d') \<and>
         fc_bound T P w' = map_of (dc_bindings d')))"
proof -
  from w(2) obtain d where d: "current_document T P w = Inr d" by (auto simp: fc_up_def)
  note wd = fc_bt_wf [OF w(1) d]
  from change_works [OF w(1) h d] f wd have c: "fc_inv T P w' \<and>
    (case f d of Inl e \<Rightarrow> r = Inl e \<and> current_document T P w' = Inr d
     | Inr (a, d') \<Rightarrow> r = Inr a \<and> current_document T P w' = Inr d')" by blast
  show ?thesis
  proof (cases "f d")
    case (Inl e)
    with c d wd show ?thesis by (auto simp: fc_up_def fc_mounts_def fc_bound_def)
  next
    case (Inr x)
    with c d wd show ?thesis
      by (cases x) (auto simp: fc_up_def fc_mounts_def fc_bound_def intro!: exI [of _ d])
  qed
qed

interpretation fc: config_contract "file_config_store T P" "fc_inv T P" "fc_up T P" "fc_mounts T P" "fc_bound T P" "\<lambda>_. ()"
proof (unfold_locales, goal_cases)
  case (1 w)
  then show ?case by (rule file_down)
next
  case (2 w k)
  then obtain d where "current_document T P w = Inr d" by (auto simp: fc_up_def)
  with file_reads_eq(1) [OF 2(1) this] show ?case by (simp add: file_config_store_def fc_mounts_def)
next
  case (3 w)
  then obtain d where d: "current_document T P w = Inr d" by (auto simp: fc_up_def)
  with file_reads_eq(2) [OF 3(1) d] fc_bt_wf [OF 3(1) d] show ?case
    by (auto simp: file_config_store_def fc_mounts_def wf_document_def)
next
  case (4 w a)
  then obtain d where "current_document T P w = Inr d" by (auto simp: fc_up_def)
  with file_reads_eq(3) [OF 4(1) this] show ?case by (simp add: file_config_store_def fc_bound_def)
next
  case (5 w k)
  then obtain d where "current_document T P w = Inr d" by (auto simp: fc_up_def)
  with file_reads_eq(4) [OF 5(1) this] show ?case by (simp add: file_config_store_def fc_bound_def)
next
  case (6 w n r w')
  define f where "f = ((\<lambda>d. if bt_contains (ns_key n) (dc_namespaces d) then Inl Conflict
    else Inr ((), d\<lparr>dc_namespaces := bt_put (ns_key n) (ns_mount n) (dc_namespaces d)\<rparr>)) :: 'a document \<Rightarrow> storage_error + unit \<times> 'a document)"
  have h: "config_change T P f w = (r, w')" using 6(3) by (simp add: file_config_store_def file_insert_namespace_def f_def)
  have "\<forall>d a d'. wf_document d \<longrightarrow> f d = Inr (a, d') \<longrightarrow> wf_document d'"
    by (auto simp: f_def wf_document_def bt_remove_def split: if_splits option.splits)
  from file_change [OF 6(1,2) h this] obtain d where "fc_inv T P w'" "fc_up T P w'" "wf_document d"
    "fc_mounts T P w = map_of (dc_namespaces d)" "fc_bound T P w = map_of (dc_bindings d)"
    "case f d of Inl e \<Rightarrow> r = Inl e \<and> fc_mounts T P w' = fc_mounts T P w \<and> fc_bound T P w' = fc_bound T P w
     | Inr (a, d') \<Rightarrow> r = Inr a \<and> fc_mounts T P w' = map_of (dc_namespaces d') \<and> fc_bound T P w' = map_of (dc_bindings d')"
    by blast
  then show ?case by (auto simp: f_def wf_document_def bt_remove_def split: if_splits option.splits)
next
  case (7 w k r w')
  define f where "f = ((\<lambda>d. if k = local_default then Inl Conflict else
    case bt_remove k (dc_namespaces d) of (None, _) \<Rightarrow> Inl NotFound | (Some _, m) \<Rightarrow> Inr ((), d\<lparr>dc_namespaces := m\<rparr>)) :: 'a document \<Rightarrow> storage_error + unit \<times> 'a document)"
  have h: "config_change T P f w = (r, w')" using 7(4) by (simp add: file_config_store_def file_remove_namespace_def f_def)
  have "\<forall>d a d'. wf_document d \<longrightarrow> f d = Inr (a, d') \<longrightarrow> wf_document d'"
    by (auto simp: f_def wf_document_def bt_remove_def split: if_splits option.splits)
  from file_change [OF 7(1,2) h this] obtain d where "fc_inv T P w'" "fc_up T P w'" "wf_document d"
    "fc_mounts T P w = map_of (dc_namespaces d)" "fc_bound T P w = map_of (dc_bindings d)"
    "case f d of Inl e \<Rightarrow> r = Inl e \<and> fc_mounts T P w' = fc_mounts T P w \<and> fc_bound T P w' = fc_bound T P w
     | Inr (a, d') \<Rightarrow> r = Inr a \<and> fc_mounts T P w' = map_of (dc_namespaces d') \<and> fc_bound T P w' = map_of (dc_bindings d')"
    by blast
  then show ?case using 7(3) by (auto simp: f_def wf_document_def bt_remove_def split: if_splits option.splits)
next
  case (8 w k b r w')
  define f where "f = ((\<lambda>d. case map_of (dc_namespaces d) k of None \<Rightarrow> Inl NotFound
    | Some _ \<Rightarrow> Inr ((), d\<lparr>dc_namespaces := bt_put k (Some b) (dc_namespaces d)\<rparr>)) :: 'a document \<Rightarrow> storage_error + unit \<times> 'a document)"
  have h: "config_change T P f w = (r, w')" using 8(3) by (simp add: file_config_store_def file_set_mount_def f_def)
  have "\<forall>d a d'. wf_document d \<longrightarrow> f d = Inr (a, d') \<longrightarrow> wf_document d'"
    by (auto simp: f_def wf_document_def bt_remove_def split: if_splits option.splits)
  from file_change [OF 8(1,2) h this] obtain d where "fc_inv T P w'" "fc_up T P w'" "wf_document d"
    "fc_mounts T P w = map_of (dc_namespaces d)" "fc_bound T P w = map_of (dc_bindings d)"
    "case f d of Inl e \<Rightarrow> r = Inl e \<and> fc_mounts T P w' = fc_mounts T P w \<and> fc_bound T P w' = fc_bound T P w
     | Inr (a, d') \<Rightarrow> r = Inr a \<and> fc_mounts T P w' = map_of (dc_namespaces d') \<and> fc_bound T P w' = map_of (dc_bindings d')"
    by blast
  then show ?case by (auto simp: f_def wf_document_def bt_remove_def split: if_splits option.splits)
next
  case (9 w a l r w')
  define f where "f = ((\<lambda>d. if bt_contains a (dc_bindings d) then Inl Conflict
    else Inr ((), d\<lparr>dc_bindings := bt_put a l (dc_bindings d)\<rparr>)) :: 'a document \<Rightarrow> storage_error + unit \<times> 'a document)"
  have h: "config_change T P f w = (r, w')" using 9(3) by (simp add: file_config_store_def file_insert_binding_def f_def)
  have "\<forall>d a d'. wf_document d \<longrightarrow> f d = Inr (a, d') \<longrightarrow> wf_document d'"
    by (auto simp: f_def wf_document_def bt_remove_def split: if_splits option.splits)
  from file_change [OF 9(1,2) h this] obtain d where "fc_inv T P w'" "fc_up T P w'" "wf_document d"
    "fc_mounts T P w = map_of (dc_namespaces d)" "fc_bound T P w = map_of (dc_bindings d)"
    "case f d of Inl e \<Rightarrow> r = Inl e \<and> fc_mounts T P w' = fc_mounts T P w \<and> fc_bound T P w' = fc_bound T P w
     | Inr (a, d') \<Rightarrow> r = Inr a \<and> fc_mounts T P w' = map_of (dc_namespaces d') \<and> fc_bound T P w' = map_of (dc_bindings d')"
    by blast
  then show ?case by (auto simp: f_def wf_document_def bt_remove_def split: if_splits option.splits)
next
  case (10 w a r w')
  define f where "f = ((\<lambda>d. case bt_remove a (dc_bindings d) of (None, _) \<Rightarrow> Inl NotFound
    | (Some _, m) \<Rightarrow> Inr ((), d\<lparr>dc_bindings := m\<rparr>)) :: 'a document \<Rightarrow> storage_error + unit \<times> 'a document)"
  have h: "config_change T P f w = (r, w')" using 10(3) by (simp add: file_config_store_def file_remove_binding_def f_def)
  have "\<forall>d a d'. wf_document d \<longrightarrow> f d = Inr (a, d') \<longrightarrow> wf_document d'"
    by (auto simp: f_def wf_document_def bt_remove_def split: if_splits option.splits)
  from file_change [OF 10(1,2) h this] obtain d where "fc_inv T P w'" "fc_up T P w'" "wf_document d"
    "fc_mounts T P w = map_of (dc_namespaces d)" "fc_bound T P w = map_of (dc_bindings d)"
    "case f d of Inl e \<Rightarrow> r = Inl e \<and> fc_mounts T P w' = fc_mounts T P w \<and> fc_bound T P w' = fc_bound T P w
     | Inr (a, d') \<Rightarrow> r = Inr a \<and> fc_mounts T P w' = map_of (dc_namespaces d') \<and> fc_bound T P w' = map_of (dc_bindings d')"
    by blast
  then show ?case by (auto simp: f_def wf_document_def bt_remove_def split: if_splits option.splits)
qed

end
