(* ===== verification/File_Properties.thy ===== *)
theory File_Properties
  imports File_Contract Countable_Custody
begin

text \<open>
  The properties of the configuration file: it behaves as the store in memory, its text is read back
  as it was written with every key that is not the store's, and no reader ever sees a part of it.
\<close>

section \<open>Two stores that keep the contract\<close>

datatype config_request =
  NamespaceQuery namespace_key
| NamespacesQuery
| NamespaceInsert namespace
| NamespaceRemove namespace_key
| MountSet namespace_key backend_ref
| BindingQuery address
| BindingsQuery namespace_key
| BindingInsert address locator
| BindingRemove address

datatype config_answer =
  NamespaceAns "storage_error + namespace option"
| NamespacesAns "storage_error + namespace list"
| ConfigDone "storage_error + unit"
| BindingAns "storage_error + locator option"
| BindingsAns "storage_error + bool"

fun config_perform :: "'w namespace_config \<Rightarrow> config_request \<Rightarrow> 'w \<Rightarrow> config_answer \<times> 'w" where
  "config_perform C (NamespaceQuery k) w = apfst NamespaceAns (cfg_namespace C k w)"
| "config_perform C NamespacesQuery w = apfst NamespacesAns (cfg_namespaces C w)"
| "config_perform C (NamespaceInsert n) w = apfst ConfigDone (cfg_insert_namespace C n w)"
| "config_perform C (NamespaceRemove k) w = apfst ConfigDone (cfg_remove_namespace C k w)"
| "config_perform C (MountSet k b) w = apfst ConfigDone (cfg_set_mount C k b w)"
| "config_perform C (BindingQuery a) w = apfst BindingAns (cfg_binding C a w)"
| "config_perform C (BindingsQuery k) w = apfst BindingsAns (cfg_has_bindings C k w)"
| "config_perform C (BindingInsert a l) w = apfst ConfigDone (cfg_insert_binding C a l w)"
| "config_perform C (BindingRemove a) w = apfst ConfigDone (cfg_remove_binding C a w)"

fun config_run :: "'w namespace_config \<Rightarrow> config_request list \<Rightarrow> 'w \<Rightarrow> config_answer list" where
  "config_run C [] w = []"
| "config_run C (q # qs) w = (case config_perform C q w of (r, w) \<Rightarrow> r # config_run C qs w)"

lemma namespaces_alike:
  assumes "config_contract C ok up mounts bound rest" "config_contract D ok' up' mounts' bound' rest'"
    and "ok w" "up w" "ok' v" "up' v" "mounts w = mounts' v"
  shows "\<exists>rows. cfg_namespaces C w = (Inr rows, w) \<and> cfg_namespaces D v = (Inr rows, v)"
proof -
  obtain l m where "bt_wf l" "map_of l = mounts w" "cfg_namespaces C w = (Inr (map (\<lambda>(k, m). \<lparr>ns_key = k, ns_mount = m\<rparr>) l), w)"
    "bt_wf m" "map_of m = mounts' v" "cfg_namespaces D v = (Inr (map (\<lambda>(k, m). \<lparr>ns_key = k, ns_mount = m\<rparr>) m), v)"
    using config_contract.get_namespaces [OF assms(1)] config_contract.get_namespaces [OF assms(2)] assms(3-6) by metis
  with bt_eqI [of l m] assms(7) show ?thesis by simp
qed

lemma stores_alike:
  assumes C: "config_contract C ok up mounts bound rest" and D: "config_contract D ok' up' mounts' bound' rest'"
    and w: "ok w" "up w" and v: "ok' v" "up' v" and same: "mounts w = mounts' v" "bound w = bound' v"
    and q: "q \<noteq> NamespaceRemove local_default"
    and h: "config_perform C q w = (r, w')" "config_perform D q v = (s, v')"
  shows "r = s \<and> ok w' \<and> up w' \<and> ok' v' \<and> up' v' \<and> mounts w' = mounts' v' \<and> bound w' = bound' v'"
proof (cases q)
  case (NamespaceQuery k)
  then show ?thesis
    using h w v same config_contract.get_namespace [OF C w] config_contract.get_namespace [OF D v] by auto
next
  case NamespacesQuery
  then show ?thesis using h w v same namespaces_alike [OF C D w v same(1)] by auto
next
  case (BindingQuery a)
  then show ?thesis
    using h w v same config_contract.get_binding [OF C w] config_contract.get_binding [OF D v] by auto
next
  case (BindingsQuery k)
  then show ?thesis
    using h w v same config_contract.get_has_bindings [OF C w] config_contract.get_has_bindings [OF D v] by auto
next
  case (NamespaceInsert n)
  obtain x y where x: "cfg_insert_namespace C n w = (x, w')" "cfg_insert_namespace D n v = (y, v')"
    "r = ConfigDone x" "s = ConfigDone y"
    using h NamespaceInsert by (cases "cfg_insert_namespace C n w"; cases "cfg_insert_namespace D n v") auto
  from config_contract.insert_namespace [OF C w x(1)] config_contract.insert_namespace [OF D v x(2)] same x(3,4)
  show ?thesis by (auto split: if_splits)
next
  case (NamespaceRemove k)
  obtain x y where x: "cfg_remove_namespace C k w = (x, w')" "cfg_remove_namespace D k v = (y, v')"
    "r = ConfigDone x" "s = ConfigDone y"
    using h NamespaceRemove by (cases "cfg_remove_namespace C k w"; cases "cfg_remove_namespace D k v") auto
  have "k \<noteq> local_default" using q NamespaceRemove by simp
  from config_contract.remove_namespace [OF C w this x(1)] config_contract.remove_namespace [OF D v this x(2)] same x(3,4)
  show ?thesis by auto
next
  case (MountSet k b)
  obtain x y where x: "cfg_set_mount C k b w = (x, w')" "cfg_set_mount D k b v = (y, v')"
    "r = ConfigDone x" "s = ConfigDone y"
    using h MountSet by (cases "cfg_set_mount C k b w"; cases "cfg_set_mount D k b v") auto
  from config_contract.set_mount [OF C w x(1)] config_contract.set_mount [OF D v x(2)] same x(3,4)
  show ?thesis by (auto split: if_splits)
next
  case (BindingInsert a l)
  obtain x y where x: "cfg_insert_binding C a l w = (x, w')" "cfg_insert_binding D a l v = (y, v')"
    "r = ConfigDone x" "s = ConfigDone y"
    using h BindingInsert by (cases "cfg_insert_binding C a l w"; cases "cfg_insert_binding D a l v") auto
  from config_contract.insert_binding [OF C w x(1)] config_contract.insert_binding [OF D v x(2)] same x(3,4)
  show ?thesis by (auto split: if_splits)
next
  case (BindingRemove a)
  obtain x y where x: "cfg_remove_binding C a w = (x, w')" "cfg_remove_binding D a v = (y, v')"
    "r = ConfigDone x" "s = ConfigDone y"
    using h BindingRemove by (cases "cfg_remove_binding C a w"; cases "cfg_remove_binding D a v") auto
  from config_contract.remove_binding [OF C w x(1)] config_contract.remove_binding [OF D v x(2)] same x(3,4)
  show ?thesis by auto
qed

lemma runs_alike:
  assumes C: "config_contract C ok up mounts bound rest" and D: "config_contract D ok' up' mounts' bound' rest'"
  shows "ok w \<Longrightarrow> up w \<Longrightarrow> ok' v \<Longrightarrow> up' v \<Longrightarrow> mounts w = mounts' v \<Longrightarrow> bound w = bound' v \<Longrightarrow>
    NamespaceRemove local_default \<notin> set qs \<Longrightarrow> config_run C qs w = config_run D qs v"
proof (induction qs arbitrary: w v)
  case (Cons q qs)
  obtain r w' s v' where h: "config_perform C q w = (r, w')" "config_perform D q v = (s, v')" by fastforce
  have "q \<noteq> NamespaceRemove local_default" using Cons.prems(7) by auto
  note s = stores_alike [OF C D Cons.prems(1-6) this h]
  with Cons.IH [of w' v'] Cons.prems(7) h show ?case by simp
qed simp

text \<open>A store that refuses to remove the local default, and is otherwise the one given.\<close>

definition keeping_default :: "'w namespace_config \<Rightarrow> 'w namespace_config" where
  "keeping_default C = C\<lparr>cfg_remove_namespace := \<lambda>k w.
     if k = local_default then (Inl Conflict, w) else cfg_remove_namespace C k w\<rparr>"

lemma perform_keeping_default:
  "config_perform (keeping_default C) q w =
     (if q = NamespaceRemove local_default then (ConfigDone (Inl Conflict), w) else config_perform C q w)"
  by (cases q) (auto simp: keeping_default_def)

lemma run_keeping_default:
  "NamespaceRemove local_default \<notin> set qs \<Longrightarrow> config_run (keeping_default C) qs w = config_run C qs w"
  by (induction qs arbitrary: w) (auto simp: perform_keeping_default split: prod.split)

lemma file_keeps_default:
  assumes "fc_inv T P w" "fc_up T P w" "file_remove_namespace T P local_default w = (r, w')"
  shows "r = Inl Conflict \<and> fc_inv T P w' \<and> fc_up T P w' \<and> fc_mounts T P w' = fc_mounts T P w \<and>
    fc_bound T P w' = fc_bound T P w"
  using file_change [OF assms(1,2), of "\<lambda>d. Inl Conflict" r w'] assms(3)
  by (auto simp: file_remove_namespace_def)

lemma file_runs:
  assumes "fc_inv T P w" "fc_up T P w" "mc_inv m" "mc_up m" "fc_mounts T P w = mc_mounts m" "fc_bound T P w = mc_bound m"
  shows "config_run (file_config_store T P) qs w = config_run (keeping_default mem_config_store) qs m"
  using assms
proof (induction qs arbitrary: w m)
  case (Cons q qs)
  obtain r w' s m' where h: "config_perform (file_config_store T P) q w = (r, w')"
    "config_perform (keeping_default mem_config_store) q m = (s, m')" by fastforce
  have "r = s \<and> fc_inv T P w' \<and> fc_up T P w' \<and> mc_inv m' \<and> mc_up m' \<and>
      fc_mounts T P w' = mc_mounts m' \<and> fc_bound T P w' = mc_bound m'"
  proof (cases "q = NamespaceRemove local_default")
    case True
    with h obtain x where "file_remove_namespace T P local_default w = (x, w')" "r = ConfigDone x"
      by (cases "file_remove_namespace T P local_default w") (auto simp: file_config_store_def)
    moreover have "s = ConfigDone (Inl Conflict)" "m' = m"
      using h(2) unfolding True perform_keeping_default by simp_all
    ultimately show ?thesis
      using file_keeps_default [OF Cons.prems(1,2)] Cons.prems by auto
  next
    case False
    with h(2) have "config_perform mem_config_store q m = (s, m')" by (simp add: perform_keeping_default)
    from stores_alike [OF fc.config_contract_axioms mc.config_contract_axioms Cons.prems False h(1) this]
    show ?thesis .
  qed
  with Cons.IH [of w' m'] h show ?case by simp
qed simp

section \<open>A TOML library to evaluate\<close>

instance secret_name :: countable by countable_datatype
instance scope_name :: countable by countable_datatype
instance locator :: countable by countable_datatype
instance backend_kind :: countable by countable_datatype

instance backend_ref_ext :: (countable) countable
  by (rule countable_classI [of "\<lambda>b. to_nat (br_kind b, br_label b, backend_ref.more b)"]) (simp add: backend_ref.equality)

instance namespace_record_ext :: (countable) countable
  by (rule countable_classI [of "\<lambda>r. to_nat (nr_tenant r, nr_name r, nr_mount r, namespace_record.more r)"])
    (simp add: namespace_record.equality)

instance binding_record_ext :: (countable) countable
  by (rule countable_classI [of "\<lambda>r. to_nat (bd_tenant r, bd_namespace r, bd_user r, bd_name r, bd_locator r, binding_record.more r)"])
    (simp add: binding_record.equality)

datatype example_value = NamespacesValue "namespace_record list" | BindingsValue "binding_record list" | OtherValue nat

instance example_value :: countable by countable_datatype

text \<open>A table as the place it has in an enumeration, in unary; the empty file is the empty table.\<close>

definition example_toml :: "example_value toml" where
  "example_toml =
     \<lparr>tm_parse = (\<lambda>s. if s = [] then Some [] else
        let t = from_nat (length s - 1) in if bt_wf t then Some t else None),
      tm_get_namespaces = (\<lambda>v. case v of NamespacesValue rs \<Rightarrow> Some rs | _ \<Rightarrow> None),
      tm_get_bindings = (\<lambda>v. case v of BindingsValue rs \<Rightarrow> Some rs | _ \<Rightarrow> None),
      tm_put_namespaces = (\<lambda>rs. Some (NamespacesValue rs)), tm_put_bindings = (\<lambda>rs. Some (BindingsValue rs)),
      tm_render = (\<lambda>t. Some (replicate (to_nat t + 1) CHR ''x''))\<rparr>"

lemma example_toml_ok: "toml_ok example_toml"
  by (auto simp: toml_ok_def example_toml_def Let_def split: if_splits)

definition example_path :: file_config where
  "example_path = \<lparr>fcg_parent = ''b10x-secrets'', fcg_name = ''config.toml''\<rparr>"

definition empty_disk :: "fate list \<Rightarrow> disk" where
  "empty_disk fates = \<lparr>dk_files = Map.empty, dk_fates = fates, dk_times = [], dk_pid = 7, dk_seen = []\<rparr>"

lemma empty_disk_current:
  "current_document example_toml P (empty_disk fates) =
     Inr \<lparr>dc_rest = [], dc_namespaces = [(local_default, None)], dc_bindings = []\<rparr>"
  by (simp add: current_document_def empty_disk_def document_parse_def example_toml_def toml_records_def bt_remove_def
      bt_del_def Let_def)

lemma empty_disk_ok: "fc_inv example_toml P (empty_disk [])" "fc_up example_toml P (empty_disk [])"
  "fc_mounts example_toml P (empty_disk []) = [local_default \<mapsto> None]" "fc_bound example_toml P (empty_disk []) = Map.empty"
  by (simp_all add: fc_inv_def example_toml_ok fc_up_def fc_mounts_def fc_bound_def empty_disk_current)
    (simp add: empty_disk_def)

section \<open>Properties\<close>

text \<open>
  C30: where no system call fails, the store over a file answers every sequence of requests as the store
  in memory does, from any file that says what the memory holds, with one difference: removing the local
  default is \<open>Conflict\<close> and changes nothing. A sequence without that request, which routing never sends,
  is answered by both alike.
\<close>

theorem file_store_is_memory_store:
  assumes "fc_inv T P w" "fc_up T P w" "mc_inv m" "mc_up m"
    and "fc_mounts T P w = mc_mounts m" "fc_bound T P w = mc_bound m"
  shows "config_run (file_config_store T P) qs w = config_run (keeping_default mem_config_store) qs m \<and>
    (NamespaceRemove local_default \<notin> set qs \<longrightarrow>
      config_run (file_config_store T P) qs w = config_run mem_config_store qs m)"
  using file_runs [OF assms, of qs] run_keeping_default [of qs mem_config_store m] by simp

text \<open>A namespace is added and mounted, the local default stays, the other goes again.\<close>

definition example_key :: namespace_key where
  "example_key = \<lparr>nk_tenant = default_name, nk_namespace = ScopeName ''work''\<rparr>"

definition example_requests :: "config_request list" where
  "example_requests = [NamespaceInsert \<lparr>ns_key = example_key, ns_mount = None\<rparr>, MountSet example_key default_mount,
     NamespaceRemove local_default, NamespacesQuery, NamespaceRemove example_key, NamespacesQuery]"

lemma example_requests_answers:
  "config_run (keeping_default mem_config_store) example_requests mem_local =
    [ConfigDone (Inr ()), ConfigDone (Inr ()), ConfigDone (Inl Conflict),
     NamespacesAns (Inr [\<lparr>ns_key = local_default, ns_mount = None\<rparr>, \<lparr>ns_key = example_key, ns_mount = Some default_mount\<rparr>]),
     ConfigDone (Inr ()), NamespacesAns (Inr [\<lparr>ns_key = local_default, ns_mount = None\<rparr>])]"
  by code_simp

theorem file_store_is_memory_store_witness:
  "config_run (file_config_store example_toml example_path) example_requests (empty_disk []) =
    [ConfigDone (Inr ()), ConfigDone (Inr ()), ConfigDone (Inl Conflict),
     NamespacesAns (Inr [\<lparr>ns_key = local_default, ns_mount = None\<rparr>, \<lparr>ns_key = example_key, ns_mount = Some default_mount\<rparr>]),
     ConfigDone (Inr ()), NamespacesAns (Inr [\<lparr>ns_key = local_default, ns_mount = None\<rparr>])]"
  using file_store_is_memory_store [OF empty_disk_ok(1,2) mem_local_view(1,2), of example_path example_requests]
  by (simp add: empty_disk_ok example_requests_answers)

text \<open>
  C31: a document is written and read back as it is, with every key of the file that is not the
  store's; the text of a document that was read always renders.
\<close>

theorem document_roundtrip:
  assumes "toml_ok T" "document_parse T old = Inr d"
    and "bt_wf ns" "map_of ns local_default \<noteq> None" "bt_wf bs"
  shows "\<exists>new. document_render T (d\<lparr>dc_namespaces := ns, dc_bindings := bs\<rparr>) = Inr new \<and>
    document_parse T new = Inr \<lparr>dc_rest = dc_rest d, dc_namespaces = ns, dc_bindings = bs\<rparr>"
proof -
  have "wf_document (d\<lparr>dc_namespaces := ns, dc_bindings := bs\<rparr>)"
    using document_parse_wf [OF assms(1,2)] assms(3-5) by (simp add: wf_document_def)
  moreover have "d\<lparr>dc_namespaces := ns, dc_bindings := bs\<rparr> = \<lparr>dc_rest = dc_rest d, dc_namespaces = ns, dc_bindings = bs\<rparr>"
    by (rule document.equality) simp_all
  ultimately show ?thesis using document_render_parse [OF assms(1)] by metis
qed

theorem document_roundtrip_witness:
  "\<exists>new. document_render example_toml \<lparr>dc_rest = [], dc_namespaces = [(local_default, Some default_mount)], dc_bindings = []\<rparr> = Inr new \<and>
     document_parse example_toml new = Inr \<lparr>dc_rest = [], dc_namespaces = [(local_default, Some default_mount)], dc_bindings = []\<rparr>"
proof -
  have "document_parse example_toml [] = Inr \<lparr>dc_rest = [], dc_namespaces = [(local_default, None)], dc_bindings = []\<rparr>"
    using empty_disk_current [of example_path "[]"] by (simp add: current_document_def empty_disk_def)
  then have "\<exists>new. document_render example_toml
      (\<lparr>dc_rest = [], dc_namespaces = [(local_default, None)], dc_bindings = []\<rparr>\<lparr>dc_namespaces := [(local_default, Some default_mount)],
        dc_bindings := []\<rparr>) = Inr new \<and>
      document_parse example_toml new = Inr \<lparr>dc_rest = dc_rest \<lparr>dc_rest = [], dc_namespaces = [(local_default, None)], dc_bindings = []\<rparr>,
        dc_namespaces = [(local_default, Some default_mount)], dc_bindings = []\<rparr>"
    by (rule document_roundtrip [OF example_toml_ok]) (simp_all add: bt_wf_def)
  then show ?thesis by simp
qed

text \<open>
  C32: whatever system calls fail, and wherever, every file another process may see while a change
  runs is the whole old text or the whole text of the changed document. A change that is answered is
  in the file; one that is refused is not; and only \<open>Unavailable\<close> leaves open which of the two.
\<close>

theorem config_file_is_never_partial:
  assumes "config_change T P f w = (r, w')"
  shows "\<exists>new. dk_seen w' = dk_seen w @ new \<and>
    (\<forall>fs \<in> set new. fs (config_file P) = dk_files w (config_file P) \<or>
       (\<exists>d a d' t. current_document T P w = Inr d \<and> f d = Inr (a, d') \<and> document_render T d' = Inr t \<and>
          fs (config_file P) = Some t)) \<and>
    (case r of
       Inr a \<Rightarrow> \<exists>d d' t. current_document T P w = Inr d \<and> f d = Inr (a, d') \<and> document_render T d' = Inr t \<and>
         dk_files w' (config_file P) = Some t
     | Inl e \<Rightarrow> dk_files w' (config_file P) = dk_files w (config_file P) \<or>
         e = Unavailable \<and> (\<exists>d a d' t. current_document T P w = Inr d \<and> f d = Inr (a, d') \<and>
           document_render T d' = Inr t \<and> dk_files w' (config_file P) = Some t))"
  using config_change_shows [OF assms] unfolding shows_only_def changed_text_def
  by (elim conjE exE) (rule exI, rule conjI, assumption, rule conjI, fastforce, auto split: sum.splits)

definition example_bound :: address where
  "example_bound =
     \<lparr>ad_scope = \<lparr>sc_tenant = default_name, sc_namespace = default_name, sc_user = default_name\<rparr>, ad_name = SecretName ''openai''\<rparr>"

definition example_locator :: locator where
  "example_locator = Locator ''op://Work/OpenAI/credential''"

theorem config_file_is_never_partial_witness:
  "\<exists>r w'. file_insert_binding example_toml example_path example_bound example_locator (empty_disk [Works, Works, Works, Works, Works, Breaks 3]) = (r, w') \<and>
     (\<forall>fs \<in> set (dk_seen w'). fs (config_file example_path) = None \<or>
        (\<exists>t. document_render example_toml \<lparr>dc_rest = [], dc_namespaces = [(local_default, None)], dc_bindings = [(example_bound, example_locator)]\<rparr> = Inr t \<and>
          fs (config_file example_path) = Some t))"
proof -
  let ?w = "empty_disk [Works, Works, Works, Works, Works, Breaks 3]"
  obtain r w' where h: "file_insert_binding example_toml example_path example_bound example_locator ?w = (r, w')" by fastforce
  from config_file_is_never_partial [OF h [unfolded file_insert_binding_def]] obtain new where
    "dk_seen w' = dk_seen ?w @ new"
    "\<forall>fs \<in> set new. fs (config_file example_path) = dk_files ?w (config_file example_path) \<or>
       (\<exists>d x d' t. current_document example_toml example_path ?w = Inr d \<and>
          (if bt_contains example_bound (dc_bindings d) then Inl Conflict else Inr ((), d\<lparr>dc_bindings := bt_put example_bound example_locator (dc_bindings d)\<rparr>)) = Inr (x, d') \<and>
          document_render example_toml d' = Inr t \<and> fs (config_file example_path) = Some t)"
    by blast
  moreover have "dk_seen ?w = []" "dk_files ?w (config_file example_path) = None" by (simp_all add: empty_disk_def)
  ultimately have "\<forall>fs \<in> set (dk_seen w'). fs (config_file example_path) = None \<or>
      (\<exists>t. document_render example_toml \<lparr>dc_rest = [], dc_namespaces = [(local_default, None)],
         dc_bindings = [(example_bound, example_locator)]\<rparr> = Inr t \<and> fs (config_file example_path) = Some t)"
    by (simp add: empty_disk_current)
  with h show ?thesis by blast
qed

end
