(* ===== verification/Keychain.thy ===== *)
theory Keychain
  imports Storage_Contract Storage_Names Custody Byte_Codec
begin

text \<open>
  The keychain of the operating system as a storage backend (\<open>crates/secrets-keychain/src/lib.rs\<close>):
  the key of an address, the stored form of a value, and the methods over the credential store. The
  store is another crate's (\<open>keyring_core\<close>), so its calls are the record \<open>credential_store\<close>, over a
  state \<open>'s\<close>, entries \<open>'e\<close> and errors other than \<open>NoEntry\<close> of a type \<open>'x\<close>; so are the hyphenated
  text of a UUID and \<open>Uuid::from_slice\<close>. The world holds the state of the store, the UUIDs still to be
  drawn, whether the mutex \<open>changes\<close> is poisoned, and whether the runtime still runs blocking tasks.
\<close>

section \<open>Keys\<close>

definition default_service :: string where "default_service = ''b10x-secrets''"

definition entry_user :: "address \<Rightarrow> string" where
  "entry_user a =
     scope_str (sc_tenant (ad_scope a)) @ ''/'' @ scope_str (sc_namespace (ad_scope a)) @ ''/'' @
     scope_str (sc_user (ad_scope a)) @ ''/'' @ name_str (ad_name a)"

fun next_scope :: "string list \<Rightarrow> (scope_name \<times> string list) option" where
  "next_scope [] = None"
| "next_scope (p # ps) = map_option (\<lambda>n. (n, ps)) (res_ok (scope_name_parse p))"

fun next_name :: "string list \<Rightarrow> secret_name option" where
  "next_name [] = None"
| "next_name (p # ps) = res_ok (secret_name_parse p)"

definition decode_user :: "string \<Rightarrow> address option" where
  "decode_user s =
     Option.bind (next_scope (splitn 4 CHR ''/'' s)) (\<lambda>(tenant, ps).
     Option.bind (next_scope ps) (\<lambda>(namespace, ps).
     Option.bind (next_scope ps) (\<lambda>(user, ps).
     Option.bind (next_name ps) (\<lambda>name.
     Some \<lparr>ad_scope = \<lparr>sc_tenant = tenant, sc_namespace = namespace, sc_user = user\<rparr>, ad_name = name\<rparr>))))"

section \<open>The credential store and the world\<close>

datatype 'x keyring_error = NoEntry | OtherError 'x

record ('s, 'e, 'x) credential_store =
  cr_build :: "string \<Rightarrow> string \<Rightarrow> ('s, 'x keyring_error, 'e) io"
  cr_get_secret :: "'e \<Rightarrow> ('s, 'x keyring_error, bytes) io"
  cr_set_secret :: "'e \<Rightarrow> bytes \<Rightarrow> ('s, 'x keyring_error, unit) io"
  cr_delete_credential :: "'e \<Rightarrow> ('s, 'x keyring_error, unit) io"
  cr_search :: "(string \<times> string) list \<Rightarrow> ('s, 'x keyring_error, 'e list) io"
  cr_get_specifiers :: "'e \<Rightarrow> (string \<times> string) option"

record uuid_crate =
  uc_from_slice :: "bytes \<Rightarrow> uuid option"
  uc_hyphenated :: "uuid \<Rightarrow> string"

record 's keychain_world =
  kw_store :: 's
  kw_ids :: "nat \<Rightarrow> uuid"
  kw_drawn :: nat
  kw_poisoned :: bool
  kw_runs :: bool

record ('s, 'e, 'x) keychain_backend =
  kb_store :: "('s, 'e, 'x) credential_store"
  kb_service :: string
  kb_uuid :: uuid_crate

definition keychain_with_service ::
  "uuid_crate \<Rightarrow> ('s, 'e, 'x) credential_store \<Rightarrow> string \<Rightarrow> ('s, 'e, 'x) keychain_backend" where
  "keychain_with_service U store service = \<lparr>kb_store = store, kb_service = service, kb_uuid = U\<rparr>"

definition keychain_new :: "uuid_crate \<Rightarrow> ('s, 'e, 'x) credential_store \<Rightarrow> ('s, 'e, 'x) keychain_backend" where
  "keychain_new U store = keychain_with_service U store default_service"

section \<open>The stored form\<close>

definition keychain_format :: byte where "keychain_format = 1"
definition header_bytes :: nat where "header_bytes = 1 + 16"

fun keychain_failure :: "'x keyring_error \<Rightarrow> storage_error" where
  "keychain_failure NoEntry = NotFound"
| "keychain_failure (OtherError x) = Unavailable"

definition draw_uuid :: "('s keychain_world, 'a, uuid) io" where
  "draw_uuid w = (Inr (kw_ids w (kw_drawn w)), w\<lparr>kw_drawn := kw_drawn w + 1\<rparr>)"

definition seal_value :: "uuid_crate \<Rightarrow> secret_value \<Rightarrow> ('s keychain_world, storage_error, bytes \<times> version) io" where
  "seal_value U v = bindE draw_uuid (\<lambda>u.
     retE (keychain_format # uuid_bytes u @ expose v, Version (uc_hyphenated U u)))"

definition open_blob :: "uuid_crate \<Rightarrow> bytes \<Rightarrow> storage_error + version \<times> bytes" where
  "open_blob U blob =
     (if length blob < header_bytes \<or> blob ! 0 \<noteq> keychain_format then Inl Unavailable
      else bindR (ok_or (uc_from_slice U (take (header_bytes - 1) (drop 1 blob))) Unavailable) (\<lambda>u.
        Inr (Version (uc_hyphenated U u), drop header_bytes blob)))"

section \<open>Calls\<close>

definition on_store :: "('s, 'e, 'a) io \<Rightarrow> ('s keychain_world, 'e, 'a) io" where
  "on_store = zoomE kw_store (\<lambda>s w. w\<lparr>kw_store := s\<rparr>)"

definition store_call :: "('s, 'x keyring_error, 'a) io \<Rightarrow> ('s keychain_world, storage_error, 'a) io" where
  "store_call m = map_errE keychain_failure (on_store m)"

definition keychain_blocking :: "('s keychain_world, storage_error, 'a) io \<Rightarrow> ('s keychain_world, storage_error, 'a) io" where
  "keychain_blocking operation w = (if kw_runs w then operation w else (Inl Unavailable, w))"

definition keychain_entry :: "('s, 'e, 'x) keychain_backend \<Rightarrow> address \<Rightarrow> ('s keychain_world, storage_error, 'e) io" where
  "keychain_entry B a = store_call (cr_build (kb_store B) (kb_service B) (entry_user a))"

definition keychain_exclusive :: "('s keychain_world, storage_error, unit) io" where
  "keychain_exclusive w = (if kw_poisoned w then Inl Unavailable else Inr (), w)"

definition stored :: "('s, 'e, 'x) keychain_backend \<Rightarrow> 'e \<Rightarrow> ('s keychain_world, storage_error, bytes option) io" where
  "stored B e w =
     (case on_store (cr_get_secret (kb_store B) e) w of
        (Inr blob, w) \<Rightarrow> (Inr (Some blob), w)
      | (Inl NoEntry, w) \<Rightarrow> (Inr None, w)
      | (Inl (OtherError x), w) \<Rightarrow> (Inl (keychain_failure (OtherError x)), w))"

section \<open>The methods\<close>

definition keychain_read ::
  "('s, 'e, 'x) keychain_backend \<Rightarrow> target \<Rightarrow> ('s keychain_world, storage_error, revealed) io" where
  "keychain_read B t = keychain_blocking (
     bindE (keychain_entry B (tg_address t)) (\<lambda>entry.
     bindE (store_call (cr_get_secret (kb_store B) entry)) (\<lambda>blob.
     bindE (liftE (open_blob (kb_uuid B) blob)) (\<lambda>(ver, v).
     bindE (liftE (secret_value_new v)) (\<lambda>v.
     retE \<lparr>rv_value = v, rv_version = Some ver\<rparr>)))))"

definition keychain_write ::
  "('s, 'e, 'x) keychain_backend \<Rightarrow> target \<Rightarrow> secret_value \<Rightarrow> ('s keychain_world, storage_error, written) io" where
  "keychain_write B t v = keychain_blocking (
     bindE keychain_exclusive (\<lambda>_.
     bindE (keychain_entry B (tg_address t)) (\<lambda>entry.
     bindE (stored B entry) (\<lambda>existed.
     bindE (seal_value (kb_uuid B) v) (\<lambda>(blob, ver).
     bindE (store_call (cr_set_secret (kb_store B) entry blob)) (\<lambda>_.
     retE (if existed \<noteq> None then Replaced (Some ver) else Created (Some ver))))))))"

definition keychain_delete ::
  "('s, 'e, 'x) keychain_backend \<Rightarrow> target \<Rightarrow> ('s keychain_world, storage_error, unit) io" where
  "keychain_delete B t = keychain_blocking (
     bindE keychain_exclusive (\<lambda>_.
     bindE (keychain_entry B (tg_address t)) (\<lambda>entry.
     store_call (cr_delete_credential (kb_store B) entry))))"

text \<open>The last steps of a rename: the source goes; when it cannot, the copy does.\<close>

definition drop_source :: "('s, 'e, 'x) keychain_backend \<Rightarrow> 'e \<Rightarrow> 'e \<Rightarrow> ('s keychain_world, storage_error, unit) io" where
  "drop_source B source destination w =
     (case on_store (cr_delete_credential (kb_store B) source) w of
        (Inr u, w) \<Rightarrow> (Inr (), w)
      | (Inl err, w) \<Rightarrow> (Inl (keychain_failure err), snd (on_store (cr_delete_credential (kb_store B) destination) w)))"

definition keychain_rename ::
  "('s, 'e, 'x) keychain_backend \<Rightarrow> target \<Rightarrow> secret_name \<Rightarrow> ('s keychain_world, storage_error, unit) io" where
  "keychain_rename B t n = keychain_blocking (
     bindE keychain_exclusive (\<lambda>_.
     bindE (keychain_entry B (tg_address t)) (\<lambda>source.
     bindE (store_call (cr_get_secret (kb_store B) source)) (\<lambda>blob.
     bindE (keychain_entry B \<lparr>ad_scope = ad_scope (tg_address t), ad_name = n\<rparr>) (\<lambda>destination.
     bindE (stored B destination) (\<lambda>taken.
     if taken \<noteq> None then failE Conflict
     else bindE (store_call (cr_set_secret (kb_store B) destination blob)) (\<lambda>_.
       drop_source B source destination)))))))"

text \<open>One entry of a search: \<open>None\<close> where the loop continues with the next.\<close>

definition list_entry ::
  "('s, 'e, 'x) keychain_backend \<Rightarrow> scope \<Rightarrow> 'e \<Rightarrow> ('s keychain_world, storage_error, secret_metadata option) io" where
  "list_entry B s entry =
     (case cr_get_specifiers (kb_store B) entry of
        None \<Rightarrow> retE None
      | Some (service, user) \<Rightarrow>
          if service \<noteq> kb_service B then retE None
          else case decode_user user of
              None \<Rightarrow> retE None
            | Some address \<Rightarrow>
                if ad_scope address \<noteq> s then retE None
                else bindE (stored B entry) (\<lambda>blob. case blob of
                    None \<Rightarrow> retE None
                  | Some blob \<Rightarrow> bindE (liftE (open_blob (kb_uuid B) blob)) (\<lambda>(ver, _).
                      retE (Some \<lparr>sm_address = address, sm_version = Some ver\<rparr>))))"

fun list_entries ::
  "('s, 'e, 'x) keychain_backend \<Rightarrow> scope \<Rightarrow> 'e list \<Rightarrow> secret_metadata list \<Rightarrow>
   ('s keychain_world, storage_error, secret_metadata list) io" where
  "list_entries B s [] listed = retE listed"
| "list_entries B s (e # es) listed = bindE (list_entry B s e) (\<lambda>row. case row of
       None \<Rightarrow> list_entries B s es listed
     | Some row \<Rightarrow> list_entries B s es (listed @ [row]))"

definition keychain_list ::
  "('s, 'e, 'x) keychain_backend \<Rightarrow> scope \<Rightarrow> ('s keychain_world, storage_error, secret_metadata list) io" where
  "keychain_list B s = keychain_blocking (
     bindE (store_call (cr_search (kb_store B) [(''service'', kb_service B)])) (\<lambda>es.
     bindE (list_entries B s es []) (\<lambda>listed.
     retE (sort listed))))"

definition keychain_storage :: "('s, 'e, 'x) keychain_backend \<Rightarrow> 's keychain_world storage" where
  "keychain_storage B =
     \<lparr>capabilities = kind_capabilities Keychain, requires_binding = False,
      st_read = keychain_read B, st_write = keychain_write B, st_delete = keychain_delete B,
      st_rename = keychain_rename B, st_list = keychain_list B\<rparr>"

end
