(* ===== verification/Keychain_Store.thy ===== *)
theory Keychain_Store
  imports Keychain
begin

text \<open>
  What the keychain backend relies on of a credential store, as the locale \<open>keyring\<close>: \<open>held\<close> is the
  blob under each (service, user), \<open>key\<close> the one an entry stands for, \<open>calm\<close> that no call fails from
  here on. A call does what it says or fails with an error that is not \<open>NoEntry\<close>. A change that fails
  may have been made or not: a \<open>set_secret\<close> may have stored the blob, a \<open>delete_credential\<close> may have
  removed it. A call that only reads changes nothing, and \<open>NoEntry\<close> is answered where nothing is held. A
  search by service answers an entry for every credential of the service, one for each pair of specifiers, and may answer
  others. Each method is then described on every store that keeps this, over any sequence of failures.
\<close>

definition keychain_key :: "('s, 'e, 'x) keychain_backend \<Rightarrow> address \<Rightarrow> string \<times> string" where
  "keychain_key B a = (kb_service B, entry_user a)"

text \<open>No call fails, the runtime runs and the mutex is not poisoned.\<close>

definition keychain_able :: "('s \<Rightarrow> bool) \<Rightarrow> 's keychain_world \<Rightarrow> bool" where
  "keychain_able calm w \<longleftrightarrow> calm (kw_store w) \<and> kw_runs w \<and> \<not> kw_poisoned w"

text \<open>The named values, and that every entry of the service under an address is a stored value.\<close>

definition keychain_holds ::
  "('s, 'e, 'x) keychain_backend \<Rightarrow> ('s \<Rightarrow> string \<times> string \<Rightarrow> bytes option) \<Rightarrow> 's keychain_world \<Rightarrow> contents" where
  "keychain_holds B held w a =
     (if wf_address a then
        Option.bind (held (kw_store w) (keychain_key B a)) (\<lambda>blob.
          map_option (\<lambda>(ver, v). (SecretValue v, ver)) (res_ok (open_blob (kb_uuid B) blob)))
      else None)"

definition stored_form :: "uuid_crate \<Rightarrow> bytes \<Rightarrow> bool" where
  "stored_form U blob \<longleftrightarrow> (\<exists>ver v. open_blob U blob = Inr (ver, v) \<and> length v \<le> max_value_bytes)"

definition keychain_tidy ::
  "('s, 'e, 'x) keychain_backend \<Rightarrow> ('s \<Rightarrow> string \<times> string \<Rightarrow> bytes option) \<Rightarrow> 's keychain_world \<Rightarrow> bool" where
  "keychain_tidy B held w \<longleftrightarrow>
     (\<forall>a blob. wf_address a \<and> held (kw_store w) (keychain_key B a) = Some blob \<longrightarrow> stored_form (kb_uuid B) blob)"

text \<open>The store can answer an error to a deletion of the key \<open>k\<close> that it has made.\<close>

definition deletes_though_failing ::
  "('s, 'e, 'x) keychain_backend \<Rightarrow> ('s \<Rightarrow> string \<times> string \<Rightarrow> bytes option) \<Rightarrow> string \<times> string \<Rightarrow> bool" where
  "deletes_though_failing B held k \<longleftrightarrow>
     (\<exists>e s err s'. cr_delete_credential (kb_store B) e s = (Inl err, s') \<and> held s k \<noteq> None \<and> held s' k = None)"

lemma deletes_though_failingI:
  "cr_delete_credential (kb_store B) e s = (Inl err, s') \<Longrightarrow> held s k = Some blob \<Longrightarrow> held s' = (held s)(k := None) \<Longrightarrow>
   deletes_though_failing B held k"
  unfolding deletes_though_failing_def by (metis fun_upd_same option.distinct(1))

section \<open>Keys of addresses\<close>

lemma entry_user_pieces:
  assumes "wf_scope (ad_scope a)"
  shows "splitn 4 CHR ''/'' (entry_user a) =
    [scope_str (sc_tenant (ad_scope a)), scope_str (sc_namespace (ad_scope a)), scope_str (sc_user (ad_scope a)),
     name_str (ad_name a)]"
  using assms by (simp add: entry_user_def wf_scope_def wf_scope_name_no_slash numeral_eq_Suc)

lemma next_scope_Some: "next_scope ps = Some (n, qs) \<longleftrightarrow> ps = scope_str n # qs \<and> wf_scope_name n"
  by (cases ps; cases n) (auto simp: scope_name_parse_ok wf_scope_name_def)

lemma next_name_Some: "next_name ps = Some n \<longleftrightarrow> (\<exists>qs. ps = name_str n # qs) \<and> wf_secret_name n"
  by (cases ps; cases n) (auto simp: secret_name_parse_ok wf_secret_name_def)

lemma splitn4:
  "splitn 4 c s = a # b # d # e # es \<Longrightarrow>
     s = a @ c # b @ c # d @ c # e \<and> c \<notin> set a \<and> c \<notin> set b \<and> c \<notin> set d \<and> es = []"
  by (auto simp: numeral_eq_Suc split_once_Some split: option.splits)

lemma decode_user_iff: "decode_user s = Some a \<longleftrightarrow> wf_address a \<and> s = entry_user a"
proof
  assume "decode_user s = Some a"
  then have "wf_address a \<and> (\<exists>es. splitn 4 CHR ''/'' s =
      scope_str (sc_tenant (ad_scope a)) # scope_str (sc_namespace (ad_scope a)) # scope_str (sc_user (ad_scope a)) #
      name_str (ad_name a) # es)"
    by (auto simp: decode_user_def bind_eq_Some_conv next_scope_Some next_name_Some wf_address_def wf_scope_def)
  then show "wf_address a \<and> s = entry_user a"
    by (auto simp: entry_user_def dest: splitn4)
next
  assume a: "wf_address a \<and> s = entry_user a"
  then have "next_scope (scope_str n # ps) = Some (n, ps)" if "n \<in> {sc_tenant (ad_scope a), sc_namespace (ad_scope a), sc_user (ad_scope a)}" for n ps
    using that unfolding next_scope_Some by (auto simp: wf_address_def wf_scope_def)
  moreover have "next_name [name_str (ad_name a)] = Some (ad_name a)"
    using a unfolding next_name_Some by (auto simp: wf_address_def)
  ultimately show "decode_user s = Some a"
    using a by (simp add: decode_user_def entry_user_pieces wf_address_def)
qed

lemma entry_user_inject:
  "wf_address a \<Longrightarrow> wf_address b \<Longrightarrow> entry_user a = entry_user b \<longleftrightarrow> a = b"
  by (metis decode_user_iff option.inject)

lemma keychain_key_inject:
  "wf_address a \<Longrightarrow> wf_address b \<Longrightarrow> keychain_key B a = keychain_key B b \<longleftrightarrow> a = b"
  by (simp add: keychain_key_def entry_user_inject)

lemma blob_opens:
  assumes "\<And>u. uc_from_slice U (uuid_bytes u) = Some u"
  shows "open_blob U (keychain_format # uuid_bytes u @ v) = Inr (Version (uc_hyphenated U u), v)"
  using assms by (simp add: open_blob_def header_bytes_def)

section \<open>The credential store\<close>

locale keyring =
  fixes B :: "('s, 'e, 'x) keychain_backend"
    and calm :: "'s \<Rightarrow> bool"
    and key :: "'e \<Rightarrow> string \<times> string"
    and held :: "'s \<Rightarrow> string \<times> string \<Rightarrow> bytes option"
  assumes from_slice: "uc_from_slice (kb_uuid B) (uuid_bytes u) = Some u"
    and build: "cr_build (kb_store B) service user s = (r0, s') \<Longrightarrow>
      held s' = held s \<and> (calm s \<longrightarrow> calm s') \<and>
      (case r0 of Inr e \<Rightarrow> key e = (service, user) | Inl err \<Rightarrow> err \<noteq> NoEntry \<and> \<not> calm s)"
    and get: "cr_get_secret (kb_store B) e s = (r1, s') \<Longrightarrow>
      held s' = held s \<and> (calm s \<longrightarrow> calm s') \<and>
      (case r1 of Inr blob \<Rightarrow> held s (key e) = Some blob
       | Inl err \<Rightarrow> if err = NoEntry then held s (key e) = None else \<not> calm s)"
    and set: "cr_set_secret (kb_store B) e blob s = (r2, s') \<Longrightarrow>
      (calm s \<longrightarrow> calm s') \<and>
      (case r2 of Inr u \<Rightarrow> held s' = (held s)(key e \<mapsto> blob)
       | Inl err \<Rightarrow> err \<noteq> NoEntry \<and> \<not> calm s \<and> (held s' = held s \<or> held s' = (held s)(key e \<mapsto> blob)))"
    and delete: "cr_delete_credential (kb_store B) e s = (r3, s') \<Longrightarrow>
      (calm s \<longrightarrow> calm s') \<and>
      (case r3 of Inr u \<Rightarrow> held s (key e) \<noteq> None \<and> held s' = (held s)(key e := None)
       | Inl err \<Rightarrow>
           if err = NoEntry then held s' = held s \<and> held s (key e) = None
           else \<not> calm s \<and> (held s' = held s \<or> held s' = (held s)(key e := None)))"
    and search: "cr_search (kb_store B) [(''service'', service)] s = (r4, s') \<Longrightarrow>
      held s' = held s \<and> (calm s \<longrightarrow> calm s') \<and>
      (case r4 of
         Inr es \<Rightarrow> distinct (List.map_filter (cr_get_specifiers (kb_store B)) es) \<and>
           (\<forall>user. held s (service, user) \<noteq> None \<longrightarrow>
              (\<exists>e \<in> set es. cr_get_specifiers (kb_store B) e = Some (service, user)))
       | Inl err \<Rightarrow> err \<noteq> NoEntry \<and> \<not> calm s)"
    and specifiers: "cr_get_specifiers (kb_store B) e = Some k \<Longrightarrow> key e = k"
begin

definition keeps :: "'s keychain_world \<Rightarrow> 's keychain_world \<Rightarrow> bool" where
  "keeps w w' \<longleftrightarrow> kw_runs w' = kw_runs w \<and> kw_poisoned w' = kw_poisoned w \<and>
     (calm (kw_store w) \<longrightarrow> calm (kw_store w'))"

definition blobs :: "'s keychain_world \<Rightarrow> string \<times> string \<Rightarrow> bytes option" where
  "blobs w = held (kw_store w)"

abbreviation at :: "address \<Rightarrow> string \<times> string" where
  "at \<equiv> keychain_key B"

abbreviation able :: "'s keychain_world \<Rightarrow> bool" where
  "able \<equiv> keychain_able calm"

lemma keeps_refl [simp]: "keeps w w"
  by (simp add: keeps_def)

lemma keeps_trans: "keeps w w1 \<Longrightarrow> keeps w1 w2 \<Longrightarrow> keeps w w2"
  by (auto simp: keeps_def)

lemma keeps_able: "keeps w w' \<Longrightarrow> able w \<Longrightarrow> able w'"
  by (auto simp: keeps_def keychain_able_def)

lemma keeps_calm: "keeps w w' \<Longrightarrow> calm (kw_store w) \<Longrightarrow> calm (kw_store w')"
  by (simp add: keeps_def)

section \<open>Calls from the world\<close>

lemma on_store_apply: "on_store m w = (fst (m (kw_store w)), w\<lparr>kw_store := snd (m (kw_store w))\<rparr>)"
  by (simp add: on_store_def zoomE_apply)

lemma on_storeE:
  assumes "on_store m w = (r, w')"
  obtains s' where "m (kw_store w) = (r, s')" "w' = w\<lparr>kw_store := s'\<rparr>"
  using assms by (cases "m (kw_store w)") (auto simp: on_store_apply)

lemma store_callE:
  assumes "store_call m w = (r, w')"
  obtains r' where "on_store m w = (r', w')" "r = map_err keychain_failure r'"
  using assms by (cases "on_store m w") (auto simp: store_call_def)

lemma failure_cases: "keychain_failure err = (if err = NoEntry then NotFound else Unavailable)"
  by (cases err) simp_all

lemma entry_call:
  assumes "keychain_entry B a w = (r, w')"
  shows "keeps w w' \<and> blobs w' = blobs w \<and>
    (case r of Inr e \<Rightarrow> key e = at a | Inl x \<Rightarrow> x = Unavailable \<and> \<not> calm (kw_store w))"
proof -
  obtain r' s' where "cr_build (kb_store B) (kb_service B) (entry_user a) (kw_store w) = (r', s')"
    "w' = w\<lparr>kw_store := s'\<rparr>" "r = map_err keychain_failure r'"
    using assms unfolding keychain_entry_def by (metis store_callE on_storeE)
  with build [OF this(1)] show ?thesis
    by (cases r') (auto simp: keeps_def blobs_def keychain_key_def failure_cases)
qed

lemma get_call:
  assumes "on_store (cr_get_secret (kb_store B) e) w = (r, w')"
  shows "keeps w w' \<and> blobs w' = blobs w \<and>
    (case r of Inr blob \<Rightarrow> blobs w (key e) = Some blob
     | Inl err \<Rightarrow> if err = NoEntry then blobs w (key e) = None else \<not> calm (kw_store w))"
proof -
  obtain s' where "cr_get_secret (kb_store B) e (kw_store w) = (r, s')" "w' = w\<lparr>kw_store := s'\<rparr>"
    using assms by (rule on_storeE)
  with get [OF this(1)] show ?thesis
    by (cases r) (auto simp: keeps_def blobs_def)
qed

lemma read_call:
  assumes "store_call (cr_get_secret (kb_store B) e) w = (r, w')"
  shows "keeps w w' \<and> blobs w' = blobs w \<and>
    (case r of Inr blob \<Rightarrow> blobs w (key e) = Some blob
     | Inl x \<Rightarrow> x = NotFound \<and> blobs w (key e) = None \<or> x = Unavailable \<and> \<not> calm (kw_store w))"
proof -
  obtain r' where "on_store (cr_get_secret (kb_store B) e) w = (r', w')" "r = map_err keychain_failure r'"
    using assms by (rule store_callE)
  with get_call [OF this(1)] show ?thesis
    by (cases r') (auto simp: failure_cases)
qed

lemma stored_call:
  assumes "stored B e w = (r, w')"
  shows "keeps w w' \<and> blobs w' = blobs w \<and>
    (case r of Inr x \<Rightarrow> x = blobs w (key e) | Inl x \<Rightarrow> x = Unavailable \<and> \<not> calm (kw_store w))"
proof -
  obtain r' w1 where o: "on_store (cr_get_secret (kb_store B) e) w = (r', w1)" by (cases "on_store (cr_get_secret (kb_store B) e) w")
  with get_call [OF this] assms show ?thesis
    by (cases r') (auto simp: stored_def failure_cases split: keyring_error.splits)
qed

lemma set_call:
  assumes "store_call (cr_set_secret (kb_store B) e blob) w = (r, w')"
  shows "keeps w w' \<and>
    (case r of Inr u \<Rightarrow> blobs w' = (blobs w)(key e \<mapsto> blob)
     | Inl x \<Rightarrow> x = Unavailable \<and> \<not> calm (kw_store w) \<and> (blobs w' = blobs w \<or> blobs w' = (blobs w)(key e \<mapsto> blob)))"
proof -
  obtain r' s' where "cr_set_secret (kb_store B) e blob (kw_store w) = (r', s')" "w' = w\<lparr>kw_store := s'\<rparr>"
    "r = map_err keychain_failure r'"
    using assms by (metis store_callE on_storeE)
  with set [OF this(1)] show ?thesis
    by (cases r') (auto simp: keeps_def blobs_def failure_cases)
qed

lemma delete_call:
  assumes "on_store (cr_delete_credential (kb_store B) e) w = (r, w')"
  shows "keeps w w' \<and>
    (case r of Inr u \<Rightarrow> blobs w (key e) \<noteq> None \<and> blobs w' = (blobs w)(key e := None)
     | Inl err \<Rightarrow>
         if err = NoEntry then blobs w' = blobs w \<and> blobs w (key e) = None
         else \<not> calm (kw_store w) \<and> (blobs w' = blobs w \<or>
           blobs w' = (blobs w)(key e := None) \<and> (blobs w (key e) \<noteq> None \<longrightarrow> deletes_though_failing B held (key e))))"
proof -
  obtain s' where "cr_delete_credential (kb_store B) e (kw_store w) = (r, s')" "w' = w\<lparr>kw_store := s'\<rparr>"
    using assms by (rule on_storeE)
  with delete [OF this(1)] show ?thesis
    by (cases r) (auto simp: keeps_def blobs_def intro: deletes_though_failingI split: if_splits)
qed

lemma search_call:
  assumes "store_call (cr_search (kb_store B) [(''service'', kb_service B)]) w = (r, w')"
  shows "keeps w w' \<and> blobs w' = blobs w \<and>
    (case r of
       Inr es \<Rightarrow> distinct (List.map_filter (cr_get_specifiers (kb_store B)) es) \<and>
         (\<forall>user. blobs w (kb_service B, user) \<noteq> None \<longrightarrow>
            (\<exists>e \<in> set es. cr_get_specifiers (kb_store B) e = Some (kb_service B, user)))
     | Inl x \<Rightarrow> x = Unavailable \<and> \<not> calm (kw_store w))"
proof -
  obtain r' s' where c: "cr_search (kb_store B) [(''service'', kb_service B)] (kw_store w) = (r', s')"
    "w' = w\<lparr>kw_store := s'\<rparr>" "r = map_err keychain_failure r'"
    using assms by (metis store_callE on_storeE)
  with search [OF this(1)] show ?thesis
    by (cases r') (auto simp: keeps_def blobs_def failure_cases)
qed

end

end
