(* ===== verification/Keychain_Methods.thy ===== *)
theory Keychain_Methods
  imports Keychain_Store
begin

text \<open>
  Each method of the keychain backend over any credential store that keeps \<open>keyring\<close>, whatever calls
  fail: the answer, and the blobs the store then holds. An answer \<open>Unavailable\<close> is given only when some
  call fails, the runtime has stopped or the mutex is poisoned.
\<close>

section \<open>Single entries\<close>

context keyring begin

lemma read_outcome:
  assumes "keychain_read B (unbound a) w = (r, w')" "wf_address a" "keychain_tidy B held w"
  shows "keeps w w' \<and> blobs w' = blobs w \<and>
    (r = (case keychain_holds B held w a of None \<Rightarrow> Inl NotFound
        | Some (v, ver) \<Rightarrow> Inr \<lparr>rv_value = v, rv_version = Some ver\<rparr>) \<or> r = Inl Unavailable \<and> \<not> able w)"
proof (cases "kw_runs w")
  case False
  with assms(1) show ?thesis by (simp add: keychain_read_def keychain_blocking_def keychain_able_def)
next
  case runs: True
  obtain x w1 where e: "keychain_entry B a w = (x, w1)" by (cases "keychain_entry B a w")
  note f = entry_call [OF e]
  show ?thesis
  proof (cases x)
    case (Inl err)
    with assms(1) e f runs show ?thesis
      by (auto simp: keychain_read_def keychain_blocking_def keychain_able_def unbound_def)
  next
    case (Inr entry)
    obtain y w2 where g: "store_call (cr_get_secret (kb_store B) entry) w1 = (y, w2)"
      by (cases "store_call (cr_get_secret (kb_store B) entry) w1")
    note h = read_call [OF g]
    have k: "keeps w w2" "blobs w2 = blobs w" "key entry = at a"
      using f h Inr by (auto intro: keeps_trans)
    have c: "calm (kw_store w) \<Longrightarrow> calm (kw_store w1)" using f keeps_calm by blast
    show ?thesis
    proof (cases y)
      case (Inl err)
      with Inr e g assms(1) runs have "r = Inl err" "w' = w2"
        by (simp_all add: keychain_read_def keychain_blocking_def unbound_def)
      with Inl h f k c show ?thesis
        by (auto simp: keychain_holds_def blobs_def keychain_able_def)
    next
      case y: (Inr blob)
      with h f k have b: "held (kw_store w) (at a) = Some blob" by (simp add: blobs_def)
      with assms(2,3) obtain ver v where o: "open_blob (kb_uuid B) blob = Inr (ver, v)" "length v \<le> max_value_bytes"
        unfolding keychain_tidy_def stored_form_def by blast
      then have "secret_value_new v = Inr (SecretValue v)" by (simp add: secret_value_new_def)
      with Inr e g y o assms(1) runs
      have "r = Inr \<lparr>rv_value = SecretValue v, rv_version = Some ver\<rparr>" "w' = w2"
        by (simp_all add: keychain_read_def keychain_blocking_def unbound_def)
      with b o k assms(2) show ?thesis by (simp add: keychain_holds_def)
    qed
  qed
qed

text \<open>The guard, the entry of the address and what it holds, which begin every change.\<close>

lemma exclusive_cases:
  "keychain_exclusive w = (if kw_poisoned w then Inl Unavailable else Inr (), w)"
  by (simp add: keychain_exclusive_def)

lemma write_outcome:
  assumes "keychain_write B (unbound a) v w = (r, w')"
  shows "keeps w w' \<and>
    (case r of
       Inr wr \<Rightarrow> \<exists>u. blobs w' = (blobs w)(at a \<mapsto> keychain_format # uuid_bytes u @ expose v) \<and>
         wr = (if blobs w (at a) = None then Created else Replaced) (Some (Version (uc_hyphenated (kb_uuid B) u)))
     | Inl x \<Rightarrow> x = Unavailable \<and> \<not> able w \<and>
         (blobs w' = blobs w \<or> (\<exists>u. blobs w' = (blobs w)(at a \<mapsto> keychain_format # uuid_bytes u @ expose v))))"
proof (cases "kw_runs w \<and> \<not> kw_poisoned w")
  case False
  with assms show ?thesis
    by (auto simp: keychain_write_def keychain_blocking_def keychain_able_def exclusive_cases split: if_splits)
next
  case runs: True
  obtain x w1 where e: "keychain_entry B a w = (x, w1)" by (cases "keychain_entry B a w")
  note f = entry_call [OF e]
  show ?thesis
  proof (cases x)
    case (Inl err)
    with assms e f runs show ?thesis
      by (auto simp: keychain_write_def keychain_blocking_def keychain_able_def unbound_def exclusive_cases)
  next
    case (Inr entry)
    obtain y w2 where g: "stored B entry w1 = (y, w2)" by (cases "stored B entry w1")
    note h = stored_call [OF g]
    have k: "keeps w w2" "blobs w2 = blobs w" "key entry = at a"
      using f h Inr by (auto intro: keeps_trans)
    have c: "calm (kw_store w) \<Longrightarrow> calm (kw_store w1)" using f keeps_calm by blast
    show ?thesis
    proof (cases y)
      case (Inl err)
      with Inr e g assms runs have "r = Inl err" "w' = w2"
        by (simp_all add: keychain_write_def keychain_blocking_def unbound_def exclusive_cases)
      with Inl h k c show ?thesis by (auto simp: keychain_able_def)
    next
      case y: (Inr existed)
      define u where "u = kw_ids w2 (kw_drawn w2)"
      define w3 where "w3 = w2\<lparr>kw_drawn := kw_drawn w2 + 1\<rparr>"
      obtain z w4 where s: "store_call (cr_set_secret (kb_store B) entry (keychain_format # uuid_bytes u @ expose v)) w3 = (z, w4)"
        by (cases "store_call (cr_set_secret (kb_store B) entry (keychain_format # uuid_bytes u @ expose v)) w3")
      note t = set_call [OF s]
      have k3: "keeps w w3" "blobs w3 = blobs w" "calm (kw_store w) \<Longrightarrow> calm (kw_store w3)"
        using k keeps_calm [OF k(1)] by (simp_all add: keeps_def blobs_def w3_def)
      have r: "r = (case z of Inl err \<Rightarrow> Inl err | Inr _ \<Rightarrow> Inr ((if existed \<noteq> None then Replaced else Created)
          (Some (Version (uc_hyphenated (kb_uuid B) u)))))" "w' = w4"
        using Inr e g y s assms runs
        by (auto simp: keychain_write_def keychain_blocking_def unbound_def exclusive_cases seal_value_def draw_uuid_def
            bindE_def u_def w3_def split: sum.splits)
      show ?thesis
      proof (cases z)
        case (Inl err)
        with t k3 k r show ?thesis by (auto simp: keychain_able_def intro: keeps_trans)
      next
        case (Inr z)
        with t k3 k r h y f show ?thesis by (auto intro: keeps_trans)
      qed
    qed
  qed
qed

lemma delete_outcome:
  assumes "keychain_delete B (unbound a) w = (r, w')"
  shows "keeps w w' \<and>
    (case r of
       Inr u \<Rightarrow> blobs w (at a) \<noteq> None \<and> blobs w' = (blobs w)(at a := None)
     | Inl x \<Rightarrow> x = NotFound \<and> blobs w' = blobs w \<and> blobs w (at a) = None \<or>
         x = Unavailable \<and> \<not> able w \<and> (blobs w' = blobs w \<or> blobs w' = (blobs w)(at a := None)))"
proof (cases "kw_runs w \<and> \<not> kw_poisoned w")
  case False
  with assms show ?thesis
    by (auto simp: keychain_delete_def keychain_blocking_def keychain_able_def exclusive_cases split: if_splits)
next
  case runs: True
  obtain x w1 where e: "keychain_entry B a w = (x, w1)" by (cases "keychain_entry B a w")
  note f = entry_call [OF e]
  show ?thesis
  proof (cases x)
    case (Inl err)
    with assms e f runs show ?thesis
      by (auto simp: keychain_delete_def keychain_blocking_def keychain_able_def unbound_def exclusive_cases)
  next
    case (Inr entry)
    with assms e runs obtain y where d: "on_store (cr_delete_credential (kb_store B) entry) w1 = (y, w')"
      "r = map_err keychain_failure y"
      by (auto simp: keychain_delete_def keychain_blocking_def unbound_def exclusive_cases elim!: store_callE)
    have "calm (kw_store w) \<Longrightarrow> calm (kw_store w1)" using f keeps_calm by blast
    with delete_call [OF d(1)] d(2) f Inr show ?thesis
      by (cases y) (auto simp: keychain_able_def failure_cases intro: keeps_trans)
  qed
qed

end

section \<open>Renames\<close>

context keyring begin

lemma drop_source_outcome:
  assumes "drop_source B source destination w = (r, w')" "blobs w (key source) \<noteq> None"
  shows "keeps w w' \<and>
    (case r of
       Inr u \<Rightarrow> blobs w' = (blobs w)(key source := None)
     | Inl x \<Rightarrow> x = Unavailable \<and> \<not> calm (kw_store w) \<and>
         (\<exists>m. (m = blobs w \<or> m = (blobs w)(key source := None) \<and> deletes_though_failing B held (key source)) \<and>
            (blobs w' = m \<or> blobs w' = m(key destination := None))))"
proof -
  obtain x w1 where d: "on_store (cr_delete_credential (kb_store B) source) w = (x, w1)"
    by (cases "on_store (cr_delete_credential (kb_store B) source) w")
  obtain y w2 where u: "on_store (cr_delete_credential (kb_store B) destination) w1 = (y, w2)"
    by (cases "on_store (cr_delete_credential (kb_store B) destination) w1")
  show ?thesis
    using delete_call [OF d] delete_call [OF u] assms d u
    by (cases x; cases y) (auto simp: drop_source_def failure_cases split: if_splits intro: keeps_trans)
qed

lemma undone:
  assumes "m = (f(k \<mapsto> v)) \<or> m = (f(k \<mapsto> v))(j := None) \<and> P" "g = m \<or> g = m(k := None)" "f k = None" "j \<noteq> k"
  shows "g = f \<or> g = f(k \<mapsto> v) \<or> P \<and> (g = f(j := None, k \<mapsto> v) \<or> g = f(j := None))"
  using assms by (auto simp: fun_upd_twist fun_upd_idem)

lemma rename_outcome:
  assumes "keychain_rename B (unbound a) n w = (r, w')"
  defines "b \<equiv> renamed a n"
  shows "keeps w w' \<and>
    (case r of
       Inr u \<Rightarrow> \<exists>blob. blobs w (at a) = Some blob \<and> blobs w (at b) = None \<and>
         blobs w' = (blobs w)(at a := None, at b \<mapsto> blob)
     | Inl x \<Rightarrow> blobs w' = blobs w \<and>
           (x = NotFound \<and> blobs w (at a) = None \<or> x = Conflict \<and> blobs w (at b) \<noteq> None \<or> x = Unavailable \<and> \<not> able w) \<or>
         x = Unavailable \<and> \<not> able w \<and>
           (\<exists>blob. blobs w (at a) = Some blob \<and> blobs w (at b) = None \<and>
              (blobs w' = (blobs w)(at b \<mapsto> blob) \<or> deletes_though_failing B held (at a) \<and>
                (blobs w' = (blobs w)(at a := None, at b \<mapsto> blob) \<or> blobs w' = (blobs w)(at a := None)))))"
proof (cases "kw_runs w \<and> \<not> kw_poisoned w")
  case False
  with assms show ?thesis
    by (auto simp: keychain_rename_def keychain_blocking_def keychain_able_def exclusive_cases split: if_splits)
next
  case runs: True
  obtain x w1 where e: "keychain_entry B a w = (x, w1)" by (cases "keychain_entry B a w")
  note f = entry_call [OF e]
  note unfolds = keychain_rename_def keychain_blocking_def unbound_def exclusive_cases
  show ?thesis
  proof (cases x)
    case (Inl err)
    with assms e f runs show ?thesis
      by (auto simp: unfolds keychain_able_def)
  next
    case source: (Inr source)
    obtain y w2 where g: "store_call (cr_get_secret (kb_store B) source) w1 = (y, w2)"
      by (cases "store_call (cr_get_secret (kb_store B) source) w1")
    note h = read_call [OF g]
    have k2: "keeps w w2" "blobs w2 = blobs w" "key source = at a"
      using f h source by (auto intro: keeps_trans)
    have c1: "calm (kw_store w) \<Longrightarrow> calm (kw_store w1)" using f keeps_calm by blast
    show ?thesis
    proof (cases y)
      case (Inl err)
      with source e g assms runs have "r = Inl err" "w' = w2" by (simp_all add: unfolds)
      with Inl h f k2 c1 show ?thesis by (auto simp: keychain_able_def)
    next
      case blob: (Inr blob)
      have src: "blobs w (at a) = Some blob" using blob h f k2 by simp
      obtain z w3 where e3: "keychain_entry B b w2 = (z, w3)" by (cases "keychain_entry B b w2")
      note f3 = entry_call [OF e3]
      have k3: "keeps w w3" "blobs w3 = blobs w" using f3 k2 by (auto intro: keeps_trans)
      show ?thesis
      proof (cases z)
        case (Inl err)
        with source blob e g e3 assms runs have "r = Inl err" "w' = w3" by (simp_all add: unfolds renamed_def)
        with Inl f3 k3 keeps_calm [OF k2(1)] show ?thesis by (auto simp: keychain_able_def)
      next
        case dest: (Inr destination)
        obtain t w4 where s4: "stored B destination w3 = (t, w4)" by (cases "stored B destination w3")
        note f4 = stored_call [OF s4]
        have k4: "keeps w w4" "blobs w4 = blobs w" "key destination = at b"
          using f4 k3 f3 dest by (auto intro: keeps_trans)
        note run = source blob dest e g e3 s4 assms runs
        show ?thesis
        proof (cases t)
          case (Inl err)
          with run have "r = Inl err" "w' = w4" by (simp_all add: unfolds renamed_def)
          with Inl f4 k4 keeps_calm [OF k3(1)] show ?thesis by (auto simp: keychain_able_def)
        next
          case t: (Inr taken)
          have taken: "taken = blobs w (at b)" using t f4 k3 k4 by simp
          show ?thesis
          proof (cases taken)
            case (Some other)
            with run t have "r = Inl Conflict" "w' = w4" by (simp_all add: unfolds renamed_def)
            with Some taken k4 show ?thesis by simp
          next
            case None
            obtain p w5 where s5: "store_call (cr_set_secret (kb_store B) destination blob) w4 = (p, w5)"
              by (cases "store_call (cr_set_secret (kb_store B) destination blob) w4")
            note f5 = set_call [OF s5]
            have k5: "keeps w w5" using f5 k4 by (auto intro: keeps_trans)
            show ?thesis
            proof (cases p)
              case (Inl err)
              with run t None s5 have "r = Inl err" "w' = w5" by (simp_all add: unfolds renamed_def)
              with Inl f5 k5 k4 keeps_calm [OF k4(1)] None taken src show ?thesis by (auto simp: keychain_able_def)
            next
              case p: (Inr u)
              with run t None s5 have d: "drop_source B source destination w5 = (r, w')"
                by (simp add: unfolds renamed_def)
              have b5: "blobs w5 = (blobs w)(at b \<mapsto> blob)" using p f5 k4 by simp
              have ne: "at a \<noteq> at b" using src taken None by auto
              have "blobs w5 (key source) \<noteq> None" using b5 k2 src ne by simp
              note o = drop_source_outcome [OF d this]
              show ?thesis
              proof (cases r)
                case (Inl err)
                with o b5 k2 k4 obtain m where
                  "m = (blobs w)(at b \<mapsto> blob) \<or> m = ((blobs w)(at b \<mapsto> blob))(at a := None) \<and> deletes_though_failing B held (at a)"
                  "blobs w' = m \<or> blobs w' = m(at b := None)" by auto
                from undone [OF this] have "blobs w' = blobs w \<or> blobs w' = (blobs w)(at b \<mapsto> blob) \<or>
                    deletes_though_failing B held (at a) \<and>
                    (blobs w' = (blobs w)(at a := None, at b \<mapsto> blob) \<or> blobs w' = (blobs w)(at a := None))"
                  using ne taken None by simp
                moreover have "err = Unavailable" "\<not> able w" "keeps w w'"
                  using o Inl keeps_calm [OF k5] k5 by (auto simp: keychain_able_def intro: keeps_trans)
                ultimately show ?thesis using Inl src taken None by auto
              next
                case (Inr u)
                with o k5 b5 ne src taken None k2 show ?thesis
                  by (auto simp: fun_upd_twist intro: keeps_trans)
              qed
            qed
          qed
        qed
      qed
    qed
  qed
qed

end

section \<open>Listings\<close>

context keyring begin

definition row_of :: "'s keychain_world \<Rightarrow> scope \<Rightarrow> 'e \<Rightarrow> secret_metadata option" where
  "row_of w s e = Option.bind (cr_get_specifiers (kb_store B) e) (\<lambda>(service, user).
     if service \<noteq> kb_service B then None
     else Option.bind (decode_user user) (\<lambda>a.
       if ad_scope a \<noteq> s then None
       else map_option (\<lambda>(v, ver). \<lparr>sm_address = a, sm_version = Some ver\<rparr>) (keychain_holds B held w a)))"

lemma tidy_keeps: "blobs w' = blobs w \<Longrightarrow> keychain_tidy B held w' = keychain_tidy B held w"
  by (simp add: keychain_tidy_def blobs_def)

lemma holds_keeps: "blobs w' = blobs w \<Longrightarrow> keychain_holds B held w' = keychain_holds B held w"
  by (rule ext) (simp add: keychain_holds_def blobs_def)

lemma list_entry_outcome:
  assumes "list_entry B s e w = (r, w')" "keychain_tidy B held w"
  shows "keeps w w' \<and> blobs w' = blobs w \<and> (r = Inr (row_of w s e) \<or> r = Inl Unavailable \<and> \<not> calm (kw_store w))"
proof (cases "\<exists>user a. cr_get_specifiers (kb_store B) e = Some (kb_service B, user) \<and> decode_user user = Some a \<and> ad_scope a = s")
  case False
  with assms(1) have "r = Inr None" "w' = w" "row_of w s e = None"
    by (auto simp: list_entry_def row_of_def split: option.splits if_splits)
  then show ?thesis by simp
next
  case True
  then obtain user a where sp: "cr_get_specifiers (kb_store B) e = Some (kb_service B, user)"
    and d: "decode_user user = Some a" and a: "ad_scope a = s"
    by blast
  from d have u: "wf_address a" "user = entry_user a" by (simp_all add: decode_user_iff)
  have k: "key e = at a" using specifiers [OF sp] u by (simp add: keychain_key_def)
  obtain x w1 where st: "stored B e w = (x, w1)" by (cases "stored B e w")
  note f = stored_call [OF st]
  show ?thesis
  proof (cases x)
    case (Inl err)
    with assms(1) st f sp d a show ?thesis by (auto simp: list_entry_def)
  next
    case (Inr blob)
    have b: "blob = held (kw_store w) (at a)" using Inr f k by (simp add: blobs_def)
    have row: "row_of w s e =
        map_option (\<lambda>(v, ver). \<lparr>sm_address = a, sm_version = Some ver\<rparr>) (keychain_holds B held w a)"
      using sp d a by (simp add: row_of_def)
    show ?thesis
    proof (cases blob)
      case None
      with b u have "keychain_holds B held w a = None" by (simp add: keychain_holds_def)
      with row None Inr assms(1) st f sp d a show ?thesis
        by (auto simp: list_entry_def)
    next
      case (Some bs)
      have "stored_form (kb_uuid B) bs"
        using Some b assms(2) u(1) unfolding keychain_tidy_def by metis
      then obtain ver v where o: "open_blob (kb_uuid B) bs = Inr (ver, v)" unfolding stored_form_def by blast
      have "held (kw_store w) (at a) = Some bs" using Some b by simp
      then have "keychain_holds B held w a = Some (SecretValue v, ver)"
        using u(1) o by (simp add: keychain_holds_def)
      with row have "row_of w s e = Some \<lparr>sm_address = a, sm_version = Some ver\<rparr>" by simp
      moreover have "r = Inr (Some \<lparr>sm_address = a, sm_version = Some ver\<rparr>)" "w' = w1"
        using assms(1) sp d a st Inr Some o by (simp_all add: list_entry_def)
      ultimately show ?thesis using f by simp
    qed
  qed
qed

lemma list_entries_outcome:
  assumes "list_entries B s es listed w = (r, w')" "keychain_tidy B held w"
  shows "keeps w w' \<and> blobs w' = blobs w \<and>
    (r = Inr (listed @ List.map_filter (row_of w s) es) \<or> r = Inl Unavailable \<and> \<not> calm (kw_store w))"
  using assms
proof (induction es arbitrary: listed w)
  case Nil
  then show ?case by simp
next
  case (Cons e es)
  obtain x w1 where e: "list_entry B s e w = (x, w1)" by (cases "list_entry B s e w")
  note f = list_entry_outcome [OF e Cons.prems(2)]
  have k: "keeps w w1" "blobs w1 = blobs w" using f by simp_all
  have t: "keychain_tidy B held w1" "row_of w1 s = row_of w s"
    using Cons.prems(2) tidy_keeps [OF k(2)] by (simp_all add: fun_eq_iff row_of_def holds_keeps [OF k(2)] cong: if_cong)
  show ?case
  proof (cases x)
    case (Inl err)
    with Cons.prems(1) e f show ?thesis by auto
  next
    case (Inr row)
    with Cons.prems(1) e have r: "list_entries B s es (case row of None \<Rightarrow> listed | Some m \<Rightarrow> listed @ [m]) w1 = (r, w')"
      by (cases row) simp_all
    have row: "row = row_of w s e" using Inr f by auto
    from Cons.IH [OF r t(1)] t(2) k row keeps_calm [OF k(1)] show ?thesis
      by (cases "row_of w s e") (auto intro: keeps_trans)
  qed
qed

end

end
