(* ===== verification/Keychain_Properties.thy ===== *)
theory Keychain_Properties
  imports Keychain_Methods
begin

text \<open>
  The keychain backend keeps the contract of a storage while no call fails, on every credential store
  that keeps \<open>keyring\<close>; and what it promises when calls do fail. A store over an association list
  whose calls fail as a script says shows that the locale can be met.
\<close>

section \<open>The contract\<close>

definition wf_keychain_request :: "request \<Rightarrow> bool" where
  "wf_keychain_request q \<longleftrightarrow> (case q of
     ReadReq a \<Rightarrow> wf_address a | WriteReq a v \<Rightarrow> wf_address a \<and> wf_value v | DeleteReq a \<Rightarrow> wf_address a
   | RenameReq a n \<Rightarrow> wf_address a \<and> wf_secret_name n | ListReq s \<Rightarrow> True)"

lemma wf_renamed: "wf_address a \<Longrightarrow> wf_secret_name n \<Longrightarrow> wf_address (renamed a n)"
  by (simp add: wf_address_def)

lemma distinct_map_filter:
  assumes "distinct (List.map_filter f es)" "\<And>e y. g e = Some y \<Longrightarrow> f e = Some (k (h y))"
  shows "distinct (map h (List.map_filter g es))"
  using assms(1)
proof (induction es)
  case Nil
  then show ?case by (simp add: List.map_filter_def)
next
  case (Cons e es)
  have IH: "distinct (map h (List.map_filter g es))"
    using Cons by (simp add: List.map_filter_def split: option.splits if_splits)
  show ?case
  proof (cases "g e")
    case None
    with IH show ?thesis by (simp add: List.map_filter_def)
  next
    case (Some y)
    have "h y \<notin> set (map h (List.map_filter g es))"
    proof
      assume "h y \<in> set (map h (List.map_filter g es))"
      then obtain e' y' where "e' \<in> set es" "g e' = Some y'" "h y' = h y"
        by (auto simp: List.map_filter_def)
      with assms(2) have "e' \<in> set es" "f e' = Some (k (h y))" by metis+
      then have "k (h y) \<in> set (List.map_filter f es)" by (force simp: List.map_filter_def)
      with Cons.prems assms(2) [OF Some] show False by (simp add: List.map_filter_def)
    qed
    with IH Some show ?thesis by (simp add: List.map_filter_def)
  qed
qed

context keyring begin

lemma row_of_Some:
  "row_of w s e = Some row \<longleftrightarrow>
     cr_get_specifiers (kb_store B) e = Some (at (sm_address row)) \<and> ad_scope (sm_address row) = s \<and>
     (\<exists>v ver. keychain_holds B held w (sm_address row) = Some (v, ver) \<and> sm_version row = Some ver)"
proof -
  have wf: "keychain_holds B held w a = Some x \<Longrightarrow> wf_address a" for a x
    by (simp add: keychain_holds_def split: if_splits)
  show ?thesis
    by (cases row) (auto simp: row_of_def bind_eq_Some_conv decode_user_iff keychain_key_def dest: wf)
qed

lemma list_outcome:
  assumes "keychain_list B s w = (r, w')" "keychain_tidy B held w"
  shows "keeps w w' \<and> blobs w' = blobs w \<and>
    (case r of Inr rows \<Rightarrow> listing (keychain_holds B held w) s rows | Inl x \<Rightarrow> x = Unavailable \<and> \<not> able w)"
proof (cases "kw_runs w")
  case False
  with assms(1) show ?thesis by (auto simp: keychain_list_def keychain_blocking_def keychain_able_def)
next
  case runs: True
  let ?search = "store_call (cr_search (kb_store B) [(''service'', kb_service B)])"
  obtain x w1 where e: "?search w = (x, w1)" by (cases "?search w")
  note f = search_call [OF e]
  show ?thesis
  proof (cases x)
    case (Inl err)
    with assms(1) e f runs show ?thesis
      by (auto simp: keychain_list_def keychain_blocking_def keychain_able_def)
  next
    case (Inr es)
    have k: "keeps w w1" "blobs w1 = blobs w" using f by simp_all
    obtain y w2 where l: "list_entries B s es [] w1 = (y, w2)" by (cases "list_entries B s es [] w1")
    note g = list_entries_outcome [OF l]
    have t: "keychain_tidy B held w1" using assms(2) tidy_keeps [OF k(2)] by simp
    have rows: "listing (keychain_holds B held w) s (sort (List.map_filter (row_of w1 s) es))"
    proof -
      let ?rows = "List.map_filter (row_of w1 s) es"
      note h = holds_keeps [OF k(2)]
      have "distinct (map sm_address ?rows)"
        by (rule distinct_map_filter [where f = "cr_get_specifiers (kb_store B)" and k = at])
          (use f Inr in \<open>simp_all add: row_of_Some\<close>)
      then have s: "sorted_wrt (<) (map sm_address (sort ?rows))" by (rule sorted_rows)
      have "row \<in> set ?rows \<longleftrightarrow> (\<exists>v ver. keychain_holds B held w (sm_address row) = Some (v, ver) \<and>
          sm_version row = Some ver \<and> ad_scope (sm_address row) = s)" for row
      proof
        assume "row \<in> set ?rows"
        then obtain e where "row_of w1 s e = Some row" by (auto simp: List.map_filter_def)
        then show "\<exists>v ver. keychain_holds B held w (sm_address row) = Some (v, ver) \<and>
          sm_version row = Some ver \<and> ad_scope (sm_address row) = s"
          by (simp add: row_of_Some h)
      next
        assume a: "\<exists>v ver. keychain_holds B held w (sm_address row) = Some (v, ver) \<and>
          sm_version row = Some ver \<and> ad_scope (sm_address row) = s"
        then have "blobs w (kb_service B, entry_user (sm_address row)) \<noteq> None"
          by (auto simp: keychain_holds_def blobs_def keychain_key_def bind_eq_Some_conv split: if_splits)
        with f Inr obtain e where "e \<in> set es" "cr_get_specifiers (kb_store B) e = Some (at (sm_address row))"
          by (auto simp: keychain_key_def)
        with a have "row_of w1 s e = Some row" by (auto simp: row_of_Some h)
        with \<open>e \<in> set es\<close> show "row \<in> set ?rows" by (force simp: List.map_filter_def)
      qed
      with s show ?thesis by (simp add: listing_def)
    qed
    have r: "r = (case y of Inl err \<Rightarrow> Inl err | Inr listed \<Rightarrow> Inr (sort listed))" "w' = w2"
      using assms(1) e Inr l runs
      by (auto simp: keychain_list_def keychain_blocking_def bindE_def split: sum.splits)
    with g [OF t] k rows keeps_calm [OF k(1)] show ?thesis
      by (auto simp: keychain_able_def intro: keeps_trans)
  qed
qed

end

text \<open>A stored value under an address that is well formed.\<close>

context keyring begin

lemma holds_put:
  assumes "blobs w' = (blobs w)(at a \<mapsto> blob)" "wf_address a" "open_blob (kb_uuid B) blob = Inr (ver, v)"
  shows "keychain_holds B held w' = (keychain_holds B held w)(a \<mapsto> (SecretValue v, ver))"
proof (rule ext)
  fix b
  have "at b \<noteq> at a" if "wf_address b" "b \<noteq> a"
    using that assms(2) keychain_key_inject by blast
  then show "keychain_holds B held w' b = ((keychain_holds B held w)(a \<mapsto> (SecretValue v, ver))) b"
    using assms by (cases "b = a") (auto simp: keychain_holds_def blobs_def)
qed

lemma holds_del:
  assumes "blobs w' = (blobs w)(at a := None)" "wf_address a"
  shows "keychain_holds B held w' = (keychain_holds B held w)(a := None)"
proof (rule ext)
  fix b
  have "at b \<noteq> at a" if "wf_address b" "b \<noteq> a"
    using that assms(2) keychain_key_inject by blast
  then show "keychain_holds B held w' b = ((keychain_holds B held w)(a := None)) b"
    using assms by (cases "b = a") (auto simp: keychain_holds_def blobs_def)
qed

lemma holds_None: "wf_address a \<Longrightarrow> keychain_tidy B held w \<Longrightarrow> keychain_holds B held w a = None \<longleftrightarrow> blobs w (at a) = None"
  by (cases "blobs w (at a)") (fastforce simp: keychain_holds_def keychain_tidy_def stored_form_def blobs_def)+

lemma tidy_put:
  assumes "blobs w' = (blobs w)(at a \<mapsto> blob)" "keychain_tidy B held w" "stored_form (kb_uuid B) blob"
  shows "keychain_tidy B held w'"
  using assms by (auto simp: keychain_tidy_def blobs_def)

lemma tidy_del:
  assumes "blobs w' = (blobs w)(at a := None)" "keychain_tidy B held w"
  shows "keychain_tidy B held w'"
  using assms by (auto simp: keychain_tidy_def blobs_def split: if_splits)

lemma new_form: "wf_value v \<Longrightarrow> stored_form (kb_uuid B) (keychain_format # uuid_bytes u @ expose v)"
  by (simp add: stored_form_def blob_opens [OF from_slice] wf_value_def)

abbreviation sound :: "'s keychain_world \<Rightarrow> bool" where
  "sound w \<equiv> able w \<and> keychain_tidy B held w"

lemma read_spec:
  assumes w: "sound w" "wf_address a" and p: "keychain_read B (unbound a) w = (r, w')"
  shows "storage_spec (keychain_holds B held w) (ReadReq a) (ReadAns r) (keychain_holds B held w') \<and> sound w'"
proof -
  have k: "keeps w w'" "blobs w' = blobs w"
    and r: "r = (case keychain_holds B held w a of None \<Rightarrow> Inl NotFound
        | Some (v, ver) \<Rightarrow> Inr \<lparr>rv_value = v, rv_version = Some ver\<rparr>)"
    using read_outcome [OF p w(2)] w(1) by blast+
  have "keychain_holds B held w' = keychain_holds B held w" "sound w'"
    using w keeps_able [OF k(1)] tidy_keeps [OF k(2)] holds_keeps [OF k(2)] by simp_all
  then show ?thesis
    using r by (auto simp: spec_read_iff split: option.splits)
qed

lemma list_spec:
  assumes w: "sound w" and p: "keychain_list B s w = (r, w')"
  shows "storage_spec (keychain_holds B held w) (ListReq s) (ListAns r) (keychain_holds B held w') \<and> sound w'"
proof -
  have k: "keeps w w'" "blobs w' = blobs w"
    and r: "case r of Inr rows \<Rightarrow> listing (keychain_holds B held w) s rows | Inl x \<Rightarrow> x = Unavailable \<and> \<not> able w"
    using list_outcome [OF p] w by blast+
  have "keychain_holds B held w' = keychain_holds B held w" "sound w'"
    using w keeps_able [OF k(1)] tidy_keeps [OF k(2)] holds_keeps [OF k(2)] by simp_all
  then show ?thesis
    using r w by (auto split: sum.splits intro: storage_spec.list)
qed

lemma write_spec:
  assumes w: "sound w" "wf_address a" "wf_value v" and p: "keychain_write B (unbound a) v w = (r, w')"
  shows "storage_spec (keychain_holds B held w) (WriteReq a v) (WriteAns r) (keychain_holds B held w') \<and> sound w'"
proof -
  note o = write_outcome [OF p]
  then obtain wr where r: "r = Inr wr" using w(1) by (cases r) auto
  with o obtain u where b: "blobs w' = (blobs w)(at a \<mapsto> keychain_format # uuid_bytes u @ expose v)"
    and wr: "wr = (if blobs w (at a) = None then Created else Replaced) (Some (Version (uc_hyphenated (kb_uuid B) u)))"
    by auto
  have h: "keychain_holds B held w' = (keychain_holds B held w)(a \<mapsto> (v, Version (uc_hyphenated (kb_uuid B) u)))"
    using holds_put [OF b w(2) blob_opens [OF from_slice]] by simp
  have "sound w'"
    using o w keeps_able tidy_put [OF b _ new_form [OF w(3)]] by auto
  then show ?thesis
    unfolding h r wr using storage_spec.create [of "keychain_holds B held w" a v]
      storage_spec.replace [of "keychain_holds B held w" a v] holds_None [OF w(2) conjunct2 [OF w(1)]]
    by simp
qed

lemma delete_spec:
  assumes w: "sound w" "wf_address a" and p: "keychain_delete B (unbound a) w = (r, w')"
  shows "storage_spec (keychain_holds B held w) (DeleteReq a) (DeleteAns r) (keychain_holds B held w') \<and> sound w'"
proof (cases r)
  case (Inl x)
  with delete_outcome [OF p] w(1) have k: "keeps w w'" "blobs w' = blobs w" and x: "x = NotFound" "blobs w (at a) = None"
    by auto
  have "keychain_holds B held w' = keychain_holds B held w" "sound w'"
    using w keeps_able [OF k(1)] tidy_keeps [OF k(2)] holds_keeps [OF k(2)] by simp_all
  with Inl x w holds_None [OF w(2)] show ?thesis by (auto intro: storage_spec.delete_missing)
next
  case (Inr u)
  with delete_outcome [OF p] have k: "keeps w w'" and b: "blobs w (at a) \<noteq> None" "blobs w' = (blobs w)(at a := None)"
    by auto
  have "sound w'" using w keeps_able [OF k] tidy_del [OF b(2)] by simp
  moreover have "keychain_holds B held w a \<noteq> None" using b(1) holds_None [OF w(2) conjunct2 [OF w(1)]] by simp
  ultimately show ?thesis
    using Inr holds_del [OF b(2) w(2)] by (simp add: storage_spec.delete)
qed

lemma rename_spec:
  assumes w: "sound w" "wf_address a" "wf_secret_name n" and p: "keychain_rename B (unbound a) n w = (r, w')"
  shows "storage_spec (keychain_holds B held w) (RenameReq a n) (RenameAns r) (keychain_holds B held w') \<and> sound w'"
proof -
  note wf = wf_renamed [OF w(2,3)]
  note o = rename_outcome [OF p]
  show ?thesis
  proof (cases r)
    case (Inl x)
    with o w(1) have k: "keeps w w'" "blobs w' = blobs w"
      and x: "x = NotFound \<and> blobs w (at a) = None \<or> x = Conflict \<and> blobs w (at (renamed a n)) \<noteq> None"
      by auto
    have h: "keychain_holds B held w' = keychain_holds B held w" "sound w'"
      using w keeps_able [OF k(1)] tidy_keeps [OF k(2)] holds_keeps [OF k(2)] by simp_all
    from x show ?thesis
    proof
      assume "x = NotFound \<and> blobs w (at a) = None"
      with Inl h w holds_None [OF w(2)] show ?thesis by (auto intro: storage_spec.rename_missing)
    next
      assume "x = Conflict \<and> blobs w (at (renamed a n)) \<noteq> None"
      then have "keychain_holds B held w (renamed a n) \<noteq> None" using holds_None [OF wf conjunct2 [OF w(1)]] by simp
      with Inl h \<open>x = Conflict \<and> _\<close> show ?thesis by (simp add: storage_spec.rename_taken)
    qed
  next
    case (Inr u)
    with o obtain blob where k: "keeps w w'" and b: "blobs w (at a) = Some blob" "blobs w (at (renamed a n)) = None"
      "blobs w' = (blobs w)(at a := None, at (renamed a n) \<mapsto> blob)"
      by auto
    have f: "stored_form (kb_uuid B) blob"
      using b(1) w(1,2) by (auto simp: keychain_tidy_def blobs_def)
    then obtain ver v where v: "open_blob (kb_uuid B) blob = Inr (ver, v)" unfolding stored_form_def by blast
    define m where "m = keychain_holds B held w"
    have m: "m a = Some (SecretValue v, ver)" "m (renamed a n) = None"
      using b v w wf holds_None [OF wf] by (auto simp: m_def keychain_holds_def blobs_def)
    have "keychain_holds B held w' = m(a := None, renamed a n \<mapsto> (SecretValue v, ver))"
    proof (rule ext)
      fix c
      have "at c = at a \<longleftrightarrow> c = a" "at c = at (renamed a n) \<longleftrightarrow> c = renamed a n" if "wf_address c"
        using keychain_key_inject that w(2) wf by blast+
      then show "keychain_holds B held w' c = (m(a := None, renamed a n \<mapsto> (SecretValue v, ver))) c"
        using b(3) v w(2) wf by (auto simp: m_def keychain_holds_def blobs_def)
    qed
    moreover have "sound w'"
      using w(1) keeps_able [OF k] b(3) f by (auto simp: keychain_tidy_def blobs_def split: if_splits)
    ultimately show ?thesis
      using Inr m by (auto simp: m_def [symmetric] intro: storage_spec.rename)
  qed
qed

lemma keychain_simulates:
  assumes "sound w" "wf_keychain_request q" "perform (keychain_storage B) q w = (r, w')"
  shows "storage_spec (keychain_holds B held w) q r (keychain_holds B held w') \<and> sound w'"
proof (cases q)
  case (ReadReq a)
  obtain x w1 where e: "keychain_read B (unbound a) w = (x, w1)" by (cases "keychain_read B (unbound a) w")
  with ReadReq assms(3) have "r = ReadAns x" "w' = w1" by (simp_all add: keychain_storage_def)
  with read_spec [OF assms(1) _ e] ReadReq assms(2) show ?thesis by (simp add: wf_keychain_request_def)
next
  case (WriteReq a v)
  obtain x w1 where e: "keychain_write B (unbound a) v w = (x, w1)" by (cases "keychain_write B (unbound a) v w")
  with WriteReq assms(3) have "r = WriteAns x" "w' = w1" by (simp_all add: keychain_storage_def)
  with write_spec [OF assms(1) _ _ e] WriteReq assms(2) show ?thesis by (simp add: wf_keychain_request_def)
next
  case (DeleteReq a)
  obtain x w1 where e: "keychain_delete B (unbound a) w = (x, w1)" by (cases "keychain_delete B (unbound a) w")
  with DeleteReq assms(3) have "r = DeleteAns x" "w' = w1" by (simp_all add: keychain_storage_def)
  with delete_spec [OF assms(1) _ e] DeleteReq assms(2) show ?thesis by (simp add: wf_keychain_request_def)
next
  case (RenameReq a n)
  obtain x w1 where e: "keychain_rename B (unbound a) n w = (x, w1)" by (cases "keychain_rename B (unbound a) n w")
  with RenameReq assms(3) have "r = RenameAns x" "w' = w1" by (simp_all add: keychain_storage_def)
  with rename_spec [OF assms(1) _ _ e] RenameReq assms(2) show ?thesis by (simp add: wf_keychain_request_def)
next
  case (ListReq s)
  obtain x w1 where e: "keychain_list B s w = (x, w1)" by (cases "keychain_list B s w")
  with ListReq assms(3) have "r = ListAns x" "w' = w1" by (simp_all add: keychain_storage_def)
  with list_spec [OF assms(1) e] ListReq show ?thesis by simp
qed

end

sublocale keyring \<subseteq> kc: storage_refines "keychain_storage B"
    "\<lambda>w. keychain_able calm w \<and> keychain_tidy B held w" "\<lambda>_. wf_keychain_request" "keychain_holds B held"
proof unfold_locales
  fix w q r w'
  assume "keychain_able calm w \<and> keychain_tidy B held w" "wf_keychain_request q"
    "perform (keychain_storage B) q w = (r, w')"
  then show "storage_spec (keychain_holds B held w) q r (keychain_holds B held w') \<and>
      keychain_able calm w' \<and> keychain_tidy B held w'"
    by (rule keychain_simulates)
qed

section \<open>A scripted store\<close>

text \<open>Entries are pairs of service and user; each call takes the next word of the script, and fails on \<open>True\<close>.\<close>

record scripted =
  sp_blobs :: "((string \<times> string) \<times> bytes) list"
  sp_fails :: "bool list"

definition scripted_call ::
  "(scripted \<Rightarrow> (unit keyring_error + 'a) \<times> scripted) \<Rightarrow> (scripted, unit keyring_error, 'a) io" where
  "scripted_call f s =
     (let t = s\<lparr>sp_fails := tl (sp_fails s)\<rparr> in
      if sp_fails s \<noteq> [] \<and> hd (sp_fails s) then (Inl (OtherError ()), t) else f t)"

definition scripted_store :: "(scripted, string \<times> string, unit) credential_store" where
  "scripted_store =
     \<lparr>cr_build = (\<lambda>service user. scripted_call (\<lambda>s. (Inr (service, user), s))),
      cr_get_secret = (\<lambda>e. scripted_call (\<lambda>s. (ok_or (map_of (sp_blobs s) e) NoEntry, s))),
      cr_set_secret = (\<lambda>e blob. scripted_call (\<lambda>s. (Inr (), s\<lparr>sp_blobs := (e, blob) # bt_del e (sp_blobs s)\<rparr>))),
      cr_delete_credential = (\<lambda>e. scripted_call (\<lambda>s.
        if map_of (sp_blobs s) e = None then (Inl NoEntry, s)
        else (Inr (), s\<lparr>sp_blobs := bt_del e (sp_blobs s)\<rparr>))),
      cr_search = (\<lambda>_. scripted_call (\<lambda>s. (Inr (remdups (map fst (sp_blobs s))), s))),
      cr_get_specifiers = Some\<rparr>"

definition example_uuid_crate :: uuid_crate where
  "example_uuid_crate = \<lparr>uc_from_slice = (\<lambda>bs. Some (word_of_nat (be_value bs))), uc_hyphenated = dec_nat \<circ> unat\<rparr>"

definition example_keychain :: "(scripted, string \<times> string, unit) keychain_backend" where
  "example_keychain = keychain_new example_uuid_crate scripted_store"

definition scripted_calm :: "scripted \<Rightarrow> bool" where
  "scripted_calm s \<longleftrightarrow> True \<notin> set (sp_fails s)"

definition example_keychain_world :: "bool list \<Rightarrow> scripted keychain_world" where
  "example_keychain_world fails =
     \<lparr>kw_store = \<lparr>sp_blobs = [], sp_fails = fails\<rparr>, kw_ids = word_of_nat, kw_drawn = 0, kw_poisoned = False, kw_runs = True\<rparr>"

lemma scripted_call_cases:
  "scripted_call f s = (r, s') \<Longrightarrow>
     r = Inl (OtherError ()) \<and> \<not> scripted_calm s \<and> s' = s\<lparr>sp_fails := tl (sp_fails s)\<rparr> \<or>
     f (s\<lparr>sp_fails := tl (sp_fails s)\<rparr>) = (r, s')"
  by (cases "sp_fails s") (auto simp: scripted_call_def scripted_calm_def Let_def split: if_splits)

lemma scripted_calm_tl: "scripted_calm s \<Longrightarrow> scripted_calm (s\<lparr>sp_fails := tl (sp_fails s)\<rparr>)"
  by (cases "sp_fails s") (auto simp: scripted_calm_def)

lemma scripted_calm_blobs [simp]: "scripted_calm (s\<lparr>sp_blobs := m\<rparr>) = scripted_calm s"
  by (simp add: scripted_calm_def)

lemma example_from_slice: "uc_from_slice example_uuid_crate (uuid_bytes u) = Some u"
proof -
  have "unat u mod 256 ^ 16 = unat u"
    using unsigned_less [of u, where ?'a = nat] by simp
  then show ?thesis
    by (simp add: example_uuid_crate_def uuid_bytes_def be_value_be_bytes)
qed

lemmas example_keychain_simps =
  example_keychain_def keychain_new_def keychain_with_service_def scripted_store_def

lemma map_filter_Some [simp]: "List.map_filter Some xs = xs"
  by (induction xs) (simp_all add: List.map_filter_def)

interpretation sk: keyring example_keychain scripted_calm "\<lambda>e. e" "\<lambda>s. map_of (sp_blobs s)"
proof unfold_locales
  show "uc_from_slice (kb_uuid example_keychain) (uuid_bytes u) = Some u" for u
    by (simp add: example_keychain_simps example_from_slice)
next
  fix service user s s' and r :: "unit keyring_error + string \<times> string"
  assume "cr_build (kb_store example_keychain) service user s = (r, s')"
  then show "map_of (sp_blobs s') = map_of (sp_blobs s) \<and> (scripted_calm s \<longrightarrow> scripted_calm s') \<and>
      (case r of Inr e \<Rightarrow> e = (service, user) | Inl err \<Rightarrow> err \<noteq> NoEntry \<and> \<not> scripted_calm s)"
    by (auto simp: example_keychain_simps scripted_calm_tl dest!: scripted_call_cases)
next
  fix e s s' and r :: "unit keyring_error + bytes"
  assume "cr_get_secret (kb_store example_keychain) e s = (r, s')"
  then show "map_of (sp_blobs s') = map_of (sp_blobs s) \<and> (scripted_calm s \<longrightarrow> scripted_calm s') \<and>
      (case r of Inr blob \<Rightarrow> map_of (sp_blobs s) e = Some blob
       | Inl err \<Rightarrow> if err = NoEntry then map_of (sp_blobs s) e = None else \<not> scripted_calm s)"
    by (cases "map_of (sp_blobs s) e")
      (auto simp: example_keychain_simps scripted_calm_tl dest!: scripted_call_cases)
next
  fix e blob s s' and r :: "unit keyring_error + unit"
  assume "cr_set_secret (kb_store example_keychain) e blob s = (r, s')"
  then show "(scripted_calm s \<longrightarrow> scripted_calm s') \<and>
      (case r of Inr u \<Rightarrow> map_of (sp_blobs s') = (map_of (sp_blobs s))(e \<mapsto> blob)
       | Inl err \<Rightarrow> err \<noteq> NoEntry \<and> \<not> scripted_calm s \<and> (map_of (sp_blobs s') = map_of (sp_blobs s) \<or>
           map_of (sp_blobs s') = (map_of (sp_blobs s))(e \<mapsto> blob)))"
    by (auto simp: example_keychain_simps scripted_calm_tl dest!: scripted_call_cases)
next
  fix e s s' and r :: "unit keyring_error + unit"
  assume "cr_delete_credential (kb_store example_keychain) e s = (r, s')"
  then show "(scripted_calm s \<longrightarrow> scripted_calm s') \<and>
      (case r of Inr u \<Rightarrow> map_of (sp_blobs s) e \<noteq> None \<and> map_of (sp_blobs s') = (map_of (sp_blobs s))(e := None)
       | Inl err \<Rightarrow>
           if err = NoEntry then map_of (sp_blobs s') = map_of (sp_blobs s) \<and> map_of (sp_blobs s) e = None
           else \<not> scripted_calm s \<and> (map_of (sp_blobs s') = map_of (sp_blobs s) \<or>
             map_of (sp_blobs s') = (map_of (sp_blobs s))(e := None)))"
    by (cases "map_of (sp_blobs s) e")
      (auto simp: example_keychain_simps scripted_calm_tl dest!: scripted_call_cases)
next
  fix service s s' and r :: "unit keyring_error + (string \<times> string) list"
  assume "cr_search (kb_store example_keychain) [(''service'', service)] s = (r, s')"
  then show "map_of (sp_blobs s') = map_of (sp_blobs s) \<and> (scripted_calm s \<longrightarrow> scripted_calm s') \<and>
      (case r of
         Inr es \<Rightarrow> distinct (List.map_filter (cr_get_specifiers (kb_store example_keychain)) es) \<and>
           (\<forall>user. map_of (sp_blobs s) (service, user) \<noteq> None \<longrightarrow>
              (\<exists>e \<in> set es. cr_get_specifiers (kb_store example_keychain) e = Some (service, user)))
       | Inl err \<Rightarrow> err \<noteq> NoEntry \<and> \<not> scripted_calm s)"
    by (auto simp: example_keychain_simps scripted_calm_tl map_of_eq_None_iff [symmetric] dest!: scripted_call_cases
        dest: map_of_SomeD intro!: rev_image_eqI)
next
  show "cr_get_specifiers (kb_store example_keychain) e = Some k \<Longrightarrow> e = k" for e k
    by (simp add: example_keychain_simps)
qed

lemma example_keychain_ok:
  "keychain_able scripted_calm (example_keychain_world [])"
  "keychain_tidy example_keychain (\<lambda>s. map_of (sp_blobs s)) (example_keychain_world fails)"
  by (simp_all add: keychain_able_def keychain_tidy_def example_keychain_world_def scripted_calm_def)

section \<open>Properties\<close>

text \<open>
  C3: the keychain backend implements the abstract map of named values: over every credential store that
  keeps \<open>keyring\<close>, while no call fails and the entries of its service are stored values, each answer to
  a well-formed request is one the map allows and leaves the contents it says.
\<close>

theorem keychain_keeps_contract:
  assumes "keyring B calm key held" "keychain_able calm w \<and> keychain_tidy B held w"
    "wf_keychain_request q" "perform (keychain_storage B) q w = (r, w')"
  shows "storage_spec (keychain_holds B held w) q r (keychain_holds B held w') \<and>
    keychain_able calm w' \<and> keychain_tidy B held w'"
  using keyring.keychain_simulates [OF assms] .

definition keychain_address :: address where
  "keychain_address = \<lparr>ad_scope = local_scope, ad_name = SecretName ''a''\<rparr>"

lemma segment_letter: "name_start c \<Longrightarrow> segment_grammar [c]"
  by (simp add: segment_grammar_def)

lemma name_start_letters [simp]: "name_start CHR ''a''" "name_start CHR ''b''"
  by (simp_all add: name_start_def is_ascii_lowercase_def)

lemma keychain_address_wf [simp]: "wf_address keychain_address"
  by (simp add: wf_address_def keychain_address_def wf_scope_def local_scope_def wf_secret_name_def
      segment_is_secret_name segment_letter)

definition keychain_value :: secret_value where "keychain_value = SecretValue [1, 2]"

lemma keychain_value_wf [simp]: "wf_value keychain_value"
  by (simp add: wf_value_def keychain_value_def bounds)

theorem keychain_keeps_contract_witness:
  "storage_spec (keychain_holds example_keychain (\<lambda>s. map_of (sp_blobs s)) (example_keychain_world []))
     (WriteReq keychain_address keychain_value)
     (fst (perform (keychain_storage example_keychain) (WriteReq keychain_address keychain_value) (example_keychain_world [])))
     (keychain_holds example_keychain (\<lambda>s. map_of (sp_blobs s))
       (snd (perform (keychain_storage example_keychain) (WriteReq keychain_address keychain_value) (example_keychain_world []))))"
proof -
  have "wf_keychain_request (WriteReq keychain_address keychain_value)"
    by (simp add: wf_keychain_request_def)
  from keychain_keeps_contract [OF sk.keyring_axioms conjI [OF example_keychain_ok] this surjective_pairing]
  show ?thesis by (rule conjunct1)
qed

text \<open>
  The key of an entry decodes to an address exactly when the address is well formed and the key is
  the one it is stored under; so no two addresses share an entry.
\<close>

theorem entry_user_roundtrip:
  "decode_user s = Some a \<longleftrightarrow> wf_address a \<and> s = entry_user a"
  by (rule decode_user_iff)

text \<open>
  A sealed value opens to its bytes and the version it was sealed under, which is the next UUID drawn;
  a blob that is shorter than the header or of another format opens to \<open>Unavailable\<close>.
\<close>

theorem sealed_value_opens:
  assumes "\<forall>u. uc_from_slice U (uuid_bytes u) = Some u" "seal_value U v w = (x, w')"
  shows "(\<exists>blob ver. x = Inr (blob, ver) \<and> open_blob U blob = Inr (ver, expose v) \<and>
      ver = Version (uc_hyphenated U (kw_ids w (kw_drawn w))) \<and> length blob = 17 + length (expose v) \<and>
      kw_drawn w' = kw_drawn w + 1) \<and>
    (open_blob U b = Inr (ver', v') \<longrightarrow> 17 \<le> length b \<and> hd b = 1 \<and> v' = drop 17 b)"
proof -
  let ?u = "kw_ids w (kw_drawn w)"
  have "x = Inr (keychain_format # uuid_bytes ?u @ expose v, Version (uc_hyphenated U ?u))" "kw_drawn w' = kw_drawn w + 1"
    using assms(2) by (auto simp: seal_value_def draw_uuid_def bindE_def)
  moreover have "open_blob U (keychain_format # uuid_bytes ?u @ expose v) = Inr (Version (uc_hyphenated U ?u), expose v)"
    using blob_opens assms(1) by blast
  moreover have "open_blob U b = Inr (ver', v') \<longrightarrow> 17 \<le> length b \<and> hd b = 1 \<and> v' = drop 17 b"
    by (cases b) (auto simp: open_blob_def header_bytes_def keychain_format_def)
  ultimately show ?thesis by simp
qed

theorem sealed_value_opens_witness:
  "\<exists>blob ver. fst (seal_value example_uuid_crate keychain_value (example_keychain_world [])) = Inr (blob, ver) \<and>
     open_blob example_uuid_crate blob = Inr (ver, [1, 2])"
proof -
  have "\<forall>u. uc_from_slice example_uuid_crate (uuid_bytes u) = Some u"
    by (simp add: example_from_slice)
  from sealed_value_opens [OF this surjective_pairing, of keychain_value "example_keychain_world []" "[]"]
  show ?thesis unfolding keychain_value_def secret_value.sel by blast
qed

text \<open>
  C26: over every store that keeps \<open>keyring\<close>, where a change that fails may have been made or not, a rename
  touches no other entry; a success has moved the value onto a name that held none; \<open>NotFound\<close> and
  \<open>Conflict\<close> have changed nothing; and after any other error the value is still under its old name,
  unless the store can answer an error to a deletion that it has made. In that case alone the value may
  be gone, since the copy is then deleted too (\<open>rename_loses\<close> below is such a run).
\<close>

theorem keychain_rename_loses_nothing:
  assumes "keyring B calm key held" "keychain_rename B (unbound a) n w = (r, w')"
  shows "(\<forall>k. k \<noteq> keychain_key B a \<and> k \<noteq> keychain_key B (renamed a n) \<longrightarrow> held (kw_store w') k = held (kw_store w) k) \<and>
    (case r of
       Inr u \<Rightarrow> held (kw_store w') (keychain_key B (renamed a n)) = held (kw_store w) (keychain_key B a) \<and>
         held (kw_store w') (keychain_key B a) = None \<and>
         held (kw_store w) (keychain_key B a) \<noteq> None \<and> held (kw_store w) (keychain_key B (renamed a n)) = None
     | Inl x \<Rightarrow> (x = NotFound \<or> x = Conflict \<longrightarrow> held (kw_store w') = held (kw_store w)) \<and>
         (x = Unavailable \<or> x = NotFound \<or> x = Conflict) \<and>
         (held (kw_store w') (keychain_key B a) = held (kw_store w) (keychain_key B a) \<or>
          deletes_though_failing B held (keychain_key B a)))"
  using keyring.rename_outcome [OF assms]
  by (cases r) (auto simp: keyring.blobs_def [OF assms(1)])

definition renamed_name :: secret_name where "renamed_name = SecretName ''b''"

definition fault_world :: "scripted keychain_world" where
  "fault_world = (example_keychain_world [])\<lparr>kw_store :=
     \<lparr>sp_blobs = [(keychain_key example_keychain keychain_address, [1])], sp_fails = replicate 5 False @ [True]\<rparr>\<rparr>"

lemma entry_users [simp]:
  "entry_user keychain_address = ''default/default/default/a''"
  "entry_user (renamed keychain_address renamed_name) = ''default/default/default/b''"
  by (simp_all add: entry_user_def keychain_address_def renamed_name_def local_scope_def default_name_def default_text_def)

lemma fault_rename:
  "fst (keychain_rename example_keychain (unbound keychain_address) renamed_name fault_world) = Inl Unavailable"
  by (simp add: keychain_rename_def keychain_blocking_def keychain_exclusive_def keychain_entry_def store_call_def
      on_store_def zoomE_apply stored_def drop_source_def example_keychain_simps scripted_call_def Let_def fault_world_def
      example_keychain_world_def unbound_def keychain_key_def numeral_eq_Suc bindE_def map_errE_def renamed_def [symmetric])

lemma scripted_deletes: "\<not> deletes_though_failing example_keychain (\<lambda>s. map_of (sp_blobs s)) k"
  by (auto simp: deletes_though_failing_def example_keychain_simps dest!: scripted_call_cases split: if_splits)

text \<open>The copy is made, the source cannot be deleted, and the copy is taken back.\<close>

theorem keychain_rename_loses_nothing_witness:
  "let (r, w') = keychain_rename example_keychain (unbound keychain_address) renamed_name fault_world
   in r = Inl Unavailable \<and>
     map_of (sp_blobs (kw_store w')) (keychain_key example_keychain keychain_address) = Some [1]"
proof -
  obtain r w' where p: "keychain_rename example_keychain (unbound keychain_address) renamed_name fault_world = (r, w')"
    by (cases "keychain_rename example_keychain (unbound keychain_address) renamed_name fault_world")
  moreover have "map_of (sp_blobs (kw_store fault_world)) (keychain_key example_keychain keychain_address) = Some [1]"
    by (simp add: fault_world_def)
  ultimately show ?thesis
    using keychain_rename_loses_nothing [OF sk.keyring_axioms p] fault_rename scripted_deletes by simp
qed

text \<open>
  A store that keeps \<open>keyring\<close> and yet makes the deletions it answers an error to: on it the same rename
  deletes the source, takes its copy back and leaves the value under neither name.
\<close>

definition half_store :: "(scripted, string \<times> string, unit) credential_store" where
  "half_store = scripted_store\<lparr>cr_delete_credential := (\<lambda>e s.
     case cr_delete_credential scripted_store e s of
       (Inl (OtherError x), s) \<Rightarrow> (Inl (OtherError x), s\<lparr>sp_blobs := bt_del e (sp_blobs s)\<rparr>)
     | answer \<Rightarrow> answer)\<rparr>"

definition half_keychain :: "(scripted, string \<times> string, unit) keychain_backend" where
  "half_keychain = keychain_new example_uuid_crate half_store"

lemma half_keychain_parts:
  "kb_uuid half_keychain = kb_uuid example_keychain" "kb_service half_keychain = kb_service example_keychain"
  "cr_build (kb_store half_keychain) = cr_build (kb_store example_keychain)"
  "cr_get_secret (kb_store half_keychain) = cr_get_secret (kb_store example_keychain)"
  "cr_set_secret (kb_store half_keychain) = cr_set_secret (kb_store example_keychain)"
  "cr_search (kb_store half_keychain) = cr_search (kb_store example_keychain)"
  "cr_get_specifiers (kb_store half_keychain) = cr_get_specifiers (kb_store example_keychain)"
  by (simp_all add: half_keychain_def half_store_def example_keychain_def keychain_new_def keychain_with_service_def)

lemma half_delete:
  assumes "cr_delete_credential (kb_store half_keychain) e s = (r, s')"
  shows "(scripted_calm s \<longrightarrow> scripted_calm s') \<and>
    (case r of Inr u \<Rightarrow> map_of (sp_blobs s) e \<noteq> None \<and> map_of (sp_blobs s') = (map_of (sp_blobs s))(e := None)
     | Inl err \<Rightarrow>
         if err = NoEntry then map_of (sp_blobs s') = map_of (sp_blobs s) \<and> map_of (sp_blobs s) e = None
         else \<not> scripted_calm s \<and> (map_of (sp_blobs s') = map_of (sp_blobs s) \<or>
           map_of (sp_blobs s') = (map_of (sp_blobs s))(e := None)))"
proof -
  obtain r1 s1 where d: "cr_delete_credential scripted_store e s = (r1, s1)"
    by (cases "cr_delete_credential scripted_store e s")
  then have "cr_delete_credential (kb_store example_keychain) e s = (r1, s1)"
    by (simp add: example_keychain_def keychain_new_def keychain_with_service_def)
  note l = sk.delete [OF this]
  show ?thesis
  proof (cases "\<exists>x. r1 = Inl (OtherError x)")
    case True
    with d have "sp_blobs s1 = sp_blobs s"
      by (auto simp: scripted_store_def scripted_call_def Let_def split: if_splits)
    with True l d assms show ?thesis
      by (auto simp: half_keychain_def half_store_def keychain_new_def keychain_with_service_def)
  next
    case False
    with d assms have e: "r = r1" "s' = s1"
      by (auto simp: half_keychain_def half_store_def keychain_new_def keychain_with_service_def
          split: sum.splits keyring_error.splits)
    from l show ?thesis unfolding e .
  qed
qed

interpretation hk: keyring half_keychain scripted_calm "\<lambda>e. e" "\<lambda>s. map_of (sp_blobs s)"
  by (unfold_locales, unfold half_keychain_parts)
    (rule sk.from_slice | erule half_delete sk.build sk.get sk.set sk.search sk.specifiers)+

lemma rename_loses:
  "\<exists>w'. keychain_rename half_keychain (unbound keychain_address) renamed_name fault_world = (Inl Unavailable, w') \<and>
     map_of (sp_blobs (kw_store fault_world)) (keychain_key half_keychain keychain_address) = Some [1] \<and>
     sp_blobs (kw_store w') = []"
  by (simp add: keychain_rename_def keychain_blocking_def keychain_exclusive_def keychain_entry_def store_call_def
      on_store_def zoomE_apply stored_def drop_source_def half_keychain_def half_store_def example_keychain_simps
      scripted_call_def Let_def fault_world_def
      example_keychain_world_def unbound_def keychain_key_def numeral_eq_Suc bindE_def map_errE_def bt_del_def renamed_def [symmetric])

end
