(* ===== verification/Cli_Files.thy ===== *)
theory Cli_Files
  imports File_Config
begin

text \<open>
  Where \<open>secretsctl\<close> takes a value from (\<open>crates/secretsctl/src/value.rs\<close>) and where it puts one
  (\<open>crates/secretsctl/src/out.rs\<close>), on Unix. The operating system is \<open>host\<close>: names and inodes, so that
  a file opened or linked stays the one it was whatever becomes of its name; what other processes do
  before each of the process's calls (\<open>ho_others\<close>); the script of calls that fail; what is attached to
  stdin; and for each call the file system before and after it (\<open>ho_calls\<close>).
\<close>

unbundle bit_operations_syntax

section \<open>The operating system\<close>

datatype node =
  FileNode bytes "32 word"
| DirNode
| LinkNode file_key
| FifoNode
| SocketNode
| OtherNode

record file_system =
  fs_names :: "file_key \<Rightarrow> nat option"
  fs_inodes :: "nat \<Rightarrow> node"
  fs_next :: nat

text \<open>\<open>si_typed\<close> is what the hidden prompt answers, \<open>si_kind\<close> the file behind the descriptor.\<close>

record stdin =
  si_terminal :: bool
  si_typed :: "string option"
  si_kind :: "node option"
  si_bytes :: bytes

record host =
  ho_fs :: file_system
  ho_others :: "(file_system \<Rightarrow> file_system) list"
  ho_fates :: "fate list"
  ho_calls :: "(file_system \<times> file_system) list"
  ho_random :: "bytes option list"
  ho_pid :: nat
  ho_umask :: "32 word"
  ho_stdin :: stdin
  ho_prompts :: "string list"
  ho_out :: "string list"
  ho_err :: "string list"

datatype io_error = IoNotFound | IoExists | IoOther

text \<open>One call: others act, then it does what it does, or fails after \<open>n\<close> bytes.\<close>

definition host_call ::
  "(file_system \<Rightarrow> (io_error + 'a) \<times> file_system) \<Rightarrow> (nat \<Rightarrow> file_system \<Rightarrow> file_system) \<Rightarrow> (host, io_error, 'a) io" where
  "host_call good bad h =
     (let before = (case ho_others h of [] \<Rightarrow> ho_fs h | f # _ \<Rightarrow> f (ho_fs h));
          (r, after) = (case ho_fates h of
             Breaks n # _ \<Rightarrow> (Inl IoOther, bad n before)
           | _ \<Rightarrow> good before)
      in (r, h\<lparr>ho_fs := after, ho_others := tl (ho_others h), ho_fates := tl (ho_fates h),
             ho_calls := ho_calls h @ [(before, after)]\<rparr>))"

definition query_call :: "(file_system \<Rightarrow> io_error + 'a) \<Rightarrow> (host, io_error, 'a) io" where
  "query_call q = host_call (\<lambda>s. (q s, s)) (\<lambda>_ s. s)"

text \<open>A path as typed, the directory before its last part, and that part.\<close>

record os_path =
  op_text :: string
  op_parent :: "string option"
  op_name :: "string option"

definition path_directory :: "os_path \<Rightarrow> string" where
  "path_directory p = (case op_parent p of Some d \<Rightarrow> if d \<noteq> [] then d else ''.'' | None \<Rightarrow> ''.'')"

definition path_key :: "os_path \<Rightarrow> file_key" where
  "path_key p = (path_directory p, case op_name p of Some n \<Rightarrow> n | None \<Rightarrow> [])"

definition at_name :: "file_system \<Rightarrow> file_key \<Rightarrow> node option" where
  "at_name s k = map_option (fs_inodes s) (fs_names s k)"

section \<open>Where \<open>read\<close> puts a value\<close>

datatype out_refusal = OutExists | OutSymlink | OutNotAFile | OutUnwritable

fun out_refusal_text :: "out_refusal \<Rightarrow> string" where
  "out_refusal_text OutExists = ''the --out path exists; read writes a new file only''"
| "out_refusal_text OutSymlink = ''the --out path is a symlink; read never follows one''"
| "out_refusal_text OutNotAFile = ''the --out path names no file''"
| "out_refusal_text OutUnwritable = ''the --out file could not be created''"

text \<open>The open file is its inode.\<close>

record pending =
  pd_temp :: file_key
  pd_file :: "nat option"
  pd_target :: file_key

definition hex_digit :: "nat \<Rightarrow> char" where
  "hex_digit d = (if d < 10 then char_of (48 + d) else char_of (87 + d))"

definition hex_byte :: "byte \<Rightarrow> string" where
  "hex_byte b = [hex_digit (unat b div 16), hex_digit (unat b mod 16)]"

definition out_temp_name :: "string \<Rightarrow> nat \<Rightarrow> bytes \<Rightarrow> string" where
  "out_temp_name name pid suffix =
     ''.'' @ name @ ''.'' @ dec_nat pid @ ''.'' @ concat (map hex_byte suffix) @ ''.secretsctl-tmp''"

definition getrandom_fill :: "(host, out_refusal, bytes) io" where
  "getrandom_fill h =
     (case ho_random h of
        Some b # rs \<Rightarrow> (Inr b, h\<lparr>ho_random := rs\<rparr>)
      | _ \<Rightarrow> (Inl OutUnwritable, h\<lparr>ho_random := tl (ho_random h)\<rparr>))"

definition open_new :: "file_key \<Rightarrow> 32 word \<Rightarrow> (host, io_error, nat) io" where
  "open_new k mode h = host_call
     (\<lambda>s. if fs_names s k \<noteq> None then (Inl IoExists, s)
          else (Inr (fs_next s), s\<lparr>fs_names := (fs_names s)(k \<mapsto> fs_next s),
            fs_inodes := (fs_inodes s)(fs_next s := FileNode [] (mode AND NOT (ho_umask h))),
            fs_next := fs_next s + 1\<rparr>))
     (\<lambda>_ s. s) h"

definition set_inode :: "nat \<Rightarrow> node \<Rightarrow> file_system \<Rightarrow> file_system" where
  "set_inode i x s = s\<lparr>fs_inodes := (fs_inodes s)(i := x)\<rparr>"

definition set_permissions :: "nat \<Rightarrow> 32 word \<Rightarrow> (host, io_error, unit) io" where
  "set_permissions i mode = host_call
     (\<lambda>s. (Inr (), case fs_inodes s i of FileNode b _ \<Rightarrow> set_inode i (FileNode b mode) s | _ \<Rightarrow> s)) (\<lambda>_ s. s)"

definition unlink :: "file_key \<Rightarrow> (host, io_error, unit) io" where
  "unlink k = host_call
     (\<lambda>s. if fs_names s k = None then (Inl IoNotFound, s) else (Inr (), s\<lparr>fs_names := (fs_names s)(k := None)\<rparr>))
     (\<lambda>_ s. s)"

definition create_private :: "file_key \<Rightarrow> (host, out_refusal, nat) io" where
  "create_private k = bindE (map_errE (\<lambda>_. OutUnwritable) (open_new k 0x180)) (\<lambda>i h.
     case set_permissions i 0x180 h of
       (Inr u, h) \<Rightarrow> (Inr i, h)
     | (Inl e, h) \<Rightarrow> (Inl OutUnwritable, snd (unlink k h)))"

text \<open>\<open>symlink_metadata\<close> of the path, which must be nothing.\<close>

definition nothing_there :: "os_path \<Rightarrow> (host, out_refusal, unit) io" where
  "nothing_there p h =
     (case query_call (\<lambda>s. ok_or (at_name s (path_key p)) IoNotFound) h of
        (Inr (LinkNode _), h) \<Rightarrow> (Inl OutSymlink, h)
      | (Inr _, h) \<Rightarrow> (Inl OutExists, h)
      | (Inl IoNotFound, h) \<Rightarrow> (Inr (), h)
      | (Inl _, h) \<Rightarrow> (Inl OutUnwritable, h))"

definition out_prepare :: "os_path \<Rightarrow> (host, out_refusal, pending) io" where
  "out_prepare p =
     bindE (nothing_there p) (\<lambda>_.
     bindE (liftE (ok_or (op_name p) OutNotAFile)) (\<lambda>name.
     bindE getrandom_fill (\<lambda>suffix h.
     let temp = (path_directory p, out_temp_name name (ho_pid h) suffix) in
     bindE (create_private temp) (\<lambda>i.
     retE \<lparr>pd_temp = temp, pd_file = Some i, pd_target = path_key p\<rparr>) h)))"

definition write_inode :: "nat \<Rightarrow> bytes \<Rightarrow> (host, io_error, unit) io" where
  "write_inode i bs =
     (let put = (\<lambda>c s. case fs_inodes s i of FileNode b m \<Rightarrow> set_inode i (FileNode (b @ c) m) s | _ \<Rightarrow> s)
      in host_call (\<lambda>s. (Inr (), put bs s)) (\<lambda>n. put (take n bs)))"

definition hard_link :: "file_key \<Rightarrow> file_key \<Rightarrow> (host, io_error, unit) io" where
  "hard_link from to = host_call
     (\<lambda>s. if fs_names s from = None then (Inl IoNotFound, s)
          else if fs_names s to \<noteq> None then (Inl IoExists, s)
          else (Inr (), s\<lparr>fs_names := (fs_names s)(to := fs_names s from)\<rparr>))
     (\<lambda>_ s. s)"

definition link_refusal :: "io_error \<Rightarrow> out_refusal" where
  "link_refusal e = (if e = IoExists then OutExists else OutUnwritable)"

text \<open>\<open>Drop\<close>: the temporary file goes, whatever \<open>commit\<close> answers and when nothing is committed.\<close>

definition pending_drop :: "pending \<Rightarrow> host \<Rightarrow> host" where
  "pending_drop p h = snd (unlink (pd_temp p) h)"

definition pending_commit :: "pending \<Rightarrow> bytes \<Rightarrow> (host, out_refusal, unit) io" where
  "pending_commit p bs h =
     (let (r, h) =
        bindE (liftE (ok_or (pd_file p) OutUnwritable)) (\<lambda>i.
        bindE (map_errE (\<lambda>_. OutUnwritable) (write_inode i bs)) (\<lambda>_.
        bindE (map_errE (\<lambda>_. OutUnwritable) (query_call (\<lambda>_. Inr ()))) (\<lambda>_.
        map_errE link_refusal (hard_link (pd_temp p) (pd_target p))))) h
      in (r, pending_drop p h))"

section \<open>Where \<open>put\<close> takes a value from\<close>

datatype value_refusal = ValExposed | ValNotAFile | ValUncheckedStdin | ValUnreadable

fun value_refusal_text :: "value_refusal \<Rightarrow> string" where
  "value_refusal_text ValExposed =
     ''the file is accessible to its group or to others; make it readable by its owner only (chmod 600)''"
| "value_refusal_text ValNotAFile = ''the path is not a regular file''"
| "value_refusal_text ValUncheckedStdin =
     ''stdin is neither a terminal nor a pipe; pipe the value in, type it at the prompt, or pass --file with a mode-0600 file''"
| "value_refusal_text ValUnreadable = ''the value could not be read''"

text \<open>The bytes of a reader, up to one past the limit, as \<open>u64\<close>.\<close>

definition read_bound :: "nat \<Rightarrow> nat" where
  "read_bound limit = (let bound = if limit < 2 ^ 64 then limit else 2 ^ 64 - 1 in min (bound + 1) (2 ^ 64 - 1))"

definition bounded :: "(file_system \<Rightarrow> bytes) \<Rightarrow> nat \<Rightarrow> (host, value_refusal, bytes) io" where
  "bounded content limit = map_errE (\<lambda>_. ValUnreadable) (query_call (\<lambda>s. Inr (take (read_bound limit) (content s))))"

text \<open>Opening follows symbolic links, at most 40 of them; a socket cannot be opened.\<close>

fun follow :: "nat \<Rightarrow> file_system \<Rightarrow> file_key \<Rightarrow> nat option" where
  "follow 0 s k = None"
| "follow (Suc n) s k =
     (case fs_names s k of
        None \<Rightarrow> None
      | Some i \<Rightarrow> (case fs_inodes s i of LinkNode k' \<Rightarrow> follow n s k' | _ \<Rightarrow> Some i))"

definition file_bytes :: "node \<Rightarrow> bytes" where
  "file_bytes x = (case x of FileNode b _ \<Rightarrow> b | _ \<Rightarrow> [])"

definition open_read :: "file_key \<Rightarrow> file_system \<Rightarrow> io_error + nat" where
  "open_read k s = bindR (ok_or (follow 41 s k) IoNotFound) (\<lambda>i. if fs_inodes s i = SocketNode then Inl IoOther else Inr i)"

definition read_protected :: "os_path \<Rightarrow> nat \<Rightarrow> (host, value_refusal, bytes) io" where
  "read_protected p limit =
     bindE (map_errE (\<lambda>_. ValUnreadable) (query_call (open_read (path_key p)))) (\<lambda>i.
     bindE (map_errE (\<lambda>_. ValUnreadable) (query_call (\<lambda>s. Inr (fs_inodes s i)))) (\<lambda>metadata.
     case metadata of
       FileNode _ mode \<Rightarrow>
         if mode AND 0x3F \<noteq> 0 then failE ValExposed
         else bounded (\<lambda>s. file_bytes (fs_inodes s i)) limit
     | _ \<Rightarrow> failE ValNotAFile))"

definition stdin_is_pipe :: "host \<Rightarrow> bool" where
  "stdin_is_pipe h = (case si_kind (ho_stdin h) of
     Some FifoNode \<Rightarrow> True | Some SocketNode \<Rightarrow> True | _ \<Rightarrow> False)"

definition trim_newline :: "bytes \<Rightarrow> bytes" where
  "trim_newline bs =
     (if bs \<noteq> [] \<and> last bs = 0x0A then
        let bs = butlast bs in if bs \<noteq> [] \<and> last bs = 0x0D then butlast bs else bs
      else bs)"

definition read_value :: "os_path option \<Rightarrow> bool \<Rightarrow> string \<Rightarrow> nat \<Rightarrow> (host, value_refusal, bytes) io" where
  "read_value file raw prompt limit h =
     (let trimmed = (\<lambda>bs. if raw then bs else trim_newline bs) in
      case file of
        Some path \<Rightarrow> bindE (read_protected path limit) (\<lambda>bs. retE (trimmed bs)) h
      | None \<Rightarrow>
          if si_terminal (ho_stdin h) then
            (ok_or (map_option str_bytes (si_typed (ho_stdin h))) ValUnreadable, h\<lparr>ho_prompts := ho_prompts h @ [prompt]\<rparr>)
          else if stdin_is_pipe h then
            bindE (bounded (\<lambda>_. si_bytes (ho_stdin h)) limit) (\<lambda>bs. retE (trimmed bs)) h
          else (Inl ValUncheckedStdin, h))"

end
