(* ===== verification/Cli_Net.thy ===== *)
theory Cli_Net
  imports Storage_Port
begin

text \<open>
  Texts of the standard library that \<open>secretsctl\<close> decides on: \<open>IpAddr\<close> from a text and whether it is a
  loopback address, \<open>eq_ignore_ascii_case\<close>, \<open>trim_start_matches\<close> and \<open>trim_end_matches\<close> of a character,
  and whether bytes are UTF-8.
\<close>

section \<open>Addresses\<close>

definition hex_value :: "char \<Rightarrow> nat option" where
  "hex_value c =
     (if CHR ''0'' \<le> c \<and> c \<le> CHR ''9'' then Some (of_char c - 48)
      else if CHR ''a'' \<le> c \<and> c \<le> CHR ''f'' then Some (of_char c - 87)
      else if CHR ''A'' \<le> c \<and> c \<le> CHR ''F'' then Some (of_char c - 55)
      else None)"

fun digits_value :: "nat \<Rightarrow> nat \<Rightarrow> string \<Rightarrow> nat option" where
  "digits_value radix n [] = Some n"
| "digits_value radix n (c # s) =
     (case hex_value c of
        None \<Rightarrow> None
      | Some d \<Rightarrow> if d < radix then digits_value radix (n * radix + d) s else None)"

text \<open>An octet has no leading zero; a group has at most four digits.\<close>

definition octet :: "string \<Rightarrow> nat option" where
  "octet s =
     (if s = [] \<or> length s > 3 \<or> (hd s = CHR ''0'' \<and> length s > 1) then None
      else Option.bind (digits_value 10 0 s) (\<lambda>n. if n < 256 then Some n else None))"

definition group16 :: "string \<Rightarrow> nat option" where
  "group16 s = (if s = [] \<or> length s > 4 then None else digits_value 16 0 s)"

fun options :: "'a option list \<Rightarrow> 'a list option" where
  "options [] = Some []"
| "options (x # xs) = Option.bind x (\<lambda>y. map_option (\<lambda>ys. y # ys) (options xs))"

definition ipv4 :: "string \<Rightarrow> nat list option" where
  "ipv4 s = (let ps = split_on CHR ''.'' s in if length ps = 4 then options (map octet ps) else None)"

text \<open>Groups between colons; the last piece may be an address of version 4, which is two groups.\<close>

fun groups :: "string list \<Rightarrow> nat list option" where
  "groups [] = Some []"
| "groups [p] =
     (case ipv4 p of
        Some [a, b, c, d] \<Rightarrow> Some [a * 256 + b, c * 256 + d]
      | _ \<Rightarrow> map_option (\<lambda>g. [g]) (group16 p))"
| "groups (p # q # ps) = Option.bind (group16 p) (\<lambda>g. map_option (\<lambda>gs. g # gs) (groups (q # ps)))"

definition group_text :: "string \<Rightarrow> nat list option" where
  "group_text s = (if s = [] then Some [] else groups (split_on CHR '':'' s))"

text \<open>The texts before and after the first \<open>::\<close>.\<close>

fun split_colons :: "string \<Rightarrow> (string \<times> string) option" where
  "split_colons (a # b # s) =
     (if a = CHR '':'' \<and> b = CHR '':'' then Some ([], s)
      else map_option (\<lambda>(x, y). (a # x, y)) (split_colons (b # s)))"
| "split_colons _ = None"

definition ipv6 :: "string \<Rightarrow> nat list option" where
  "ipv6 s =
     (case split_colons s of
        None \<Rightarrow> Option.bind (group_text s) (\<lambda>gs. if length gs = 8 then Some gs else None)
      | Some (a, b) \<Rightarrow>
          if CHR ''.'' \<in> set a then None
          else Option.bind (group_text a) (\<lambda>x. Option.bind (group_text b) (\<lambda>y.
            if length x + length y < 8 then Some (x @ replicate (8 - length x - length y) 0 @ y) else None)))"

definition ip_loopback :: "string \<Rightarrow> bool option" where
  "ip_loopback s =
     (case ipv4 s of
        Some octets \<Rightarrow> Some (hd octets = 127)
      | None \<Rightarrow> map_option (\<lambda>gs. gs = [0, 0, 0, 0, 0, 0, 0, 1]) (ipv6 s))"

section \<open>Characters\<close>

definition ascii_lower :: "char \<Rightarrow> char" where
  "ascii_lower c = (if CHR ''A'' \<le> c \<and> c \<le> CHR ''Z'' then char_of ((of_char c :: nat) + 32) else c)"

definition eq_ignore_ascii_case :: "string \<Rightarrow> string \<Rightarrow> bool" where
  "eq_ignore_ascii_case s t \<longleftrightarrow> map ascii_lower s = map ascii_lower t"

definition trim_char :: "char \<Rightarrow> char \<Rightarrow> string \<Rightarrow> string" where
  "trim_char a b s = rev (dropWhile (\<lambda>x. x = b) (rev (dropWhile (\<lambda>x. x = a) s)))"

definition continuation :: "byte \<Rightarrow> bool" where
  "continuation b \<longleftrightarrow> 0x80 \<le> b \<and> b \<le> 0xBF"

text \<open>The sequences of \<open>str::from_utf8\<close>: no overlong form, no surrogate, nothing over U+10FFFF.\<close>

fun utf8_valid :: "bytes \<Rightarrow> bool" where
  "utf8_valid [] \<longleftrightarrow> True"
| "utf8_valid (a # bs) \<longleftrightarrow>
     (if a < 0x80 then utf8_valid bs
      else case bs of
          [] \<Rightarrow> False
        | b # cs \<Rightarrow>
            if 0xC2 \<le> a \<and> a \<le> 0xDF then continuation b \<and> utf8_valid cs
            else case cs of
                [] \<Rightarrow> False
              | c # ds \<Rightarrow>
                  if 0xE0 \<le> a \<and> a \<le> 0xEF then
                    (if a = 0xE0 then 0xA0 \<le> b \<and> b \<le> 0xBF else if a = 0xED then 0x80 \<le> b \<and> b \<le> 0x9F else continuation b) \<and>
                    continuation c \<and> utf8_valid ds
                  else case ds of
                      [] \<Rightarrow> False
                    | d # es \<Rightarrow>
                        0xF0 \<le> a \<and> a \<le> 0xF4 \<and>
                        (if a = 0xF0 then 0x90 \<le> b \<and> b \<le> 0xBF else if a = 0xF4 then 0x80 \<le> b \<and> b \<le> 0x8F else continuation b) \<and>
                        continuation c \<and> continuation d \<and> utf8_valid es)"

definition bytes_str :: "bytes \<Rightarrow> string" where
  "bytes_str bs = map (\<lambda>b. char_of (unat b)) bs"

lemma bytes_str_bytes [simp]: "bytes_str (str_bytes s) = s"
proof -
  have "char_of (unat (word_of_nat (of_char c) :: byte)) = c" for c
    by (simp add: unat_of_nat)
  then show ?thesis
    by (simp add: bytes_str_def str_bytes_def map_idI)
qed

end
