(* ===== verification/Cli_Backends.thy ===== *)
theory Cli_Backends
  imports Cli_Files Cli_Net Keychain Remote_Backend Federation_Stack
begin

text \<open>
  The backends the local commands mount (\<open>crates/secretsctl/src/backends.rs\<close>), in the builds without
  the feature \<open>test-hooks\<close>. The world is the operating system with the world \<open>'w\<close> of the backends.
  What other crates answer is in \<open>cli_env\<close>: the TOML table, the URL parser, the platform's credential
  store, the HTTP client; and with it the environment variables, the store over the configuration file
  and the read of its text, which are on the side of \<open>'w\<close>.
\<close>

section \<open>The configuration\<close>

record keychain_table_entry =
  ke_service :: "string option"

record remote_table_entry =
  re_origin :: string
  re_token_env :: "string option"
  re_token_file :: "os_path option"

record backend_table =
  bk_keychain :: "(string, keychain_table_entry) btree"
  bk_remote :: "(string, remote_table_entry) btree"

definition default_table :: backend_table where
  "default_table = \<lparr>bk_keychain = [], bk_remote = []\<rparr>"

text \<open>
  \<open>en_native\<close> is \<open>None\<close> in a build without the feature \<open>native-keychain\<close>, and otherwise what opening
  the platform's store answers. \<open>en_get\<close> and \<open>en_put\<close> are the keychain's part of \<open>'w\<close>.
\<close>

record ('w, 's, 'e, 'x) cli_env =
  en_var :: "string \<Rightarrow> string option"
  en_config :: "file_config \<Rightarrow> 'w namespace_config"
  en_config_text :: "file_config \<Rightarrow> ('w, unit, string) io"
  en_parse_table :: "string \<Rightarrow> backend_table option"
  en_native :: "('s, 'e, 'x) credential_store option option"
  en_uuid :: uuid_crate
  en_get :: "'w \<Rightarrow> 's keychain_world"
  en_put :: "'s keychain_world \<Rightarrow> 'w \<Rightarrow> 'w"
  en_url :: "string \<Rightarrow> (string \<times> string option) option"
  en_client :: "string \<Rightarrow> string \<Rightarrow> client_error + 'w client"
  en_to_vec :: "prepare_request \<Rightarrow> bytes option"
  en_simple :: "uuid \<Rightarrow> string"
  en_now_v7 :: "('w, storage_error, uuid) io"

section \<open>A backend that cannot be reached\<close>

definition unreachable :: "backend_kind \<Rightarrow> 'w storage" where
  "unreachable kind =
     \<lparr>capabilities = kind_capabilities kind, requires_binding = False,
      st_read = (\<lambda>_. failE Unavailable), st_write = (\<lambda>_ _. failE Unavailable),
      st_delete = (\<lambda>_. failE Unavailable), st_rename = (\<lambda>_ _. failE Unavailable),
      st_list = (\<lambda>_. failE Unavailable)\<rparr>"

definition backend_reference :: "backend_kind \<Rightarrow> string \<Rightarrow> backend_ref option" where
  "backend_reference kind label = map_option (\<lambda>l. \<lparr>br_kind = kind, br_label = l\<rparr>) (res_ok (scope_name_parse label))"

section \<open>The keychains\<close>

definition platform_keychain :: "('w, 's, 'e, 'x) cli_env \<Rightarrow> string + ('s, 'e, 'x) credential_store" where
  "platform_keychain E =
     (case en_native E of
        None \<Rightarrow> Inl ''keychain: this secretsctl was built without the OS keychain; rebuild it with `--features native-keychain`''
      | Some None \<Rightarrow> Inl ''keychain: the OS keychain could not be opened''
      | Some (Some store) \<Rightarrow> Inr store)"

definition keychain_services :: "(string, keychain_table_entry) btree \<Rightarrow> (string, string) btree" where
  "keychain_services table =
     foldl (\<lambda>m (label, entry).
         bt_put label (case ke_service entry of Some s \<Rightarrow> s | None \<Rightarrow> default_service @ ''.'' @ label) m)
       [(default_text, default_service)] table"

record 'w loaded =
  ld_mounted :: "(backend_ref \<times> 'w storage) list"
  ld_notes :: "string list"

definition add_note :: "string \<Rightarrow> 'w loaded \<Rightarrow> 'w loaded" where
  "add_note n l = l\<lparr>ld_notes := ld_notes l @ [n]\<rparr>"

definition mount_backend :: "backend_ref \<Rightarrow> 'w storage \<Rightarrow> 'w loaded \<Rightarrow> 'w loaded" where
  "mount_backend b S l = l\<lparr>ld_mounted := ld_mounted l @ [(b, S)]\<rparr>"

text \<open>\<open>failed\<close> is \<open>keychain_failed\<close>: the store's note is given once.\<close>

fun mount_keychains ::
  "('w, 's, 'e, 'x) cli_env \<Rightarrow> (string, string) btree \<Rightarrow> bool \<Rightarrow> 'w loaded \<Rightarrow> 'w loaded" where
  "mount_keychains E [] failed l = l"
| "mount_keychains E ((label, service) # rest) failed l =
     (case backend_reference Keychain label of
        None \<Rightarrow> mount_keychains E rest failed (add_note ''config: a keychain label is not a valid name'' l)
      | Some backend \<Rightarrow>
          (case platform_keychain E of
             Inr store \<Rightarrow> mount_keychains E rest failed (mount_backend backend
               (zoom_storage (en_get E) (en_put E) (keychain_storage (keychain_with_service (en_uuid E) store service))) l)
           | Inl why \<Rightarrow> mount_keychains E rest True (mount_backend backend (unreachable Keychain)
               (if failed then l else add_note why l))))"

section \<open>The remotes\<close>

definition token_of :: "('w, 's, 'e, 'x) cli_env \<Rightarrow> string \<Rightarrow> remote_table_entry \<Rightarrow> (host, string, string) io" where
  "token_of E label entry =
     (case (re_token_env entry, re_token_file entry) of
        (Some variable, None) \<Rightarrow>
          liftE (case en_var E variable of
              Some t \<Rightarrow> if utf8_valid (str_bytes t) then Inr t
                else Inl (''remote/'' @ label @ '': the token variable `'' @ variable @ ''` is unset'')
            | None \<Rightarrow> Inl (''remote/'' @ label @ '': the token variable `'' @ variable @ ''` is unset''))
      | (None, Some path) \<Rightarrow>
          bindE (map_errE (\<lambda>refusal. ''remote/'' @ label @ '': token file: '' @ value_refusal_text refusal)
            (read_protected path (64 * 1024))) (\<lambda>bs.
          liftE (if utf8_valid bs then Inr (trim (bytes_str bs))
            else Inl (''remote/'' @ label @ '': the token file is not UTF-8'')))
      | _ \<Rightarrow> failE (''remote/'' @ label @ '': set exactly one of `token_env` and `token_file`''))"

definition loopback_host :: "string option \<Rightarrow> bool" where
  "loopback_host h =
     (case h of
        None \<Rightarrow> False
      | Some text \<Rightarrow>
          let host = trim_char CHR ''['' CHR '']'' text in
          (case ip_loopback host of
             Some l \<Rightarrow> l
           | None \<Rightarrow> eq_ignore_ascii_case host ''localhost''))"

definition admitted_origin :: "('w, 's, 'e, 'x) cli_env \<Rightarrow> string \<Rightarrow> string \<Rightarrow> string + unit" where
  "admitted_origin E label origin =
     bindR (ok_or (en_url E origin) (''remote/'' @ label @ '': `origin` is not a URL'')) (\<lambda>(scheme, h).
     if scheme = ''https'' then Inr ()
     else if scheme = ''http'' \<and> loopback_host h then Inr ()
     else Inl (''remote/'' @ label @
       '': `origin` must be https, or http to a loopback host; the token is not sent in cleartext''))"

definition remote_new :: "('w, 's, 'e, 'x) cli_env \<Rightarrow> 'w client \<Rightarrow> 'w remote" where
  "remote_new E C = \<lparr>rm_client = C, rm_to_vec = en_to_vec E, rm_simple = en_simple E, rm_now_v7 = en_now_v7 E\<rparr>"

definition remote_client :: "('w, 's, 'e, 'x) cli_env \<Rightarrow> string \<Rightarrow> remote_table_entry \<Rightarrow> (host, string, 'w client) io" where
  "remote_client E label entry =
     bindE (liftE (admitted_origin E label (re_origin entry))) (\<lambda>_.
     bindE (token_of E label entry) (\<lambda>token.
     liftE (map_err (\<lambda>_. ''remote/'' @ label @ '': `origin` is not a URL'') (en_client E (re_origin entry) token))))"

fun mount_remotes ::
  "('w, 's, 'e, 'x) cli_env \<Rightarrow> (string, remote_table_entry) btree \<Rightarrow> 'w loaded \<Rightarrow> host \<Rightarrow> 'w loaded \<times> host" where
  "mount_remotes E [] l h = (l, h)"
| "mount_remotes E ((label, entry) # rest) l h =
     (case backend_reference Remote label of
        None \<Rightarrow> mount_remotes E rest (add_note ''config: a remote label is not a valid name'' l) h
      | Some backend \<Rightarrow>
          (case remote_client E label entry h of
             (Inr C, h) \<Rightarrow> mount_remotes E rest (mount_backend backend (remote_storage (remote_new E C)) l) h
           | (Inl why, h) \<Rightarrow> mount_remotes E rest (mount_backend backend (unreachable Remote) (add_note why l)) h))"

section \<open>Everything\<close>

definition load_table :: "('w, 's, 'e, 'x) cli_env \<Rightarrow> unit + string \<Rightarrow> backend_table \<times> string list" where
  "load_table E text =
     (case text of
        Inr t \<Rightarrow>
          (case en_parse_table E t of
             Some table \<Rightarrow> (table, [])
           | None \<Rightarrow> (default_table, [''config: the `backends` table is not valid'']))
      | Inl _ \<Rightarrow> (default_table, []))"

definition load_backends ::
  "('w, 's, 'e, 'x) cli_env \<Rightarrow> file_config \<Rightarrow> host \<times> 'w \<Rightarrow> 'w loaded \<times> host \<times> 'w" where
  "load_backends E path = (\<lambda>(h, w).
     (let (text, w) = en_config_text E path w;
          (table, notes) = load_table E text;
          l = mount_keychains E (keychain_services (bk_keychain table)) False \<lparr>ld_mounted = [], ld_notes = notes\<rparr>;
          (l, h) = mount_remotes E (bk_remote table) l h
      in (l, h, w)))"

end
