(* ===== verification/Cli_Commands.thy ===== *)
theory Cli_Commands
  imports Cli_Backends
begin

text \<open>
  The local commands (\<open>crates/secretsctl/src/local.rs\<close>): the stack over the configuration file, each
  command over it, and what it prints. JSON values are \<open>json\<close>; their text is a parameter of
  \<open>finish\<close>. A line printed is appended to \<open>ho_out\<close> or \<open>ho_err\<close>.
\<close>

section \<open>Failures and reports\<close>

datatype failure =
  FStorage storage_error "(string \<times> name_error) option"
| FRefused string
| FDenied denial

definition failure_of_storage :: "storage_error \<Rightarrow> failure" where
  "failure_of_storage e = FStorage e None"

fun part_text :: "part \<Rightarrow> string" where
  "part_text Tenant = ''tenant''"
| "part_text Namespace = ''namespace''"
| "part_text User = ''user''"
| "part_text Name = ''name''"
| "part_text NewName = ''new-name''"

definition failure_of_address :: "address_error \<Rightarrow> failure" where
  "failure_of_address e = FStorage InvalidName (Some (part_text (ae_part e), ae_reason e))"

datatype json = JNull | JText string | JList "json list" | JObject "(string \<times> json) list"

record report =
  rp_json :: json
  rp_text :: string

type_synonym 'w command_io = "(host \<times> 'w, failure, report) io"

section \<open>The stack\<close>

record 'w cli_stack =
  sk_storage :: "'w federated"
  sk_notes :: "string list"

record 'w local =
  lo_json :: bool
  lo_stack :: "'w cli_stack option"
  lo_trouble :: "string list"

definition path_join :: "string \<Rightarrow> string \<Rightarrow> string" where
  "path_join base x =
     (if x \<noteq> [] \<and> hd x = CHR ''/'' then x
      else if base = [] \<or> last base = CHR ''/'' then base @ x
      else base @ ''/'' @ x)"

definition config_path :: "(string \<Rightarrow> string option) \<Rightarrow> file_config option" where
  "config_path var =
     map_option (\<lambda>base. \<lparr>fcg_parent = path_join base ''b10x-secrets'', fcg_name = ''config.toml''\<rparr>)
       (case var ''XDG_CONFIG_HOME'' of
          Some d \<Rightarrow> if d \<noteq> [] \<and> hd d = CHR ''/'' then Some d
            else map_option (\<lambda>home. path_join home ''.config'') (var ''HOME'')
        | None \<Rightarrow> map_option (\<lambda>home. path_join home ''.config'') (var ''HOME''))"

definition scope_text :: "scope \<Rightarrow> string" where
  "scope_text s = scope_str (sc_tenant s) @ ''/'' @ scope_str (sc_namespace s) @ ''/'' @ scope_str (sc_user s)"

fun kind_text :: "backend_kind \<Rightarrow> string" where
  "kind_text Keychain = ''keychain''"
| "kind_text Onepassword = ''onepassword''"
| "kind_text Remote = ''remote''"

definition backend_text :: "backend_ref \<Rightarrow> string" where
  "backend_text b = kind_text (br_kind b) @ ''/'' @ scope_str (br_label b)"

definition version_text :: "version option \<Rightarrow> string" where
  "version_text v = (case v of Some v \<Rightarrow> version_str v | None \<Rightarrow> ''-'')"

definition parse_mount :: "string \<Rightarrow> failure + backend_ref" where
  "parse_mount s =
     (let (kind, label) = (case split_once CHR ''/'' s of Some p \<Rightarrow> p | None \<Rightarrow> (s, default_text)) in
      bindR (if kind = ''keychain'' then Inr Keychain
             else if kind = ''remote'' then Inr Remote
             else if kind = ''onepassword'' then Inr Onepassword
             else Inl (FRefused ''a mount is `kind/label`, and kind is `keychain` or `remote`'')) (\<lambda>kind.
      bindR (map_err (\<lambda>reason. FStorage InvalidName (Some (''label'', reason))) (scope_name_parse label)) (\<lambda>label.
      Inr \<lparr>br_kind = kind, br_label = label\<rparr>)))"

definition cli_address :: "string \<Rightarrow> string \<Rightarrow> failure + address" where
  "cli_address namespace name = map_err failure_of_address (address_parse default_text namespace default_text name)"

definition local_namespace_key :: "string \<Rightarrow> failure + namespace_key" where
  "local_namespace_key namespace = map_err failure_of_address (namespace_key_parse default_text namespace)"

definition local_scope_of :: "string \<Rightarrow> failure + scope" where
  "local_scope_of namespace =
     bindR (map_err (\<lambda>reason. FStorage InvalidName (Some (''namespace'', reason))) (scope_name_parse namespace)) (\<lambda>n.
     Inr (local_scope\<lparr>sc_namespace := n\<rparr>))"

section \<open>What is printed\<close>

definition scope_json :: "scope \<Rightarrow> json" where
  "scope_json s = JObject [(''tenant'', JText (scope_str (sc_tenant s))),
     (''namespace'', JText (scope_str (sc_namespace s))), (''user'', JText (scope_str (sc_user s)))]"

definition key_json :: "namespace_key \<Rightarrow> json" where
  "key_json k = JObject [(''tenant'', JText (scope_str (nk_tenant k))), (''namespace'', JText (scope_str (nk_namespace k)))]"

definition backend_json :: "backend_ref \<Rightarrow> json" where
  "backend_json b = JObject [(''kind'', JText (kind_text (br_kind b))), (''label'', JText (scope_str (br_label b)))]"

definition option_json :: "('a \<Rightarrow> json) \<Rightarrow> 'a option \<Rightarrow> json" where
  "option_json f x = (case x of None \<Rightarrow> JNull | Some y \<Rightarrow> f y)"

definition version_json :: "version option \<Rightarrow> json" where
  "version_json v = option_json (\<lambda>v. JText (version_str v)) v"

definition list_row :: "secret_metadata \<Rightarrow> backend_ref \<Rightarrow> json \<times> string" where
  "list_row m b =
     (JObject [(''name'', JText (name_str (ad_name (sm_address m)))), (''scope'', scope_json (ad_scope (sm_address m))),
        (''backend'', backend_json b), (''version'', version_json (sm_version m))],
      name_str (ad_name (sm_address m)) @ [CHR 0x09] @ scope_text (ad_scope (sm_address m)) @ [CHR 0x09] @
        backend_text b @ [CHR 0x09] @ version_text (sm_version m))"

text \<open>A cell is as wide as its bytes, and is padded by its characters.\<close>

definition char_count :: "string \<Rightarrow> nat" where
  "char_count s = length (filter (\<lambda>c. \<not> (128 \<le> (of_char c :: nat) \<and> (of_char c :: nat) < 192)) s)"

definition pad :: "nat \<Rightarrow> string \<Rightarrow> string" where
  "pad width s = s @ replicate (width - char_count s) CHR '' ''"

definition column_widths :: "string list list \<Rightarrow> nat list" where
  "column_widths cells =
     map (\<lambda>column. foldl max 0 (List.map_filter (\<lambda>row. if column < length row then Some (length (row ! column)) else None) cells))
       [0..<foldl max 0 (map length cells)]"

definition column_line :: "nat list \<Rightarrow> string list \<Rightarrow> string" where
  "column_line widths row =
     concat (map (\<lambda>column. if column + 1 = length row then row ! column else pad (widths ! column) (row ! column) @ ''  '')
       [0..<length row])"

definition columns :: "string list \<Rightarrow> string" where
  "columns ls = (let cells = map (split_on (CHR 0x09)) ls in join (CHR 0x0A) (map (column_line (column_widths cells)) cells))"

definition meaning :: "string \<Rightarrow> storage_error \<Rightarrow> string" where
  "meaning command e =
     (case e of
        Denied \<Rightarrow> ''the local authorizer refused the scope''
      | Unavailable \<Rightarrow> ''a backend or the configuration file could not be used''
      | InvalidName \<Rightarrow> ''a name is not valid''
      | TooLarge \<Rightarrow> ''the value is larger than the backend accepts (1 MiB at most)''
      | Unsupported \<Rightarrow> ''the namespace's backend cannot do this''
      | Conflict \<Rightarrow>
          if command = ''namespace add'' then ''the namespace exists''
          else if command = ''namespace remove'' then
            ''namespace `default` is never removed, and a namespace holding secrets or bindings is not''
          else if command = ''mount set'' then ''the namespace holds secrets on its current mount''
          else if command = ''bind'' then ''the name is already bound; unbind it first''
          else if command = ''rename'' then ''the new name is taken, or a name is bound''
          else ''the command collides with an existing record''
      | NotFound \<Rightarrow>
          if command = ''namespace add'' then ''the mount names a backend that is not configured''
          else if command = ''namespace remove'' then ''the namespace does not exist''
          else if command = ''mount set'' then
            ''the namespace does not exist, or the mount names a backend that is not configured''
          else if command = ''bind'' then ''the namespace does not exist''
          else if command = ''unbind'' then ''the name has no binding''
          else if command = ''put'' \<or> command = ''list'' then ''the namespace does not exist''
          else ''nothing is stored under the name, or the namespace does not exist'')"

fun position :: "('a \<Rightarrow> bool) \<Rightarrow> 'a list \<Rightarrow> nat option" where
  "position p [] = None"
| "position p (x # xs) = (if p x then Some 0 else map_option Suc (position p xs))"

definition exit_code :: "storage_error \<Rightarrow> nat" where
  "exit_code e = 3 + (case position (\<lambda>c. c = e) storage_errors of Some i \<Rightarrow> i | None \<Rightarrow> 0)"

definition exit_usage :: nat where "exit_usage = 2"

section \<open>Opening the stack\<close>

definition local_unopened :: "bool \<Rightarrow> 'w local" where
  "local_unopened json = \<lparr>lo_json = json, lo_stack = None, lo_trouble = []\<rparr>"

fun mount_all :: "'w federated \<Rightarrow> (backend_ref \<times> 'w storage) list \<Rightarrow> storage_error + 'w federated" where
  "mount_all F [] = Inr F"
| "mount_all F ((b, S) # rest) = bindR (with_backend F b S) (\<lambda>F. mount_all F rest)"

definition local_open :: "('w, 's, 'e, 'x) cli_env \<Rightarrow> bool \<Rightarrow> host \<times> 'w \<Rightarrow> 'w local \<times> host \<times> 'w" where
  "local_open E json w =
     (case config_path (en_var E) of
        None \<Rightarrow> (\<lparr>lo_json = json, lo_stack = None,
          lo_trouble = [''config: no configuration directory; set XDG_CONFIG_HOME or HOME'']\<rparr>, w)
      | Some path \<Rightarrow>
          let (backends, w) = load_backends E path w in
          (case mount_all (fed_new (en_config E path)) (ld_mounted backends) of
             Inl _ \<Rightarrow> (\<lparr>lo_json = json, lo_stack = None,
               lo_trouble = ld_notes backends @ [''config: a backend is configured twice'']\<rparr>, w)
           | Inr routing \<Rightarrow> (\<lparr>lo_json = json,
               lo_stack = Some \<lparr>sk_storage = routing, sk_notes = ld_notes backends\<rparr>, lo_trouble = []\<rparr>, w)))"

definition the_stack :: "'w local \<Rightarrow> failure + 'w federated" where
  "the_stack L = map_err failure_of_storage (ok_or (map_option sk_storage (lo_stack L)) Unavailable)"

section \<open>The two sides of the world\<close>

definition on_host :: "(host, 'e, 'a) io \<Rightarrow> (host \<times> 'w, 'e, 'a) io" where
  "on_host m = zoomE fst (\<lambda>h w. (h, snd w)) m"

definition on_back :: "('w, storage_error, 'a) io \<Rightarrow> (host \<times> 'w, failure, 'a) io" where
  "on_back m = map_errE failure_of_storage (zoomE snd (\<lambda>b w. (fst w, b)) m)"

definition manage :: "resource \<Rightarrow> failure + unit" where
  "manage r = map_err failure_of_storage (authorize local_decide r ManageNamespace)"

definition cli_mount_of :: "'w federated \<Rightarrow> scope \<Rightarrow> (host \<times> 'w, failure, backend_ref) io" where
  "cli_mount_of F s = on_back (
     bindE (cfg_namespace (fed_config F) \<lparr>nk_tenant = sc_tenant s, nk_namespace = sc_namespace s\<rparr>) (\<lambda>found.
     bindE (liftE (ok_or found NotFound)) (\<lambda>n. retE (effective_mount n))))"

section \<open>The commands\<close>

record put_args =
  pa_name :: string
  pa_namespace :: string
  pa_file :: "os_path option"
  pa_raw :: bool
  pa_value :: "string option"
  pa_value_flag :: "string option"

definition cli_put :: "'w local \<Rightarrow> put_args \<Rightarrow> 'w command_io" where
  "cli_put L args =
     (if pa_value args \<noteq> None \<or> pa_value_flag args \<noteq> None then
        failE (FRefused ''put never takes a value on the command line; pipe it on stdin, type it at the prompt, or pass --file with a mode-0600 file'')
      else
        bindE (liftE (cli_address (pa_namespace args) (pa_name args))) (\<lambda>a.
        bindE (liftE (the_stack L)) (\<lambda>F.
        bindE (map_errE (\<lambda>refusal. FRefused (value_refusal_text refusal)) (on_host (read_value (pa_file args) (pa_raw args)
          (''Value for '' @ name_str (ad_name a) @ '': '') max_value_bytes))) (\<lambda>bs.
        bindE (liftE (map_err failure_of_storage (secret_value_new bs))) (\<lambda>v.
        bindE (on_back (st_write (authorized_local (fed_storage F)) (unbound a) v)) (\<lambda>written.
        let (outcome, ver) = (case written of Created ver \<Rightarrow> (''created'', ver) | Replaced ver \<Rightarrow> (''replaced'', ver)) in
        bindE (cli_mount_of F (ad_scope a)) (\<lambda>backend.
        retE \<lparr>rp_json = JObject [(''outcome'', JText outcome), (''name'', JText (name_str (ad_name a))),
            (''scope'', scope_json (ad_scope a)), (''backend'', backend_json backend), (''version'', version_json ver)],
          rp_text = outcome @ '' '' @ name_str (ad_name a) @ '' (scope '' @ scope_text (ad_scope a) @ '', backend '' @
            backend_text backend @ '', version '' @ version_text ver @ '')''\<rparr>)))))))"

text \<open>The pending file is dropped where the value cannot be read; \<open>commit\<close> drops it itself.\<close>

definition read_or_drop ::
  "pending \<Rightarrow> (host \<times> 'w, failure, revealed) io \<Rightarrow> (host \<times> 'w, failure, revealed) io" where
  "read_or_drop p m w =
     (case m w of
        (Inr r, w) \<Rightarrow> (Inr r, w)
      | (Inl e, w) \<Rightarrow> (Inl e, (pending_drop p (fst w), snd w)))"

definition cli_read :: "'w local \<Rightarrow> string \<Rightarrow> string \<Rightarrow> os_path \<Rightarrow> 'w command_io" where
  "cli_read L namespace name out =
     bindE (liftE (cli_address namespace name)) (\<lambda>a.
     bindE (liftE (the_stack L)) (\<lambda>F.
     bindE (map_errE (\<lambda>refusal. FRefused (out_refusal_text refusal)) (on_host (out_prepare out))) (\<lambda>pending.
     bindE (read_or_drop pending (on_back (st_read (authorized_local (fed_storage F)) (unbound a)))) (\<lambda>revealed.
     bindE (map_errE (\<lambda>refusal. FRefused (out_refusal_text refusal))
       (on_host (pending_commit pending (expose (rv_value revealed))))) (\<lambda>_.
     bindE (cli_mount_of F (ad_scope a)) (\<lambda>backend.
     retE \<lparr>rp_json = JObject [(''outcome'', JText ''read''), (''name'', JText (name_str (ad_name a))),
         (''scope'', scope_json (ad_scope a)), (''backend'', backend_json backend),
         (''version'', version_json (rv_version revealed)), (''out'', JText (op_text out))],
       rp_text = ''read '' @ name_str (ad_name a) @ '' into '' @ op_text out @ '' (scope '' @ scope_text (ad_scope a) @
         '', backend '' @ backend_text backend @ '', version '' @ version_text (rv_version revealed) @ '')''\<rparr>))))))"

definition cli_describe :: "'w local \<Rightarrow> string \<Rightarrow> string \<Rightarrow> 'w command_io" where
  "cli_describe L namespace name =
     bindE (liftE (cli_address namespace name)) (\<lambda>a.
     bindE (liftE (the_stack L)) (\<lambda>F.
     bindE (on_back (st_list (authorized_local (fed_storage F)) (ad_scope a))) (\<lambda>rows.
     bindE (liftE (map_err failure_of_storage (ok_or (find (\<lambda>row. sm_address row = a) rows) NotFound))) (\<lambda>metadata.
     bindE (cli_mount_of F (ad_scope a)) (\<lambda>backend.
     retE \<lparr>rp_json = fst (list_row metadata backend),
       rp_text = ''name     '' @ name_str (ad_name (sm_address metadata)) @ [CHR 0x0A] @
         ''scope    '' @ scope_text (ad_scope (sm_address metadata)) @ [CHR 0x0A] @
         ''backend  '' @ backend_text backend @ [CHR 0x0A] @ ''version  '' @ version_text (sm_version metadata)\<rparr>)))))"

fun list_scopes :: "'w federated \<Rightarrow> scope list \<Rightarrow> json list \<Rightarrow> string list \<Rightarrow>
  (host \<times> 'w, failure, json list \<times> string list) io" where
  "list_scopes F [] jsons ls = retE (jsons, ls)"
| "list_scopes F (s # ss) jsons ls =
     bindE (on_back (st_list (authorized_local (fed_storage F)) s)) (\<lambda>rows.
     bindE (cli_mount_of F s) (\<lambda>backend.
     list_scopes F ss (jsons @ map (\<lambda>m. fst (list_row m backend)) rows) (ls @ map (\<lambda>m. snd (list_row m backend)) rows)))"

definition is_local :: "namespace \<Rightarrow> bool" where
  "is_local n \<longleftrightarrow> scope_str (nk_tenant (ns_key n)) = default_text"

definition cli_list :: "'w local \<Rightarrow> string \<Rightarrow> bool \<Rightarrow> 'w command_io" where
  "cli_list L namespace all =
     bindE (if all then
         bindE (liftE (the_stack L)) (\<lambda>F.
         bindE (on_back (fed_namespaces F)) (\<lambda>ns.
         retE (map (\<lambda>n. local_scope\<lparr>sc_namespace := nk_namespace (ns_key n)\<rparr>) (filter is_local ns))))
       else bindE (liftE (local_scope_of namespace)) (\<lambda>s. retE [s])) (\<lambda>scopes.
     bindE (liftE (the_stack L)) (\<lambda>F.
     bindE (list_scopes F scopes []
       [''NAME'' @ [CHR 0x09] @ ''SCOPE'' @ [CHR 0x09] @ ''BACKEND'' @ [CHR 0x09] @ ''VERSION'']) (\<lambda>(jsons, ls).
     retE \<lparr>rp_json = JList jsons, rp_text = columns ls\<rparr>)))"

definition outcome_json :: "string \<Rightarrow> address \<Rightarrow> (string \<times> json) list \<Rightarrow> json" where
  "outcome_json outcome a extra = JObject ([(''outcome'', JText outcome), (''name'', JText (name_str (ad_name a)))] @ extra @
     [(''scope'', scope_json (ad_scope a))])"

definition cli_delete :: "'w local \<Rightarrow> string \<Rightarrow> string \<Rightarrow> 'w command_io" where
  "cli_delete L namespace name =
     bindE (liftE (cli_address namespace name)) (\<lambda>a.
     bindE (liftE (the_stack L)) (\<lambda>F.
     bindE (on_back (st_delete (authorized_local (fed_storage F)) (unbound a))) (\<lambda>_.
     retE \<lparr>rp_json = outcome_json ''deleted'' a [],
       rp_text = ''deleted '' @ name_str (ad_name a) @ '' (scope '' @ scope_text (ad_scope a) @ '')''\<rparr>)))"

definition cli_rename :: "'w local \<Rightarrow> string \<Rightarrow> string \<Rightarrow> string \<Rightarrow> 'w command_io" where
  "cli_rename L namespace name new_name =
     bindE (liftE (map_err failure_of_address (parse_rename default_text namespace default_text name new_name))) (\<lambda>(a, n).
     bindE (liftE (the_stack L)) (\<lambda>F.
     bindE (on_back (st_rename (authorized_local (fed_storage F)) (unbound a) n)) (\<lambda>_.
     retE \<lparr>rp_json = outcome_json ''renamed'' a [(''new_name'', JText (name_str n))],
       rp_text = ''renamed '' @ name_str (ad_name a) @ '' to '' @ name_str n @ '' (scope '' @ scope_text (ad_scope a) @ '')''\<rparr>)))"

section \<open>Namespaces and bindings\<close>

definition cli_namespace_add :: "'w local \<Rightarrow> string \<Rightarrow> string option \<Rightarrow> 'w command_io" where
  "cli_namespace_add L name mount =
     bindE (liftE (local_namespace_key name)) (\<lambda>key.
     bindE (liftE (case mount of None \<Rightarrow> Inr None | Some m \<Rightarrow> bindR (parse_mount m) (\<lambda>b. Inr (Some b)))) (\<lambda>mount.
     bindE (liftE (manage (resource_of_namespace key))) (\<lambda>_.
     bindE (liftE (the_stack L)) (\<lambda>F.
     bindE (on_back (add_namespace F key mount)) (\<lambda>_.
     let backend = (case mount of Some b \<Rightarrow> b | None \<Rightarrow> default_mount) in
     retE \<lparr>rp_json = JObject [(''outcome'', JText ''added''), (''namespace'', key_json key),
         (''mount'', option_json backend_json mount), (''backend'', backend_json backend)],
       rp_text = ''added namespace '' @ scope_str (nk_namespace key) @ '' on '' @ backend_text backend\<rparr>)))))"

definition namespace_row :: "namespace \<Rightarrow> json \<times> string" where
  "namespace_row n =
     (JObject [(''namespace'', key_json (ns_key n)), (''mount'', option_json backend_json (ns_mount n)),
        (''backend'', backend_json (effective_mount n))],
      scope_str (nk_namespace (ns_key n)) @ [CHR 0x09] @ scope_str (nk_tenant (ns_key n)) @ [CHR 0x09] @
        backend_text (effective_mount n))"

definition cli_namespace_list :: "'w local \<Rightarrow> 'w command_io" where
  "cli_namespace_list L =
     bindE (liftE (manage (NamespaceRes default_text))) (\<lambda>_.
     bindE (liftE (the_stack L)) (\<lambda>F.
     bindE (on_back (fed_namespaces F)) (\<lambda>ns.
     let shown = filter is_local ns in
     retE \<lparr>rp_json = JList (map (\<lambda>n. fst (namespace_row n)) shown),
       rp_text = columns ((''NAMESPACE'' @ [CHR 0x09] @ ''TENANT'' @ [CHR 0x09] @ ''BACKEND'') #
         map (\<lambda>n. snd (namespace_row n)) shown)\<rparr>)))"

definition cli_namespace_remove :: "'w local \<Rightarrow> string \<Rightarrow> 'w command_io" where
  "cli_namespace_remove L name =
     bindE (liftE (local_namespace_key name)) (\<lambda>key.
     bindE (liftE (manage (resource_of_namespace key))) (\<lambda>_.
     bindE (liftE (the_stack L)) (\<lambda>F.
     bindE (on_back (remove_namespace F key)) (\<lambda>_.
     retE \<lparr>rp_json = JObject [(''outcome'', JText ''removed''), (''namespace'', key_json key)],
       rp_text = ''removed namespace '' @ scope_str (nk_namespace key)\<rparr>))))"

definition cli_mount_set :: "'w local \<Rightarrow> string \<Rightarrow> string \<Rightarrow> 'w command_io" where
  "cli_mount_set L namespace mount =
     bindE (liftE (local_namespace_key namespace)) (\<lambda>key.
     bindE (liftE (parse_mount mount)) (\<lambda>mount.
     bindE (liftE (manage (resource_of_namespace key))) (\<lambda>_.
     bindE (liftE (the_stack L)) (\<lambda>F.
     bindE (on_back (set_mount F key mount)) (\<lambda>_.
     retE \<lparr>rp_json = JObject [(''outcome'', JText ''set''), (''namespace'', key_json key), (''mount'', backend_json mount)],
       rp_text = ''mounted namespace '' @ scope_str (nk_namespace key) @ '' on '' @ backend_text mount\<rparr>)))))"

definition cli_bind :: "'w local \<Rightarrow> string \<Rightarrow> string \<Rightarrow> string \<Rightarrow> 'w command_io" where
  "cli_bind L namespace name locator =
     bindE (liftE (cli_address namespace name)) (\<lambda>a.
     bindE (liftE (manage (resource_of_address a))) (\<lambda>_.
     bindE (liftE (the_stack L)) (\<lambda>F.
     bindE (on_back (bind_address F a (Locator locator))) (\<lambda>_.
     retE \<lparr>rp_json = outcome_json ''bound'' a [],
       rp_text = ''bound '' @ name_str (ad_name a) @ '' (scope '' @ scope_text (ad_scope a) @ '')''\<rparr>))))"

definition cli_unbind :: "'w local \<Rightarrow> string \<Rightarrow> string \<Rightarrow> 'w command_io" where
  "cli_unbind L namespace name =
     bindE (liftE (cli_address namespace name)) (\<lambda>a.
     bindE (liftE (manage (resource_of_address a))) (\<lambda>_.
     bindE (liftE (the_stack L)) (\<lambda>F.
     bindE (on_back (unbind_address F a)) (\<lambda>_.
     retE \<lparr>rp_json = outcome_json ''unbound'' a [],
       rp_text = ''unbound '' @ name_str (ad_name a) @ '' (scope '' @ scope_text (ad_scope a) @ '')''\<rparr>))))"

end
