(* ===== verification/Cli_Main.thy ===== *)
theory Cli_Main
  imports Cli_Commands
begin

text \<open>
  The program \<open>secretsctl\<close> (\<open>crates/secretsctl/src/main.rs\<close>) and the end of every local command
  (\<open>Local::finish\<close>): the scope is decided before anything is opened, the command runs over the stack,
  and its outcome is printed with an exit code. The command line is parsed by another crate; what the
  program does with a command line that is refused is \<open>refuse_command_line\<close>. So are the text of a JSON
  value, base64, random bytes and an HTTP GET.
\<close>

section \<open>Printing\<close>

definition println :: "string \<Rightarrow> host \<Rightarrow> host" where
  "println s h = h\<lparr>ho_out := ho_out h @ [s]\<rparr>"

definition eprintln :: "string \<Rightarrow> host \<Rightarrow> host" where
  "eprintln s h = h\<lparr>ho_err := ho_err h @ [s]\<rparr>"

fun denial_part :: "denial \<Rightarrow> string" where
  "denial_part DeniedTenant = ''tenant''"
| "denial_part DeniedUser = ''user''"

definition refusal_json :: "string \<Rightarrow> json \<Rightarrow> json \<Rightarrow> string \<Rightarrow> string list \<Rightarrow> json" where
  "refusal_json e part reason message notes =
     JObject [(''error'', JText e), (''part'', part), (''reason'', reason), (''message'', JText message),
       (''notes'', JList (map JText notes))]"

definition local_notes :: "'w local \<Rightarrow> string list" where
  "local_notes L = (case lo_stack L of Some s \<Rightarrow> sk_notes s | None \<Rightarrow> lo_trouble L)"

definition local_finish :: "(json \<Rightarrow> string) \<Rightarrow> 'w local \<Rightarrow> string \<Rightarrow> failure + report \<Rightarrow> host \<Rightarrow> nat \<times> host" where
  "local_finish render L command outcome h =
     (case outcome of
        Inr report \<Rightarrow> (0, println (if lo_json L then render (rp_json report) else rp_text report) h)
      | Inl (FDenied denial) \<Rightarrow>
          let part = denial_part denial; message = meaning command Denied in
          (exit_code Denied,
           eprintln (if lo_json L then render (refusal_json (error_code Denied) (JText part) JNull message [])
             else ''secretsctl: denied ('' @ part @ ''): '' @ message) h)
      | Inl (FRefused reason) \<Rightarrow>
          (exit_usage,
           eprintln (if lo_json L then render (JObject [(''error'', JText ''refused''), (''message'', JText reason)])
             else ''secretsctl: refused: '' @ reason) h)
      | Inl (FStorage e detail) \<Rightarrow>
          let notes = (if e = Unavailable then local_notes L else []); message = meaning command e in
          (exit_code e,
           if lo_json L then
             eprintln (render (refusal_json (error_code e) (option_json (\<lambda>d. JText (fst d)) detail)
               (option_json (\<lambda>d. JText (name_error_code (snd d))) detail) message notes)) h
           else
             foldl (\<lambda>h n. eprintln (''secretsctl: note: '' @ n) h)
               (eprintln (case detail of
                   Some (part, reason) \<Rightarrow> ''secretsctl: '' @ error_code e @ '' ('' @ part @ '': '' @ name_error_code reason @
                     ''): '' @ message
                 | None \<Rightarrow> ''secretsctl: '' @ error_code e @ '': '' @ message) h)
               notes))"

section \<open>The command line\<close>

datatype namespace_command = NsAdd string "string option" | NsList | NsRemove string
datatype mount_command = MountSet string string

datatype command =
  GenerateKeyring string
| Health string
| CPut put_args
| CRead string string os_path
| CDescribe string string
| CList string bool
| CDelete string string
| CRename string string string
| CNamespace namespace_command
| CMount mount_command
| CBind string string string
| CUnbind string string

record cli =
  cl_json :: bool
  cl_tenant :: string
  cl_user :: string
  cl_command :: command

fun decision :: "command \<Rightarrow> string \<times> action list" where
  "decision (GenerateKeyring k) = (''generate-keyring'', [])"
| "decision (Health u) = (''health'', [])"
| "decision (CPut a) = (''put'', [ActWrite])"
| "decision (CRead n m p) = (''read'', [ActRead])"
| "decision (CDescribe n m) = (''describe'', [ActList])"
| "decision (CList n a) = (''list'', [ActList])"
| "decision (CDelete n m) = (''delete'', [ActDelete])"
| "decision (CRename n m m') = (''rename'', [ActWrite, ActDelete])"
| "decision (CNamespace (NsAdd n m)) = (''namespace add'', [ManageNamespace])"
| "decision (CNamespace NsList) = (''namespace list'', [ManageNamespace])"
| "decision (CNamespace (NsRemove n)) = (''namespace remove'', [ManageNamespace])"
| "decision (CMount (MountSet n m)) = (''mount set'', [ManageNamespace])"
| "decision (CBind n m l) = (''bind'', [ManageNamespace])"
| "decision (CUnbind n m) = (''unbind'', [ManageNamespace])"

text \<open>The kinds of error of the command line's parser that the program tells apart.\<close>

datatype usage_kind =
  DisplayHelp | DisplayVersion | DisplayHelpOnMissing
| InvalidValue | ValueValidation | MissingRequiredArgument | ArgumentConflict | TooManyValues | TooFewValues
| WrongNumberOfValues | NoEquals | OtherUsage

record usage_error =
  us_kind :: usage_kind
  us_text :: "string option"
  us_argument :: "string option"
  us_to_stderr :: bool
  us_message :: string

definition refuse_command_line :: "usage_error \<Rightarrow> host \<Rightarrow> nat \<times> host" where
  "refuse_command_line e h =
     (if us_kind e \<in> {DisplayHelp, DisplayVersion, DisplayHelpOnMissing} then
        (if us_to_stderr e then exit_usage else 0,
         (if us_to_stderr e then eprintln else println) (us_message e) h)
      else
        let kind = (case us_text e of Some t \<Rightarrow> t | None \<Rightarrow> ''invalid command line'');
            argument = (if us_kind e = OtherUsage then None else us_argument e)
        in (exit_usage, eprintln (case argument of
               Some a \<Rightarrow> ''secretsctl: '' @ kind @ '': '' @ a @ ''; see `secretsctl --help`''
             | None \<Rightarrow> ''secretsctl: '' @ kind @ ''; see `secretsctl --help`'') h))"

section \<open>The two commands that are not local\<close>

definition generate_keyring :: "(json \<Rightarrow> string) \<Rightarrow> (bytes \<Rightarrow> string) \<Rightarrow> string \<Rightarrow> host \<Rightarrow> nat \<times> host" where
  "generate_keyring render base64 key_id h =
     (case getrandom_fill h of
        (Inl _, h) \<Rightarrow> (1, eprintln ''secretsctl: random generation failed'' h)
      | (Inr key, h) \<Rightarrow> (0, println (render (JObject [(''active'', JText key_id),
          (''keys'', JObject [(key_id, JText (base64 key))])])) h))"

text \<open>The answer is a status with its text, or the error's text.\<close>

definition health :: "(string \<Rightarrow> ('w, string, nat \<times> string) io) \<Rightarrow> string \<Rightarrow> host \<times> 'w \<Rightarrow> nat \<times> host \<times> 'w" where
  "health http_get origin = (\<lambda>(h, w).
     (case http_get (trim_end_matches CHR ''/'' origin @ ''/health/ready'') w of
        (Inr (status, shown), w) \<Rightarrow>
          if status_success status then (0, println ''ready'' h, w)
          else (1, eprintln (''secretsctl: service returned '' @ shown) h, w)
      | (Inl e, w) \<Rightarrow> (1, eprintln (''secretsctl: '' @ e) h, w)))"

section \<open>Running a command\<close>

record 'w cli_texts =
  tx_render :: "json \<Rightarrow> string"
  tx_base64 :: "bytes \<Rightarrow> string"
  tx_get :: "string \<Rightarrow> ('w, string, nat \<times> string) io"

fun run_local :: "'w local \<Rightarrow> command \<Rightarrow> 'w command_io option" where
  "run_local L (CPut args) = Some (cli_put L args)"
| "run_local L (CRead name namespace out) = Some (cli_read L namespace name out)"
| "run_local L (CDescribe name namespace) = Some (cli_describe L namespace name)"
| "run_local L (CList namespace all) = Some (cli_list L namespace all)"
| "run_local L (CDelete name namespace) = Some (cli_delete L namespace name)"
| "run_local L (CRename name new_name namespace) = Some (cli_rename L namespace name new_name)"
| "run_local L (CNamespace (NsAdd name mount)) = Some (cli_namespace_add L name mount)"
| "run_local L (CNamespace NsList) = Some (cli_namespace_list L)"
| "run_local L (CNamespace (NsRemove name)) = Some (cli_namespace_remove L name)"
| "run_local L (CMount (MountSet namespace mount)) = Some (cli_mount_set L namespace mount)"
| "run_local L (CBind name locator namespace) = Some (cli_bind L namespace name locator)"
| "run_local L (CUnbind name namespace) = Some (cli_unbind L namespace name)"
| "run_local L (GenerateKeyring k) = None"
| "run_local L (Health u) = None"

definition decide_command :: "cli \<Rightarrow> denial + unit" where
  "decide_command c = try_for_each (\<lambda>a. local_decide (ScopeRes (cl_tenant c) (cl_user c)) a) (snd (decision (cl_command c)))"

definition run_command ::
  "('w, 's, 'e, 'x) cli_env \<Rightarrow> 'w cli_texts \<Rightarrow> cli \<Rightarrow> host \<times> 'w \<Rightarrow> nat \<times> host \<times> 'w" where
  "run_command E T c w =
     (case cl_command c of
        GenerateKeyring key_id \<Rightarrow> let (code, h) = generate_keyring (tx_render T) (tx_base64 T) key_id (fst w) in (code, h, snd w)
      | Health origin \<Rightarrow> health (tx_get T) origin w
      | command \<Rightarrow>
          (case decide_command c of
             Inl denial \<Rightarrow>
               let (code, h) = local_finish (tx_render T) (local_unopened (cl_json c) :: 'w local)
                 (fst (decision command)) (Inl (FDenied denial)) (fst w)
               in (code, h, snd w)
           | Inr _ \<Rightarrow>
               let (L, w) = local_open E (cl_json c) w
               in case run_local L command of
                    None \<Rightarrow> (1, w)
                  | Some run \<Rightarrow>
                      let (outcome, w) = run w;
                          (code, h) = local_finish (tx_render T) L (fst (decision command)) outcome (fst w)
                      in (code, h, snd w)))"

definition cli_main ::
  "('w, 's, 'e, 'x) cli_env \<Rightarrow> 'w cli_texts \<Rightarrow> usage_error + cli \<Rightarrow> bool \<Rightarrow> host \<times> 'w \<Rightarrow> nat \<times> host \<times> 'w" where
  "cli_main E T parsed runtime w =
     (case parsed of
        Inl e \<Rightarrow> let (code, h) = refuse_command_line e (fst w) in (code, h, snd w)
      | Inr c \<Rightarrow>
          if runtime then run_command E T c w
          else (1, eprintln ''secretsctl: could not start the async runtime'' (fst w), snd w))"

end
