(* ===== verification/Cli_Opening.thy ===== *)
theory Cli_Opening
  imports Cli_Main
begin

text \<open>
  What happens before a local command runs: the decision on the scope, the exit codes, the mount as
  typed, and the backends the configuration opens. Labels of one table are different, so no backend is
  configured twice and the stack always opens; and a client with a token is made only for an origin the
  token may be sent to.
\<close>

section \<open>The decision\<close>

definition local_command :: "command \<Rightarrow> bool" where
  "local_command c \<longleftrightarrow> (\<forall>k. c \<noteq> GenerateKeyring k) \<and> (\<forall>u. c \<noteq> Health u)"

lemma local_command_actions: "local_command c \<Longrightarrow> snd (decision c) \<noteq> []"
  by (cases c rule: decision.cases) (auto simp: local_command_def)

lemma decide_scope:
  "local_decide (ScopeRes t u) a =
     (if t \<noteq> default_text then Inl DeniedTenant else if u \<noteq> default_text then Inl DeniedUser else Inr ())"
  by (simp add: local_decide_def)

lemma decide_command_eq:
  "local_command (cl_command c) \<Longrightarrow> decide_command c =
     (if cl_tenant c \<noteq> default_text then Inl DeniedTenant
      else if cl_user c \<noteq> default_text then Inl DeniedUser else Inr ())"
  using local_command_actions [of "cl_command c"]
  by (cases "snd (decision (cl_command c))") (auto simp: decide_command_def decide_scope try_for_each_ok)

lemma run_command_local:
  "local_command (cl_command c) \<Longrightarrow> run_command E T c w =
     (case decide_command c of
        Inl denial \<Rightarrow>
          let (code, h) = local_finish (tx_render T) (local_unopened (cl_json c) :: 'w local)
            (fst (decision (cl_command c))) (Inl (FDenied denial)) (fst w)
          in (code, h, snd (w :: host \<times> 'w))
      | Inr _ \<Rightarrow>
          let (L, w) = local_open E (cl_json c) w
          in case run_local L (cl_command c) of
               None \<Rightarrow> (1, w)
             | Some run \<Rightarrow>
                 let (outcome, w) = run w;
                     (code, h) = local_finish (tx_render T) L (fst (decision (cl_command c))) outcome (fst w)
                 in (code, h, snd w))"
proof (cases c)
  case (fields json tenant user cmd)
  show "local_command (cl_command c) \<Longrightarrow> ?thesis"
    unfolding fields run_command_def cli.simps by (cases cmd; hypsubst) (simp_all add: local_command_def)
qed

section \<open>Exit codes\<close>

lemma exit_code_simps:
  "exit_code NotFound = 3" "exit_code Denied = 4" "exit_code Unsupported = 5" "exit_code Unavailable = 6"
  "exit_code InvalidName = 7" "exit_code TooLarge = 8" "exit_code Conflict = 9"
  by (simp_all add: exit_code_def storage_errors_def)

lemma exit_code_bounds: "3 \<le> exit_code e \<and> exit_code e \<le> 9"
  by (cases e) (simp_all add: exit_code_simps)

lemma exit_code_inject: "exit_code e = exit_code e' \<longleftrightarrow> e = e'"
  by (cases e; cases e') (simp_all add: exit_code_simps)

section \<open>Mounts as typed\<close>

lemma kind_text_no_slash: "CHR ''/'' \<notin> set (kind_text k)"
  by (cases k) simp_all

lemma parse_mount_text:
  assumes "wf_scope_name (br_label b)"
  shows "parse_mount (backend_text b) = Inr b"
proof -
  have "split_once CHR ''/'' (backend_text b) = Some (kind_text (br_kind b), scope_str (br_label b))"
    using kind_text_no_slash by (simp add: backend_text_def)
  moreover have "scope_name_parse (scope_str (br_label b)) = Inr (br_label b)"
    using assms by (simp add: wf_scope_name_parse)
  ultimately show ?thesis
    by (cases b; cases "br_kind b") (simp_all add: parse_mount_def)
qed

lemma parse_mount_bare: "parse_mount (kind_text k) = Inr \<lparr>br_kind = k, br_label = default_name\<rparr>"
proof -
  have s: "split_once CHR ''/'' (kind_text k) = None"
    using kind_text_no_slash by simp
  have "scope_name_parse default_text = Inr default_name"
    using default_name_wf by (simp add: wf_scope_name_parse default_name_def)
  then show ?thesis
    unfolding parse_mount_def s by (cases k) simp_all
qed

section \<open>The backends of the configuration\<close>

lemma backend_reference_Some:
  "backend_reference k label = Some b \<longleftrightarrow> wf_scope_name (br_label b) \<and> br_kind b = k \<and> label = scope_str (br_label b)"
  by (cases b; cases "br_label b") (auto simp: backend_reference_def scope_name_parse_ok wf_scope_name_def)

definition refs_of :: "'w loaded \<Rightarrow> backend_ref list" where
  "refs_of l = map fst (ld_mounted l)"

lemma refs_of_simps [simp]:
  "refs_of (add_note n l) = refs_of l" "refs_of (mount_backend b S l) = refs_of l @ [b]"
  by (simp_all add: refs_of_def add_note_def mount_backend_def)

definition refs_of_labels :: "backend_kind \<Rightarrow> string list \<Rightarrow> backend_ref list" where
  "refs_of_labels k ls = List.map_filter (backend_reference k) ls"

lemma refs_of_labels_simps [simp]:
  "refs_of_labels k [] = []"
  "refs_of_labels k (l # ls) = (case backend_reference k l of None \<Rightarrow> refs_of_labels k ls | Some b \<Rightarrow> b # refs_of_labels k ls)"
  by (simp_all add: refs_of_labels_def List.map_filter_def split: option.split)

lemma mount_keychains_refs:
  "refs_of (mount_keychains E services failed l) = refs_of l @ refs_of_labels Keychain (map fst services)"
  by (induction E services failed l rule: mount_keychains.induct) (auto split: option.split sum.split)

lemma mount_remotes_refs:
  "refs_of (fst (mount_remotes E table l h)) = refs_of l @ refs_of_labels Remote (map fst table)"
  by (induction E table l h rule: mount_remotes.induct) (auto split: option.split sum.split prod.split)

lemma refs_of_labels_set: "b \<in> set (refs_of_labels k ls) \<longleftrightarrow> wf_scope_name (br_label b) \<and> br_kind b = k \<and> scope_str (br_label b) \<in> set ls"
proof -
  have "b \<in> set (refs_of_labels k ls) \<longleftrightarrow> (\<exists>l \<in> set ls. backend_reference k l = Some b)"
    by (force simp: refs_of_labels_def List.map_filter_def)
  then show ?thesis by (auto simp: backend_reference_Some)
qed

lemma refs_of_labels_distinct: "distinct ls \<Longrightarrow> distinct (refs_of_labels k ls)"
proof (induction ls)
  case (Cons l ls)
  then show ?case
    by (auto simp: refs_of_labels_set backend_reference_Some split: option.split)
qed simp

lemma keychain_services_wf:
  "bt_wf (keychain_services table) \<and> map_of (keychain_services table) default_text \<noteq> None"
proof -
  have "bt_wf (foldl (\<lambda>m (label, entry). bt_put label (f label entry) m) m table) \<and>
      map_of (foldl (\<lambda>m (label, entry). bt_put label (f label entry) m) m table) k \<noteq> None"
    if "bt_wf m" "map_of m k \<noteq> None" for f :: "string \<Rightarrow> keychain_table_entry \<Rightarrow> string" and m k
    using that by (induction table arbitrary: m) (auto simp: bt_wf_put)
  from this [of "[(default_text, default_service)]" default_text] show ?thesis
    by (simp add: keychain_services_def bt_wf_def)
qed

lemma mount_all_ok:
  "distinct (map fst bs) \<Longrightarrow> (\<forall>b \<in> fst ` set bs. map_of (fed_backends F) b = None) \<Longrightarrow> bt_wf (fed_backends F) \<Longrightarrow>
   \<exists>F'. mount_all F bs = Inr F' \<and> fed_config F' = fed_config F \<and> bt_wf (fed_backends F') \<and>
     map_of (fed_backends F') = map_of bs ++ map_of (fed_backends F)"
proof (induction bs arbitrary: F)
  case (Cons x bs)
  obtain b S where x: "x = (b, S)" by (cases x)
  let ?F = "F\<lparr>fed_backends := bt_put b S (fed_backends F)\<rparr>"
  have w: "with_backend F b S = Inr ?F"
    using Cons.prems(2) x by (simp add: with_backend_def)
  have "\<exists>F'. mount_all ?F bs = Inr F' \<and> fed_config F' = fed_config ?F \<and> bt_wf (fed_backends F') \<and>
     map_of (fed_backends F') = map_of bs ++ map_of (fed_backends ?F)"
    by (rule Cons.IH) (use Cons.prems x in auto)
  moreover have "map_of bs b = None"
    using Cons.prems(1) x by (simp add: map_of_eq_None_iff)
  ultimately show ?case
    using w x Cons.prems(2,3) by (auto simp: map_add_def fun_eq_iff split: option.split)
qed simp

text \<open>The tables are \<open>BTreeMap\<close>s, so the labels of one are different.\<close>

definition tables_ordered :: "('w, 's, 'e, 'x) cli_env \<Rightarrow> bool" where
  "tables_ordered E \<longleftrightarrow> (\<forall>t table. en_parse_table E t = Some table \<longrightarrow> bt_wf (bk_keychain table) \<and> bt_wf (bk_remote table))"

lemma load_table_ordered: "tables_ordered E \<Longrightarrow> bt_wf (bk_remote (fst (load_table E text)))"
  by (auto simp: load_table_def tables_ordered_def default_table_def split: sum.split option.split)

lemma load_backends_refs:
  assumes "tables_ordered E"
  shows "distinct (refs_of (fst (load_backends E path w))) \<and> default_mount \<in> set (refs_of (fst (load_backends E path w)))"
proof (cases w)
  case (Pair h b)
  obtain src b' where t: "en_config_text E path b = (src, b')" by (cases "en_config_text E path b")
  obtain table ns where l: "load_table E src = (table, ns)" by (cases "load_table E src")
  let ?services = "keychain_services (bk_keychain table)"
  have refs: "refs_of (fst (load_backends E path w)) =
      refs_of_labels Keychain (map fst ?services) @ refs_of_labels Remote (map fst (bk_remote table))"
    using mount_remotes_refs [of E "bk_remote table"] mount_keychains_refs [of E ?services]
    by (simp add: Pair load_backends_def t l Let_def case_prod_beta) (simp add: refs_of_def)
  have "bt_wf (bk_remote table)" using load_table_ordered [OF assms, of src] l by simp
  then have "distinct (map fst ?services)" "distinct (map fst (bk_remote table))"
    using keychain_services_wf by (auto intro: bt_wf_distinct)
  then have "distinct (refs_of (fst (load_backends E path w)))"
    unfolding refs by (auto simp: refs_of_labels_distinct refs_of_labels_set)
  moreover have "default_mount \<in> set (refs_of_labels Keychain (map fst ?services))"
    using conjunct2 [OF keychain_services_wf, of "bk_keychain table"] default_name_wf
    unfolding bt_keys_map_of [symmetric] by (simp add: refs_of_labels_set default_mount_def default_name_def)
  ultimately show ?thesis unfolding refs by simp
qed

lemma local_open_Some:
  assumes "tables_ordered E" "config_path (en_var E) = Some path"
  obtains F where "lo_stack (fst (local_open E json w)) = Some \<lparr>sk_storage = F, sk_notes = ld_notes (fst (load_backends E path w))\<rparr>"
    "fed_config F = en_config E path" "map_of (fed_backends F) = map_of (ld_mounted (fst (load_backends E path w)))"
proof -
  obtain l w' where l: "load_backends E path w = (l, w')" by (cases "load_backends E path w")
  have "distinct (map fst (ld_mounted l))"
    using load_backends_refs [OF assms(1), of path w] l by (simp add: refs_of_def)
  from mount_all_ok [OF this, of "fed_new (en_config E path)"] obtain F where
    "mount_all (fed_new (en_config E path)) (ld_mounted l) = Inr F" "fed_config F = en_config E path"
    "map_of (fed_backends F) = map_of (ld_mounted l)"
    by (auto simp: fed_new_def)
  with that l assms(2) show thesis by (simp add: local_open_def)
qed

section \<open>Where a token goes\<close>

definition may_be_sent :: "('w, 's, 'e, 'x) cli_env \<Rightarrow> string \<Rightarrow> bool" where
  "may_be_sent E origin \<longleftrightarrow>
     (\<exists>scheme h. en_url E origin = Some (scheme, h) \<and> (scheme = ''https'' \<or> scheme = ''http'' \<and> loopback_host h))"

definition tokens_kept :: "('w, 's, 'e, 'x) cli_env \<Rightarrow> backend_ref \<Rightarrow> 'w storage \<Rightarrow> bool" where
  "tokens_kept E b S \<longleftrightarrow> br_kind b = Keychain \<or> br_kind b = Remote \<and>
     (S = unreachable Remote \<or>
      (\<exists>origin token C. S = remote_storage (remote_new E C) \<and> en_client E origin token = Inr C \<and> may_be_sent E origin))"

lemma admitted_origin_Inr: "admitted_origin E label origin = Inr () \<Longrightarrow> may_be_sent E origin"
  by (auto simp: admitted_origin_def may_be_sent_def split: if_splits)

lemma remote_client_Inr:
  "remote_client E label entry h = (Inr C, h') \<Longrightarrow> may_be_sent E (re_origin entry) \<and> (\<exists>token. en_client E (re_origin entry) token = Inr C)"
  by (auto simp: remote_client_def bindE_eq_Inr dest: admitted_origin_Inr)

lemma keychain_kept: "br_kind b = Keychain \<Longrightarrow> tokens_kept E b S"
  by (simp add: tokens_kept_def)

definition all_kept :: "('w, 's, 'e, 'x) cli_env \<Rightarrow> 'w loaded \<Rightarrow> bool" where
  "all_kept E l \<longleftrightarrow> (\<forall>(b, S) \<in> set (ld_mounted l). tokens_kept E b S)"

lemma all_kept_simps [simp]:
  "all_kept E (add_note n l) = all_kept E l"
  "all_kept E (mount_backend b S l) \<longleftrightarrow> all_kept E l \<and> tokens_kept E b S"
  by (auto simp: all_kept_def add_note_def mount_backend_def)

lemma mount_keychains_kept: "all_kept E l \<Longrightarrow> all_kept E (mount_keychains E services failed l)"
  by (induction E services failed l rule: mount_keychains.induct)
    (auto simp: keychain_kept backend_reference_Some split: option.split sum.split)

lemma mount_remotes_kept: "all_kept E l \<Longrightarrow> all_kept E (fst (mount_remotes E table l h))"
proof (induction E table l h rule: mount_remotes.induct)
  case (2 E label entry rest l h)
  show ?case
  proof (cases "backend_reference Remote label")
    case None
    with 2 show ?thesis by simp
  next
    case (Some b)
    then have k: "br_kind b = Remote" by (simp add: backend_reference_Some)
    obtain x h' where c: "remote_client E label entry h = (x, h')" by (cases "remote_client E label entry h")
    show ?thesis
    proof (cases x)
      case (Inl why)
      have "tokens_kept E b (unreachable Remote)" using k by (simp add: tokens_kept_def)
      with "2.IH"(2) [OF Some c [symmetric] Inl] "2.prems" Some c Inl show ?thesis by simp
    next
      case (Inr C)
      have "tokens_kept E b (remote_storage (remote_new E C))"
        using k remote_client_Inr [of E label entry h C h'] c Inr by (auto simp: tokens_kept_def)
      with "2.IH"(3) [OF Some c [symmetric] Inr] "2.prems" Some c Inr show ?thesis by simp
    qed
  qed
qed simp

lemma load_backends_kept: "all_kept E (fst (load_backends E path w))"
proof (cases w)
  case (Pair h b')
  let ?table = "load_table E (fst (en_config_text E path b'))"
  have "all_kept E (mount_keychains E (keychain_services (bk_keychain (fst ?table))) False
      \<lparr>ld_mounted = [], ld_notes = snd ?table\<rparr>)"
    by (rule mount_keychains_kept) (simp add: all_kept_def)
  from mount_remotes_kept [OF this, of "bk_remote (fst ?table)" h]
  show ?thesis
    by (simp add: Pair load_backends_def Let_def case_prod_beta)
qed

end
