(* ===== verification/Cli_Output.thy ===== *)
theory Cli_Output
  imports Cli_Files
begin

text \<open>
  The file \<open>read\<close> writes and the sources \<open>put\<close> reads. Whatever calls fail and whatever other processes
  do between them, as long as they leave the temporary file alone, no call of the process changes a name
  or a file that is there; the one name it makes beside the temporary one is the path that was asked for,
  where nothing was, and it is made with the whole value in it.
\<close>

section \<open>Calls\<close>

definition before_call :: "host \<Rightarrow> file_system" where
  "before_call h = (case ho_others h of [] \<Rightarrow> ho_fs h | f # _ \<Rightarrow> f (ho_fs h))"

definition after_host_call :: "file_system \<Rightarrow> host \<Rightarrow> host" where
  "after_host_call s h = h\<lparr>ho_fs := s, ho_others := tl (ho_others h), ho_fates := tl (ho_fates h),
     ho_calls := ho_calls h @ [(before_call h, s)]\<rparr>"

lemma after_host_call_simps [simp]:
  "ho_fs (after_host_call s h) = s" "ho_others (after_host_call s h) = tl (ho_others h)"
  "ho_calls (after_host_call s h) = ho_calls h @ [(before_call h, s)]" "ho_umask (after_host_call s h) = ho_umask h"
  by (simp_all add: after_host_call_def)

lemma host_callE:
  assumes "host_call good bad h = (r, h')"
  obtains s where "h' = after_host_call s h" "good (before_call h) = (r, s)"
  | n where "h' = after_host_call (bad n (before_call h)) h" "r = Inl IoOther"
proof (cases "ho_fates h")
  case Nil
  with assms that(1) show thesis
    by (cases "good (before_call h)") (auto simp: host_call_def Let_def before_call_def after_host_call_def split: prod.splits)
next
  case (Cons f fs)
  then show thesis
    using assms that
    by (cases f; cases "good (before_call h)")
      (auto simp: host_call_def Let_def before_call_def after_host_call_def split: prod.splits)
qed

section \<open>The file appears whole\<close>

text \<open>What other processes may do while \<open>k\<close> is the temporary file.\<close>

definition spares :: "file_key \<Rightarrow> (file_system \<Rightarrow> file_system) \<Rightarrow> bool" where
  "spares k f \<longleftrightarrow> (\<forall>s. fs_names (f s) k = fs_names s k \<and>
     (\<forall>i. fs_names s k = Some i \<longrightarrow> fs_inodes (f s) i = fs_inodes s i \<and>
       (\<forall>k'. fs_names (f s) k' = Some i \<longleftrightarrow> fs_names s k' = Some i)) \<and>
     ((\<forall>k' i. fs_names s k' = Some i \<longrightarrow> i < fs_next s) \<longrightarrow> (\<forall>k' i. fs_names (f s) k' = Some i \<longrightarrow> i < fs_next (f s))))"

definition whole_or_nothing :: "file_key \<Rightarrow> file_key \<Rightarrow> node \<Rightarrow> file_system \<times> file_system \<Rightarrow> bool" where
  "whole_or_nothing temp target x = (\<lambda>(s, s'). \<forall>k. k \<noteq> temp \<longrightarrow>
     fs_names s' k = fs_names s k \<and> at_name s' k = at_name s k \<or>
     k = target \<and> fs_names s k = None \<and> at_name s' k = Some x)"

text \<open>The temporary name is the only name of the inode \<open>i\<close>, which holds \<open>b\<close>.\<close>

definition private_file :: "file_key \<Rightarrow> nat \<Rightarrow> node \<Rightarrow> file_system \<Rightarrow> bool" where
  "private_file k i x s \<longleftrightarrow> (\<forall>k'. fs_names s k' = Some i \<longleftrightarrow> k' = k) \<and> fs_inodes s i = x"

definition names_used :: "file_system \<Rightarrow> bool" where
  "names_used s \<longleftrightarrow> (\<forall>k i. fs_names s k = Some i \<longrightarrow> i < fs_next s)"

lemma whole_refl [simp]: "whole_or_nothing temp target x (s, s)"
  by (simp add: whole_or_nothing_def)

lemma spares_tl: "list_all (spares k) fs \<Longrightarrow> list_all (spares k) (tl fs)"
  by (cases fs) simp_all

lemma private_name: "private_file k i x s \<Longrightarrow> fs_names s k' = Some i \<longleftrightarrow> k' = k"
  unfolding private_file_def by blast

lemma private_node: "private_file k i x s \<Longrightarrow> fs_inodes s i = x"
  unfolding private_file_def by blast

lemma spares_private:
  assumes f: "spares k f" and p: "private_file k i x s"
  shows "private_file k i x (f s)"
proof -
  have "fs_names s k = Some i" using private_name [OF p] by blast
  with f have "fs_inodes (f s) i = fs_inodes s i" "\<forall>k'. fs_names (f s) k' = Some i \<longleftrightarrow> fs_names s k' = Some i"
    unfolding spares_def by blast+
  with p show ?thesis unfolding private_file_def by blast
qed

lemma before_private:
  "list_all (spares k) (ho_others h) \<Longrightarrow> private_file k i x (ho_fs h) \<Longrightarrow> private_file k i x (before_call h)"
  by (cases "ho_others h") (simp_all add: before_call_def spares_private)

lemma before_used: "list_all (spares k) (ho_others h) \<Longrightarrow> names_used (ho_fs h) \<Longrightarrow> names_used (before_call h)"
  by (cases "ho_others h") (simp_all add: before_call_def names_used_def spares_def)

text \<open>A call that changes the private inode only.\<close>

lemma private_change:
  assumes p: "private_file k i x s"
  shows "private_file k i y (set_inode i y s)" "whole_or_nothing k target z (s, set_inode i y s)"
proof -
  show "private_file k i y (set_inode i y s)"
    using private_name [OF p] unfolding private_file_def by (simp add: set_inode_def del: split_paired_All)
  have "at_name (set_inode i y s) k' = at_name s k'" if "k' \<noteq> k" for k'
    using private_name [OF p, of k'] that by (cases "fs_names s k'") (simp_all add: set_inode_def at_name_def)
  moreover have "fs_names (set_inode i y s) = fs_names s" by (simp add: set_inode_def)
  ultimately show "whole_or_nothing k target z (s, set_inode i y s)"
    unfolding whole_or_nothing_def prod.case by metis
qed

lemma write_inode_whole:
  assumes "write_inode i bs h = (r, h')" "list_all (spares k) (ho_others h)" "private_file k i (FileNode b m) (ho_fs h)"
  obtains c s where "private_file k i (FileNode (b @ c) m) s" "r = Inr () \<Longrightarrow> c = bs"
    "whole_or_nothing k target z (before_call h, s)" "h' = after_host_call s h" "fs_names s = fs_names (before_call h)"
proof -
  note p = before_private [OF assms(2,3)]
  then have i: "fs_inodes (before_call h) i = FileNode b m" by (rule private_node)
  note w = assms(1) [unfolded write_inode_def Let_def]
  have n: "fs_names (set_inode i y s) = fs_names s" for y s by (simp add: set_inode_def)
  from w show thesis
  proof (cases rule: host_callE)
    case (1 s)
    with i have "s = set_inode i (FileNode (b @ bs) m) (before_call h)" by simp
    with 1 that [of bs s] private_change [OF p] n show thesis by simp
  next
    case (2 n')
    with i have "h' = after_host_call (set_inode i (FileNode (b @ take n' bs) m) (before_call h)) h" by simp
    with 2 that [of "take n' bs" "set_inode i (FileNode (b @ take n' bs) m) (before_call h)"] private_change [OF p] n
    show thesis by simp
  qed
qed

lemma query_callE:
  assumes "query_call q h = (r, h')"
  obtains "h' = after_host_call (before_call h) h" "r = q (before_call h) \<or> r = Inl IoOther"
  using assms unfolding query_call_def by (cases rule: host_callE) (auto intro: that)

text \<open>A call of the process at the path: it is left as it was, or made where nothing was.\<close>

definition at_target :: "file_key \<Rightarrow> node \<Rightarrow> file_system \<times> file_system \<Rightarrow> bool" where
  "at_target target x = (\<lambda>(s, s'). fs_names s target = None \<and> at_name s' target = Some x)"

definition not_at :: "file_key \<Rightarrow> file_system \<times> file_system \<Rightarrow> bool" where
  "not_at target = (\<lambda>(s, s'). fs_names s' target = fs_names s target)"

lemma not_at_same [simp]: "fs_names s' = fs_names s \<Longrightarrow> not_at target (s, s')"
  by (simp add: not_at_def)

lemma drop_whole:
  assumes "target \<noteq> pd_temp p"
  obtains s where "pending_drop p h = after_host_call s h" "whole_or_nothing (pd_temp p) target z (before_call h, s)"
    "not_at target (before_call h, s)"
proof -
  obtain r h' where u: "unlink (pd_temp p) h = (r, h')" by (cases "unlink (pd_temp p) h")
  then have d: "pending_drop p h = h'" by (simp add: pending_drop_def)
  from u show thesis
    unfolding unlink_def
  proof (cases rule: host_callE)
    case (1 s)
    with d assms show thesis
      by (intro that [of s]) (auto simp: whole_or_nothing_def not_at_def at_name_def split: if_splits)
  next
    case (2 n)
    with d show thesis by (intro that [of "before_call h"]) simp_all
  qed
qed

lemma link_whole:
  assumes "hard_link k target h = (r, h')" "private_file k i x (before_call h)" "target \<noteq> k"
  obtains s where "h' = after_host_call s h" "whole_or_nothing k target x (before_call h, s)"
    "if r = Inr () then at_target target x (before_call h, s) else not_at target (before_call h, s)"
proof -
  from assms(1) show thesis
    unfolding hard_link_def
  proof (cases rule: host_callE)
    case (1 s)
    have k: "fs_names (before_call h) k = Some i" "fs_inodes (before_call h) i = x"
      using private_name [OF assms(2)] private_node [OF assms(2)] by blast+
    show thesis
    proof (cases "fs_names (before_call h) target")
      case None
      with 1 k have "s = (before_call h)\<lparr>fs_names := (fs_names (before_call h))(target \<mapsto> i)\<rparr>" "r = Inr ()" by simp_all
      with 1 k None show thesis
        by (intro that [of s]) (auto simp: whole_or_nothing_def at_target_def at_name_def)
    next
      case (Some j)
      with 1 k have "s = before_call h" "r \<noteq> Inr ()" by auto
      with 1 show thesis by (intro that [of s]) simp_all
    qed
  next
    case (2 n)
    then show thesis by (intro that [of "before_call h"]) simp_all
  qed
qed

lemma commit_calls:
  assumes c: "pending_commit p bs h = (r, h')" and p: "pd_file p = Some i" "pd_target p \<noteq> pd_temp p"
    and o: "list_all (spares (pd_temp p)) (ho_others h)" and f: "private_file (pd_temp p) i (FileNode [] m) (ho_fs h)"
  shows "\<exists>calls. ho_calls h' = ho_calls h @ calls \<and>
    list_all (whole_or_nothing (pd_temp p) (pd_target p) (FileNode bs m)) calls \<and>
    (if r = Inr () then list_ex (at_target (pd_target p) (FileNode bs m)) calls
     else list_all (not_at (pd_target p)) calls)"
proof -
  let ?x = "FileNode bs m" and ?k = "pd_temp p" and ?t = "pd_target p"
  obtain y h1 where w: "write_inode i bs h = (y, h1)" by (cases "write_inode i bs h")
  from write_inode_whole [OF w o f, of ?t ?x] obtain cs s1 where
    f1: "private_file ?k i (FileNode cs m) s1" "y = Inr () \<Longrightarrow> cs = bs"
      "whole_or_nothing ?k ?t ?x (before_call h, s1)" "h1 = after_host_call s1 h" "fs_names s1 = fs_names (before_call h)"
    by (metis append_Nil)
  have o1: "list_all (spares ?k) (ho_others h1)" using o f1(4) by (simp add: spares_tl)
  show ?thesis
  proof (cases y)
    case (Inl e)
    from drop_whole [OF p(2), of h1 ?x] obtain s where d: "pending_drop p h1 = after_host_call s h1"
      "whole_or_nothing ?k ?t ?x (before_call h1, s)" "not_at ?t (before_call h1, s)" by blast
    have "h' = pending_drop p h1" "r \<noteq> Inr ()"
      using c p(1) w Inl by (auto simp: pending_commit_def)
    with d f1 show ?thesis
      by (intro exI [of _ "[(before_call h, s1), (before_call h1, s)]"]) simp
  next
    case (Inr u)
    with f1(1,2) have f1': "private_file ?k i ?x (ho_fs h1)" by (simp add: f1(4))
    obtain z h2 where q: "query_call (\<lambda>_. Inr () :: io_error + unit) h1 = (z, h2)"
      by (cases "query_call (\<lambda>_. Inr () :: io_error + unit) h1")
    from q have h2: "h2 = after_host_call (before_call h1) h1" by (rule query_callE)
    have "private_file ?k i ?x (ho_fs h2)" "list_all (spares ?k) (ho_others h2)"
      using before_private [OF o1 f1'] o1 h2 by (simp_all add: spares_tl)
    then have f2: "private_file ?k i ?x (before_call h2)" by (rule before_private [rotated])
    show ?thesis
    proof (cases z)
      case (Inl e)
      from drop_whole [OF p(2), of h2 ?x] obtain s where d: "pending_drop p h2 = after_host_call s h2"
        "whole_or_nothing ?k ?t ?x (before_call h2, s)" "not_at ?t (before_call h2, s)" by blast
      have "h' = pending_drop p h2" "r \<noteq> Inr ()"
        using c p(1) w Inr q Inl by (auto simp: pending_commit_def)
      with d f1 h2 show ?thesis
        by (intro exI [of _ "[(before_call h, s1), (before_call h1, before_call h1), (before_call h2, s)]"]) simp
    next
      case z: (Inr s')
      obtain v h3 where l: "hard_link ?k ?t h2 = (v, h3)" by (cases "hard_link ?k ?t h2")
      from link_whole [OF l f2 p(2)] obtain s3 where l3: "h3 = after_host_call s3 h2"
        "whole_or_nothing ?k ?t ?x (before_call h2, s3)"
        "if v = Inr () then at_target ?t ?x (before_call h2, s3) else not_at ?t (before_call h2, s3)" by metis
      from drop_whole [OF p(2), of h3 ?x] obtain s where d: "pending_drop p h3 = after_host_call s h3"
        "whole_or_nothing ?k ?t ?x (before_call h3, s)" "not_at ?t (before_call h3, s)" by blast
      have "h' = pending_drop p h3" "r = map_err link_refusal v"
        using c p(1) w Inr q z l by (auto simp: pending_commit_def)
      moreover have "r = Inr () \<longleftrightarrow> v = Inr ()"
        using calculation(2) by (cases v) auto
      ultimately show ?thesis
        using d f1 h2 l3
        by (intro exI [of _ "[(before_call h, s1), (before_call h1, before_call h1), (before_call h2, s3), (before_call h3, s)]"])
          (cases "v = Inr ()"; simp)
    qed
  qed
qed

section \<open>The temporary file\<close>

lemma out_temp_name_longer: "length name < length (out_temp_name name pid suffix)"
  by (simp add: out_temp_name_def)

lemma open_new_outcome:
  assumes "open_new k mode h = (r, h')" "names_used (before_call h)" "target \<noteq> k"
  obtains s where "h' = after_host_call s h" "whole_or_nothing k target z (before_call h, s)" "not_at target (before_call h, s)"
    "\<And>i. r = Inr i \<Longrightarrow> \<exists>m. private_file k i (FileNode [] m) s" "names_used s"
proof -
  from assms(1) show thesis
    unfolding open_new_def
  proof (cases rule: host_callE)
    case (1 s)
    let ?b = "before_call h"
    show thesis
    proof (cases "fs_names ?b k")
      case None
      with 1 have s: "s = ?b\<lparr>fs_names := (fs_names ?b)(k \<mapsto> fs_next ?b),
            fs_inodes := (fs_inodes ?b)(fs_next ?b := FileNode [] (mode AND NOT (ho_umask h))), fs_next := fs_next ?b + 1\<rparr>"
        and r: "r = Inr (fs_next ?b)" by simp_all
      have fresh: "fs_names ?b k' \<noteq> Some (fs_next ?b)" for k'
        using assms(2) unfolding names_used_def by blast
      have "private_file k (fs_next ?b) (FileNode [] (mode AND NOT (ho_umask h))) s"
        unfolding private_file_def using fresh by (simp add: s del: split_paired_All)
      moreover have "at_name s k' = at_name ?b k'" if "k' \<noteq> k" for k'
        using fresh [of k'] that by (cases "fs_names ?b k'") (simp_all add: s at_name_def)
      then have "whole_or_nothing k target z (?b, s)"
        unfolding whole_or_nothing_def prod.case by (simp add: s del: split_paired_All)
      moreover have "not_at target (?b, s)" using assms(3) by (simp add: not_at_def s)
      moreover have "names_used s"
        using assms(2) unfolding names_used_def by (simp add: s del: split_paired_All) (metis less_SucI)
      ultimately show thesis
        using 1 r by (intro that [of s]) auto
    next
      case (Some j)
      with 1 have "s = ?b" "r = Inl IoExists" by simp_all
      with 1 assms(2) show thesis by (intro that [of s]) simp_all
    qed
  next
    case (2 n)
    with assms(2) show thesis by (intro that [of "before_call h"]) simp_all
  qed
qed

lemma set_permissions_outcome:
  assumes "set_permissions i mode h = (r, h')" "private_file k i (FileNode b m) (before_call h)"
  obtains s where "h' = after_host_call s h" "whole_or_nothing k target z (before_call h, s)" "not_at target (before_call h, s)"
    "r = Inr () \<Longrightarrow> private_file k i (FileNode b mode) s"
proof -
  note i = private_node [OF assms(2)]
  from assms(1) show thesis
    unfolding set_permissions_def
  proof (cases rule: host_callE)
    case (1 s)
    with i have "s = set_inode i (FileNode b mode) (before_call h)" by simp
    with 1 private_change [OF assms(2)] show thesis
      by (intro that [of s]) (simp_all add: not_at_def, simp add: set_inode_def)
  next
    case (2 n)
    then show thesis by (intro that [of "before_call h"]) simp_all
  qed
qed

lemma create_private_outcome:
  assumes c: "create_private k h = (Inr i, h')" and o: "list_all (spares k) (ho_others h)"
    and u: "names_used (ho_fs h)" and t: "target \<noteq> k"
  shows "\<exists>calls. ho_calls h' = ho_calls h @ calls \<and> list_all (whole_or_nothing k target z) calls \<and>
    list_all (not_at target) calls \<and> private_file k i (FileNode [] 0x180) (ho_fs h') \<and> list_all (spares k) (ho_others h')"
proof -
  obtain y h1 where n: "open_new k 0x180 h = (y, h1)" by (cases "open_new k 0x180 h")
  with c obtain j where y: "y = Inr j" by (cases y) (auto simp: create_private_def)
  from open_new_outcome [OF n before_used [OF o u] t, of z] obtain s m where
    s: "h1 = after_host_call s h" "whole_or_nothing k target z (before_call h, s)" "not_at target (before_call h, s)"
      "private_file k j (FileNode [] m) s" using y by metis
  have o1: "list_all (spares k) (ho_others h1)" using o s(1) by (simp add: spares_tl)
  obtain v h2 where p: "set_permissions j 0x180 h1 = (v, h2)" by (cases "set_permissions j 0x180 h1")
  have v: "v = Inr ()" "i = j" "h' = h2"
    using c n y p by (cases v; auto simp: create_private_def)+
  have "private_file k j (FileNode [] m) (before_call h1)"
    by (rule before_private [OF o1]) (simp add: s)
  from set_permissions_outcome [OF p this, of target z] obtain s2 where
    s2: "h2 = after_host_call s2 h1" "whole_or_nothing k target z (before_call h1, s2)" "not_at target (before_call h1, s2)"
      "private_file k j (FileNode [] 0x180) s2" using v(1) by metis
  show ?thesis
    using s s2 o1 v by (intro exI [of _ "[(before_call h, s), (before_call h1, s2)]"]) (simp add: spares_tl)
qed

lemma nothing_there_outcome:
  assumes "nothing_there P h = (r, h')"
  shows "h' = after_host_call (before_call h) h"
proof -
  let ?q = "\<lambda>s. ok_or (at_name s (path_key P)) IoNotFound"
  obtain y h1 where q: "query_call ?q h = (y, h1)" by (cases "query_call ?q h")
  then have "h1 = after_host_call (before_call h) h" by (rule query_callE)
  moreover have "h' = h1"
    using assms q by (auto simp: nothing_there_def split: sum.splits node.splits io_error.splits)
  ultimately show ?thesis by simp
qed

lemma prepare_calls:
  assumes c: "out_prepare P h = (Inr p, h')" and o: "list_all (spares (pd_temp p)) (ho_others h)" and u: "names_used (ho_fs h)"
  obtains i calls where "pd_file p = Some i" "pd_target p = path_key P" "pd_target p \<noteq> pd_temp p" "ho_calls h' = ho_calls h @ calls"
    "list_all (whole_or_nothing (pd_temp p) (pd_target p) z) calls" "list_all (not_at (pd_target p)) calls"
    "private_file (pd_temp p) i (FileNode [] 0x180) (ho_fs h')" "list_all (spares (pd_temp p)) (ho_others h')"
proof -
  obtain y h1 where n: "nothing_there P h = (y, h1)" by (cases "nothing_there P h")
  with c have y: "y = Inr ()" by (cases y) (auto simp: out_prepare_def)
  note h1 = nothing_there_outcome [OF n]
  from c n y obtain name suffix h2 where name: "op_name P = Some name" and g: "getrandom_fill h1 = (Inr suffix, h2)"
    by (auto simp: out_prepare_def bindE_eq_Inr)
  let ?k = "(path_directory P, out_temp_name name (ho_pid h2) suffix)"
  have h2: "ho_fs h2 = ho_fs h1" "ho_others h2 = ho_others h1" "ho_calls h2 = ho_calls h1"
    using g by (auto simp: getrandom_fill_def split: list.splits option.splits)
  from c n y name g obtain i where k: "create_private ?k h2 = (Inr i, h')"
    and p: "p = \<lparr>pd_temp = ?k, pd_file = Some i, pd_target = path_key P\<rparr>"
    by (auto simp: out_prepare_def bindE_eq_Inr Let_def)
  have t: "path_key P \<noteq> ?k"
    using out_temp_name_longer [of name "ho_pid h2" suffix] by (auto simp: path_key_def name)
  have o': "list_all (spares ?k) (ho_others h)" using o p by simp
  have o2: "list_all (spares ?k) (ho_others h2)" using o' h2 h1 by (simp add: spares_tl)
  have u2: "names_used (ho_fs h2)" using before_used [OF o' u] h2 h1 by simp
  from create_private_outcome [OF k o2 u2 t, of z] obtain calls where
    "ho_calls h' = ho_calls h2 @ calls" "list_all (whole_or_nothing ?k (path_key P) z) calls"
    "list_all (not_at (path_key P)) calls" "private_file ?k i (FileNode [] 0x180) (ho_fs h')"
    "list_all (spares ?k) (ho_others h')" by blast
  with p t h1 h2 show thesis
    by (intro that [of i "(before_call h, before_call h) # calls"]) simp_all
qed

section \<open>Sources\<close>

lemma host_call_total: "host_call good bad h = (Inr x, h') \<Longrightarrow> good (before_call h) = (Inr x, ho_fs h')"
  by (erule host_callE) simp_all

lemma query_call_Inr:
  "query_call q h = (Inr x, h') \<Longrightarrow> q (before_call h) = Inr x \<and> h' = after_host_call (before_call h) h"
  by (erule query_callE) auto

lemma read_protected_source:
  assumes "read_protected p limit h = (Inr bs, h')"
  shows "\<exists>s0 s s' i b mode. ho_calls h' = ho_calls h @ [(s0, s0), (s, s), (s', s')] \<and>
    follow 41 s0 (path_key p) = Some i \<and> fs_inodes s i = FileNode b mode \<and> mode AND 0x3F = 0 \<and>
    bs = take (read_bound limit) (file_bytes (fs_inodes s' i))"
proof -
  from assms [unfolded read_protected_def bindE_eq_Inr map_errE_eq_Inr] obtain i h1 x h2 where
    o: "query_call (open_read (path_key p)) h = (Inr i, h1)"
    and m: "query_call (\<lambda>s. Inr (fs_inodes s i)) h1 = (Inr x, h2)"
    and k: "(case x of FileNode _ mode \<Rightarrow> if mode AND 0x3F \<noteq> 0 then failE ValExposed
      else bounded (\<lambda>s. file_bytes (fs_inodes s i)) limit | _ \<Rightarrow> failE ValNotAFile) h2 = (Inr bs, h')"
    by blast
  note o' = query_call_Inr [OF o] and m' = query_call_Inr [OF m]
  from k obtain b mode where x: "x = FileNode b mode" "mode AND 0x3F = 0"
    and r: "bounded (\<lambda>s. file_bytes (fs_inodes s i)) limit h2 = (Inr bs, h')"
    by (auto split: node.splits if_splits)
  have r': "bs = take (read_bound limit) (file_bytes (fs_inodes (before_call h2) i)) \<and> h' = after_host_call (before_call h2) h2"
    using query_call_Inr [OF r [unfolded bounded_def map_errE_eq_Inr]] by simp
  have "ho_calls h' = ho_calls h @ [(before_call h, before_call h), (before_call h1, before_call h1),
      (before_call h2, before_call h2)]"
    using o' m' r' by simp
  moreover have "follow 41 (before_call h) (path_key p) = Some i" "fs_inodes (before_call h1) i = FileNode b mode"
    using o' m' x by (auto simp: open_read_def ok_or_eq_Inr split: if_splits)
  ultimately show ?thesis
    using x(2) conjunct1 [OF r'] by (intro exI conjI)
qed

section \<open>Properties\<close>

text \<open>
  C15: whatever calls fail, and whatever other processes do that leave the temporary file alone: while a
  value is written to the path asked for, no call of the process changes another name or what it names;
  the path itself is made at most once, where nothing was, and with the whole value readable by its owner
  only; it is made when the answer is a success, and left alone when it is an error.
\<close>

theorem out_file_whole_or_nothing:
  assumes "out_prepare P h = (Inr p, h1)" "pending_commit p bs h1 = (r, h2)"
    and "list_all (spares (pd_temp p)) (ho_others h)" "names_used (ho_fs h)"
  shows "\<exists>calls. ho_calls h2 = ho_calls h @ calls \<and>
    list_all (whole_or_nothing (pd_temp p) (path_key P) (FileNode bs 0x180)) calls \<and>
    (if r = Inr () then list_ex (at_target (path_key P) (FileNode bs 0x180)) calls
     else list_all (not_at (path_key P)) calls)"
proof -
  from prepare_calls [OF assms(1,3,4), of "FileNode bs 0x180"] obtain i calls where
    p: "pd_file p = Some i" "pd_target p = path_key P" "pd_target p \<noteq> pd_temp p" "ho_calls h1 = ho_calls h @ calls"
    "list_all (whole_or_nothing (pd_temp p) (pd_target p) (FileNode bs 0x180)) calls" "list_all (not_at (pd_target p)) calls"
    "private_file (pd_temp p) i (FileNode [] 0x180) (ho_fs h1)" "list_all (spares (pd_temp p)) (ho_others h1)" .
  from commit_calls [OF assms(2) p(1,3,8,7)] obtain calls' where
    "ho_calls h2 = ho_calls h1 @ calls'" "list_all (whole_or_nothing (pd_temp p) (pd_target p) (FileNode bs 0x180)) calls'"
    "if r = Inr () then list_ex (at_target (pd_target p) (FileNode bs 0x180)) calls' else list_all (not_at (pd_target p)) calls'"
    by blast
  with p show ?thesis
    by (intro exI [of _ "calls @ calls'"]) auto
qed

definition empty_host :: host where
  "empty_host = \<lparr>ho_fs = \<lparr>fs_names = (\<lambda>_. None), fs_inodes = (\<lambda>_. OtherNode), fs_next = 0\<rparr>, ho_others = [], ho_fates = [],
     ho_calls = [], ho_random = [Some [1, 2, 3, 4, 5, 6, 7, 8]], ho_pid = 7, ho_umask = 0,
     ho_stdin = \<lparr>si_terminal = False, si_typed = None, si_kind = Some FifoNode, si_bytes = [104, 10]\<rparr>,
     ho_prompts = [], ho_out = [], ho_err = []\<rparr>"

definition example_out :: os_path where
  "example_out = \<lparr>op_text = ''out/v'', op_parent = Some ''out'', op_name = Some ''v''\<rparr>"

theorem out_file_whole_or_nothing_witness:
  "\<exists>p h1 h2. out_prepare example_out empty_host = (Inr p, h1) \<and> pending_commit p [1, 2] h1 = (Inr (), h2) \<and>
     list_ex (at_target (''out'', ''v'') (FileNode [1, 2] 0x180)) (ho_calls h2)"
proof -
  obtain x h1 where e: "out_prepare example_out empty_host = (x, h1)" by (cases "out_prepare example_out empty_host")
  have x: "x = Inr \<lparr>pd_temp = (''out'', out_temp_name ''v'' 7 [1, 2, 3, 4, 5, 6, 7, 8]), pd_file = Some 0, pd_target = (''out'', ''v'')\<rparr>"
    and h1: "ho_fates h1 = []" "ho_others h1 = []" "ho_calls empty_host = []"
      "fs_names (ho_fs h1) = [(''out'', out_temp_name ''v'' 7 [1, 2, 3, 4, 5, 6, 7, 8]) \<mapsto> 0]" "fs_inodes (ho_fs h1) 0 = FileNode [] 0x180"
    using e [symmetric]
    by (simp_all add: out_prepare_def nothing_there_def query_call_def host_call_def empty_host_def at_name_def example_out_def
        path_key_def path_directory_def getrandom_fill_def bindE_def create_private_def open_new_def set_permissions_def
        map_errE_def set_inode_def Let_def)
  let ?p = "\<lparr>pd_temp = (''out'', out_temp_name ''v'' 7 [1, 2, 3, 4, 5, 6, 7, 8]), pd_file = Some 0, pd_target = (''out'', ''v'')\<rparr> :: pending"
  obtain r h2 where c: "pending_commit ?p [1, 2] h1 = (r, h2)" by (cases "pending_commit ?p [1, 2] h1")
  have "out_temp_name ''v'' 7 [1, 2, 3, 4, 5, 6, 7, 8] \<noteq> ''v''" by (simp add: out_temp_name_def)
  then have r: "r = Inr ()"
    using c h1 by (auto simp: pending_commit_def write_inode_def query_call_def hard_link_def host_call_def bindE_def map_errE_def
        set_inode_def pending_drop_def Let_def split: prod.splits sum.splits)
  have k: "path_key example_out = (''out'', ''v'')" by (simp add: path_key_def path_directory_def example_out_def)
  have "list_all (spares (pd_temp ?p)) (ho_others empty_host)" "names_used (ho_fs empty_host)"
    by (simp_all add: empty_host_def names_used_def)
  from out_file_whole_or_nothing [OF e [unfolded x] c this] obtain calls where
    "ho_calls h2 = ho_calls empty_host @ calls" "list_ex (at_target (path_key example_out) (FileNode [1, 2] 0x180)) calls"
    unfolding r by auto
  then have "list_ex (at_target (''out'', ''v'') (FileNode [1, 2] 0x180)) (ho_calls h2)"
    by (simp add: k h1)
  with e x c r show ?thesis by blast
qed

end
