(* ===== verification/Cli_Blind.thy ===== *)
theory Cli_Blind
  imports Cli_Output Cli_Main
begin

text \<open>
  The local commands over a stack whose backends answer every read with the same empty value
  (\<open>blind_local\<close>), and over two operating systems that differ only in what is inside files
  (\<open>alike\<close>): what a command answers, what it prints and what it does to the backends is the same.
\<close>

section \<open>Backends that show no value\<close>

definition blind_answer :: "storage_error + revealed \<Rightarrow> storage_error + revealed" where
  "blind_answer r = map_sum id (\<lambda>x. x\<lparr>rv_value := SecretValue []\<rparr>) r"

definition blind_storage :: "'w storage \<Rightarrow> 'w storage" where
  "blind_storage S = S\<lparr>st_read := (\<lambda>t w. apfst blind_answer (st_read S t w))\<rparr>"

definition blind_fed :: "'w federated \<Rightarrow> 'w federated" where
  "blind_fed F = F\<lparr>fed_backends := map (\<lambda>(b, S). (b, blind_storage S)) (fed_backends F)\<rparr>"

definition blind_local :: "'w local \<Rightarrow> 'w local" where
  "blind_local L = L\<lparr>lo_stack := map_option (\<lambda>s. s\<lparr>sk_storage := blind_fed (sk_storage s)\<rparr>) (lo_stack L)\<rparr>"

lemma blind_storage_simps [simp]:
  "capabilities (blind_storage S) = capabilities S" "requires_binding (blind_storage S) = requires_binding S"
  "st_read (blind_storage S) t w = apfst blind_answer (st_read S t w)" "st_write (blind_storage S) = st_write S"
  "st_delete (blind_storage S) = st_delete S" "st_rename (blind_storage S) = st_rename S"
  "st_list (blind_storage S) = st_list S"
  by (simp_all add: blind_storage_def)

lemma blind_answer_simps [simp]:
  "blind_answer (Inl e) = Inl e" "blind_answer (Inr x) = Inr (x\<lparr>rv_value := SecretValue []\<rparr>)"
  by (simp_all add: blind_answer_def)

lemma require_blind [simp]: "require (blind_storage S) needs = require S needs"
  by (simp add: require_def)

lemma blind_fed_config [simp]: "fed_config (blind_fed F) = fed_config F"
  by (simp add: blind_fed_def)

lemma blind_fed_backends: "map_of (fed_backends (blind_fed F)) b = map_option blind_storage (map_of (fed_backends F) b)"
  by (simp add: blind_fed_def map_of_map)

lemma registered_blind: "registered (blind_fed F) b = map_sum id blind_storage (registered F b)"
  by (cases "map_of (fed_backends F) b") (simp_all add: registered_def blind_fed_backends)

lemma mounted_blind: "mounted (blind_fed F) s w = apfst (map_sum id blind_storage) (mounted F s w)"
  by (auto simp: mounted_def bindE_apply registered_blind split: sum.split prod.split)

lemma resolve_blind: "resolve (blind_fed F) a needs w = apfst (map_sum id (apfst blind_storage)) (resolve F a needs w)"
proof -
  obtain r w' where m: "mounted F (ad_scope a) w = (r, w')" by (cases "mounted F (ad_scope a) w")
  show ?thesis
    by (cases r) (auto simp: resolve_def bindE_apply mounted_blind m split: sum.split prod.split option.split)
qed

lemma holds_secrets_blind: "holds_secrets (blind_fed F) n = holds_secrets F n"
  by (simp add: holds_secrets_def blind_fed_backends split: option.split)

lemma admin_blind:
  "fed_namespaces (blind_fed F) = fed_namespaces F" "add_namespace (blind_fed F) k m = add_namespace F k m"
  "remove_namespace (blind_fed F) k = remove_namespace F k" "set_mount (blind_fed F) k b = set_mount F k b"
  "bind_address (blind_fed F) a l = bind_address F a l" "unbind_address (blind_fed F) a = unbind_address F a"
  by (auto simp: fed_namespaces_def add_namespace_def remove_namespace_def set_mount_def bind_address_def
      unbind_address_def holds_secrets_blind registered_blind Let_def bindE_apply fun_eq_iff map_sum_def
      split: sum.split prod.split)

lemma fed_blind:
  "fed_read (blind_fed F) t w = apfst blind_answer (fed_read F t w)"
  "fed_write (blind_fed F) t v w = fed_write F t v w" "fed_delete (blind_fed F) t w = fed_delete F t w"
  "fed_rename (blind_fed F) t n w = fed_rename F t n w" "fed_list (blind_fed F) s w = fed_list F s w"
  by (auto simp: fed_read_def fed_write_def fed_delete_def fed_rename_def fed_list_def bindE_apply resolve_blind
      mounted_blind Let_def split: sum.split prod.split)

lemma fed_storage_blind: "fed_storage (blind_fed F) = blind_storage (fed_storage F)"
  by (simp add: fed_storage_def blind_storage_def fed_blind fun_eq_iff)

lemma authorized_blind: "authorized_local (blind_storage S) = blind_storage (authorized_local S)"
  by (auto simp: authorized_local_def authorized_def blind_storage_def authorized_ops bindE_apply fun_eq_iff
      split: sum.split prod.split)

lemma the_stack_blind: "the_stack (blind_local L) = map_sum id blind_fed (the_stack L)"
  by (cases "lo_stack L") (simp_all add: the_stack_def blind_local_def)

lemma cli_mount_of_blind: "cli_mount_of (blind_fed F) s = cli_mount_of F s"
  by (simp add: cli_mount_of_def)

lemma list_scopes_blind: "list_scopes (blind_fed F) ss js ls = list_scopes F ss js ls"
  by (induction ss arbitrary: js ls) (simp_all add: fed_storage_blind authorized_blind cli_mount_of_blind)

lemma bind_the_stack_blind:
  "bindE (liftE (the_stack (blind_local L))) k = bindE (liftE (the_stack L)) (\<lambda>F. k (blind_fed F))"
  by (cases "the_stack L") (simp_all add: the_stack_blind)

lemma blind_ops:
  "st_write (authorized_local (fed_storage (blind_fed F))) = st_write (authorized_local (fed_storage F))"
  "st_delete (authorized_local (fed_storage (blind_fed F))) = st_delete (authorized_local (fed_storage F))"
  "st_rename (authorized_local (fed_storage (blind_fed F))) = st_rename (authorized_local (fed_storage F))"
  "st_list (authorized_local (fed_storage (blind_fed F))) = st_list (authorized_local (fed_storage F))"
  by (simp_all add: fed_storage_blind authorized_blind fun_eq_iff)

lemma run_local_blind:
  assumes "\<And>n m p. c \<noteq> CRead n m p"
  shows "run_local (blind_local L) c = run_local L c"
proof -
  note simps = blind_ops cli_mount_of_blind admin_blind list_scopes_blind bind_the_stack_blind
  note ops = cli_put_def cli_describe_def cli_list_def cli_delete_def cli_rename_def cli_namespace_add_def
    cli_namespace_list_def cli_namespace_remove_def cli_mount_set_def cli_bind_def cli_unbind_def
  show ?thesis
    by (cases c rule: decision.cases) (simp_all only: ops simps run_local.simps, use assms in blast)
qed

section \<open>Operating systems alike but for what is inside files\<close>

definition node_shape :: "node \<Rightarrow> node" where
  "node_shape x = (case x of FileNode b m \<Rightarrow> FileNode [] m | _ \<Rightarrow> x)"

definition same_files :: "file_system \<Rightarrow> file_system \<Rightarrow> bool" where
  "same_files s s' \<longleftrightarrow> fs_names s = fs_names s' \<and> fs_next s = fs_next s' \<and>
     (\<forall>i. node_shape (fs_inodes s i) = node_shape (fs_inodes s' i))"

text \<open>Another process whose doings do not depend on the bytes inside files.\<close>

definition oblivious :: "(file_system \<Rightarrow> file_system) \<Rightarrow> bool" where
  "oblivious f \<longleftrightarrow> (\<forall>s s'. same_files s s' \<longrightarrow> same_files (f s) (f s'))"

definition alike :: "host \<Rightarrow> host \<Rightarrow> bool" where
  "alike h h' \<longleftrightarrow> same_files (ho_fs h) (ho_fs h') \<and> list_all oblivious (ho_others h) \<and>
     ho_others h' = ho_others h \<and> ho_fates h' = ho_fates h \<and> ho_random h' = ho_random h \<and> ho_pid h' = ho_pid h \<and>
     ho_umask h' = ho_umask h \<and> ho_stdin h' = ho_stdin h \<and> ho_prompts h' = ho_prompts h \<and> ho_out h' = ho_out h \<and>
     ho_err h' = ho_err h"

lemma same_files_refl [simp]: "same_files s s"
  by (simp add: same_files_def)

lemma alike_refl: "list_all oblivious (ho_others h) \<Longrightarrow> alike h h"
  by (simp add: alike_def)

lemma alike_host_call:
  assumes h: "alike h h'"
    and good: "\<And>s s'. same_files s s' \<Longrightarrow> fst (good s) = fst (good' s') \<and> same_files (snd (good s)) (snd (good' s'))"
    and bad: "\<And>n s s'. same_files s s' \<Longrightarrow> same_files (bad n s) (bad' n s')"
  shows "fst (host_call good bad h) = fst (host_call good' bad' h') \<and>
    alike (snd (host_call good bad h)) (snd (host_call good' bad' h'))"
proof -
  have b: "same_files (before_call h) (before_call h')"
    using h by (cases "ho_others h") (auto simp: alike_def before_call_def oblivious_def)
  have t: "list_all oblivious (tl (ho_others h))" using h by (cases "ho_others h") (auto simp: alike_def)
  have r: "host_call g d k =
      (case ho_fates k of Breaks n # _ \<Rightarrow> (Inl IoOther, after_host_call (d n (before_call k)) k)
       | _ \<Rightarrow> apsnd (\<lambda>s. after_host_call s k) (g (before_call k)))"
    for g :: "file_system \<Rightarrow> (io_error + 'a) \<times> file_system" and d and k :: host
    by (simp add: host_call_def before_call_def after_host_call_def Let_def split: list.split fate.split prod.split)
  have a: "alike (after_host_call s h) (after_host_call s' h')" if "same_files s s'" for s s'
    using that t h by (simp add: alike_def after_host_call_def)
  have f: "ho_fates h' = ho_fates h" using h by (simp add: alike_def)
  show ?thesis
    using good [OF b] bad [OF b] a by (auto simp: r f split: list.split fate.split)
qed

text \<open>\<open>agree m m'\<close>: alike systems in, the same answer and alike systems out.\<close>

definition agree :: "(host, 'e, 'a) io \<Rightarrow> (host, 'e, 'a) io \<Rightarrow> bool" where
  "agree m m' \<longleftrightarrow> (\<forall>h h'. alike h h' \<longrightarrow> fst (m h) = fst (m' h') \<and> alike (snd (m h)) (snd (m' h')))"

lemma agree_bind:
  assumes "agree m m'" "\<And>a. agree (k a) (k' a)"
  shows "agree (bindE m k) (bindE m' k')"
  unfolding agree_def
proof (intro allI impI)
  fix h h' assume "alike h h'"
  moreover obtain r h1 r' h1' where "m h = (r, h1)" "m' h' = (r', h1')" by (meson surj_pair)
  ultimately show "fst (bindE m k h) = fst (bindE m' k' h') \<and> alike (snd (bindE m k h)) (snd (bindE m' k' h'))"
    using assms by (cases r) (fastforce simp: agree_def bindE_apply)+
qed

lemma agree_map_err: "agree m m' \<Longrightarrow> agree (map_errE f m) (map_errE f m')"
  by (simp add: agree_def)

lemma agree_lift: "agree (liftE r) (liftE r)"
  by (simp add: agree_def)

lemma agree_host_call:
  "(\<And>s s'. same_files s s' \<Longrightarrow> fst (good s) = fst (good' s') \<and> same_files (snd (good s)) (snd (good' s'))) \<Longrightarrow>
   (\<And>n s s'. same_files s s' \<Longrightarrow> same_files (bad n s) (bad' n s')) \<Longrightarrow> agree (host_call good bad) (host_call good' bad')"
  unfolding agree_def by (intro allI impI alike_host_call)

lemma same_files_set_inode:
  "same_files s s' \<Longrightarrow> node_shape x = node_shape x' \<Longrightarrow> same_files (set_inode i x s) (set_inode i x' s')"
  by (simp add: same_files_def set_inode_def)

lemma same_files_append:
  assumes "same_files s s'"
  shows "same_files (case fs_inodes s i of FileNode b m \<Rightarrow> set_inode i (FileNode (b @ c) m) s | _ \<Rightarrow> s)
    (case fs_inodes s' i of FileNode b m \<Rightarrow> set_inode i (FileNode (b @ c') m) s' | _ \<Rightarrow> s')"
proof -
  have "node_shape (fs_inodes s i) = node_shape (fs_inodes s' i)" using assms by (simp add: same_files_def)
  then show ?thesis
    using assms by (auto simp: node_shape_def same_files_set_inode split: node.splits)
qed

lemma agree_write_inode: "agree (write_inode i bs) (write_inode i bs')"
  unfolding write_inode_def Let_def by (rule agree_host_call) (simp_all add: same_files_append)

lemma agree_hard_link: "agree (hard_link k t) (hard_link k t)"
  unfolding hard_link_def by (rule agree_host_call) (auto simp: same_files_def)

lemma agree_unlink: "agree (unlink k) (unlink k)"
  unfolding unlink_def by (rule agree_host_call) (auto simp: same_files_def)

lemma agree_sync: "agree (query_call (\<lambda>_. Inr ())) (query_call (\<lambda>_. Inr ()))"
  unfolding query_call_def by (rule agree_host_call) auto

lemma agree_commit: "agree (pending_commit p bs) (pending_commit p bs')"
proof -
  have "agree (bindE (liftE (ok_or (pd_file p) OutUnwritable)) (\<lambda>i.
      bindE (map_errE (\<lambda>_. OutUnwritable) (write_inode i bs)) (\<lambda>_.
      bindE (map_errE (\<lambda>_. OutUnwritable) (query_call (\<lambda>_. Inr ()))) (\<lambda>_.
      map_errE link_refusal (hard_link (pd_temp p) (pd_target p))))))
    (bindE (liftE (ok_or (pd_file p) OutUnwritable)) (\<lambda>i.
      bindE (map_errE (\<lambda>_. OutUnwritable) (write_inode i bs')) (\<lambda>_.
      bindE (map_errE (\<lambda>_. OutUnwritable) (query_call (\<lambda>_. Inr ()))) (\<lambda>_.
      map_errE link_refusal (hard_link (pd_temp p) (pd_target p))))))"
    by (intro agree_bind agree_lift agree_map_err agree_write_inode agree_sync agree_hard_link)
  then show ?thesis
    using agree_unlink [of "pd_temp p"]
    by (auto simp: agree_def pending_commit_def pending_drop_def Let_def case_prod_beta)
qed

section \<open>What is left of the others\<close>

definition keeps_others :: "((file_system \<Rightarrow> file_system) \<Rightarrow> bool) \<Rightarrow> (host, 'e, 'a) io \<Rightarrow> bool" where
  "keeps_others Q m \<longleftrightarrow> (\<forall>h. list_all Q (ho_others h) \<longrightarrow> list_all Q (ho_others (snd (m h))))"

lemma keeps_host_call: "keeps_others Q (host_call good bad)"
  unfolding keeps_others_def
proof (intro allI impI)
  fix h :: host assume q: "list_all Q (ho_others h)"
  obtain r h' where c: "host_call good bad h = (r, h')" by (cases "host_call good bad h")
  from c show "list_all Q (ho_others (snd (host_call good bad h)))"
    by (rule host_callE) (use q in \<open>cases "ho_others h"; simp add: c\<close>)+
qed

lemma keeps_bind: "keeps_others Q m \<Longrightarrow> (\<And>a. keeps_others Q (k a)) \<Longrightarrow> keeps_others Q (bindE m k)"
  by (fastforce simp: keeps_others_def bindE_apply split: prod.split sum.split)

lemma keeps_map_err: "keeps_others Q m \<Longrightarrow> keeps_others Q (map_errE f m)"
  by (simp add: keeps_others_def)

lemma keeps_lift: "keeps_others Q (liftE r)" "keeps_others Q (retE a)"
  by (simp_all add: keeps_others_def)

lemma keeps_nothing_there: "keeps_others Q (nothing_there p)"
proof -
  have "keeps_others Q (query_call (\<lambda>s. ok_or (at_name s (path_key p)) IoNotFound))"
    unfolding query_call_def by (rule keeps_host_call)
  then show ?thesis
    by (fastforce simp: keeps_others_def nothing_there_def split: prod.split sum.split node.split io_error.split)
qed

lemma keeps_random: "keeps_others Q getrandom_fill"
  by (auto simp: keeps_others_def getrandom_fill_def split: list.split option.split)

lemma keeps_create_private: "keeps_others Q (create_private k)"
proof -
  have "keeps_others Q (open_new k 0x180)"
    unfolding keeps_others_def open_new_def using keeps_host_call [unfolded keeps_others_def] by blast
  moreover have "keeps_others Q (\<lambda>h. case set_permissions i 0x180 h of
       (Inr u, h) \<Rightarrow> (Inr i, h) | (Inl e, h) \<Rightarrow> (Inl OutUnwritable, snd (unlink k h)))" for i
    unfolding keeps_others_def
  proof (intro allI impI)
    fix h :: host assume h: "list_all Q (ho_others h)"
    obtain r h1 where p: "set_permissions i 0x180 h = (r, h1)" by (cases "set_permissions i 0x180 h")
    have "keeps_others Q (set_permissions i 0x180)" "keeps_others Q (unlink k)"
      by (simp_all add: set_permissions_def unlink_def keeps_host_call)
    with h have "list_all Q (ho_others h1)" "list_all Q (ho_others (snd (unlink k h1)))"
      using p by (simp_all add: keeps_others_def) (metis snd_conv)+
    then show "list_all Q (ho_others (snd (case set_permissions i 0x180 h of
       (Inr u, h) \<Rightarrow> (Inr i, h) | (Inl e, h) \<Rightarrow> (Inl OutUnwritable, snd (unlink k h)))))"
      by (simp add: p split: sum.split)
  qed
  ultimately show ?thesis
    unfolding create_private_def by (intro keeps_bind keeps_map_err)
qed

lemma keeps_prepare: "keeps_others Q (out_prepare p)"
proof -
  have k: "keeps_others Q (bindE (create_private t) (\<lambda>i. retE \<lparr>pd_temp = t, pd_file = Some i, pd_target = path_key p\<rparr>))" for t
    by (intro keeps_bind keeps_create_private keeps_lift)
  have "keeps_others Q (\<lambda>h. let temp = (path_directory p, out_temp_name name (ho_pid h) suffix) in
     bindE (create_private temp) (\<lambda>i. retE \<lparr>pd_temp = temp, pd_file = Some i, pd_target = path_key p\<rparr>) h)"
    for name and suffix :: bytes
    unfolding keeps_others_def Let_def using k [unfolded keeps_others_def] by blast
  then show ?thesis
    unfolding out_prepare_def by (intro keeps_bind keeps_nothing_there keeps_lift keeps_random)
qed

section \<open>Reading a value\<close>

lemma on_back_apply: "on_back m w = (map_err failure_of_storage (fst (m (snd w))), fst w, snd (m (snd w)))"
  by (simp add: on_back_def zoomE_apply)

lemma on_host_apply: "on_host m w = (fst (m (fst w)), snd (m (fst w)), snd w)"
  by (simp add: on_host_def zoomE_apply)

lemma cli_mount_of_apply: "\<exists>f. \<forall>h b. cli_mount_of F s (h, b) = (fst (f b), h, snd (f b))"
proof -
  have "\<exists>f. \<forall>h b. on_back m (h, b) = (fst (f b), h, snd (f b))" for m :: "('w, storage_error, backend_ref) io"
    by (rule exI [of _ "map_errE failure_of_storage m"]) (simp add: on_back_apply)
  then show ?thesis unfolding cli_mount_of_def by blast
qed

lemma cli_read_blind:
  assumes o: "list_all oblivious (ho_others h)"
    and r: "cli_read (blind_local L) n m p (h, b) = (r, h1, b1)" and r': "cli_read L n m p (h, b) = (r', h1', b1')"
  shows "r = r' \<and> alike h1 h1' \<and> b1 = b1'"
proof (cases "cli_address n m")
  case (Inl e)
  with r r' o show ?thesis by (simp add: cli_read_def alike_refl)
next
  case a: (Inr a)
  show ?thesis
  proof (cases "the_stack L")
    case (Inl e)
    with r r' o a show ?thesis by (simp add: cli_read_def alike_refl the_stack_blind)
  next
    case (Inr F)
    note simps = cli_read_def a Inr bind_the_stack_blind cli_mount_of_blind fed_storage_blind authorized_blind bindE_apply
      on_host_apply on_back_apply read_or_drop_def
    obtain y h2 where y: "out_prepare p h = (y, h2)" by (cases "out_prepare p h")
    have o2: "list_all oblivious (ho_others h2)"
      using keeps_prepare [of oblivious p] o y by (auto simp: keeps_others_def dest!: spec [of _ h])
    obtain z b2 where z: "st_read (authorized_local (fed_storage F)) (unbound a) b = (z, b2)"
      by (cases "st_read (authorized_local (fed_storage F)) (unbound a) b")
    obtain f where f: "\<And>h b. cli_mount_of F (ad_scope a) (h, b) = (fst (f b), h, snd (f b))"
      using cli_mount_of_apply by metis
    show ?thesis
    proof (cases y)
      case (Inl e)
      with r r' o2 y show ?thesis by (simp add: simps alike_refl del: authorized_local_simps)
    next
      case pending: (Inr q)
      show ?thesis
      proof (cases z)
        case (Inl e)
        have "list_all oblivious (ho_others (pending_drop q h2))"
          using keeps_host_call o2 by (auto simp: pending_drop_def unlink_def keeps_others_def)
        with Inl r r' y z pending show ?thesis by (simp add: simps alike_refl del: authorized_local_simps)
      next
        case (Inr x)
        obtain u h3 where u: "pending_commit q [] h2 = (u, h3)" by (cases "pending_commit q [] h2")
        obtain v h4 where v: "pending_commit q (expose (rv_value x)) h2 = (v, h4)"
          by (cases "pending_commit q (expose (rv_value x)) h2")
        have "v = u \<and> alike h3 h4"
          using agree_commit [of q "[]" "expose (rv_value x)"] alike_refl [OF o2] u v
          by (auto simp: agree_def dest!: spec [of _ h2])
        with r r' y z pending Inr u v f show ?thesis
          by (cases u; cases "fst (f b2)") (auto simp: simps simp del: authorized_local_simps)
      qed
    qed
  qed
qed

section \<open>The end of a command\<close>

definition printed :: "string list \<Rightarrow> string list \<Rightarrow> host \<Rightarrow> host" where
  "printed out err h = h\<lparr>ho_out := ho_out h @ out, ho_err := ho_err h @ err\<rparr>"

lemma println_printed: "println s = printed [s] []"
  by (simp add: println_def printed_def fun_eq_iff)

lemma eprintln_printed: "eprintln s = printed [] [s]"
  by (simp add: eprintln_def printed_def fun_eq_iff)

lemma printed_printed: "printed out' err' (printed out err h) = printed (out @ out') (err @ err') h"
  by (simp add: printed_def)

lemma printed_all: "foldl (\<lambda>h n. printed [] [f n] h) h ns = printed [] (map f ns) h"
  by (induction ns arbitrary: h) (simp_all add: printed_printed, simp add: printed_def)

lemma local_finish_prints: "\<exists>code out err. \<forall>h. local_finish render L name r h = (code, printed out err h)"
proof (cases r)
  case (Inr rep)
  then have "local_finish render L name r h =
      (0, printed [if lo_json L then render (rp_json rep) else rp_text rep] [] h)" for h
    by (simp add: local_finish_def println_printed)
  then show ?thesis by blast
next
  case f: (Inl f)
  show ?thesis
  proof (cases f)
    case (FStorage e detail)
    have "\<exists>err. \<forall>h. local_finish render L name r h = (exit_code e, printed [] err h)"
    proof (cases "lo_json L")
      case True
      then show ?thesis
        by (simp add: f FStorage local_finish_def Let_def eprintln_printed) blast
    next
      case False
      then show ?thesis
        by (simp add: f FStorage local_finish_def Let_def printed_all eprintln_printed printed_printed) blast
    qed
    then show ?thesis by blast
  next
    case (FRefused reason)
    then show ?thesis
      by (simp add: f local_finish_def eprintln_printed) blast
  next
    case (FDenied denial)
    then show ?thesis
      by (simp add: f local_finish_def Let_def eprintln_printed) blast
  qed
qed

lemma local_finish_blind: "local_finish render (blind_local L) = local_finish render L"
proof -
  have "lo_json (blind_local L) = lo_json L" "local_notes (blind_local L) = local_notes L"
    by (cases "lo_stack L"; simp add: local_notes_def blind_local_def)+
  then show ?thesis by (intro ext) (simp only: local_finish_def)
qed

lemma run_blind:
  assumes c: "run_local L c = Some run" "run_local (blind_local L) c = Some blind"
    and w: "run w = (r, w1)" "blind w = (r', w1')" and o: "list_all oblivious (ho_others (fst w))"
  shows "r' = r \<and> snd w1' = snd w1 \<and> ho_out (fst w1') = ho_out (fst w1) \<and> ho_err (fst w1') = ho_err (fst w1) \<and>
    fs_names (ho_fs (fst w1')) = fs_names (ho_fs (fst w1))"
proof (cases "\<exists>n m p. c = CRead n m p")
  case True
  then obtain n m p where "c = CRead n m p" by blast
  then have "cli_read L m n p (fst w, snd w) = (r, fst w1, snd w1)"
    "cli_read (blind_local L) m n p (fst w, snd w) = (r', fst w1', snd w1')"
    using c w by auto
  from cli_read_blind [OF o this(2,1)] show ?thesis
    by (simp add: alike_def same_files_def)
next
  case False
  then have "run_local (blind_local L) c = run_local L c" by (intro run_local_blind) blast
  with c w show ?thesis by simp
qed

end
