(* ===== verification/Cli_Stack.thy ===== *)
theory Cli_Stack
  imports Cli_Blind
begin

text \<open>
  Whole commands over a stack that keeps the contract of the storage port: where no call of the
  operating system fails, what \<open>put\<close> stores is what \<open>read\<close> writes.
\<close>

section \<open>An operating system where nothing goes wrong\<close>

definition calm :: "host \<Rightarrow> bool" where
  "calm h \<longleftrightarrow> ho_fates h = [] \<and> ho_others h = []"

lemma host_call_calm:
  "calm h \<Longrightarrow> host_call good bad h = (fst (good (ho_fs h)), after_host_call (snd (good (ho_fs h))) h)"
  by (simp add: calm_def host_call_def after_host_call_def before_call_def case_prod_beta Let_def)

lemma calm_after [simp]: "calm h \<Longrightarrow> calm (after_host_call s h)"
  by (simp add: calm_def after_host_call_def)

lemma after_host_call_pid [simp]:
  "ho_random (after_host_call s h) = ho_random h" "ho_pid (after_host_call s h) = ho_pid h"
  by (simp_all add: after_host_call_def)

lemma query_calm: "calm h \<Longrightarrow> query_call q h = (q (ho_fs h), after_host_call (ho_fs h) h)"
  by (simp add: query_call_def host_call_calm)

lemma nothing_there_calm:
  "calm h \<Longrightarrow> fs_names (ho_fs h) (path_key p) = None \<Longrightarrow> nothing_there p h = (Inr (), after_host_call (ho_fs h) h)"
  by (simp add: nothing_there_def query_calm at_name_def)

lemma create_private_calm:
  assumes "calm h" "fs_names (ho_fs h) k = None"
  shows "\<exists>h'. create_private k h = (Inr (fs_next (ho_fs h)), h') \<and> calm h' \<and>
    fs_names (ho_fs h') = (fs_names (ho_fs h))(k \<mapsto> fs_next (ho_fs h)) \<and>
    fs_inodes (ho_fs h') = (fs_inodes (ho_fs h))(fs_next (ho_fs h) := FileNode [] 0x180)"
  using assms
  by (simp add: create_private_def open_new_def set_permissions_def host_call_calm bindE_apply set_inode_def)

lemma commit_calm:
  assumes "calm h" "pd_file p = Some i" "fs_names (ho_fs h) (pd_temp p) = Some i" "fs_inodes (ho_fs h) i = FileNode [] m"
    and "fs_names (ho_fs h) (pd_target p) = None" "pd_temp p \<noteq> pd_target p"
  shows "\<exists>h'. pending_commit p bs h = (Inr (), h') \<and>
    fs_names (ho_fs h') = (fs_names (ho_fs h))(pd_target p \<mapsto> i, pd_temp p := None) \<and>
    fs_inodes (ho_fs h') = (fs_inodes (ho_fs h))(i := FileNode bs m)"
  using assms
  by (auto simp: pending_commit_def write_inode_def hard_link_def pending_drop_def unlink_def host_call_calm query_calm
      bindE_apply set_inode_def Let_def)

text \<open>A path that \<open>read\<close> can write to: it has a last part, and neither it nor the temporary file is there.\<close>

definition writable_path :: "os_path \<Rightarrow> host \<Rightarrow> bool" where
  "writable_path p h \<longleftrightarrow> calm h \<and> (\<exists>name suffix. op_name p = Some name \<and> hd (ho_random h) = Some suffix \<and> ho_random h \<noteq> [] \<and>
     fs_names (ho_fs h) (path_key p) = None \<and>
     fs_names (ho_fs h) (path_directory p, out_temp_name name (ho_pid h) suffix) = None)"

lemma out_calm:
  assumes "writable_path p h"
  shows "\<exists>q h1. out_prepare p h = (Inr q, h1) \<and> (\<forall>bs. \<exists>h2. pending_commit q bs h1 = (Inr (), h2) \<and>
    fs_names (ho_fs h2) = (fs_names (ho_fs h))(path_key p \<mapsto> fs_next (ho_fs h)) \<and>
    fs_inodes (ho_fs h2) = (fs_inodes (ho_fs h))(fs_next (ho_fs h) := FileNode bs 0x180))"
proof -
  from assms obtain name suffix rs where n: "calm h" "op_name p = Some name" "ho_random h = Some suffix # rs"
      "fs_names (ho_fs h) (path_key p) = None"
    and t: "fs_names (ho_fs h) (path_directory p, out_temp_name name (ho_pid h) suffix) = None"
    by (cases "ho_random h") (auto simp: writable_path_def)
  let ?k = "(path_directory p, out_temp_name name (ho_pid h) suffix)"
  let ?i = "fs_next (ho_fs h)"
  let ?h = "(after_host_call (ho_fs h) h)\<lparr>ho_random := rs\<rparr>"
  let ?q = "\<lparr>pd_temp = ?k, pd_file = Some ?i, pd_target = path_key p\<rparr>"
  have c: "calm ?h" using n(1) by (simp add: calm_def after_host_call_def)
  from create_private_calm [OF c, of ?k] t obtain h1 where h1: "create_private ?k ?h = (Inr ?i, h1)" "calm h1"
    "fs_names (ho_fs h1) = (fs_names (ho_fs h))(?k \<mapsto> ?i)" "fs_inodes (ho_fs h1) = (fs_inodes (ho_fs h))(?i := FileNode [] 0x180)"
    by auto
  have "out_prepare p h = (Inr ?q, h1)"
    using n h1(1) by (simp add: out_prepare_def nothing_there_calm bindE_apply getrandom_fill_def Let_def)
  moreover have ne: "?k \<noteq> path_key p"
    using out_temp_name_longer [of name "ho_pid h" suffix] by (auto simp: path_key_def n(2))
  have "\<exists>h2. pending_commit ?q bs h1 = (Inr (), h2) \<and> fs_names (ho_fs h2) = (fs_names (ho_fs h))(path_key p \<mapsto> ?i) \<and>
      fs_inodes (ho_fs h2) = (fs_inodes (ho_fs h))(?i := FileNode bs 0x180)" for bs
    using commit_calm [of h1 ?q ?i "0x180" bs] h1 ne n(4) t by (fastforce simp: fun_upd_twist)
  ultimately show ?thesis by blast
qed

section \<open>Commands over any stack that keeps its contracts\<close>

lemma cli_address_Inr:
  "cli_address ns n = Inr a \<Longrightarrow> wf_address a \<and> sc_tenant (ad_scope a) = default_name \<and> sc_user (ad_scope a) = default_name"
  by (cases "sc_tenant (ad_scope a)"; cases "sc_user (ad_scope a)")
    (auto simp: cli_address_def address_parse_ok map_err_eq_Inr default_name_def)

context federation begin

lemma local_request_kept:
  assumes "fok w" "fserves w q" "local_request q" "perform (authorized_local (fed_storage F)) q w = (r, w')"
  shows "storage_spec (fholds w) q r (fholds w') \<and> fok w' \<and> mounts w' = mounts w"
proof -
  have s: "storage_spec (fholds w) q r (fholds w') \<and> fok w'"
    by (rule storage_refines.simulates [OF authorized_local_refines [OF federation_refines] assms(1) _ assms(4)])
      (use assms in blast)
  have "inv w" "up w" using assms(1) by (simp_all add: fok_def)
  from perform_unmoved [OF this, of q] assms(3,4) s show ?thesis by (simp add: perform_authorized_local)
qed

lemma cli_mount_of_kept:
  assumes "fok w" "fserves w q" "request_scope q = s"
  shows "\<exists>b. cli_mount_of F s (h, w) = (Inr b, h, w)"
proof -
  have "inv w" "up w" using assms(1) by (simp_all add: fok_def)
  note n = get_namespace [OF this, folded config]
  from assms(2,3) obtain m where "mounts w (namespace_key_of s) = Some m" by (auto simp: fserves_def mount_of_def)
  with n [of "namespace_key_of s"] show ?thesis
    by (simp add: cli_mount_of_def on_back_apply bindE_apply namespace_key_of_def)
qed

lemma fserves_same: "mounts w' = mounts w \<Longrightarrow> unbound_names w' q \<Longrightarrow> fserves w q \<Longrightarrow> fserves w' q"
  by (auto simp: fserves_def mount_of_def)

lemma cli_put_kept:
  assumes L: "the_stack L = Inr F" and w: "fok w" and a: "cli_address (pa_namespace args) (pa_name args) = Inr a"
    and serves: "fserves w (WriteReq a (SecretValue bytes))"
    and args: "pa_value args = None" "pa_value_flag args = None"
    and src: "read_value (pa_file args) (pa_raw args) (''Value for '' @ name_str (ad_name a) @ '': '') max_value_bytes h = (Inr bytes, h1)"
      "length bytes \<le> max_value_bytes"
  shows "\<exists>rep w' ver. cli_put L args (h, w) = (Inr rep, h1, w') \<and> fok w' \<and>
    fholds w' = (fholds w)(a \<mapsto> (SecretValue bytes, ver)) \<and> mounts w' = mounts w"
proof -
  let ?S = "authorized_local (fed_storage F)" and ?q = "WriteReq a (SecretValue bytes)"
  obtain z w' where z: "st_write ?S (unbound a) (SecretValue bytes) w = (z, w')"
    by (cases "st_write ?S (unbound a) (SecretValue bytes) w")
  then have p: "perform ?S ?q w = (WriteAns z, w')" by (simp del: authorized_local_simps)
  have "local_request ?q" using cli_address_Inr [OF a] by (simp add: local_request_def)
  from local_request_kept [OF w serves this p] have
    k: "storage_spec (fholds w) ?q (WriteAns z) (fholds w')" "fok w'" "mounts w' = mounts w" by simp_all
  from k(1) obtain ver written where v: "z = Inr written" "fholds w' = (fholds w)(a \<mapsto> (SecretValue bytes, ver))"
    by (auto elim: spec_writeE)
  obtain b where m: "cli_mount_of F (ad_scope a) (h1, w') = (Inr b, h1, w')"
    using cli_mount_of_kept [OF k(2) fserves_same [OF k(3) _ serves], of "ad_scope a" h1] by auto
  have "\<exists>rep. cli_put L args (h, w) = (Inr rep, h1, w')"
    using src z v(1) m a L
    by (cases written)
      (simp_all add: cli_put_def args bindE_apply on_host_apply on_back_apply secret_value_new_def del: authorized_local_simps)
  with k v show ?thesis by blast
qed

lemma cli_read_kept:
  assumes L: "the_stack L = Inr F" and w: "fok w" and a: "cli_address ns n = Inr a"
    and serves: "fserves w (ReadReq a)"
    and held: "fholds w a = Some (v, ver)" and out: "writable_path out h"
  shows "\<exists>rep h' w'. cli_read L ns n out (h, w) = (Inr rep, h', w') \<and> fok w' \<and> fholds w' = fholds w \<and>
    fs_names (ho_fs h') = (fs_names (ho_fs h))(path_key out \<mapsto> fs_next (ho_fs h)) \<and>
    fs_inodes (ho_fs h') = (fs_inodes (ho_fs h))(fs_next (ho_fs h) := FileNode (expose v) 0x180)"
proof -
  let ?S = "authorized_local (fed_storage F)"
  obtain z w' where z: "st_read ?S (unbound a) w = (z, w')" by (cases "st_read ?S (unbound a) w")
  then have p: "perform ?S (ReadReq a) w = (ReadAns z, w')" by (simp del: authorized_local_simps)
  have "local_request (ReadReq a)" using cli_address_Inr [OF a] by (simp add: local_request_def)
  from local_request_kept [OF w serves this p] have
    k: "storage_spec (fholds w) (ReadReq a) (ReadAns z) (fholds w')" "fok w'" "mounts w' = mounts w" by simp_all
  from k(1) have v: "z = Inr \<lparr>rv_value = v, rv_version = Some ver\<rparr>" "fholds w' = fholds w"
    using held by (auto elim: spec_readE)
  from out_calm [OF out] obtain q h1 h2 where o: "out_prepare out h = (Inr q, h1)" "pending_commit q (expose v) h1 = (Inr (), h2)"
    "fs_names (ho_fs h2) = (fs_names (ho_fs h))(path_key out \<mapsto> fs_next (ho_fs h))"
    "fs_inodes (ho_fs h2) = (fs_inodes (ho_fs h))(fs_next (ho_fs h) := FileNode (expose v) 0x180)" by metis
  obtain b where m: "cli_mount_of F (ad_scope a) (h2, w') = (Inr b, h2, w')"
    using cli_mount_of_kept [OF k(2) fserves_same [OF k(3) _ serves], of "ad_scope a" h2] by auto
  have "\<exists>rep. cli_read L ns n out (h, w) = (Inr rep, h2, w')"
    using o(1,2) z v(1) m a L
    by (simp add: cli_read_def bindE_apply on_host_apply on_back_apply read_or_drop_def del: authorized_local_simps)
  with k v o show ?thesis by blast
qed

text \<open>Put, then read: where nothing else is done to the world between the two.\<close>

lemma put_then_read_kept:
  assumes "the_stack L = Inr F" "fok w" "cli_address (pa_namespace args) (pa_name args) = Inr a"
    and "fserves w (WriteReq a (SecretValue bytes))" "fserves w (ReadReq a)"
    and "pa_value args = None" "pa_value_flag args = None"
    and "read_value (pa_file args) (pa_raw args) (''Value for '' @ name_str (ad_name a) @ '': '') max_value_bytes h = (Inr bytes, h1)"
    and "length bytes \<le> max_value_bytes" "writable_path out h2"
  shows "\<exists>rep w1 rep' h3 w2. cli_put L args (h, w) = (Inr rep, h1, w1) \<and>
    cli_read L (pa_namespace args) (pa_name args) out (h2, w1) = (Inr rep', h3, w2) \<and>
    fs_names (ho_fs h3) = (fs_names (ho_fs h2))(path_key out \<mapsto> fs_next (ho_fs h2)) \<and>
    at_name (ho_fs h3) (path_key out) = Some (FileNode bytes 0x180)"
proof -
  from cli_put_kept [OF assms(1-4,6-9)] obtain rep w1 ver where
    p: "cli_put L args (h, w) = (Inr rep, h1, w1)" "fok w1" "fholds w1 = (fholds w)(a \<mapsto> (SecretValue bytes, ver))"
      "mounts w1 = mounts w"
    by blast
  have "fserves w1 (ReadReq a)" "fholds w1 a = Some (SecretValue bytes, ver)"
    using fserves_same [OF p(4) _ assms(5)] p(3) by simp_all
  from cli_read_kept [OF assms(1) p(2) assms(3) this assms(10)] p(1) show ?thesis
    by (fastforce simp: at_name_def)
qed

end

section \<open>The stack of the examples\<close>

definition stack_local :: "bool \<Rightarrow> (backend_ref \<Rightarrow> mode) \<Rightarrow> backend_ref list \<Rightarrow> stack local" where
  "stack_local json modes bs = \<lparr>lo_json = json,
     lo_stack = Some \<lparr>sk_storage = stack_federation modes bs, sk_notes = []\<rparr>, lo_trouble = []\<rparr>"

lemma the_stack_local [simp]: "the_stack (stack_local json modes bs) = Inr (stack_federation modes bs)"
  by (simp add: the_stack_def stack_local_def)

definition writable_mount :: "(backend_ref \<Rightarrow> mode) \<Rightarrow> backend_ref list \<Rightarrow> stack \<Rightarrow> scope \<Rightarrow> bool" where
  "writable_mount modes bs w s \<longleftrightarrow> (\<exists>b. stack_mount w s = Some b \<and> b \<in> set bs \<and> modes b = ReadWrite)"

lemma stack_serves_local:
  assumes "cli_address ns n = Inr a" "writable_mount modes bs w (ad_scope a)"
  shows "fd.fserves modes bs w (ReadReq a)" "length bytes \<le> max_value_bytes \<Longrightarrow> fd.fserves modes bs w (WriteReq a (SecretValue bytes))"
proof -
  have "wf_address a" "local_request (ReadReq a)" "local_request (WriteReq a v)" for v
    using cli_address_Inr [OF assms(1)] by (simp_all add: local_request_def)
  with assms(2) have "stack_serves modes bs w (ReadReq a)"
    "length bytes \<le> max_value_bytes \<Longrightarrow> stack_serves modes bs w (WriteReq a (SecretValue bytes))"
    by (auto simp: stack_serves_def wf_request_def wf_value_def writable_mount_def)
  with stack_serves_fd show "fd.fserves modes bs w (ReadReq a)"
    "length bytes \<le> max_value_bytes \<Longrightarrow> fd.fserves modes bs w (WriteReq a (SecretValue bytes))" by blast+
qed

lemma cli_put_stack:
  assumes "stack_ok bs w" "cli_address (pa_namespace args) (pa_name args) = Inr a" "writable_mount modes bs w (ad_scope a)"
    and args: "pa_value args = None" "pa_value_flag args = None"
    and src: "read_value (pa_file args) (pa_raw args) (''Value for '' @ name_str (ad_name a) @ '': '') max_value_bytes h = (Inr bytes, h1)"
      "length bytes \<le> max_value_bytes"
  shows "\<exists>rep w' ver. cli_put (stack_local json modes bs) args (h, w) = (Inr rep, h1, w') \<and> stack_ok bs w' \<and>
    stack_holds bs w' = (stack_holds bs w)(a \<mapsto> (SecretValue bytes, ver)) \<and> stack_mount w' = stack_mount w"
proof -
  from fd.cli_put_kept [OF the_stack_local _ assms(2) stack_serves_local(2) [OF assms(2,3) src(2)] args src, of json] assms(1)
  obtain rep w' ver where p: "cli_put (stack_local json modes bs) args (h, w) = (Inr rep, h1, w')" "stack_ok bs w'"
    "stack_holds bs w' = (stack_holds bs w)(a \<mapsto> (SecretValue bytes, ver))" "mc_mounts (fst w') = mc_mounts (fst w)"
    unfolding stack_ok_iff [where modes = modes] stack_holds_eq [where modes = modes] by blast
  from p(4) have "stack_mount w' = stack_mount w" by (simp add: stack_mount_def fun_eq_iff)
  with p show ?thesis by blast
qed

lemma cli_read_stack:
  assumes "stack_ok bs w" "cli_address ns n = Inr a" "writable_mount modes bs w (ad_scope a)"
    and held: "stack_holds bs w a = Some (v, ver)" and out: "writable_path out h"
  shows "\<exists>rep h' w'. cli_read (stack_local json modes bs) ns n out (h, w) = (Inr rep, h', w') \<and> stack_ok bs w' \<and>
    stack_holds bs w' = stack_holds bs w \<and>
    fs_names (ho_fs h') = (fs_names (ho_fs h))(path_key out \<mapsto> fs_next (ho_fs h)) \<and>
    fs_inodes (ho_fs h') = (fs_inodes (ho_fs h))(fs_next (ho_fs h) := FileNode (expose v) 0x180)"
  using fd.cli_read_kept [OF the_stack_local [of json] _ assms(2) stack_serves_local(1) [OF assms(2,3)] _ out] assms(1) held
  unfolding stack_ok_iff [where modes = modes] stack_holds_eq [where modes = modes] by blast

section \<open>Property\<close>

text \<open>
  C13: what is put is what is read. Over any stack whose configuration store keeps \<open>config_contract\<close> and
  whose backends keep the storage contract, for an address whose namespace is mounted on a registered
  backend that can be read and written without a binding: a \<open>put\<close> that got its value answers with success
  and stores it; a later \<open>read\<close> of the same name, with nothing done to the stack in between and no call of
  the operating system failing, answers with success and leaves the file named, which was not there, with
  exactly the bytes of the value, readable by its owner only, and no other name.
\<close>

theorem put_then_read:
  assumes "federation C ok up mounts bound rest F bok bserves bholds" "the_stack L = Inr F"
    and "ok w" "up w" "\<forall>b \<in> dom (map_of (fed_backends F)). bok b (rest w)"
    and "cli_address (pa_namespace args) (pa_name args) = Inr a"
    and "mounts w (namespace_key_of (ad_scope a)) = Some m" "backend = (case m of None \<Rightarrow> default_mount | Some b \<Rightarrow> b)"
    and "map_of (fed_backends F) backend = Some S" "\<not> requires_binding S" "{CapRead, CapWrite} \<subseteq> set (capabilities S)"
    and "bserves backend (WriteReq a (SecretValue bytes))" "bserves backend (ReadReq a)"
    and "pa_value args = None" "pa_value_flag args = None"
    and "read_value (pa_file args) (pa_raw args) (''Value for '' @ name_str (ad_name a) @ '': '') max_value_bytes h = (Inr bytes, h1)"
    and "length bytes \<le> max_value_bytes" "writable_path out h2"
  shows "\<exists>rep w1 rep' h3 w2. cli_put L args (h, w) = (Inr rep, h1, w1) \<and>
    cli_read L (pa_namespace args) (pa_name args) out (h2, w1) = (Inr rep', h3, w2) \<and>
    fs_names (ho_fs h3) = (fs_names (ho_fs h2))(path_key out \<mapsto> fs_next (ho_fs h2)) \<and>
    at_name (ho_fs h3) (path_key out) = Some (FileNode bytes 0x180)"
proof -
  note fed = federation.fok_def [OF assms(1)] federation.fserves_def [OF assms(1)] federation.mount_of_def [OF assms(1)]
    federation.needs.simps [OF assms(1)] federation.unbound_names.simps [OF assms(1)]
  have "federation.fok ok up rest F bok w" using assms(3-5) by (simp add: fed dom_def)
  moreover have "federation.fserves mounts bound F bserves w (WriteReq a (SecretValue bytes))"
    "federation.fserves mounts bound F bserves w (ReadReq a)"
    using assms(7-13) by (simp_all add: fed)
  ultimately show ?thesis
    using federation.put_then_read_kept [OF assms(1,2) _ assms(6) _ _ assms(14-18)] by blast
qed

definition example_put_args :: put_args where
  "example_put_args = \<lparr>pa_name = ''db/password'', pa_namespace = default_text, pa_file = None, pa_raw = False, pa_value = None, pa_value_flag = None\<rparr>"

lemma example_cli_address: "cli_address default_text ''db/password'' = Inr example_address"
proof -
  have "address_parse default_text default_text default_text ''db/password'' =
      Inr \<lparr>ad_scope = local_scope, ad_name = SecretName ''db/password''\<rparr>" by code_simp
  then show ?thesis by (simp add: cli_address_def example_address_def)
qed

definition example_world :: stack where
  "example_world = (mem_local, \<lambda>_. recording_new)"

lemma example_stack:
  "stack_ok [default_mount] example_world"
  "writable_mount (\<lambda>_. ReadWrite) [default_mount] example_world (ad_scope example_address)"
  by (simp_all add: example_world_def stack_ok_def rb_ok_new writable_mount_def stack_mount_def example_address_def
      local_scope_def namespace_key_of_def local_default_def)

lemma example_calm: "calm empty_host"
  by (simp add: calm_def empty_host_def)

lemma example_source:
  "\<exists>h1. read_value (pa_file example_put_args) (pa_raw example_put_args) (''Value for '' @ name_str (ad_name example_address) @ '': '')
     max_value_bytes empty_host = (Inr [104], h1)"
proof -
  have "\<not> si_terminal (ho_stdin empty_host)" "stdin_is_pipe empty_host" "si_bytes (ho_stdin empty_host) = [104, 10]"
    by (simp_all add: stdin_is_pipe_def empty_host_def)
  then show ?thesis
    by (simp add: read_value_def example_put_args_def bounded_def bindE_apply query_calm [OF example_calm] read_bound_def
        max_value_bytes_def trim_newline_def)
qed

lemma example_out_path:
  "writable_path example_out empty_host" "path_key example_out = (''out'', ''v'')"
  using example_calm by (simp_all add: writable_path_def path_key_def path_directory_def example_out_def)
    (simp add: empty_host_def)

end
