(* ===== verification/Cli_Answers.thy ===== *)
theory Cli_Answers
  imports Cli_Opening Cli_Stack
begin

text \<open>
  The answer of a command: what it reports, printed once on stdout with exit code 0, or its failure on
  stderr, with notes after it and an exit code that says which failure it was. Nothing else the program
  does prints.
\<close>

section \<open>Nothing is printed on the way\<close>

definition silent :: "(host, 'e, 'a) io \<Rightarrow> bool" where
  "silent m \<longleftrightarrow> (\<forall>h. ho_out (snd (m h)) = ho_out h \<and> ho_err (snd (m h)) = ho_err h)"

lemma silent_host_call: "silent (host_call good bad)"
  unfolding silent_def
proof (intro allI)
  fix h :: host
  obtain r h' where c: "host_call good bad h = (r, h')" by (cases "host_call good bad h")
  then show "ho_out (snd (host_call good bad h)) = ho_out h \<and> ho_err (snd (host_call good bad h)) = ho_err h"
    by (rule host_callE) (simp_all add: c after_host_call_def)
qed

lemma silent_bind: "silent m \<Longrightarrow> (\<And>a. silent (k a)) \<Longrightarrow> silent (bindE m k)"
  by (auto simp: silent_def bindE_apply split: prod.split sum.split) (metis snd_conv)+

lemma silent_intros:
  "silent (retE a)" "silent (failE e)" "silent (liftE r)" "silent m \<Longrightarrow> silent (map_errE f m)"
  "silent (query_call q)" "silent (open_new k mode)" "silent (set_permissions i mode)" "silent (unlink k)"
  "silent (write_inode i bs)" "silent (hard_link k t)" "silent getrandom_fill"
  using silent_host_call
  by (auto simp: silent_def query_call_def open_new_def set_permissions_def unlink_def write_inode_def hard_link_def
      getrandom_fill_def Let_def split: list.split option.split)

lemma silent_out:
  "silent (create_private k)" "silent (nothing_there p)" "silent (out_prepare p)" "silent (pending_commit q bs)"
  "ho_out (pending_drop q h) = ho_out h" "ho_err (pending_drop q h) = ho_err h"
proof -
  have step: "silent m \<Longrightarrow> m h = (r, h') \<Longrightarrow> ho_out h' = ho_out h \<and> ho_err h' = ho_err h" for m :: "(host, 'e, 'a) io" and h r h'
    by (auto simp: silent_def dest!: spec [of _ h])
  show d: "ho_out (pending_drop q h) = ho_out h" "ho_err (pending_drop q h) = ho_err h" for h q
    using silent_intros(8) [of "pd_temp q"] by (simp_all add: pending_drop_def silent_def)
  have both: "silent (\<lambda>h. case m h of (Inr u, h) \<Rightarrow> (Inr i, h) | (Inl e, h) \<Rightarrow> (Inl x, snd (m' h)))"
    if "silent m" "silent m'" for m m' :: "(host, io_error, unit) io" and i :: nat and x :: out_refusal
    unfolding silent_def
  proof (intro allI)
    fix h :: host
    obtain r h1 where "m h = (r, h1)" by (cases "m h")
    with step [OF that(1) this] that(2)
    show "ho_out (snd (case m h of (Inr u, h) \<Rightarrow> (Inr i, h) | (Inl e, h) \<Rightarrow> (Inl x, snd (m' h)))) = ho_out h \<and>
      ho_err (snd (case m h of (Inr u, h) \<Rightarrow> (Inr i, h) | (Inl e, h) \<Rightarrow> (Inl x, snd (m' h)))) = ho_err h"
      by (cases r) (simp_all add: silent_def)
  qed
  show c: "silent (create_private k)" for k
    unfolding create_private_def by (intro silent_bind silent_intros both)
  show n: "silent (nothing_there p)"
    by (auto simp: silent_def nothing_there_def split: prod.split sum.split node.split io_error.split
        dest: step [OF silent_intros(5)])
  have k: "silent (bindE (create_private k) (\<lambda>i. retE \<lparr>pd_temp = k, pd_file = Some i, pd_target = t\<rparr>))" for k t
    by (intro silent_bind silent_intros c)
  have t: "silent (\<lambda>h. bindE (create_private (d, out_temp_name name (ho_pid h) suffix)) (\<lambda>i.
      retE \<lparr>pd_temp = (d, out_temp_name name (ho_pid h) suffix), pd_file = Some i, pd_target = t\<rparr>) h)" for d name suffix t
    unfolding silent_def using k [unfolded silent_def] by blast
  show "silent (out_prepare p)"
    unfolding out_prepare_def Let_def by (intro silent_bind silent_intros n t)
  have "silent (bindE (liftE (ok_or (pd_file q) OutUnwritable)) (\<lambda>i.
        bindE (map_errE (\<lambda>_. OutUnwritable) (write_inode i bs)) (\<lambda>_.
        bindE (map_errE (\<lambda>_. OutUnwritable) (query_call (\<lambda>_. Inr ()))) (\<lambda>_.
        map_errE link_refusal (hard_link (pd_temp q) (pd_target q))))))"
    by (intro silent_bind silent_intros)
  then show "silent (pending_commit q bs)"
    by (simp add: silent_def pending_commit_def d Let_def case_prod_beta)
qed

lemma silent_values: "silent (read_protected p limit)" "silent (read_value file raw prompt limit)"
proof -
  have b: "silent (bounded content limit)" for content
    unfolding bounded_def by (intro silent_intros)
  have k: "silent (case m of FileNode _ mode \<Rightarrow> if mode AND 0x3F \<noteq> 0 then failE ValExposed
      else bounded content limit | _ \<Rightarrow> failE ValNotAFile)" for m content
    by (cases m) (simp_all add: b silent_intros)
  show p: "silent (read_protected p limit)" for p
    unfolding read_protected_def by (intro silent_bind silent_intros k)
  have "silent (bindE (read_protected p limit) (\<lambda>bs. retE (f bs)))" "silent (bindE (bounded content limit) (\<lambda>bs. retE (f bs)))"
    for p content and f :: "bytes \<Rightarrow> bytes"
    by (intro silent_bind silent_intros p b)+
  then show "silent (read_value file raw prompt limit)"
    by (auto simp: silent_def read_value_def Let_def split: option.split)
qed

section \<open>Commands\<close>

definition silent_pair :: "(host \<times> 'w, 'e, 'a) io \<Rightarrow> bool" where
  "silent_pair m \<longleftrightarrow> (\<forall>w. ho_out (fst (snd (m w))) = ho_out (fst w) \<and> ho_err (fst (snd (m w))) = ho_err (fst w))"

lemma silent_pairD:
  "silent_pair m \<Longrightarrow> m w = (r, w') \<Longrightarrow> ho_out (fst w') = ho_out (fst w) \<and> ho_err (fst w') = ho_err (fst w)"
  unfolding silent_pair_def by (drule spec [of _ w]) simp

lemma silent_pairI:
  "(\<And>w r w'. m w = (r, w') \<Longrightarrow> ho_out (fst w') = ho_out (fst w) \<and> ho_err (fst w') = ho_err (fst w)) \<Longrightarrow> silent_pair m"
  unfolding silent_pair_def by (intro allI) (metis prod.collapse)

lemma silent_pair_bind:
  assumes m: "silent_pair m" and k: "\<And>a. silent_pair (k a)"
  shows "silent_pair (bindE m k)"
proof (rule silent_pairI)
  fix w r w' assume b: "bindE m k w = (r, w')"
  obtain x w1 where x: "m w = (x, w1)" by (cases "m w")
  note m = silent_pairD [OF m x]
  show "ho_out (fst w') = ho_out (fst w) \<and> ho_err (fst w') = ho_err (fst w)"
  proof (cases x)
    case (Inl e)
    with b x m show ?thesis by simp
  next
    case (Inr a)
    with b x have "k a w1 = (r, w')" by simp
    from silent_pairD [OF k this] m show ?thesis by simp
  qed
qed

lemma silent_pair_intros:
  "silent_pair (retE a)" "silent_pair (failE e)" "silent_pair (liftE r)"
  "silent_pair n \<Longrightarrow> silent_pair (map_errE f n)" "silent_pair (on_back m)" "silent_pair (cli_mount_of F s)"
  "silent m' \<Longrightarrow> silent_pair (on_host m')"
  by (simp_all add: silent_pair_def cli_mount_of_def on_back_apply on_host_apply silent_def)

lemma silent_read_or_drop:
  assumes "silent_pair m"
  shows "silent_pair (read_or_drop p m)"
proof (rule silent_pairI)
  fix w r w' assume b: "read_or_drop p m w = (r, w')"
  obtain x w1 where x: "m w = (x, w1)" by (cases "m w")
  from silent_pairD [OF assms x] b x
  show "ho_out (fst w') = ho_out (fst w) \<and> ho_err (fst w') = ho_err (fst w)"
    by (cases x; cases w1) (auto simp: read_or_drop_def silent_out)
qed

lemma silent_list_scopes: "silent_pair (list_scopes F ss jsons ls)"
proof (induction ss arbitrary: jsons ls)
  case (Cons s ss)
  then show ?case
    unfolding list_scopes.simps by (intro silent_pair_bind silent_pair_intros)
qed (simp add: silent_pair_intros)

lemma silent_if: "silent_pair m \<Longrightarrow> silent_pair m' \<Longrightarrow> silent_pair (if b then m else m')"
  by simp

lemma silent_prod: "(\<And>a b. silent_pair (m a b)) \<Longrightarrow> silent_pair (case x of (a, b) \<Rightarrow> m a b)"
  by (cases x) simp

lemma run_local_silent: "run_local L c = Some run \<Longrightarrow> silent_pair run"
proof -
  note ops = cli_put_def cli_read_def cli_describe_def cli_list_def cli_delete_def cli_rename_def cli_namespace_add_def
    cli_namespace_list_def cli_namespace_remove_def cli_mount_set_def cli_bind_def cli_unbind_def
  assume "run_local L c = Some run"
  then show "silent_pair run"
    by (cases c rule: decision.cases; hypsubst; unfold run_local.simps option.inject ops Let_def; hypsubst)
      (intro silent_pair_bind silent_pair_intros silent_values silent_out silent_read_or_drop silent_list_scopes
        silent_if silent_prod | simp)+
qed

section \<open>Opening\<close>

lemma silent_remote_client: "silent (remote_client E label entry)"
proof -
  have "silent (token_of E label entry)"
    unfolding token_of_def
    by (cases "re_token_env entry"; cases "re_token_file entry")
      (simp_all add: silent_intros silent_bind silent_values del: map_errE_apply)
  then show ?thesis
    unfolding remote_client_def by (intro silent_bind silent_intros)
qed

lemma mount_remotes_silent:
  "ho_out (snd (mount_remotes E table l h)) = ho_out h \<and> ho_err (snd (mount_remotes E table l h)) = ho_err h"
proof (induction E table l h rule: mount_remotes.induct)
  case (2 E label entry rest l h)
  have "silent (remote_client E label entry)" by (rule silent_remote_client)
  then have s: "remote_client E label entry h = (r, h') \<Longrightarrow> ho_out h' = ho_out h \<and> ho_err h' = ho_err h" for r h'
    by (auto simp: silent_def dest!: spec [of _ h])
  show ?case
    using 2 by (auto split: option.split prod.split sum.split dest: s)
qed simp

lemma local_open_silent:
  "local_open E json w = (L, w') \<Longrightarrow> ho_out (fst w') = ho_out (fst w) \<and> ho_err (fst w') = ho_err (fst w)"
proof -
  have l: "ho_out (fst (snd (load_backends E path w))) = ho_out (fst w) \<and> ho_err (fst (snd (load_backends E path w))) = ho_err (fst w)"
    for path by (cases w) (simp add: load_backends_def Let_def case_prod_beta mount_remotes_silent)
  assume "local_open E json w = (L, w')"
  then have "w' = w \<or> (\<exists>path. w' = snd (load_backends E path w))"
    by (auto simp: local_open_def Let_def case_prod_beta split: option.splits sum.splits)
  with l show ?thesis by auto
qed

lemma local_open_json: "lo_json (fst (local_open E json w)) = json"
  by (simp add: local_open_def Let_def case_prod_beta split: option.split sum.split)

section \<open>Property\<close>

text \<open>What a local command comes to, before it is printed: its report, or its failure.\<close>

definition command_outcome :: "('w, 's, 'e, 'x) cli_env \<Rightarrow> cli \<Rightarrow> host \<times> 'w \<Rightarrow> failure + report" where
  "command_outcome E c w =
     (case decide_command c of
        Inl denial \<Rightarrow> Inl (FDenied denial)
      | Inr _ \<Rightarrow>
          let (L, w) = local_open E (cl_json c) w
          in case run_local L (cl_command c) of
               None \<Rightarrow> Inl (FRefused [])
             | Some run \<Rightarrow> fst (run w))"

fun failure_exit :: "failure \<Rightarrow> nat" where
  "failure_exit (FStorage e detail) = exit_code e"
| "failure_exit (FRefused reason) = exit_usage"
| "failure_exit (FDenied denial) = exit_code Denied"

text \<open>What is printed of an outcome.\<close>

definition answers_with :: "cli \<Rightarrow> (json \<Rightarrow> string) \<Rightarrow> failure + report \<Rightarrow> nat \<Rightarrow> string list \<Rightarrow> string list \<Rightarrow> bool" where
  "answers_with c render outcome code out err \<longleftrightarrow>
     (case outcome of
        Inr report \<Rightarrow> code = 0 \<and> out = [if cl_json c then render (rp_json report) else rp_text report] \<and> err = []
      | Inl f \<Rightarrow> code = failure_exit f \<and> 2 \<le> code \<and> code \<le> 9 \<and> out = [] \<and>
         (\<exists>message notes. err = message # notes \<and> (cl_json c \<longrightarrow> notes = [])))"

lemma local_finish_answers:
  assumes "local_finish render L name r h = (code, k)" "lo_json L = cl_json c"
  shows "\<exists>out err. k = printed out err h \<and> answers_with c render r code out err"
proof (cases r)
  case (Inr rep)
  with assms show ?thesis by (auto simp: local_finish_def println_printed answers_with_def)
next
  case f: (Inl f)
  show ?thesis
  proof (cases f)
    case (FStorage e detail)
    with assms exit_code_bounds [of e] show ?thesis
      by (auto simp: f local_finish_def Let_def eprintln_printed printed_all printed_printed answers_with_def)
  next
    case (FRefused reason)
    with assms show ?thesis by (auto simp: f local_finish_def eprintln_printed exit_usage_def answers_with_def)
  next
    case (FDenied denial)
    with assms show ?thesis by (auto simp: f local_finish_def Let_def eprintln_printed exit_code_simps answers_with_def)
  qed
qed

text \<open>
  C40: a local command answers once, on one stream. Where it comes to a report, the exit code is 0,
  exactly one text is printed on stdout, the report's text or its JSON, and nothing on stderr. (The text of
  a description or of a list is itself several lines.) Where it fails, the exit code is the failure's own,
  between 2 and 9, nothing is printed on stdout, and on stderr a message, with notes after it only where
  the answer is not JSON.
\<close>

theorem one_answer_on_one_stream:
  assumes "local_command (cl_command c)" "run_command E T c (h, b) = (code, k, b')"
  shows "case command_outcome E c (h, b) of
      Inr report \<Rightarrow> code = 0 \<and> ho_err k = ho_err h \<and>
        ho_out k = ho_out h @ [if cl_json c then tx_render T (rp_json report) else rp_text report]
    | Inl f \<Rightarrow> code = failure_exit f \<and> 2 \<le> code \<and> code \<le> 9 \<and> ho_out k = ho_out h \<and>
        (\<exists>message notes. ho_err k = ho_err h @ message # notes \<and> (cl_json c \<longrightarrow> notes = []))"
proof -
  let ?fin = "\<lambda>L :: 'a local. local_finish (tx_render T) L (fst (decision (cl_command c)))"
  have "\<exists>L k0. ?fin L (command_outcome E c (h, b)) k0 = (code, k) \<and> lo_json L = cl_json c \<and>
      ho_out k0 = ho_out h \<and> ho_err k0 = ho_err h"
  proof (cases "decide_command c")
    case (Inl d)
    moreover have "lo_json (local_unopened (cl_json c) :: 'a local) = cl_json c" by (simp add: local_unopened_def)
    ultimately show ?thesis
      using assms by (simp add: run_command_local command_outcome_def case_prod_beta Let_def) (metis prod.collapse)
  next
    case (Inr u)
    obtain L w where L: "local_open E (cl_json c) (h, b) = (L, w)" by (cases "local_open E (cl_json c) (h, b)")
    obtain run where run: "run_local L (cl_command c) = Some run"
      using assms(1) by (cases "cl_command c" rule: decision.cases) (auto simp: local_command_def)
    obtain r w1 where r: "run w = (r, w1)" by (cases "run w")
    have "command_outcome E c (h, b) = r" using Inr L run r by (simp add: command_outcome_def)
    moreover have "?fin L r (fst w1) = (code, k)"
      using assms Inr L run r by (simp add: run_command_local case_prod_beta Let_def prod_eq_iff)
    moreover have "ho_out (fst w1) = ho_out h \<and> ho_err (fst w1) = ho_err h"
      using silent_pairD [OF run_local_silent [OF run] r] local_open_silent [OF L] by simp
    moreover have "lo_json L = cl_json c" using local_open_json [of E "cl_json c" "(h, b)"] L by simp
    ultimately show ?thesis by blast
  qed
  then obtain L k0 where f: "?fin L (command_outcome E c (h, b)) k0 = (code, k)" "lo_json L = cl_json c"
    "ho_out k0 = ho_out h" "ho_err k0 = ho_err h" by blast
  from local_finish_answers [OF f(1,2)] f(3,4) show ?thesis
    by (auto simp: printed_def answers_with_def split: sum.splits)
qed

end
