(* ===== verification/Cli_Properties.thy ===== *)
theory Cli_Properties
  imports Cli_Opening Cli_Stack
begin

text \<open>
  What the commands of \<open>secretsctl\<close> promise: a denied scope opens nothing, no value is ever printed,
  the stack opens whatever the configuration says, a token goes to no origin in cleartext, and the
  value a \<open>put\<close> takes from a file.
\<close>

section \<open>The scope is decided first\<close>

text \<open>
  C16: a local command for another tenant or another user ends with the exit code of \<open>Denied\<close> and one
  line on stderr; no file is looked at and no backend is called.
\<close>

theorem denied_opens_nothing:
  assumes "local_command (cl_command c)" "cl_tenant c \<noteq> default_text \<or> cl_user c \<noteq> default_text"
  shows "\<exists>line. run_command E T c (h, b) = (4, h\<lparr>ho_err := ho_err h @ [line]\<rparr>, b)"
proof -
  have "decide_command c = Inl (if cl_tenant c \<noteq> default_text then DeniedTenant else DeniedUser)"
    using assms by (simp add: decide_command_eq)
  then show ?thesis
    using assms(1) by (simp add: run_command_local local_finish_def Let_def exit_code_simps eprintln_def)
      (intro conjI impI; rule exI; rule refl)
qed

section \<open>What is printed\<close>

text \<open>
  C12: no value is printed. Run a local command over backends that answer every read with the empty
  value, and other processes that do not act on the bytes inside files: the exit code, what is printed,
  what is done to the backends and which names there are are as with the values themselves.
\<close>

theorem values_are_never_printed:
  assumes "run_local L c = Some run" "run_local (blind_local L) c = Some blind"
    and "run w = (r, h, b)" "blind w = (r', h', b')" "list_all oblivious (ho_others (fst w))"
    and "local_finish render L name r h = (code, k)" "local_finish render (blind_local L) name r' h' = (code', k')"
  shows "code' = code \<and> ho_out k' = ho_out k \<and> ho_err k' = ho_err k \<and> b' = b \<and> fs_names (ho_fs k') = fs_names (ho_fs k)"
proof -
  from run_blind [OF assms(1-5)] have
    r: "r' = r" "b' = b" "ho_out h' = ho_out h" "ho_err h' = ho_err h" "fs_names (ho_fs h') = fs_names (ho_fs h)"
    by simp_all
  obtain n out err where "\<And>h. local_finish render L name r h = (n, printed out err h)"
    using local_finish_prints by metis
  with assms(6,7) r show ?thesis
    by (simp add: local_finish_blind) (auto simp: printed_def)
qed

section \<open>The backends of the configuration\<close>

text \<open>
  C37: whatever the configuration file holds, the stack opens: no backend is configured twice, the
  default mount is always one of them, and the stack is over the configuration store of that file.
\<close>

theorem stack_always_opens:
  assumes "tables_ordered E" "config_path (en_var E) = Some path"
  shows "\<exists>F notes. lo_stack (fst (local_open E json w)) = Some \<lparr>sk_storage = F, sk_notes = notes\<rparr> \<and>
    fed_config F = en_config E path \<and> map_of (fed_backends F) default_mount \<noteq> None \<and>
    distinct (refs_of (fst (load_backends E path w)))"
proof -
  obtain F where F: "lo_stack (fst (local_open E json w)) =
      Some \<lparr>sk_storage = F, sk_notes = ld_notes (fst (load_backends E path w))\<rparr>"
    "fed_config F = en_config E path" "map_of (fed_backends F) = map_of (ld_mounted (fst (load_backends E path w)))"
    using local_open_Some [OF assms] by metis
  have "default_mount \<in> set (refs_of (fst (load_backends E path w)))" "distinct (refs_of (fst (load_backends E path w)))"
    using load_backends_refs [OF assms(1)] by simp_all
  then show ?thesis
    using F by (force simp: refs_of_def)
qed

text \<open>
  C38: a client with a token is made only for an origin whose scheme is https, or http where the host
  is a loopback address or \<open>localhost\<close>; a remote that is anything else is mounted as unreachable.
\<close>

theorem token_never_in_cleartext:
  assumes "load_backends E path w = (l, w')" "(b, S) \<in> set (ld_mounted l)" "br_kind b = Remote"
  shows "S = unreachable Remote \<or> (\<exists>origin token C scheme host.
    S = remote_storage (remote_new E C) \<and> en_client E origin token = Inr C \<and>
    en_url E origin = Some (scheme, host) \<and> (scheme = ''https'' \<or> scheme = ''http'' \<and> loopback_host host))"
  using load_backends_kept [of E path w] assms by (auto simp: all_kept_def tokens_kept_def may_be_sent_def)

section \<open>Mounts as typed\<close>

text \<open>
  A mount is typed as it is printed, \<open>kind/label\<close>, or as its kind alone for the label \<open>default\<close>;
  nothing else is a mount.
\<close>

theorem mount_text_roundtrip:
  "parse_mount s = Inr b \<longleftrightarrow> wf_scope_name (br_label b) \<and>
     (s = backend_text b \<or> s = kind_text (br_kind b) \<and> br_label b = default_name)"
proof
  assume p: "parse_mount s = Inr b"
  obtain kind label where k: "(case split_once CHR ''/'' s of Some p \<Rightarrow> p | None \<Rightarrow> (s, default_text)) = (kind, label)"
    by (cases "case split_once CHR ''/'' s of Some p \<Rightarrow> p | None \<Rightarrow> (s, default_text)")
  with p have l: "scope_name_parse label = Inr (br_label b)" and t: "kind = kind_text (br_kind b)"
    by (auto simp: parse_mount_def split: if_splits)
  show "wf_scope_name (br_label b) \<and> (s = backend_text b \<or> s = kind_text (br_kind b) \<and> br_label b = default_name)"
    using k l t
    by (cases "split_once CHR ''/'' s")
      (auto simp: backend_text_def scope_name_parse_ok wf_scope_name_def default_name_def split_once_Some)
next
  assume "wf_scope_name (br_label b) \<and> (s = backend_text b \<or> s = kind_text (br_kind b) \<and> br_label b = default_name)"
  then show "parse_mount s = Inr b"
    using parse_mount_text [of b] parse_mount_bare [of "br_kind b"] by (cases b) auto
qed

section \<open>The value a \<open>put\<close> takes from a file\<close>

lemma trim_newline_length: "length (trim_newline bs) \<le> length bs"
  by (simp add: trim_newline_def Let_def)

lemma trim_newline_shorter: "bs \<noteq> [] \<Longrightarrow> last bs = 0x0A \<Longrightarrow> length (trim_newline bs) < length bs"
  by (simp add: trim_newline_def Let_def)

lemma trim_newline_same: "bs \<noteq> [] \<Longrightarrow> last bs \<noteq> 0x0A \<Longrightarrow> trim_newline bs = bs"
  by (simp add: trim_newline_def)

lemma read_protected_calm:
  assumes "calm h" "follow 41 (ho_fs h) (path_key p) = Some i" "fs_inodes (ho_fs h) i = FileNode c mode" "mode AND 0x3F = 0"
  shows "\<exists>h'. read_protected p limit h = (Inr (take (read_bound limit) c), h')"
  using assms by (simp add: read_protected_def open_read_def query_calm bindE_apply bounded_def file_bytes_def)

text \<open>
  C39: the value that a \<open>put\<close> takes from a file that only its owner can access. A file of at most one
  byte more than the bound is taken whole, but for the newline at its end unless the value is raw, and
  refused where what is left is over the bound. A longer file is refused too, except one that has a
  newline just after the bound: its first bytes up to there are taken as the value, and the rest is
  dropped without a word.
\<close>

theorem put_value_from_file:
  assumes "calm h" "follow 41 (ho_fs h) (path_key p) = Some i" "fs_inodes (ho_fs h) i = FileNode c mode" "mode AND 0x3F = 0"
  shows "\<exists>v h'. read_value (Some p) raw prompt max_value_bytes h = (Inr v, h') \<and> secret_value_new v =
    (if length c \<le> max_value_bytes + 1 then secret_value_new (if raw then c else trim_newline c)
     else if \<not> raw \<and> c ! max_value_bytes = 0x0A then Inr (SecretValue (trim_newline (take (max_value_bytes + 1) c)))
     else Inl TooLarge)"
proof -
  let ?n = "max_value_bytes" and ?t = "take (max_value_bytes + 1) c"
  have b: "read_bound ?n = ?n + 1" by (simp add: read_bound_def max_value_bytes_def)
  from read_protected_calm [OF assms, of ?n] obtain h' where r: "read_protected p ?n h = (Inr ?t, h')"
    unfolding b by blast
  have v: "read_value (Some p) raw prompt ?n h = (Inr (if raw then ?t else trim_newline ?t), h')"
    using r by (simp add: read_value_def bindE_apply)
  have "secret_value_new (if raw then ?t else trim_newline ?t) =
    (if length c \<le> ?n + 1 then secret_value_new (if raw then c else trim_newline c)
     else if \<not> raw \<and> c ! ?n = 0x0A then Inr (SecretValue (trim_newline ?t)) else Inl TooLarge)"
  proof (cases "length c \<le> ?n + 1")
    case False
    then have "?t = take ?n c @ [c ! ?n]" by (simp add: take_Suc_conv_app_nth)
    then have l: "length ?t = ?n + 1" "last ?t = c ! ?n" "?t \<noteq> []"
      using False by simp_all
    then show ?thesis
      using False trim_newline_shorter [of ?t] trim_newline_same [of ?t]
      by (cases "c ! ?n = 0x0A") (auto simp: secret_value_new_def)
  qed simp
  with v show ?thesis by blast
qed

end
