(* ===== verification/Cli_Examples.thy ===== *)
theory Cli_Examples
  imports Cli_Answers Cli_Properties Deployment File_Properties Keychain_Properties
begin

text \<open>
  A configuration with a second keychain and a remote, and the properties of the commands applied to it.
\<close>

definition example_client :: "string \<Rightarrow> stack client" where
  "example_client token = \<lparr>ct_http = (\<lambda>_. failE ()), ct_join = (\<lambda>p. Some (''https://vault'' @ p)), ct_token = token,
     ct_codec = example_codec, ct_uuid = uuid_text\<rparr>"

definition example_table :: backend_table where
  "example_table = \<lparr>bk_keychain = [(''work'', \<lparr>ke_service = None\<rparr>)],
     bk_remote = [(''vault'', \<lparr>re_origin = ''https://vault'', re_token_env = Some ''TOKEN'', re_token_file = None\<rparr>)]\<rparr>"

definition example_env :: "(stack, unit, unit, unit) cli_env" where
  "example_env =
     \<lparr>en_var = (\<lambda>v. if v = ''HOME'' then Some ''/home/a'' else if v = ''TOKEN'' then Some ''t'' else None),
      en_config = (\<lambda>_. stack_config), en_config_text = (\<lambda>_. retE ''''), en_parse_table = (\<lambda>_. Some example_table),
      en_native = None, en_uuid = \<lparr>uc_from_slice = (\<lambda>_. None), uc_hyphenated = uuid_text\<rparr>,
      en_get = (\<lambda>_. \<lparr>kw_store = (), kw_ids = (\<lambda>_. 0), kw_drawn = 0, kw_poisoned = False, kw_runs = True\<rparr>),
      en_put = (\<lambda>_ w. w), en_url = (\<lambda>s. if s = ''https://vault'' then Some (''https'', Some ''vault'') else None),
      en_client = (\<lambda>_ token. Inr (example_client token)), en_to_vec = (\<lambda>_. None), en_simple = uuid_text,
      en_now_v7 = failE Unavailable\<rparr>"

definition example_texts :: "stack cli_texts" where
  "example_texts = \<lparr>tx_render = (\<lambda>_. ''{}''), tx_base64 = (\<lambda>_. []), tx_get = (\<lambda>_. failE ''unreachable'')\<rparr>"

definition example_read :: cli where
  "example_read = \<lparr>cl_json = False, cl_tenant = ''acme'', cl_user = default_text,
     cl_command = CRead ''pin'' default_text example_out\<rparr>"

theorem denied_opens_nothing_witness:
  "\<exists>line. run_command example_env example_texts example_read (empty_host, example_world) =
     (4, empty_host\<lparr>ho_err := ho_err empty_host @ [line]\<rparr>, example_world)"
  by (rule denied_opens_nothing) (simp_all add: example_read_def local_command_def default_text_def)

text \<open>The namespaces are listed: one text of two lines, and nothing on stderr.\<close>

definition example_namespaces :: cli where
  "example_namespaces = \<lparr>cl_json = False, cl_tenant = default_text, cl_user = default_text, cl_command = CNamespace NsList\<rparr>"

definition example_listing :: string where
  "example_listing = ''NAMESPACE  TENANT   BACKEND'' @ CHR 0x0A # ''default    default  keychain/default''"

lemma example_namespaces_outcome:
  "map_option rp_text (res_ok (command_outcome example_env example_namespaces (empty_host, example_world))) = Some example_listing"
  by code_simp

theorem one_answer_on_one_stream_witness:
  "\<exists>k b'. run_command example_env example_texts example_namespaces (empty_host, example_world) = (0, k, b') \<and>
     ho_out k = [''NAMESPACE  TENANT   BACKEND'' @ CHR 0x0A # ''default    default  keychain/default''] \<and> ho_err k = []"
proof -
  have c: "local_command (cl_command example_namespaces)" "\<not> cl_json example_namespaces"
    by (simp_all add: example_namespaces_def local_command_def)
  obtain code k b' where r: "run_command example_env example_texts example_namespaces (empty_host, example_world) = (code, k, b')"
    by (metis prod_cases3)
  obtain rep where "command_outcome example_env example_namespaces (empty_host, example_world) = Inr rep"
    "rp_text rep = example_listing"
    using example_namespaces_outcome by (cases "command_outcome example_env example_namespaces (empty_host, example_world)") auto
  with one_answer_on_one_stream [OF c(1) r] c(2) r show ?thesis
    by (simp add: empty_host_def example_listing_def)
qed

lemma example_tables: "tables_ordered example_env"
  by (simp add: tables_ordered_def example_env_def example_table_def bt_wf_def)

theorem stack_always_opens_witness:
  "\<exists>F notes. lo_stack (fst (local_open example_env False (empty_host, example_world))) =
     Some \<lparr>sk_storage = F, sk_notes = notes\<rparr> \<and> map_of (fed_backends F) default_mount \<noteq> None"
proof -
  have "config_path (en_var example_env) = Some \<lparr>fcg_parent = ''/home/a/.config/b10x-secrets'', fcg_name = ''config.toml''\<rparr>"
    by (simp add: config_path_def example_env_def path_join_def)
  from stack_always_opens [OF example_tables this] show ?thesis by blast
qed

lemma example_labels:
  "scope_name_parse ''default'' = Inr (ScopeName ''default'')" "scope_name_parse ''work'' = Inr (ScopeName ''work'')"
  "scope_name_parse ''vault'' = Inr (ScopeName ''vault'')"
  by code_simp+

theorem token_never_in_cleartext_witness:
  "\<exists>origin token C scheme host.
    remote_storage (remote_new example_env (example_client ''t'')) = remote_storage (remote_new example_env C) \<and>
    en_client example_env origin token = Inr C \<and> en_url example_env origin = Some (scheme, host) \<and>
    (scheme = ''https'' \<or> scheme = ''http'' \<and> loopback_host host)
   \<or> remote_storage (remote_new example_env (example_client ''t'')) = unreachable Remote"
proof -
  let ?path = "\<lparr>fcg_parent = ''/home/a'', fcg_name = ''config.toml''\<rparr>"
  have t: "token_of example_env ''vault'' \<lparr>re_origin = ''https://vault'', re_token_env = Some ''TOKEN'', re_token_file = None\<rparr> h =
      (Inr ''t'', h)" for h
    by (simp add: token_of_def example_env_def) code_simp
  have e: "en_native example_env = None" "en_config_text example_env = (\<lambda>_. retE '''')" "en_parse_table example_env = (\<lambda>_. Some example_table)"
    "en_url example_env ''https://vault'' = Some (''https'', Some ''vault'')" "en_client example_env o' k = Inr (example_client k)" for o' k
    by (simp_all add: example_env_def)
  have "(\<lparr>br_kind = Remote, br_label = ScopeName ''vault''\<rparr>, remote_storage (remote_new example_env (example_client ''t'')))
      \<in> set (ld_mounted (fst (load_backends example_env ?path (empty_host, example_world))))"
    by (simp add: load_backends_def load_table_def example_table_def keychain_services_def backend_reference_def example_labels
        platform_keychain_def mount_backend_def add_note_def remote_client_def admitted_origin_def bindE_apply t default_text_def
        default_service_def e)
  from token_never_in_cleartext [OF prod.collapse [symmetric] this] show ?thesis by auto
qed

theorem values_are_never_printed_witness:
  "\<exists>w rep h w2 r' h'.
     cli_read (stack_local False (\<lambda>_. ReadWrite) [default_mount]) default_text ''db/password'' example_out (empty_host, w) =
       (Inr rep, h, w2) \<and> at_name (ho_fs h) (''out'', ''v'') = Some (FileNode [104] 0x180) \<and>
     cli_read (blind_local (stack_local False (\<lambda>_. ReadWrite) [default_mount])) default_text ''db/password'' example_out
       (empty_host, w) = (r', h', w2) \<and>
     ho_out (snd (local_finish (\<lambda>_. ''{}'') (blind_local (stack_local False (\<lambda>_. ReadWrite) [default_mount])) ''read'' r' h')) =
       ho_out (snd (local_finish (\<lambda>_. ''{}'') (stack_local False (\<lambda>_. ReadWrite) [default_mount]) ''read'' (Inr rep) h))"
proof -
  let ?L = "stack_local False (\<lambda>_. ReadWrite) [default_mount]"
  obtain h1 where r: "read_value (pa_file example_put_args) (pa_raw example_put_args) (''Value for '' @ name_str (ad_name example_address) @ '': '')
      max_value_bytes empty_host = (Inr [104], h1)" using example_source by blast
  have args: "pa_value example_put_args = None" "pa_value_flag example_put_args = None" "length [104 :: byte] \<le> max_value_bytes"
    "cli_address (pa_namespace example_put_args) (pa_name example_put_args) = Inr example_address"
    using example_cli_address by (simp_all add: example_put_args_def max_value_bytes_def)
  obtain w ver where w: "stack_ok [default_mount] w" "stack_holds [default_mount] w example_address = Some (SecretValue [104], ver)"
      "stack_mount w = stack_mount example_world"
    using cli_put_stack [OF example_stack(1) args(4) example_stack(2) args(1,2) r args(3), of False] by fastforce
  then have m: "writable_mount (\<lambda>_. ReadWrite) [default_mount] w (ad_scope example_address)"
    using example_stack(2) by (simp add: writable_mount_def)
  obtain rep h w2 where read: "cli_read ?L default_text ''db/password'' example_out (empty_host, w) = (Inr rep, h, w2)"
      "at_name (ho_fs h) (''out'', ''v'') = Some (FileNode [104] 0x180)"
    using cli_read_stack [OF w(1) example_cli_address m w(2) example_out_path(1), of False] example_out_path(2)
    by (fastforce simp: at_name_def)
  obtain r' h' w2' where blind: "cli_read (blind_local ?L) default_text ''db/password'' example_out (empty_host, w) = (r', h', w2')"
    by (metis prod_cases3)
  have "list_all oblivious (ho_others (fst (empty_host, w)))" by (simp add: empty_host_def)
  from values_are_never_printed [where c = "CRead ''db/password'' default_text example_out" and L = ?L
      and run = "cli_read ?L default_text ''db/password'' example_out" and blind = "cli_read (blind_local ?L) default_text ''db/password'' example_out", OF _ _ read(1) blind this
      prod.collapse [symmetric] prod.collapse [symmetric], of "\<lambda>_. ''{}''" "''read''"]
  have "ho_out (snd (local_finish (\<lambda>_. ''{}'') (blind_local ?L) ''read'' r' h')) =
      ho_out (snd (local_finish (\<lambda>_. ''{}'') ?L ''read'' (Inr rep) h)) \<and> w2' = w2"
    by simp
  with read blind show ?thesis by blast
qed

text \<open>A file one byte too long to be judged, with a newline just after the bound.\<close>

definition example_long :: bytes where
  "example_long = replicate max_value_bytes 0 @ [0x0A, 1]"

definition example_long_host :: host where
  "example_long_host = empty_host\<lparr>ho_fs := \<lparr>fs_names = [(''out'', ''v'') \<mapsto> 0], fs_inodes = (\<lambda>_. FileNode example_long 0x180),
     fs_next = 1\<rparr>\<rparr>"

theorem put_value_from_file_witness:
  "\<exists>v h'. read_value (Some example_out) False ''Value: '' max_value_bytes example_long_host = (Inr v, h') \<and>
     secret_value_new v = Inr (SecretValue (replicate max_value_bytes 0)) \<and> length example_long = max_value_bytes + 2"
proof -
  have k: "calm example_long_host" "fs_inodes (ho_fs example_long_host) 0 = FileNode example_long 0x180"
    using example_calm by (simp_all add: calm_def example_long_host_def)
  have f: "follow 41 (ho_fs example_long_host) (path_key example_out) = Some 0"
    by (simp add: example_out_path numeral_eq_Suc example_long_host_def)
  have t: "trim_newline (replicate n 0 @ [0x0A]) = (replicate n 0 :: bytes)" for n
    by (cases n) (simp_all add: trim_newline_def Let_def)
  have e: "\<not> length example_long \<le> max_value_bytes + 1" "example_long ! max_value_bytes = 0x0A"
    "take (max_value_bytes + 1) example_long = replicate max_value_bytes 0 @ [0x0A]" "length example_long = max_value_bytes + 2"
    by (simp_all add: example_long_def nth_append)
  from put_value_from_file [OF k(1) f k(2), of False "''Value: ''"] e t show ?thesis by simp
qed

section \<open>The stack that the program opens\<close>

text \<open>
  The configuration file and the keychain of the system: with no table of backends, the program mounts the
  keychain alone. Over any credential store that keeps \<open>keyring\<close> the stack keeps its contracts.
\<close>

definition shipped_federation ::
  "'v toml \<Rightarrow> file_config \<Rightarrow> ('s, 'e, 'x) keychain_backend \<Rightarrow> (disk \<times> 's keychain_world) federated" where
  "shipped_federation T P B =
     \<lparr>fed_config = zoom_config fst (\<lambda>s w. (s, snd w)) (file_config_store T P),
      fed_backends = [(default_mount, zoom_storage snd (\<lambda>s w. (fst w, s)) (keychain_storage B))]\<rparr>"

lemma shipped_federation_keeps:
  assumes "keyring B quiet key held"
  shows "federation (zoom_config fst (\<lambda>s w. (s, snd w)) (file_config_store T P))
    (\<lambda>w. fc_inv T P (fst w)) (\<lambda>w. fc_up T P (fst w)) (\<lambda>w. fc_mounts T P (fst w)) (\<lambda>w. fc_bound T P (fst w))
    (\<lambda>w. ((), snd w)) (shipped_federation T P B)
    (\<lambda>b x. b = default_mount \<longrightarrow> keychain_able quiet (snd x) \<and> keychain_tidy B held (snd x))
    (\<lambda>b. wf_keychain_request) (\<lambda>b x. if b = default_mount then keychain_holds B held (snd x) else Map.empty)"
proof -
  have "storage_refines (keychain_storage B) (\<lambda>w. keychain_able quiet w \<and> keychain_tidy B held w)
      (\<lambda>_. wf_keychain_request) (keychain_holds B held)"
    by unfold_locales (rule keyring.keychain_simulates [OF assms])
  then have z: "storage_refines (zoom_storage snd (\<lambda>s w. (fst w, s)) (keychain_storage B))
      (\<lambda>w. fc_inv T P (fst w) \<and> keychain_able quiet (snd w) \<and> keychain_tidy B held (snd w))
      (\<lambda>_. wf_keychain_request) (\<lambda>w. keychain_holds B held (snd w))"
    by (rule zoom_refines) simp_all
  have c: "config_contract (zoom_config fst (\<lambda>s w. (s, snd w)) (file_config_store T P))
      (\<lambda>w. fc_inv T P (fst w)) (\<lambda>w. fc_up T P (fst w)) (\<lambda>w. fc_mounts T P (fst w)) (\<lambda>w. fc_bound T P (fst w))
      (\<lambda>w. ((), snd w))"
    by (rule zoom_config_contract [OF fc.config_contract_axioms]) simp_all
  show ?thesis
  proof (rule federation.intro [OF c], unfold_locales, goal_cases)
    case 1
    show ?case by (simp add: shipped_federation_def)
  next
    case (2 b S)
    then show ?case by (auto simp: shipped_federation_def intro!: keeps_zoom split: if_splits)
  next
    case (3 b S b')
    then show ?case by (auto simp: shipped_federation_def intro!: keeps_zoom split: if_splits)
  next
    case (4 b S w q r w')
    then have "b = default_mount" "S = zoom_storage snd (\<lambda>s w. (fst w, s)) (keychain_storage B)"
      by (simp_all add: shipped_federation_def split: if_splits)
    with 4 storage_refines.simulates [OF z, of w q r w'] show ?case by simp
  qed
qed

definition shipped_env :: "(disk \<times> scripted keychain_world, scripted, string \<times> string, unit) cli_env" where
  "shipped_env =
     \<lparr>en_var = (\<lambda>v. if v = ''HOME'' then Some ''/home/a'' else None),
      en_config = (\<lambda>P. zoom_config fst (\<lambda>s w. (s, snd w)) (file_config_store example_toml P)),
      en_config_text = (\<lambda>_. failE ()), en_parse_table = (\<lambda>_. None), en_native = Some (Some scripted_store),
      en_uuid = example_uuid_crate, en_get = snd, en_put = (\<lambda>s w. (fst w, s)), en_url = (\<lambda>_. None),
      en_client = (\<lambda>_ token. Inr \<lparr>ct_http = (\<lambda>_. failE ()), ct_join = (\<lambda>p. None), ct_token = token,
        ct_codec = example_codec, ct_uuid = uuid_text\<rparr>), en_to_vec = (\<lambda>_. None), en_simple = uuid_text,
      en_now_v7 = failE Unavailable\<rparr>"

definition shipped_path :: file_config where
  "shipped_path = \<lparr>fcg_parent = ''/home/a/.config/b10x-secrets'', fcg_name = ''config.toml''\<rparr>"

definition shipped_world :: "disk \<times> scripted keychain_world" where
  "shipped_world = (empty_disk [], example_keychain_world [])"

lemma shipped_opens:
  "local_open shipped_env json (h, w) =
     (\<lparr>lo_json = json, lo_stack = Some \<lparr>sk_storage = shipped_federation example_toml shipped_path example_keychain, sk_notes = []\<rparr>,
       lo_trouble = []\<rparr>, h, w)"
proof -
  have "config_path (en_var shipped_env) = Some shipped_path"
    by (simp add: config_path_def shipped_env_def path_join_def shipped_path_def)
  moreover have "load_backends shipped_env shipped_path (h, w) =
      (\<lparr>ld_mounted = [(default_mount, zoom_storage snd (\<lambda>s w. (fst w, s)) (keychain_storage example_keychain))], ld_notes = []\<rparr>, h, w)"
    by (simp add: load_backends_def shipped_env_def failE_def load_table_def default_table_def keychain_services_def
        backend_reference_def example_labels platform_keychain_def mount_backend_def default_text_def default_mount_def
        default_name_def example_keychain_def keychain_new_def)
  ultimately show ?thesis
    by (simp add: local_open_def fed_new_def with_backend_def shipped_federation_def shipped_env_def bt_contains_def)
qed

theorem put_then_read_witness:
  "\<exists>L rep h1 w1 rep' h3 w2. local_open shipped_env True (empty_host, shipped_world) = (L, empty_host, shipped_world) \<and>
     cli_put L example_put_args (empty_host, shipped_world) = (Inr rep, h1, w1) \<and>
     cli_read L default_text ''db/password'' example_out (empty_host, w1) = (Inr rep', h3, w2) \<and>
     at_name (ho_fs h3) (''out'', ''v'') = Some (FileNode [104] 0x180)"
proof -
  let ?F = "shipped_federation example_toml shipped_path example_keychain"
  let ?S = "zoom_storage snd (\<lambda>s w. (fst w, s)) (keychain_storage example_keychain)"
  obtain h1 where r: "read_value (pa_file example_put_args) (pa_raw example_put_args) (''Value for '' @ name_str (ad_name example_address) @ '': '')
      max_value_bytes empty_host = (Inr [104], h1)" using example_source by blast
  obtain L where o: "local_open shipped_env True (empty_host, shipped_world) = (L, empty_host, shipped_world)" "the_stack L = Inr ?F"
    using shipped_opens [of True empty_host shipped_world] by (simp add: the_stack_def)
  have args: "cli_address (pa_namespace example_put_args) (pa_name example_put_args) = Inr example_address"
    "pa_value example_put_args = None" "pa_value_flag example_put_args = None" "length [104 :: byte] \<le> max_value_bytes"
    "pa_namespace example_put_args = default_text" "pa_name example_put_args = ''db/password''"
    using example_cli_address by (simp_all add: example_put_args_def max_value_bytes_def)
  have w: "fc_inv example_toml shipped_path (fst shipped_world)" "fc_up example_toml shipped_path (fst shipped_world)"
    "fc_mounts example_toml shipped_path (fst shipped_world) (namespace_key_of (ad_scope example_address)) = Some None"
    by (simp_all add: shipped_world_def empty_disk_ok example_address_def local_scope_def namespace_key_of_def local_default_def)
  have b: "\<forall>b \<in> dom (map_of (fed_backends ?F)). b = default_mount \<longrightarrow>
      keychain_able scripted_calm (snd ((), snd shipped_world)) \<and>
      keychain_tidy example_keychain (\<lambda>s. map_of (sp_blobs s)) (snd ((), snd shipped_world))"
    by (simp add: shipped_world_def example_keychain_ok)
  have S: "map_of (fed_backends ?F) default_mount = Some ?S" "\<not> requires_binding ?S" "{CapRead, CapWrite} \<subseteq> set (capabilities ?S)"
    by (simp_all add: shipped_federation_def keychain_storage_def all_capabilities_set)
  have q: "wf_keychain_request (WriteReq example_address (SecretValue [104]))" "wf_keychain_request (ReadReq example_address)"
    using cli_address_Inr [OF args(1)] args(4) by (simp_all add: wf_keychain_request_def wf_value_def)
  from put_then_read [OF shipped_federation_keeps [OF sk.keyring_axioms] o(2) w(1,2) b args(1) w(3) refl _ S(2,3) q args(2,3) r args(4)
      example_out_path(1)] S(1) o(1) args(5,6) example_out_path(2) show ?thesis by fastforce
qed

end
