(* ===== verification/Conformance_Watch.thy ===== *)
theory Conformance_Watch
  imports Cli_Opening
begin

text \<open>
  The storage stack as the conformance checks see it (\<open>checks/conformance/src/storage.rs\<close>): every
  backend and the configuration store behind a counter of the requests that reach it, a command that
  the port accepted handed to the stack, and the branch of the specification read off what the stack
  answered and what the command reached. Arranging a scenario and the services it runs against are not
  modelled: a world of the stack stands for what was arranged.
\<close>

section \<open>Counting what is reached\<close>

text \<open>The counters are \<open>AtomicU64\<close>, beside the world \<open>'w\<close> of the stack.\<close>

record watch =
  wa_backends :: "backend_ref \<Rightarrow> 64 word"
  wa_config :: "64 word"

definition hit_backend :: "backend_ref \<Rightarrow> watch \<Rightarrow> watch" where
  "hit_backend b t = t\<lparr>wa_backends := (wa_backends t)(b := wa_backends t b + 1)\<rparr>"

definition hit_config :: "watch \<Rightarrow> watch" where
  "hit_config t = t\<lparr>wa_config := wa_config t + 1\<rparr>"

definition counted :: "(watch \<Rightarrow> watch) \<Rightarrow> ('w, 'e, 'a) io \<Rightarrow> (watch \<times> 'w, 'e, 'a) io" where
  "counted hit m = (\<lambda>(t, w). let (r, w') = m w in (r, hit t, w'))"

definition watched :: "backend_ref \<Rightarrow> 'w storage \<Rightarrow> (watch \<times> 'w) storage" where
  "watched b S =
     \<lparr>capabilities = capabilities S, requires_binding = requires_binding S,
      st_read = (\<lambda>t. counted (hit_backend b) (st_read S t)),
      st_write = (\<lambda>t v. counted (hit_backend b) (st_write S t v)),
      st_delete = (\<lambda>t. counted (hit_backend b) (st_delete S t)),
      st_rename = (\<lambda>t n. counted (hit_backend b) (st_rename S t n)),
      st_list = (\<lambda>s. counted (hit_backend b) (st_list S s))\<rparr>"

definition watched_config :: "'w namespace_config \<Rightarrow> (watch \<times> 'w) namespace_config" where
  "watched_config C =
     \<lparr>cfg_namespace = (\<lambda>k. counted hit_config (cfg_namespace C k)),
      cfg_namespaces = counted hit_config (cfg_namespaces C),
      cfg_insert_namespace = (\<lambda>n. counted hit_config (cfg_insert_namespace C n)),
      cfg_remove_namespace = (\<lambda>k. counted hit_config (cfg_remove_namespace C k)),
      cfg_set_mount = (\<lambda>k b. counted hit_config (cfg_set_mount C k b)),
      cfg_binding = (\<lambda>a. counted hit_config (cfg_binding C a)),
      cfg_has_bindings = (\<lambda>k. counted hit_config (cfg_has_bindings C k)),
      cfg_insert_binding = (\<lambda>a l. counted hit_config (cfg_insert_binding C a l)),
      cfg_remove_binding = (\<lambda>a. counted hit_config (cfg_remove_binding C a))\<rparr>"

text \<open>A world has the configuration store and every mounted backend (\<open>wo_mounted\<close> is a \<open>BTreeMap\<close>), and counts its fakes.\<close>

record 'w conformance_world =
  wo_config :: "'w namespace_config"
  wo_mounted :: "(backend_ref, 'w storage) btree"
  wo_fakes :: "64 word"

definition world_stack :: "'w conformance_world \<Rightarrow> storage_error + (watch \<times> 'w) federated" where
  "world_stack W = mount_all (fed_new (watched_config (wo_config W))) (map (\<lambda>(b, S). (b, watched b S)) (wo_mounted W))"

record reached =
  re_backends :: "backend_ref list"
  re_config :: bool

text \<open>The mark is the counters when the command began.\<close>

definition reached_since :: "'w conformance_world \<Rightarrow> watch \<Rightarrow> watch \<Rightarrow> reached" where
  "reached_since W mark now =
     \<lparr>re_backends = filter (\<lambda>b. wa_backends now b \<noteq> wa_backends mark b) (map fst (wo_mounted W)),
      re_config = (wa_config now \<noteq> wa_config mark)\<rparr>"

section \<open>Commands\<close>

datatype accepted =
  AddNamespace namespace_key "backend_ref option"
| RemoveNamespace namespace_key
| SetMount namespace_key backend_ref
| BindName address locator
| UnbindName address
| WriteSecret address secret_value
| ReadSecret address
| DeleteSecret address
| RenameSecret address secret_name
| ListMetadata scope

fun secret_scope :: "accepted \<Rightarrow> scope option" where
  "secret_scope (WriteSecret a v) = Some (ad_scope a)"
| "secret_scope (ReadSecret a) = Some (ad_scope a)"
| "secret_scope (DeleteSecret a) = Some (ad_scope a)"
| "secret_scope (RenameSecret a n) = Some (ad_scope a)"
| "secret_scope (ListMetadata s) = Some s"
| "secret_scope _ = None"

fun accepted_namespace :: "accepted \<Rightarrow> namespace_key" where
  "accepted_namespace (AddNamespace k m) = k"
| "accepted_namespace (RemoveNamespace k) = k"
| "accepted_namespace (SetMount k m) = k"
| "accepted_namespace (BindName a l) = namespace_key_of (ad_scope a)"
| "accepted_namespace (UnbindName a) = namespace_key_of (ad_scope a)"
| "accepted_namespace (WriteSecret a v) = namespace_key_of (ad_scope a)"
| "accepted_namespace (ReadSecret a) = namespace_key_of (ad_scope a)"
| "accepted_namespace (DeleteSecret a) = namespace_key_of (ad_scope a)"
| "accepted_namespace (RenameSecret a n) = namespace_key_of (ad_scope a)"
| "accepted_namespace (ListMetadata s) = namespace_key_of s"

fun accepted_resource :: "accepted \<Rightarrow> resource" where
  "accepted_resource (AddNamespace k m) = resource_of_namespace k"
| "accepted_resource (RemoveNamespace k) = resource_of_namespace k"
| "accepted_resource (SetMount k m) = resource_of_namespace k"
| "accepted_resource (BindName a l) = resource_of_address a"
| "accepted_resource (UnbindName a) = resource_of_address a"
| "accepted_resource (WriteSecret a v) = resource_of_address a"
| "accepted_resource (ReadSecret a) = resource_of_address a"
| "accepted_resource (DeleteSecret a) = resource_of_address a"
| "accepted_resource (RenameSecret a n) = resource_of_address a"
| "accepted_resource (ListMetadata s) = resource_of_scope s"

definition command_needs :: "string \<Rightarrow> capability list" where
  "command_needs command =
     (if command = ''Write'' then [CapWrite]
      else if command = ''Read'' then [CapRead]
      else if command = ''Delete'' then [CapDelete]
      else if command = ''Rename'' then [CapWrite, CapDelete]
      else [CapList])"

definition command_actions :: "string \<Rightarrow> action list" where
  "command_actions command =
     (if command = ''Write'' then [ActWrite]
      else if command = ''Read'' then [ActRead]
      else if command = ''Delete'' then [ActDelete]
      else if command = ''Rename'' then [ActWrite, ActDelete]
      else if command = ''ListMetadata'' then [ActList]
      else [ManageNamespace])"

definition conformance_decide :: "resource \<Rightarrow> string \<Rightarrow> denial + unit" where
  "conformance_decide r command = try_for_each (local_decide r) (command_actions command)"

section \<open>The stack's answer\<close>

datatype answered = DoneUnit | DoneWritten written | DoneRevealed revealed

definition unit_done :: "('w, storage_error, unit) io \<Rightarrow> ('w, storage_error, answered) io" where
  "unit_done m = bindE m (\<lambda>_. retE DoneUnit)"

definition managed :: "resource \<Rightarrow> ('w, storage_error, unit) io \<Rightarrow> ('w, storage_error, answered) io" where
  "managed r m = bindE (liftE (authorize local_decide r ManageNamespace)) (\<lambda>_. unit_done m)"

fun execute :: "'w federated \<Rightarrow> accepted \<Rightarrow> ('w, storage_error, answered) io" where
  "execute F (AddNamespace k mount) = managed (resource_of_namespace k) (add_namespace F k mount)"
| "execute F (RemoveNamespace k) = managed (resource_of_namespace k) (remove_namespace F k)"
| "execute F (SetMount k mount) = managed (resource_of_namespace k) (set_mount F k mount)"
| "execute F (BindName a l) = managed (resource_of_address a) (bind_address F a l)"
| "execute F (UnbindName a) = managed (resource_of_address a) (unbind_address F a)"
| "execute F (WriteSecret a v) =
     bindE (liftE (secret_value_new (expose v))) (\<lambda>v.
     bindE (st_write (authorized_local (fed_storage F)) (unbound a) v) (\<lambda>x. retE (DoneWritten x)))"
| "execute F (ReadSecret a) =
     bindE (st_read (authorized_local (fed_storage F)) (unbound a)) (\<lambda>x. retE (DoneRevealed x))"
| "execute F (DeleteSecret a) = unit_done (st_delete (authorized_local (fed_storage F)) (unbound a))"
| "execute F (RenameSecret a n) = unit_done (st_rename (authorized_local (fed_storage F)) (unbound a) n)"
| "execute F (ListMetadata s) =
     bindE (st_list (authorized_local (fed_storage F)) s) (\<lambda>_. retE DoneUnit)"

end
