(* ===== verification/Conformance_Observe.thy ===== *)
theory Conformance_Observe
  imports Conformance_Watch
begin

text \<open>
  What the conformance checks report for a command: the branch of the specification, its error, the
  response and the events. \<open>declared_branches\<close> are the branches \<open>spec/domains/storage.yaml\<close> declares for
  each command, with the error of each.
\<close>

section \<open>What is reported\<close>

record observed =
  ob_response :: "(string \<times> json) list option"
  ob_outcome :: "string option"
  ob_error :: "string option"
  ob_events :: "(string \<times> (string \<times> json) list) list"

text \<open>What the harness itself cannot do.\<close>

datatype target_error = HarnessUnavailable string string | HarnessUnsupported string string

definition conformance_errors :: "(string \<times> string) list" where
  "conformance_errors =
     [(''not-found'', ''secrets.storage.NotFound''), (''denied'', ''secrets.storage.Denied''),
      (''unsupported'', ''secrets.storage.Unsupported''), (''unavailable'', ''secrets.storage.Unavailable''),
      (''invalid-name'', ''secrets.storage.InvalidName''), (''too-large'', ''secrets.storage.TooLarge''),
      (''conflict'', ''secrets.storage.Conflict'')]"

definition declared_error :: "storage_error \<Rightarrow> string option" where
  "declared_error e = map_option snd (find (\<lambda>(code, name). code = error_code e) conformance_errors)"

definition undeclared :: observed where
  "undeclared = \<lparr>ob_response = None, ob_outcome = None, ob_error = None, ob_events = []\<rparr>"

definition refused :: "string \<Rightarrow> storage_error \<Rightarrow> observed" where
  "refused outcome e = \<lparr>ob_response = None, ob_outcome = Some outcome, ob_error = declared_error e, ob_events = []\<rparr>"

section \<open>The input through the port\<close>

datatype port_refusal =
  RefuseAddress address_error
| RefuseLabel name_error
| RefuseValue storage_error

fun refusal_error :: "port_refusal \<Rightarrow> storage_error" where
  "refusal_error (RefuseAddress e) = storage_error_of_address e"
| "refusal_error (RefuseLabel e) = storage_error_of_name e"
| "refusal_error (RefuseValue e) = e"

text \<open>The declared branch of a refusal, for the command that got it.\<close>

definition refusal_branch :: "string \<Rightarrow> port_refusal \<Rightarrow> string option" where
  "refusal_branch command r =
     (let names = command \<in> {''Bind'', ''Write'', ''Read'', ''Delete'', ''Rename''} in
      case r of
        RefuseValue e \<Rightarrow> if e = TooLarge \<and> command = ''Write'' then Some ''too-large'' else None
      | RefuseLabel e \<Rightarrow> None
      | RefuseAddress e \<Rightarrow>
          if ae_part e = Name \<and> ae_reason e = TooLong \<and> names then Some ''name-too-long''
          else if ae_part e = NewName \<and> ae_reason e = TooLong \<and> command = ''Rename'' then Some ''new-name-too-long''
          else if ae_part e = Namespace \<and> ae_reason e = TooLong \<and> command = ''AddNamespace'' then Some ''name-too-long''
          else if names \<or> command = ''AddNamespace'' then Some ''invalid-name''
          else None)"

fun json_get :: "json \<Rightarrow> string \<Rightarrow> json option" where
  "json_get (JObject members) key = map_of members key"
| "json_get _ key = None"

fun json_str :: "json \<Rightarrow> string option" where
  "json_str (JText s) = Some s"
| "json_str _ = None"

fun json_path :: "json \<Rightarrow> string list \<Rightarrow> json option" where
  "json_path v [] = Some v"
| "json_path v (key # path) = Option.bind (json_get v key) (\<lambda>v. json_path v path)"

definition input_text :: "json \<Rightarrow> string list \<Rightarrow> target_error + string" where
  "input_text v path =
     ok_or (Option.bind (json_path v path) json_str)
       (HarnessUnavailable ''reading the command input'' (join CHR ''.'' path))"

definition input_address :: "json \<Rightarrow> target_error + (address_error + address)" where
  "input_address v =
     bindR (input_text v [''address'', ''scope'', ''tenant'']) (\<lambda>tenant.
     bindR (input_text v [''address'', ''scope'', ''namespace'']) (\<lambda>namespace.
     bindR (input_text v [''address'', ''scope'', ''user'']) (\<lambda>user.
     bindR (input_text v [''address'', ''name'']) (\<lambda>name.
     Inr (address_parse tenant namespace user name)))))"

definition input_namespace :: "json \<Rightarrow> target_error + (address_error + namespace_key)" where
  "input_namespace v =
     bindR (input_text v [''namespace'', ''tenant'']) (\<lambda>tenant.
     bindR (input_text v [''namespace'', ''namespace'']) (\<lambda>namespace.
     Inr (namespace_key_parse tenant namespace)))"

definition kind_of_text :: "string \<Rightarrow> backend_kind option" where
  "kind_of_text s = find (\<lambda>k. kind_text k = s) [Keychain, Onepassword, Remote]"

definition input_mount :: "json \<Rightarrow> bool \<Rightarrow> target_error + (port_refusal + backend_ref option)" where
  "input_mount v required =
     (case json_get v ''mount'' of
        None \<Rightarrow> if required then Inl (HarnessUnavailable ''reading the command input'' ''mount'') else Inr (Inr None)
      | Some JNull \<Rightarrow> if required then Inl (HarnessUnavailable ''reading the command input'' ''mount'') else Inr (Inr None)
      | Some mount \<Rightarrow>
          bindR (input_text mount [''kind'']) (\<lambda>kind.
          bindR (ok_or (kind_of_text kind) (HarnessUnavailable ''reading the mount kind'' kind)) (\<lambda>kind.
          bindR (input_text mount [''label'']) (\<lambda>label.
          Inr (map_err RefuseLabel (bindR (scope_name_parse label) (\<lambda>l. Inr (Some \<lparr>br_kind = kind, br_label = l\<rparr>))))))))"

definition input_scope :: "json \<Rightarrow> target_error + (port_refusal + scope)" where
  "input_scope v =
     (let part = (\<lambda>part field. bindR (input_text v [''scope'', field]) (\<lambda>s.
        Inr (map_err (\<lambda>reason. RefuseAddress \<lparr>ae_part = part, ae_reason = reason\<rparr>) (scope_name_parse s)))) in
      bindR (part Tenant ''tenant'') (\<lambda>tenant.
      bindR (part Namespace ''namespace'') (\<lambda>namespace.
      bindR (part User ''user'') (\<lambda>user.
      Inr (bindR tenant (\<lambda>t. bindR namespace (\<lambda>n. bindR user (\<lambda>u.
        Inr \<lparr>sc_tenant = t, sc_namespace = n, sc_user = u\<rparr>))))))))"

definition conformance_parse ::
  "(string \<Rightarrow> bytes option) \<Rightarrow> string \<Rightarrow> json \<Rightarrow> target_error + (port_refusal + accepted)" where
  "conformance_parse base64 command v =
     (if command = ''AddNamespace'' \<or> command = ''SetMount'' then
        bindR (input_namespace v) (\<lambda>k.
        case k of
          Inl e \<Rightarrow> Inr (Inl (RefuseAddress e))
        | Inr key \<Rightarrow>
            bindR (input_mount v (command = ''SetMount'')) (\<lambda>m.
            case m of
              Inl refusal \<Rightarrow> Inr (Inl refusal)
            | Inr mount \<Rightarrow>
                if command = ''SetMount'' then
                  (case mount of
                     Some mount \<Rightarrow> Inr (Inr (SetMount key mount))
                   | None \<Rightarrow> Inl (HarnessUnavailable ''reading the command input'' ''mount''))
                else Inr (Inr (AddNamespace key mount))))
      else if command = ''RemoveNamespace'' then
        bindR (input_namespace v) (\<lambda>k. Inr (map_err RefuseAddress (map_sum id RemoveNamespace k)))
      else if command = ''Bind'' then
        bindR (input_text v [''locator'']) (\<lambda>l.
        bindR (input_address v) (\<lambda>a. Inr (map_err RefuseAddress (map_sum id (\<lambda>a. BindName a (Locator l)) a))))
      else if command = ''Unbind'' then
        bindR (input_address v) (\<lambda>a. Inr (map_err RefuseAddress (map_sum id UnbindName a)))
      else if command = ''Read'' then
        bindR (input_address v) (\<lambda>a. Inr (map_err RefuseAddress (map_sum id ReadSecret a)))
      else if command = ''Delete'' then
        bindR (input_address v) (\<lambda>a. Inr (map_err RefuseAddress (map_sum id DeleteSecret a)))
      else if command = ''Write'' then
        bindR (input_address v) (\<lambda>a.
        case a of
          Inl e \<Rightarrow> Inr (Inl (RefuseAddress e))
        | Inr a \<Rightarrow>
            bindR (input_text v [''value'']) (\<lambda>t.
            bindR (ok_or (base64 t) (HarnessUnavailable ''decoding the value'' ''value'')) (\<lambda>bs.
            Inr (map_err RefuseValue (map_sum id (WriteSecret a) (secret_value_new bs))))))
      else if command = ''Rename'' then
        bindR (input_text v [''address'', ''scope'', ''tenant'']) (\<lambda>tenant.
        bindR (input_text v [''address'', ''scope'', ''namespace'']) (\<lambda>namespace.
        bindR (input_text v [''address'', ''scope'', ''user'']) (\<lambda>user.
        bindR (input_text v [''address'', ''name'']) (\<lambda>name.
        bindR (input_text v [''new_name'']) (\<lambda>new_name.
        Inr (map_err RefuseAddress (map_sum id (\<lambda>(a, n). RenameSecret a n) (parse_rename tenant namespace user name new_name))))))))
      else if command = ''ListMetadata'' then
        bindR (input_scope v) (\<lambda>s. Inr (map_sum id ListMetadata s))
      else Inl (HarnessUnavailable ''parsing the command input'' command))"

section \<open>The branch of an answer\<close>

definition address_json :: "address \<Rightarrow> json" where
  "address_json a = JObject [(''scope'', scope_json (ad_scope a)), (''name'', JText (name_str (ad_name a)))]"

definition read_response :: "(bytes \<Rightarrow> string) \<Rightarrow> bytes \<Rightarrow> version option \<Rightarrow> (string \<times> json) list" where
  "read_response base64 bs ver = [(''value'', JText (base64 bs)), (''version'', version_json ver)]"

definition event_done :: "string \<Rightarrow> string \<Rightarrow> (string \<times> json) list \<Rightarrow> target_error + observed" where
  "event_done outcome name members =
     Inr \<lparr>ob_response = None, ob_outcome = Some outcome, ob_error = None, ob_events = [(name, members)]\<rparr>"

fun succeeded :: "(bytes \<Rightarrow> string) \<Rightarrow> string \<Rightarrow> accepted \<Rightarrow> answered \<Rightarrow> target_error + observed" where
  "succeeded base64 command (AddNamespace k m) d =
     event_done ''added'' ''secrets.storage.NamespaceAdded'' [(''namespace'', key_json k)]"
| "succeeded base64 command (RemoveNamespace k) d =
     event_done ''removed'' ''secrets.storage.NamespaceRemoved'' [(''namespace'', key_json k)]"
| "succeeded base64 command (SetMount k m) d =
     event_done ''set'' ''secrets.storage.MountSet'' [(''namespace'', key_json k), (''mount'', backend_json m)]"
| "succeeded base64 command (BindName a l) d =
     event_done ''bound'' ''secrets.storage.NameBound'' [(''address'', address_json a)]"
| "succeeded base64 command (UnbindName a) d =
     event_done ''unbound'' ''secrets.storage.NameUnbound'' [(''address'', address_json a)]"
| "succeeded base64 command (WriteSecret a v) (DoneWritten x) =
     event_done (case x of Created ver \<Rightarrow> ''created'' | Replaced ver \<Rightarrow> ''replaced'') ''secrets.storage.SecretWritten''
       [(''address'', address_json a)]"
| "succeeded base64 command (ReadSecret a) (DoneRevealed x) =
     Inr \<lparr>ob_response = Some (read_response base64 (expose (rv_value x)) (rv_version x)), ob_outcome = Some ''read'',
       ob_error = None, ob_events = []\<rparr>"
| "succeeded base64 command (DeleteSecret a) d =
     event_done ''deleted'' ''secrets.storage.SecretDeleted'' [(''address'', address_json a)]"
| "succeeded base64 command (RenameSecret a n) d =
     event_done ''renamed'' ''secrets.storage.SecretRenamed'' [(''address'', address_json a), (''new_name'', JText (name_str n))]"
| "succeeded base64 command (ListMetadata s) d =
     event_done ''listed'' ''secrets.storage.MetadataListed'' [(''scope'', scope_json s)]"
| "succeeded base64 command _ _ = Inl (HarnessUnavailable ''reading the stack's answer'' command)"

text \<open>The refusals, but for a denial: \<open>before\<close> says that the namespace existed, \<open>backend\<close> that a backend was reached.\<close>

definition refusal_outcome :: "string \<Rightarrow> storage_error \<Rightarrow> bool \<Rightarrow> bool \<Rightarrow> bool \<Rightarrow> string option" where
  "refusal_outcome command e before backend config =
     (if e = Unavailable then Some ''unavailable''
      else if command = ''AddNamespace'' \<and> e = Conflict then Some ''exists''
      else if command = ''AddNamespace'' \<and> e = NotFound then Some ''no-backend''
      else if command = ''RemoveNamespace'' \<and> e = Conflict then Some (if config then ''in-use'' else ''is-default'')
      else if (command = ''RemoveNamespace'' \<or> command = ''Unbind'') \<and> e = NotFound then Some ''not-found''
      else if command = ''SetMount'' \<and> e = NotFound then Some (if before then ''no-backend'' else ''no-namespace'')
      else if command = ''SetMount'' \<and> e = Conflict then Some ''in-use''
      else if command = ''Bind'' \<and> e = NotFound then Some ''no-namespace''
      else if command = ''Bind'' \<and> e = Conflict then Some ''already-bound''
      else if command = ''Write'' \<and> e = TooLarge then Some ''too-large''
      else if command \<in> {''Read'', ''Delete'', ''Rename''} \<and> e = NotFound then Some (if backend then ''not-found'' else ''unresolved'')
      else if command \<in> {''Write'', ''ListMetadata''} \<and> e = NotFound \<and> \<not> backend then Some ''unresolved''
      else if command \<in> {''Write'', ''Delete'', ''Rename'', ''ListMetadata''} \<and> e = Unsupported \<and> \<not> backend then Some ''unsupported''
      else if command = ''Rename'' \<and> e = Conflict then Some (if backend then ''taken'' else ''bound'')
      else None)"

definition judge ::
  "(bytes \<Rightarrow> string) \<Rightarrow> string \<Rightarrow> accepted \<Rightarrow> namespace option \<Rightarrow> reached \<Rightarrow> storage_error + answered \<Rightarrow>
   target_error + observed" where
  "judge base64 command acc before reached result =
     (if length (re_backends reached) > 1 \<or>
         (re_backends reached \<noteq> [] \<and> Some (hd (re_backends reached)) \<noteq> map_option effective_mount before)
      then Inr undeclared
      else
        let backend = (re_backends reached \<noteq> []) in
        case result of
          Inr d \<Rightarrow> succeeded base64 command acc d
        | Inl e \<Rightarrow>
            if e = Denied then
              Inr (case conformance_decide (accepted_resource acc) command of
                  Inl denial \<Rightarrow>
                    if \<not> backend \<and> \<not> re_config reached then refused (denial_outcome denial) Denied else undeclared
                | Inr _ \<Rightarrow> undeclared)
            else
              Inr (case refusal_outcome command e (before \<noteq> None) backend (re_config reached) of
                  Some outcome \<Rightarrow> refused outcome e
                | None \<Rightarrow> undeclared))"

text \<open>
  A command on the stack of a world, once that world is arranged. \<open>flip\<close> is what the switches do to the
  world just before the command (a store or a backend made unavailable) and \<open>unflip\<close> what they do after
  it; \<open>before\<close> is read before they are flipped.
\<close>

definition observe ::
  "(bytes \<Rightarrow> string) \<Rightarrow> 'w conformance_world \<Rightarrow> ('w \<Rightarrow> 'w) \<Rightarrow> ('w \<Rightarrow> 'w) \<Rightarrow> string \<Rightarrow> accepted \<Rightarrow> (watch \<times> 'w, target_error, observed) io" where
  "observe base64 W flip unflip command acc =
     bindE (liftE (map_err (\<lambda>e. HarnessUnavailable ''registering a backend'' (error_code e)) (world_stack W))) (\<lambda>F.
     bindE (map_errE (\<lambda>e. HarnessUnavailable ''reading the namespace before the command'' (error_code e))
       (zoomE snd (\<lambda>w tw. (fst tw, w)) (cfg_namespace (wo_config W) (accepted_namespace acc)))) (\<lambda>before tw.
     let mark = fst tw;
         (result, tw') = execute F acc (mark, flip (snd tw))
     in (judge base64 command acc before (reached_since W mark (fst tw')) result, fst tw', unflip (snd tw'))))"

fun accepted_command :: "accepted \<Rightarrow> string" where
  "accepted_command (AddNamespace k m) = ''AddNamespace''"
| "accepted_command (RemoveNamespace k) = ''RemoveNamespace''"
| "accepted_command (SetMount k m) = ''SetMount''"
| "accepted_command (BindName a l) = ''Bind''"
| "accepted_command (UnbindName a) = ''Unbind''"
| "accepted_command (WriteSecret a v) = ''Write''"
| "accepted_command (ReadSecret a) = ''Read''"
| "accepted_command (DeleteSecret a) = ''Delete''"
| "accepted_command (RenameSecret a n) = ''Rename''"
| "accepted_command (ListMetadata s) = ''ListMetadata''"

section \<open>The specification\<close>

definition secret_refusals :: "(string \<times> string option) list" where
  "secret_refusals =
     [(''denied'', Some ''secrets.storage.Denied''), (''denied-user'', Some ''secrets.storage.Denied''),
      (''unavailable'', Some ''secrets.storage.Unavailable''), (''unresolved'', Some ''secrets.storage.NotFound'')]"

definition name_refusals :: "(string \<times> string option) list" where
  "name_refusals =
     [(''name-too-long'', Some ''secrets.storage.InvalidName''), (''invalid-name'', Some ''secrets.storage.InvalidName'')]"

definition declared_branches :: "string \<Rightarrow> (string \<times> string option) list" where
  "declared_branches command =
     (if command = ''AddNamespace'' then
       name_refusals @ [(''denied'', Some ''secrets.storage.Denied''), (''exists'', Some ''secrets.storage.Conflict''),
        (''no-backend'', Some ''secrets.storage.NotFound''), (''unavailable'', Some ''secrets.storage.Unavailable''), (''added'', None)]
      else if command = ''RemoveNamespace'' then
       [(''denied'', Some ''secrets.storage.Denied''), (''is-default'', Some ''secrets.storage.Conflict''),
        (''not-found'', Some ''secrets.storage.NotFound''), (''in-use'', Some ''secrets.storage.Conflict''),
        (''unavailable'', Some ''secrets.storage.Unavailable''), (''removed'', None)]
      else if command = ''SetMount'' then
       [(''denied'', Some ''secrets.storage.Denied''), (''no-namespace'', Some ''secrets.storage.NotFound''),
        (''no-backend'', Some ''secrets.storage.NotFound''), (''in-use'', Some ''secrets.storage.Conflict''),
        (''unavailable'', Some ''secrets.storage.Unavailable''), (''set'', None)]
      else if command = ''Bind'' then
       name_refusals @ [(''denied'', Some ''secrets.storage.Denied''), (''denied-user'', Some ''secrets.storage.Denied''),
        (''no-namespace'', Some ''secrets.storage.NotFound''), (''already-bound'', Some ''secrets.storage.Conflict''),
        (''unavailable'', Some ''secrets.storage.Unavailable''), (''bound'', None)]
      else if command = ''Unbind'' then
       [(''denied'', Some ''secrets.storage.Denied''), (''denied-user'', Some ''secrets.storage.Denied''),
        (''not-found'', Some ''secrets.storage.NotFound''), (''unavailable'', Some ''secrets.storage.Unavailable''), (''unbound'', None)]
      else if command = ''Write'' then
       secret_refusals @ name_refusals @ [(''too-large'', Some ''secrets.storage.TooLarge''),
        (''unsupported'', Some ''secrets.storage.Unsupported''), (''created'', None), (''replaced'', None)]
      else if command = ''Read'' then
       secret_refusals @ name_refusals @ [(''not-found'', Some ''secrets.storage.NotFound''), (''read'', None)]
      else if command = ''Delete'' then
       secret_refusals @ name_refusals @ [(''unsupported'', Some ''secrets.storage.Unsupported''),
        (''not-found'', Some ''secrets.storage.NotFound''), (''deleted'', None)]
      else if command = ''Rename'' then
       secret_refusals @ name_refusals @ [(''new-name-too-long'', Some ''secrets.storage.InvalidName''),
        (''unsupported'', Some ''secrets.storage.Unsupported''), (''not-found'', Some ''secrets.storage.NotFound''),
        (''taken'', Some ''secrets.storage.Conflict''), (''bound'', Some ''secrets.storage.Conflict''), (''renamed'', None)]
      else if command = ''ListMetadata'' then
       secret_refusals @ [(''unsupported'', Some ''secrets.storage.Unsupported''), (''listed'', None)]
      else [])"

lemma declared_branches_simps [simp]:
  "declared_branches ''AddNamespace'' =
     name_refusals @ [(''denied'', Some ''secrets.storage.Denied''), (''exists'', Some ''secrets.storage.Conflict''),
      (''no-backend'', Some ''secrets.storage.NotFound''), (''unavailable'', Some ''secrets.storage.Unavailable''), (''added'', None)]"
  "declared_branches ''RemoveNamespace'' =
     [(''denied'', Some ''secrets.storage.Denied''), (''is-default'', Some ''secrets.storage.Conflict''),
      (''not-found'', Some ''secrets.storage.NotFound''), (''in-use'', Some ''secrets.storage.Conflict''),
      (''unavailable'', Some ''secrets.storage.Unavailable''), (''removed'', None)]"
  "declared_branches ''SetMount'' =
     [(''denied'', Some ''secrets.storage.Denied''), (''no-namespace'', Some ''secrets.storage.NotFound''),
      (''no-backend'', Some ''secrets.storage.NotFound''), (''in-use'', Some ''secrets.storage.Conflict''),
      (''unavailable'', Some ''secrets.storage.Unavailable''), (''set'', None)]"
  "declared_branches ''Bind'' =
     name_refusals @ [(''denied'', Some ''secrets.storage.Denied''), (''denied-user'', Some ''secrets.storage.Denied''),
      (''no-namespace'', Some ''secrets.storage.NotFound''), (''already-bound'', Some ''secrets.storage.Conflict''),
      (''unavailable'', Some ''secrets.storage.Unavailable''), (''bound'', None)]"
  "declared_branches ''Unbind'' =
     [(''denied'', Some ''secrets.storage.Denied''), (''denied-user'', Some ''secrets.storage.Denied''),
      (''not-found'', Some ''secrets.storage.NotFound''), (''unavailable'', Some ''secrets.storage.Unavailable''), (''unbound'', None)]"
  "declared_branches ''Write'' =
     secret_refusals @ name_refusals @ [(''too-large'', Some ''secrets.storage.TooLarge''),
      (''unsupported'', Some ''secrets.storage.Unsupported''), (''created'', None), (''replaced'', None)]"
  "declared_branches ''Read'' =
     secret_refusals @ name_refusals @ [(''not-found'', Some ''secrets.storage.NotFound''), (''read'', None)]"
  "declared_branches ''Delete'' =
     secret_refusals @ name_refusals @ [(''unsupported'', Some ''secrets.storage.Unsupported''),
      (''not-found'', Some ''secrets.storage.NotFound''), (''deleted'', None)]"
  "declared_branches ''Rename'' =
     secret_refusals @ name_refusals @ [(''new-name-too-long'', Some ''secrets.storage.InvalidName''),
      (''unsupported'', Some ''secrets.storage.Unsupported''), (''not-found'', Some ''secrets.storage.NotFound''),
      (''taken'', Some ''secrets.storage.Conflict''), (''bound'', Some ''secrets.storage.Conflict''), (''renamed'', None)]"
  "declared_branches ''ListMetadata'' =
     secret_refusals @ [(''unsupported'', Some ''secrets.storage.Unsupported''), (''listed'', None)]"
  by (simp_all add: declared_branches_def)

end
