(* ===== verification/Conformance_Contract.thy ===== *)
theory Conformance_Contract
  imports Conformance_Observe
begin

text \<open>
  Every answer of the stack is one the specification declares. The locale \<open>conformance\<close> takes a
  configuration store that keeps its contract and backends whose refusals are among those each
  operation of the port may answer (\<open>honest_backend\<close>); in it the branch read off a command, with the
  counters around it, is never \<open>undeclared\<close>. It is interpreted in \<open>Conformance_Properties\<close>.
\<close>

section \<open>Honest backends\<close>

definition answers_in :: "storage_error set \<Rightarrow> ('w \<Rightarrow> bool) \<Rightarrow> ('w, storage_error, 'a) io \<Rightarrow> bool" where
  "answers_in E I m \<longleftrightarrow> (\<forall>w e w'. I w \<longrightarrow> m w = (Inl e, w') \<longrightarrow> e \<in> E)"

definition honest_backend :: "'w storage \<Rightarrow> ('w \<Rightarrow> bool) \<Rightarrow> bool" where
  "honest_backend S I \<longleftrightarrow>
     CapRead \<in> set (capabilities S) \<and> (\<forall>t. answers_in {NotFound, Unavailable} I (st_read S t)) \<and>
     (CapWrite \<in> set (capabilities S) \<longrightarrow> (\<forall>t v. answers_in {TooLarge, Unavailable} I (st_write S t v))) \<and>
     (CapDelete \<in> set (capabilities S) \<longrightarrow> (\<forall>t. answers_in {NotFound, Unavailable} I (st_delete S t))) \<and>
     (CapWrite \<in> set (capabilities S) \<and> CapDelete \<in> set (capabilities S) \<longrightarrow>
        (\<forall>t n. answers_in {NotFound, Conflict, Unavailable} I (st_rename S t n))) \<and>
     (CapList \<in> set (capabilities S) \<longrightarrow> (\<forall>s. answers_in {Unavailable} I (st_list S s)))"

lemma answers_inD: "answers_in E I m \<Longrightarrow> I w \<Longrightarrow> m w = (Inl e, w') \<Longrightarrow> e \<in> E"
  unfolding answers_in_def by blast

locale conformance = config_contract C inv up mounts bound rest
  for C :: "'w namespace_config" and inv and up and mounts and bound and rest :: "'w \<Rightarrow> 'r" +
  fixes W :: "'w conformance_world"
    and ok :: "backend_ref \<Rightarrow> 'w \<Rightarrow> bool"
  assumes config: "wo_config W = C"
    and ordered: "bt_wf (wo_mounted W)"
    and honest: "map_of (wo_mounted W) b = Some S \<Longrightarrow> honest_backend S (\<lambda>w. inv w \<and> ok b w)"
    and kept: "map_of (wo_mounted W) b = Some S \<Longrightarrow>
      keeps S (\<lambda>w w'. inv w \<longrightarrow> inv w' \<and> up w' = up w \<and> mounts w' = mounts w)"
begin

section \<open>The stack\<close>

definition all_ok :: "'w \<Rightarrow> bool" where
  "all_ok w \<longleftrightarrow> inv w \<and> (\<forall>b. ok b w)"

definition is_stack :: "(watch \<times> 'w) federated \<Rightarrow> bool" where
  "is_stack F \<longleftrightarrow> fed_config F = watched_config C \<and>
     (\<forall>b. map_of (fed_backends F) b = map_option (watched b) (map_of (wo_mounted W) b))"

lemma stack_obtain: "\<exists>F. world_stack W = Inr F \<and> is_stack F"
proof -
  let ?bs = "map (\<lambda>(b, S). (b, watched b S)) (wo_mounted W)"
  have m: "map_of (map (\<lambda>(b, S). (b, watched b S)) l) b = map_option (watched b) (map_of l b)"
    "map fst (map (\<lambda>(b, S). (b, watched b S)) l) = map fst l" for l :: "(backend_ref \<times> 'w storage) list" and b
    by (induction l) auto
  have d: "distinct (map fst ?bs)" unfolding m by (rule bt_wf_distinct [OF ordered])
  from mount_all_ok [OF d, of "fed_new (watched_config C)"] show ?thesis
    by (auto simp: world_stack_def config fed_new_def is_stack_def m simp del: map_map)
qed

section \<open>What a secret command reaches\<close>

definition mount_at :: "'w \<Rightarrow> namespace_key \<Rightarrow> backend_ref option" where
  "mount_at w k = map_option (\<lambda>m. case m of None \<Rightarrow> default_mount | Some b \<Rightarrow> b) (mounts w k)"

lemma counted_apply [simp]: "counted hit m (t, w) = (fst (m w), hit t, snd (m w))"
  by (simp add: counted_def case_prod_beta)

lemma hit_config_backends [simp]: "wa_backends (hit_config t) = wa_backends t"
  by (simp add: hit_config_def)

lemma mounted_watched:
  assumes F: "is_stack F" and w: "inv w"
  shows "mounted F s (t, w) =
    (if \<not> up w then Inl Unavailable
     else case mount_at w (namespace_key_of s) of
        None \<Rightarrow> Inl NotFound
      | Some b \<Rightarrow> (case map_of (wo_mounted W) b of None \<Rightarrow> Inl NotFound | Some S \<Rightarrow> Inr (watched b S)),
     hit_config t, w)"
proof (cases "up w")
  case True
  then show ?thesis
    using F get_namespace [OF w True]
    by (auto simp: mounted_def is_stack_def watched_config_def bindE_apply mount_at_def registered_def effective_mount_def
        split: option.split)
next
  case False
  then show ?thesis
    using F down [OF w False] by (simp add: mounted_def is_stack_def watched_config_def all_down_def answers_down_def bindE_apply)
qed

lemma watched_simps [simp]:
  "capabilities (watched b S) = capabilities S" "requires_binding (watched b S) = requires_binding S"
  "st_read (watched b S) g (t, w) = (fst (st_read S g w), hit_backend b t, snd (st_read S g w))"
  "st_write (watched b S) g v (t, w) = (fst (st_write S g v w), hit_backend b t, snd (st_write S g v w))"
  "st_delete (watched b S) g (t, w) = (fst (st_delete S g w), hit_backend b t, snd (st_delete S g w))"
  "st_rename (watched b S) g n (t, w) = (fst (st_rename S g n w), hit_backend b t, snd (st_rename S g n w))"
  "st_list (watched b S) s (t, w) = (fst (st_list S s w), hit_backend b t, snd (st_list S s w))"
  by (simp_all add: watched_def)

text \<open>Resolution asks the configuration only, and ends with the mounted backend or a refusal of the specification.\<close>

lemma resolve_watched:
  assumes F: "is_stack F" and w: "inv w"
  shows "\<exists>r t'. resolve F a needs (t, w) = (r, t', w) \<and> wa_backends t' = wa_backends t \<and>
    (case r of
       Inl e \<Rightarrow> e \<in> {Unavailable, NotFound} \<or> e = Unsupported \<and> needs \<noteq> [CapRead]
     | Inr (S', g) \<Rightarrow> up w \<and> (\<exists>b S. mount_at w (namespace_key_of (ad_scope a)) = Some b \<and> map_of (wo_mounted W) b = Some S \<and>
         S' = watched b S \<and> set needs \<subseteq> set (capabilities S)))"
proof (cases "up w")
  case False
  then show ?thesis using mounted_watched [OF F w] by (simp add: resolve_def)
next
  case True
  note m = mounted_watched [OF F w, of "ad_scope a" t]
  show ?thesis
  proof (cases "mount_at w (namespace_key_of (ad_scope a))")
    case None
    with True m show ?thesis by (simp add: resolve_def)
  next
    case b: (Some b)
    show ?thesis
    proof (cases "map_of (wo_mounted W) b")
      case None
      with True m b show ?thesis by (simp add: resolve_def)
    next
      case (Some S)
      have "CapRead \<in> set (capabilities S)" using honest [OF Some] by (simp add: honest_backend_def)
      moreover have c: "cfg_binding (fed_config F) a (t', w) = (Inr (bound w a), hit_config t', w)" for t'
        using F get_binding [OF w True] by (simp add: is_stack_def watched_config_def)
      ultimately show ?thesis
        using True m b Some
        by (cases "set needs \<subseteq> set (capabilities S)"; cases "requires_binding S"; cases "bound w a")
          (auto simp: resolve_def require_eq)
    qed
  qed
qed

section \<open>Judging\<close>

lemma reached_quiet: "wa_backends t' = wa_backends t \<Longrightarrow> re_backends (reached_since W t t') = []"
  by (simp add: reached_since_def)

lemma filter_one: "distinct l \<Longrightarrow> b \<in> set l \<Longrightarrow> filter (\<lambda>x. x = b) l = [b]"
  by (induction l) (auto simp: filter_empty_conv)

lemma reached_one:
  assumes "wa_backends t' = (wa_backends t)(b := wa_backends t b + 1)" "map_of (wo_mounted W) b = Some S"
  shows "re_backends (reached_since W t t') = [b]"
proof -
  have "b \<in> set (map fst (wo_mounted W))" using assms(2) by (force dest: map_of_SomeD)
  moreover have "(\<lambda>x. wa_backends t' x \<noteq> wa_backends t x) = (\<lambda>x. x = b)" using assms(1) by auto
  ultimately show ?thesis
    by (simp only: reached_since_def reached.simps filter_one [OF bt_wf_distinct [OF ordered]])
qed

definition declared :: "accepted \<Rightarrow> target_error + observed \<Rightarrow> bool" where
  "declared acc r \<longleftrightarrow> (case r of
     Inl e \<Rightarrow> False
   | Inr x \<Rightarrow> (case ob_outcome x of None \<Rightarrow> False | Some o' \<Rightarrow> (o', ob_error x) \<in> set (declared_branches (accepted_command acc))))"

lemma error_simps [simp]:
  "declared_error NotFound = Some ''secrets.storage.NotFound''" "declared_error Denied = Some ''secrets.storage.Denied''"
  "declared_error Unsupported = Some ''secrets.storage.Unsupported''"
  "declared_error Unavailable = Some ''secrets.storage.Unavailable''"
  "declared_error InvalidName = Some ''secrets.storage.InvalidName''"
  "declared_error TooLarge = Some ''secrets.storage.TooLarge''" "declared_error Conflict = Some ''secrets.storage.Conflict''"
  by code_simp+

text \<open>What the branch of a refusal is taken from, and the error it then has.\<close>

lemma judge_refused:
  assumes "re_backends reached = [] \<or> (\<exists>b. re_backends reached = [b] \<and> map_option effective_mount before = Some b)"
    and "e \<noteq> Denied" "refusal_outcome command e (before \<noteq> None) (re_backends reached \<noteq> []) (re_config reached) = Some outcome"
    and "(outcome, declared_error e) \<in> set (declared_branches (accepted_command acc))"
  shows "declared acc (judge base64 command acc before reached (Inl e))"
  using assms by (auto simp: judge_def declared_def refused_def)

lemma judge_done:
  assumes "re_backends reached = [] \<or> (\<exists>b. re_backends reached = [b] \<and> map_option effective_mount before = Some b)"
    and "declared acc (succeeded base64 command acc d)"
  shows "declared acc (judge base64 command acc before reached (Inr d))"
  using assms by (auto simp: judge_def Let_def)

lemma judge_denied:
  assumes "re_backends reached = []" "\<not> re_config reached" "conformance_decide (accepted_resource acc) command = Inl d"
    and "(denial_outcome d, Some ''secrets.storage.Denied'') \<in> set (declared_branches (accepted_command acc))"
  shows "declared acc (judge base64 command acc before reached (Inl Denied))"
  using assms by (simp add: judge_def declared_def refused_def)

text \<open>A secret command that was resolved, or refused before a backend was reached.\<close>

definition early_error :: "accepted \<Rightarrow> storage_error \<Rightarrow> bool" where
  "early_error acc e \<longleftrightarrow> e \<in> {Unavailable, NotFound} \<or> e = Unsupported \<and> (\<forall>a. acc \<noteq> ReadSecret a) \<or>
     e = TooLarge \<and> (\<exists>a v. acc = WriteSecret a v) \<or> e = Conflict \<and> (\<exists>a n. acc = RenameSecret a n)"

definition late_error :: "accepted \<Rightarrow> storage_error \<Rightarrow> bool" where
  "late_error acc e \<longleftrightarrow> e = Unavailable \<or> e = NotFound \<and> (\<forall>a v. acc \<noteq> WriteSecret a v) \<and> (\<forall>s. acc \<noteq> ListMetadata s) \<or>
     e = TooLarge \<and> (\<exists>a v. acc = WriteSecret a v) \<or> e = Conflict \<and> (\<exists>a n. acc = RenameSecret a n)"

definition fits :: "accepted \<Rightarrow> answered \<Rightarrow> bool" where
  "fits acc d \<longleftrightarrow> (case acc of WriteSecret a v \<Rightarrow> \<exists>x. d = DoneWritten x | ReadSecret a \<Rightarrow> \<exists>x. d = DoneRevealed x | _ \<Rightarrow> True)"

definition secret_answer :: "accepted \<Rightarrow> watch \<Rightarrow> 'w \<Rightarrow> storage_error + answered \<Rightarrow> watch \<Rightarrow> bool" where
  "secret_answer acc t w r t' \<longleftrightarrow>
     wa_backends t' = wa_backends t \<and> (\<exists>e. r = Inl e \<and> early_error acc e) \<or>
     (\<exists>b S. mount_at w (accepted_namespace acc) = Some b \<and> map_of (wo_mounted W) b = Some S \<and>
        wa_backends t' = (wa_backends t)(b := wa_backends t b + 1) \<and>
        (case r of Inl e \<Rightarrow> late_error acc e | Inr d \<Rightarrow> fits acc d))"

lemma judge_secret:
  assumes acc: "secret_scope acc \<noteq> None" and w: "secret_answer acc t w r t'"
    and before: "map_option effective_mount before = mount_at w (accepted_namespace acc)"
  shows "declared acc (judge base64 (accepted_command acc) acc before (reached_since W t t') r)"
proof -
  from w consider
    (early) e where "r = Inl e" "wa_backends t' = wa_backends t" "early_error acc e"
  | (late) b S where "mount_at w (accepted_namespace acc) = Some b" "map_of (wo_mounted W) b = Some S"
      "wa_backends t' = (wa_backends t)(b := wa_backends t b + 1)" "case r of Inl e \<Rightarrow> late_error acc e | Inr d \<Rightarrow> fits acc d"
    unfolding secret_answer_def by blast
  then show ?thesis
  proof cases
    case early
    then have q: "re_backends (reached_since W t t') = []" by (intro reached_quiet)
    show ?thesis
      unfolding early(1)
      by (rule judge_refused [where outcome = "if e = Unavailable then ''unavailable'' else if e = NotFound then ''unresolved''
          else if e = Unsupported then ''unsupported'' else if e = TooLarge then ''too-large'' else ''bound''"])
        (use acc early q in \<open>cases acc; auto simp: early_error_def late_error_def refusal_outcome_def secret_refusals_def\<close>)+
  next
    case late
    then have q: "re_backends (reached_since W t t') = [b]" by (intro reached_one)
    show ?thesis
    proof (cases r)
      case (Inl e)
      show ?thesis
        unfolding Inl
        by (rule judge_refused [where outcome = "if e = Unavailable then ''unavailable'' else if e = NotFound then ''not-found''
            else if e = TooLarge then ''too-large'' else ''taken''"])
          (use acc late q before Inl in \<open>cases acc; auto simp: early_error_def late_error_def refusal_outcome_def secret_refusals_def\<close>)+
    next
      case (Inr d)
      show ?thesis
        unfolding Inr
        by (rule judge_done)
          (use acc late q before Inr in \<open>cases acc; auto simp: fits_def declared_def event_done_def secret_refusals_def split: written.splits\<close>)+
    qed
  qed
qed

text \<open>What an honest backend refuses with, where it has the capability.\<close>

lemma honest_refusals:
  assumes "map_of (wo_mounted W) b = Some S" "inv w" "\<forall>b. ok b w"
  shows "fst (st_read S g w) = Inl e \<Longrightarrow> e \<in> {NotFound, Unavailable}"
    "CapWrite \<in> set (capabilities S) \<Longrightarrow> fst (st_write S g v w) = Inl e \<Longrightarrow> e \<in> {TooLarge, Unavailable}"
    "CapDelete \<in> set (capabilities S) \<Longrightarrow> fst (st_delete S g w) = Inl e \<Longrightarrow> e \<in> {NotFound, Unavailable}"
    "CapWrite \<in> set (capabilities S) \<Longrightarrow> CapDelete \<in> set (capabilities S) \<Longrightarrow> fst (st_rename S g n w) = Inl e \<Longrightarrow>
      e \<in> {NotFound, Conflict, Unavailable}"
    "CapList \<in> set (capabilities S) \<Longrightarrow> fst (st_list S s w) = Inl e \<Longrightarrow> e \<in> {Unavailable}"
proof -
  note h = honest [OF assms(1), unfolded honest_backend_def]
  have i: "inv w \<and> ok b w" using assms by blast
  have d: "answers_in E (\<lambda>w. inv w \<and> ok b w) m \<Longrightarrow> fst (m w) = Inl e \<Longrightarrow> e \<in> E" for E and m :: "('w, storage_error, 'x) io"
    using answers_inD [of E _ m w e "snd (m w)"] i by (metis prod.collapse)
  show "fst (st_read S g w) = Inl e \<Longrightarrow> e \<in> {NotFound, Unavailable}"
    by (rule d) (use h in blast)
  show "CapWrite \<in> set (capabilities S) \<Longrightarrow> fst (st_write S g v w) = Inl e \<Longrightarrow> e \<in> {TooLarge, Unavailable}"
    by (rule d) (use h in blast)
  show "CapDelete \<in> set (capabilities S) \<Longrightarrow> fst (st_delete S g w) = Inl e \<Longrightarrow> e \<in> {NotFound, Unavailable}"
    by (rule d) (use h in blast)
  show "CapWrite \<in> set (capabilities S) \<Longrightarrow> CapDelete \<in> set (capabilities S) \<Longrightarrow> fst (st_rename S g n w) = Inl e \<Longrightarrow>
      e \<in> {NotFound, Conflict, Unavailable}"
    by (rule d) (use h in blast)
  show "CapList \<in> set (capabilities S) \<Longrightarrow> fst (st_list S s w) = Inl e \<Longrightarrow> e \<in> {Unavailable}"
    by (rule d) (use h in blast)
qed

section \<open>Secret commands\<close>

text \<open>An operation of the backend that resolution ends with.\<close>

lemma after_resolve:
  assumes F: "is_stack F" and w: "inv w"
    and run: "bindE (resolve F a needs) (\<lambda>(S, g). m S g) (t, w) = (r, t', w')"
    and m: "\<And>b S g t. map_of (wo_mounted W) b = Some S \<Longrightarrow> set needs \<subseteq> set (capabilities S) \<Longrightarrow>
      m (watched b S) g (t, w) = (fst (op S g w), hit_backend b t, snd (op S g w))"
    and acc: "accepted_namespace acc = namespace_key_of (ad_scope a)" "(\<exists>a. acc = ReadSecret a) \<longleftrightarrow> needs = [CapRead]"
    and late: "\<And>b S g e w'. map_of (wo_mounted W) b = Some S \<Longrightarrow> set needs \<subseteq> set (capabilities S) \<Longrightarrow>
      op S g w = (Inl e, w') \<Longrightarrow> late_error acc e"
    and fits: "\<And>d. fits acc (wrap d)"
  shows "secret_answer acc t w (map_sum id wrap r) t'"
proof -
  from resolve_watched [OF F w, of a needs t] obtain x t1 where
    x: "resolve F a needs (t, w) = (x, t1, w)" "wa_backends t1 = wa_backends t"
    "case x of Inl e \<Rightarrow> e \<in> {Unavailable, NotFound} \<or> e = Unsupported \<and> needs \<noteq> [CapRead]
     | Inr (S', g) \<Rightarrow> up w \<and> (\<exists>b S. mount_at w (namespace_key_of (ad_scope a)) = Some b \<and> map_of (wo_mounted W) b = Some S \<and>
         S' = watched b S \<and> set needs \<subseteq> set (capabilities S))" by blast
  show ?thesis
  proof (cases x)
    case (Inl e)
    with x run acc have "r = Inl e" "t' = t1" "early_error acc e" by (auto simp: early_error_def)
    with x show ?thesis by (simp add: secret_answer_def)
  next
    case (Inr y)
    with x obtain b S g where y: "y = (watched b S, g)" "mount_at w (namespace_key_of (ad_scope a)) = Some b"
      "map_of (wo_mounted W) b = Some S" "set needs \<subseteq> set (capabilities S)" by auto
    with x Inr run m [OF y(3,4), of g t1] have r: "r = fst (op S g w)" "t' = hit_backend b t1" by auto
    have "case map_sum id wrap r of Inl e \<Rightarrow> late_error acc e | Inr d \<Rightarrow> fits acc d"
      using late [OF y(3,4), of g] fits r by (cases r; cases "op S g w") auto
    with y x r acc show ?thesis by (auto simp: secret_answer_def hit_backend_def)
  qed
qed

lemma execute_read:
  assumes F: "is_stack F" and w: "inv w" "\<forall>b. ok b w" and a: "local_address a"
    and run: "execute F (ReadSecret a) (t, w) = (r, t', w')"
  shows "secret_answer (ReadSecret a) t w r t'"
proof -
  obtain r0 where r0: "fed_read F (unbound a) (t, w) = (r0, t', w')" and r: "r = map_sum id DoneRevealed r0"
    using run a by (cases "fed_read F (unbound a) (t, w)"; cases "fst (fed_read F (unbound a) (t, w))")
      (auto simp: bindE_apply unbound_def fed_storage_def)
  show ?thesis
    unfolding r
  proof (rule after_resolve [OF F w(1) r0 [unfolded fed_read_def], of st_read], goal_cases)
    case (4 b S g e w')
    then show ?case
      using honest_refusals(1) [OF 4(1) w, of g e] by (auto simp: late_error_def)
  qed (auto simp: unbound_def fits_def)
qed

lemma execute_write:
  assumes F: "is_stack F" and w: "inv w" "\<forall>b. ok b w" and a: "local_address a"
    and run: "execute F (WriteSecret a v) (t, w) = (r, t', w')"
  shows "secret_answer (WriteSecret a v) t w r t'"
proof (cases "secret_value_new (expose v)")
  case (Inl e)
  then have "e = TooLarge" by (simp add: secret_value_new_def split: if_splits)
  with Inl run show ?thesis by (auto simp: secret_answer_def early_error_def)
next
  case (Inr v')
  obtain r0 where r0: "fed_write F (unbound a) v' (t, w) = (r0, t', w')" and r: "r = map_sum id DoneWritten r0"
    using run a Inr by (cases "fed_write F (unbound a) v' (t, w)"; cases "fst (fed_write F (unbound a) v' (t, w))")
      (auto simp: bindE_apply unbound_def fed_storage_def)
  show ?thesis
    unfolding r
  proof (rule after_resolve [OF F w(1) r0 [unfolded fed_write_def], of "\<lambda>S g. st_write S g v'"], goal_cases)
    case (4 b S g e w')
    then show ?case
      using honest_refusals(2) [OF 4(1) w, of g v' e] by (auto simp: late_error_def)
  qed (auto simp: unbound_def fits_def)
qed

lemma unit_done_eq: "unit_done m w = (r, w') \<Longrightarrow> \<exists>r0. m w = (r0, w') \<and> r = map_sum id (\<lambda>_. DoneUnit) r0"
  by (cases "m w"; cases "fst (m w)") (auto simp: unit_done_def)

lemma execute_delete:
  assumes F: "is_stack F" and w: "inv w" "\<forall>b. ok b w" and a: "local_address a"
    and run: "execute F (DeleteSecret a) (t, w) = (r, t', w')"
  shows "secret_answer (DeleteSecret a) t w r t'"
proof -
  obtain r0 where r0: "fed_delete F (unbound a) (t, w) = (r0, t', w')" and r: "r = map_sum id (\<lambda>_. DoneUnit) r0"
    using run a by (auto simp: unbound_def fed_storage_def dest!: unit_done_eq)
  show ?thesis
    unfolding r
  proof (rule after_resolve [OF F w(1) r0 [unfolded fed_delete_def], of st_delete], goal_cases)
    case (4 b S g e w')
    then show ?case
      using honest_refusals(3) [OF 4(1) w, of g e] by (auto simp: late_error_def)
  qed (auto simp: unbound_def fits_def)
qed

lemma execute_rename:
  assumes F: "is_stack F" and w: "inv w" "\<forall>b. ok b w" and a: "local_address a"
    and run: "execute F (RenameSecret a n) (t, w) = (r, t', w')"
  shows "secret_answer (RenameSecret a n) t w r t'"
proof -
  obtain r0 where r0: "fed_rename F (unbound a) n (t, w) = (r0, t', w')" and r: "r = map_sum id (\<lambda>_. DoneUnit) r0"
    using run a by (auto simp: unbound_def fed_storage_def dest!: unit_done_eq)
  from resolve_watched [OF F w(1), of a "[CapWrite, CapDelete]" t] obtain x t1 where
    x: "resolve F a [CapWrite, CapDelete] (t, w) = (x, t1, w)" "wa_backends t1 = wa_backends t"
    "case x of Inl e \<Rightarrow> e \<in> {Unavailable, NotFound} \<or> e = Unsupported \<and> [CapWrite, CapDelete] \<noteq> [CapRead]
     | Inr (S', g) \<Rightarrow> up w \<and> (\<exists>b S. mount_at w (namespace_key_of (ad_scope a)) = Some b \<and> map_of (wo_mounted W) b = Some S \<and>
         S' = watched b S \<and> set [CapWrite, CapDelete] \<subseteq> set (capabilities S))" by blast
  show ?thesis
  proof (cases x)
    case (Inl e)
    with x r0 r show ?thesis by (auto simp: fed_rename_def unbound_def secret_answer_def early_error_def)
  next
    case (Inr y)
    with x obtain b S g where y: "y = (watched b S, g)" "mount_at w (namespace_key_of (ad_scope a)) = Some b"
      "map_of (wo_mounted W) b = Some S" "set [CapWrite, CapDelete] \<subseteq> set (capabilities S)" and u: "up w" by auto
    have c: "cfg_binding (fed_config F) x (t, w) = (Inr (bound w x), hit_config t, w)" for x t
      using F get_binding [OF w(1) u] by (simp add: is_stack_def watched_config_def)
    let ?bound = "bound w (tg_address g) \<noteq> None \<or> bound w \<lparr>ad_scope = ad_scope (tg_address g), ad_name = n\<rparr> \<noteq> None"
    show ?thesis
    proof (cases ?bound)
      case True
      then have "r0 = Inl Conflict \<and> wa_backends t' = wa_backends t"
        using r0 x(1,2) Inr y(1) c by (auto simp: fed_rename_def unbound_def Let_def bindE_apply split: if_splits)
      with r show ?thesis by (simp add: secret_answer_def early_error_def)
    next
      case False
      then have "r0 = fst (st_rename S g n w) \<and> wa_backends t' = (wa_backends t)(b := wa_backends t b + 1)"
        using r0 x(1,2) Inr y(1) c by (auto simp: fed_rename_def unbound_def Let_def bindE_apply hit_backend_def split: if_splits)
      moreover have "fst (st_rename S g n w) = Inl e \<Longrightarrow> late_error (RenameSecret a n) e" for e
        using honest_refusals(4) [OF y(3) w, of g n e] y(4) by (auto simp: late_error_def)
      ultimately show ?thesis
        using r y by (cases "fst (st_rename S g n w)") (auto simp: secret_answer_def fits_def)
    qed
  qed
qed

lemma execute_list:
  assumes F: "is_stack F" and w: "inv w" "\<forall>b. ok b w" and s: "sc_tenant s = default_name" "sc_user s = default_name"
    and run: "execute F (ListMetadata s) (t, w) = (r, t', w')"
  shows "secret_answer (ListMetadata s) t w r t'"
proof -
  obtain r0 where r0: "fed_list F s (t, w) = (r0, t', w')" and r: "r = map_sum id (\<lambda>_. DoneUnit) r0"
    using run s by (cases "fed_list F s (t, w)"; cases "fst (fed_list F s (t, w))") (auto simp: bindE_apply fed_storage_def)
  note m = mounted_watched [OF F w(1), of s t]
  show ?thesis
  proof (cases "up w \<and> (\<exists>b S. mount_at w (namespace_key_of s) = Some b \<and> map_of (wo_mounted W) b = Some S \<and> CapList \<in> set (capabilities S))")
    case False
    then have "wa_backends t' = wa_backends t \<and> r0 \<in> {Inl Unavailable, Inl NotFound, Inl Unsupported}"
      using m r0 by (auto simp: fed_list_def bindE_apply require_eq split: option.splits if_splits)
    with r show ?thesis by (auto simp: secret_answer_def early_error_def)
  next
    case True
    then obtain b S where b: "up w" "mount_at w (namespace_key_of s) = Some b" "map_of (wo_mounted W) b = Some S"
      "CapList \<in> set (capabilities S)" by blast
    have "wa_backends t' = (wa_backends t)(b := wa_backends t b + 1) \<and> (\<forall>e. r0 = Inl e \<longrightarrow> e = Unavailable)"
      using m r0 b honest_refusals(5) [OF b(3) w b(4), of s]
      by (cases "fst (st_list S s w)"; cases "st_list S s w") (auto simp: fed_list_def bindE_apply require_eq hit_backend_def)
    with r b show ?thesis by (cases r0) (auto simp: secret_answer_def late_error_def fits_def)
  qed
qed

end

end
