(* ===== verification/Conformance_Admin.thy ===== *)
theory Conformance_Admin
  imports Conformance_Contract
begin

text \<open>
  The commands that a denial refuses, and the commands on namespaces and bindings: what they reach,
  and that the branch read off them is declared. With the secret commands of \<open>Conformance_Contract\<close>
  every command is covered.
\<close>

section \<open>Denials\<close>

lemma local_decide_action: "local_decide r a = local_decide r a'"
  by (simp add: local_decide_def)

lemma conformance_decide_eq: "conformance_decide r command = local_decide r ManageNamespace"
proof -
  have "try_for_each (local_decide r) as = local_decide r ManageNamespace" if "as \<noteq> []" for as
    using that
  proof (induction as)
    case (Cons a as)
    have "local_decide r a = local_decide r ManageNamespace" by (rule local_decide_action)
    with Cons show ?case by (cases "local_decide r ManageNamespace"; cases "as = []") auto
  qed simp
  then show ?thesis by (simp add: conformance_decide_def command_actions_def)
qed

lemma admitted_address: "local_decide (resource_of_address a) x = Inr () \<longleftrightarrow> local_address a"
  using la.admit [of "resource_of_address a" x] la.refuse [of "resource_of_address a" x]
  by (cases "local_admits (resource_of_address a) x") (auto simp: local_admits_address local_address_def)

lemma admitted_scope:
  "local_decide (resource_of_scope s) x = Inr () \<longleftrightarrow> sc_tenant s = default_name \<and> sc_user s = default_name"
  using la.admit [of "resource_of_scope s" x] la.refuse [of "resource_of_scope s" x]
  by (cases "local_admits (resource_of_scope s) x") (auto simp: local_admits_scope)

text \<open>A command the authorizer refuses reaches nothing.\<close>

lemma execute_denied:
  assumes "local_decide (accepted_resource acc) ManageNamespace = Inl d"
  shows "\<exists>r. execute F acc tw = (r, tw) \<and> (r = Inl Denied \<or> r = Inl TooLarge \<and> (\<exists>a v. acc = WriteSecret a v))"
proof -
  have n: "\<not> local_address a" if "accepted_resource acc = resource_of_address a" for a
    using assms admitted_address [of a ManageNamespace] that by auto
  have s: "\<not> (sc_tenant s = default_name \<and> sc_user s = default_name)" if "accepted_resource acc = resource_of_scope s" for s
    using assms admitted_scope [of s ManageNamespace] that by auto
  have m: "authorize local_decide (accepted_resource acc) ManageNamespace = Inl Denied"
    using assms by (simp add: authorize_def storage_error_of_denial_def)
  show ?thesis
  proof (cases acc)
    case (WriteSecret a v)
    with n show ?thesis
      by (cases "secret_value_new (expose v)") (auto simp: unbound_def failE_def liftE_def bindE_apply secret_value_new_def split: if_splits)
  qed (use m n s in \<open>auto simp: managed_def unit_done_def unbound_def failE_def\<close>)
qed

lemma denial_declared:
  assumes "local_decide (accepted_resource acc) x = Inl d"
  shows "(denial_outcome d, Some ''secrets.storage.Denied'') \<in> set (declared_branches (accepted_command acc))"
proof (cases acc)
  case (AddNamespace k m)
  with assms show ?thesis by (auto simp: local_decide_def resource_of_namespace_def split: if_splits)
next
  case (RemoveNamespace k)
  with assms show ?thesis by (auto simp: local_decide_def resource_of_namespace_def split: if_splits)
next
  case (SetMount k m)
  with assms show ?thesis by (auto simp: local_decide_def resource_of_namespace_def split: if_splits)
qed (cases d; simp add: secret_refusals_def)+

context conformance
begin

lemma judged_denied:
  assumes "local_decide (accepted_resource acc) ManageNamespace = Inl d" "execute F acc (t, w) = (r, t', w')"
  shows "declared acc (judge base64 (accepted_command acc) acc before (reached_since W t t') r)"
proof -
  from execute_denied [OF assms(1), of F "(t, w)"] assms(2) have t: "t' = t"
    and r: "r = Inl Denied \<or> r = Inl TooLarge \<and> (\<exists>a v. acc = WriteSecret a v)" by auto
  have q: "re_backends (reached_since W t t') = []" "\<not> re_config (reached_since W t t')"
    by (simp_all add: t reached_since_def)
  from r show ?thesis
  proof (elim disjE conjE exE)
    assume r: "r = Inl Denied"
    show ?thesis
      unfolding r
      by (rule judge_denied [OF q _ denial_declared [OF assms(1)]]) (simp add: conformance_decide_eq assms(1))
  next
    fix a v
    assume "r = Inl TooLarge" "acc = WriteSecret a v"
    with q show ?thesis
      by (auto intro!: judge_refused [where outcome = "''too-large''"] simp: refusal_outcome_def)
  qed
qed

section \<open>Namespaces and bindings\<close>

text \<open>No backend was reached, or the one the namespace is mounted on, once.\<close>

definition reached_mount :: "'w \<Rightarrow> namespace_key \<Rightarrow> watch \<Rightarrow> watch \<Rightarrow> bool" where
  "reached_mount w k t t' \<longleftrightarrow> wa_backends t' = wa_backends t \<or>
     (\<exists>b S. mount_at w k = Some b \<and> map_of (wo_mounted W) b = Some S \<and> wa_backends t' = (wa_backends t)(b := wa_backends t b + 1))"

lemma reached_mount_backends:
  assumes "reached_mount w k t t'" "map_option effective_mount before = mount_at w k"
  shows "re_backends (reached_since W t t') = [] \<or>
    (\<exists>b. re_backends (reached_since W t t') = [b] \<and> map_option effective_mount before = Some b)"
  using assms reached_quiet reached_one unfolding reached_mount_def by fastforce

lemma watched_config_simps [simp]:
  "cfg_namespace (watched_config C) k (t, w) = (fst (cfg_namespace C k w), hit_config t, snd (cfg_namespace C k w))"
  "cfg_has_bindings (watched_config C) k (t, w) = (fst (cfg_has_bindings C k w), hit_config t, snd (cfg_has_bindings C k w))"
  "cfg_insert_namespace (watched_config C) n (t, w) = (fst (cfg_insert_namespace C n w), hit_config t, snd (cfg_insert_namespace C n w))"
  "cfg_remove_namespace (watched_config C) k (t, w) = (fst (cfg_remove_namespace C k w), hit_config t, snd (cfg_remove_namespace C k w))"
  "cfg_set_mount (watched_config C) k b (t, w) = (fst (cfg_set_mount C k b w), hit_config t, snd (cfg_set_mount C k b w))"
  "cfg_insert_binding (watched_config C) a l (t, w) = (fst (cfg_insert_binding C a l w), hit_config t, snd (cfg_insert_binding C a l w))"
  "cfg_remove_binding (watched_config C) a (t, w) = (fst (cfg_remove_binding C a w), hit_config t, snd (cfg_remove_binding C a w))"
  by (simp_all add: watched_config_def)

lemma namespace_fst:
  "inv w \<Longrightarrow> fst (cfg_namespace C k w) =
    (if up w then Inr (map_option (\<lambda>m. \<lparr>ns_key = k, ns_mount = m\<rparr>) (mounts w k)) else Inl Unavailable)"
  "inv w \<Longrightarrow> snd (cfg_namespace C k w) = w"
  by (cases "up w"; simp add: get_namespace namespace_down)+

lemma holds_watched:
  assumes F: "is_stack F" and w: "inv w" "\<forall>b. ok b w" and m: "mounts w k = Some m"
    and run: "holds_secrets F \<lparr>ns_key = k, ns_mount = m\<rparr> (t, w) = (r, t', w')"
  shows "reached_mount w k t t' \<and> wa_config t' = wa_config t \<and> inv w' \<and> up w' = up w \<and> mounts w' = mounts w \<and>
    (\<forall>e. r = Inl e \<longrightarrow> e = Unavailable)"
proof -
  let ?n = "\<lparr>ns_key = k, ns_mount = m\<rparr>"
  let ?s = "\<lparr>sc_tenant = nk_tenant k, sc_namespace = nk_namespace k, sc_user = default_name\<rparr>"
  have e: "mount_at w k = Some (effective_mount ?n)" using m by (simp add: mount_at_def effective_mount_def)
  show ?thesis
  proof (cases "map_of (wo_mounted W) (effective_mount ?n)")
    case None
    with F run w show ?thesis by (auto simp: holds_secrets_def is_stack_def reached_mount_def retE_def)
  next
    case (Some S)
    show ?thesis
    proof (cases "CapList \<in> set (capabilities S)")
      case False
      with F run w Some show ?thesis by (auto simp: holds_secrets_def is_stack_def reached_mount_def retE_def)
    next
      case True
      have k: "inv (snd (st_list S ?s w)) \<and> up (snd (st_list S ?s w)) = up w \<and> mounts (snd (st_list S ?s w)) = mounts w"
        using kept [OF Some] w unfolding keeps_def by blast
      have h: "fst (st_list S ?s w) = Inl e \<Longrightarrow> e = Unavailable" for e
        using honest_refusals(5) [OF Some w True, of ?s e] by simp
      have b: "map_of (fed_backends F) (effective_mount ?n) = Some (watched (effective_mount ?n) S)"
        using F Some by (simp add: is_stack_def)
      show ?thesis
        using run True k h e Some b
        by (cases "fst (st_list S ?s w)") (auto simp: holds_secrets_def bindE_apply retE_def reached_mount_def hit_backend_def)
    qed
  qed
qed

lemma judged_unit:
  assumes acc: "secret_scope acc = None" and reached: "reached_mount w k t t'"
    and before: "map_option effective_mount before = mount_at w k"
    and e: "\<And>e. r = Inl e \<Longrightarrow> e \<in> {Unavailable, NotFound} \<or> e = Conflict \<and> (\<forall>a. acc \<noteq> UnbindName a)"
  shows "declared acc (judge base64 (accepted_command acc) acc before (reached_since W t t') (map_sum id (\<lambda>_. DoneUnit) r))"
proof (cases r)
  case (Inl x)
  note b = reached_mount_backends [OF reached before]
  let ?o = "refusal_outcome (accepted_command acc) x (before \<noteq> None) (re_backends (reached_since W t t') \<noteq> [])
    (re_config (reached_since W t t'))"
  have "\<exists>outcome. ?o = Some outcome \<and> (outcome, declared_error x) \<in> set (declared_branches (accepted_command acc))"
    using acc e [OF Inl] by (cases acc) (auto simp: refusal_outcome_def name_refusals_def)
  moreover have "x \<noteq> Denied" using e [OF Inl] by auto
  ultimately show ?thesis using judge_refused [OF b, of x] by (auto simp: Inl)
next
  case (Inr u)
  have "declared acc (succeeded base64 (accepted_command acc) acc DoneUnit)"
    using acc by (cases acc) (auto simp: declared_def event_done_def name_refusals_def)
  then show ?thesis
    using judge_done [OF reached_mount_backends [OF reached before]] by (simp add: Inr)
qed

lemma reached_quietly: "wa_backends t' = wa_backends t \<Longrightarrow> reached_mount w k t t'"
  by (simp add: reached_mount_def)

lemma add_watched:
  assumes F: "is_stack F" and w: "inv w" and run: "add_namespace F k m (t, w) = (r, t', w')"
  shows "reached_mount w k t t' \<and> (\<forall>e. r = Inl e \<longrightarrow> e \<in> {Unavailable, NotFound, Conflict})"
proof (cases "up w")
  case False
  with F run namespace_fst [OF w] show ?thesis
    by (auto simp: add_namespace_def is_stack_def bindE_apply reached_quietly split: prod.splits)
next
  case True
  have "add_namespace F k m (t, w) =
      (if mounts w k \<noteq> None then (Inl Conflict, hit_config t, w)
       else if map_of (wo_mounted W) (effective_mount \<lparr>ns_key = k, ns_mount = m\<rparr>) = None then (Inl NotFound, hit_config t, w)
       else cfg_insert_namespace (watched_config C) \<lparr>ns_key = k, ns_mount = m\<rparr> (hit_config t, w))"
    using F True namespace_fst [OF w]
    by (auto simp: add_namespace_def is_stack_def bindE_apply registered_def failE_def liftE_def Let_def)
  with run insert_namespace [OF w True, of "\<lparr>ns_key = k, ns_mount = m\<rparr>"] show ?thesis
    by (cases "cfg_insert_namespace C \<lparr>ns_key = k, ns_mount = m\<rparr> w") (auto simp: reached_quietly split: if_splits)
qed

lemma bind_watched:
  assumes F: "is_stack F" and w: "inv w" and run: "bind_address F a l (t, w) = (r, t', w')"
  shows "reached_mount w k t t' \<and> (\<forall>e. r = Inl e \<longrightarrow> e \<in> {Unavailable, NotFound, Conflict})"
proof (cases "up w")
  case False
  with F run namespace_fst [OF w] show ?thesis
    by (auto simp: bind_address_def is_stack_def bindE_apply reached_quietly)
next
  case True
  have "bind_address F a l (t, w) =
      (if mounts w (namespace_key_of (ad_scope a)) = None then (Inl NotFound, hit_config t, w)
       else cfg_insert_binding (watched_config C) a l (hit_config t, w))"
    using F True namespace_fst [OF w] by (auto simp: bind_address_def is_stack_def bindE_apply failE_def liftE_def)
  with run insert_binding [OF w True, of a l] show ?thesis
    by (cases "cfg_insert_binding C a l w") (auto simp: reached_quietly split: if_splits)
qed

lemma unbind_watched:
  assumes F: "is_stack F" and w: "inv w" and run: "unbind_address F a (t, w) = (r, t', w')"
  shows "reached_mount w k t t' \<and> (\<forall>e. r = Inl e \<longrightarrow> e \<in> {Unavailable, NotFound})"
proof (cases "up w")
  case False
  then have "fst (cfg_remove_binding C a w) = Inl Unavailable"
    using down [OF w] by (simp add: all_down_def refuses_down_def)
  with F run show ?thesis by (auto simp: unbind_address_def is_stack_def reached_quietly)
next
  case True
  with F run remove_binding [OF w True, of a] show ?thesis
    by (cases "cfg_remove_binding C a w") (auto simp: unbind_address_def is_stack_def reached_quietly split: if_splits)
qed

lemma set_watched:
  assumes F: "is_stack F" and w: "inv w" "\<forall>b. ok b w" and run: "set_mount F k m (t, w) = (r, t', w')"
  shows "reached_mount w k t t' \<and> (\<forall>e. r = Inl e \<longrightarrow> e \<in> {Unavailable, NotFound, Conflict})"
proof (cases "up w \<and> mounts w k \<noteq> None \<and> map_of (wo_mounted W) m \<noteq> None")
  case False
  with F run namespace_fst [OF w(1)] show ?thesis
    by (cases "mounts w k") (auto simp: set_mount_def is_stack_def bindE_apply reached_quietly registered_def failE_def liftE_def split: if_splits)
next
  case True
  then obtain x where x: "mounts w k = Some x" and u: "up w" by auto
  obtain h t1 w1 where h: "holds_secrets F \<lparr>ns_key = k, ns_mount = x\<rparr> (hit_config t, w) = (h, t1, w1)"
    by (cases "holds_secrets F \<lparr>ns_key = k, ns_mount = x\<rparr> (hit_config t, w)") auto
  note k = holds_watched [OF F w x h]
  then have q: "reached_mount w k t t1" by (simp add: reached_mount_def)
  have "reached_mount w k t (hit_config t1)" using q by (simp add: reached_mount_def)
  moreover have "set_mount F k m (t, w) =
      (case h of Inl e \<Rightarrow> (Inl e, t1, w1) | Inr True \<Rightarrow> (Inl Conflict, t1, w1)
       | Inr False \<Rightarrow> cfg_set_mount (watched_config C) k m (t1, w1))"
    using F True x h namespace_fst [OF w(1)]
    by (cases "mounts w k") (auto simp: set_mount_def is_stack_def bindE_apply registered_def failE_def liftE_def split: sum.split bool.split)
  ultimately show ?thesis
    using run k q set_mount [of w1 k m] u
    by (cases "cfg_set_mount C k m w1") (auto split: sum.splits bool.splits if_splits)
qed

lemma remove_watched:
  assumes F: "is_stack F" and w: "inv w" "\<forall>b. ok b w" and run: "remove_namespace F k (t, w) = (r, t', w')"
  shows "reached_mount w k t t' \<and> (\<forall>e. r = Inl e \<longrightarrow> e \<in> {Unavailable, NotFound, Conflict})"
proof (cases "up w \<and> mounts w k \<noteq> None \<and> \<not> is_default (nk_namespace k)")
  case False
  with F run namespace_fst [OF w(1)] show ?thesis
    by (auto simp: remove_namespace_def is_stack_def bindE_apply reached_quietly failE_def liftE_def split: if_splits)
next
  case True
  then obtain x where x: "mounts w k = Some x" and u: "up w" by auto
  let ?t = "hit_config (hit_config t)"
  define held where "held \<longleftrightarrow> (\<exists>a. in_namespace k a \<and> bound w a \<noteq> None)"
  have held: "cfg_has_bindings C k w = (Inr held, w)"
    unfolding held_def by (rule get_has_bindings [OF w(1) u])
  have d: "k \<noteq> local_default" using True by (auto simp: local_default_def is_default_def default_name_def)
  obtain h t1 w1 where h: "holds_secrets F \<lparr>ns_key = k, ns_mount = x\<rparr> (?t, w) = (h, t1, w1)"
    by (cases "holds_secrets F \<lparr>ns_key = k, ns_mount = x\<rparr> (?t, w)") auto
  note k = holds_watched [OF F w x h]
  then have q: "reached_mount w k t t1" by (simp add: reached_mount_def)
  have "reached_mount w k t (hit_config t1)" using q by (simp add: reached_mount_def)
  moreover have "remove_namespace F k (t, w) =
      (if held then (Inl Conflict, ?t, w)
       else case h of Inl e \<Rightarrow> (Inl e, t1, w1) | Inr True \<Rightarrow> (Inl Conflict, t1, w1)
       | Inr False \<Rightarrow> cfg_remove_namespace (watched_config C) k (t1, w1))"
    using F True x h namespace_fst [OF w(1)] held
    by (cases held) (simp_all add: remove_namespace_def is_stack_def bindE_apply failE_def liftE_def retE_def split: sum.split bool.split)
  ultimately show ?thesis
    using run k q remove_namespace [of w1 k] u d
    by (cases "cfg_remove_namespace C k w1") (auto simp: reached_quietly split: sum.splits bool.splits if_splits)
qed

section \<open>Every command\<close>

lemma executed:
  assumes F: "is_stack F" and w: "inv w" "\<forall>b. ok b w"
    and run: "execute F acc (t, w) = (r, t', w')"
    and before: "map_option effective_mount before = mount_at w (accepted_namespace acc)"
  shows "declared acc (judge base64 (accepted_command acc) acc before (reached_since W t t') r)"
proof (cases "local_decide (accepted_resource acc) ManageNamespace")
  case (Inl d)
  then show ?thesis using run by (rule judged_denied)
next
  case (Inr u)
  then have a: "managed (accepted_resource acc) m = unit_done m" for m :: "(watch \<times> 'w, storage_error, unit) io"
    by (simp add: managed_def authorize_def)
  have admitted: "local_address a" if "accepted_resource acc = resource_of_address a" for a
    using Inr admitted_address [of a ManageNamespace] that by simp
  have unit: "declared acc (judge base64 (accepted_command acc) acc before (reached_since W t t') r)"
    if "secret_scope acc = None" "unit_done m (t, w) = (r, t', w')"
      "\<And>r. m (t, w) = (r, t', w') \<Longrightarrow> reached_mount w (accepted_namespace acc) t t' \<and>
        (\<forall>e. r = Inl e \<longrightarrow> e \<in> {Unavailable, NotFound} \<or> e = Conflict \<and> (\<forall>a. acc \<noteq> UnbindName a))" for m
    using unit_done_eq [OF that(2)] that(3) judged_unit [OF that(1) _ before] by blast
  have secret: "declared acc (judge base64 (accepted_command acc) acc before (reached_since W t t') r)"
    if "secret_answer acc t w r t'" "secret_scope acc \<noteq> None"
    using that by (intro judge_secret [OF _ _ before])
  show ?thesis
  proof (cases acc)
    case (AddNamespace k m)
    with run a add_watched [OF F w(1), of k m] show ?thesis by (intro unit [of "add_namespace F k m"]) auto
  next
    case (RemoveNamespace k)
    with run a remove_watched [OF F w, of k] show ?thesis by (intro unit [of "remove_namespace F k"]) auto
  next
    case (SetMount k m)
    with run a set_watched [OF F w, of k m] show ?thesis by (intro unit [of "set_mount F k m"]) auto
  next
    case (BindName x l)
    with run a bind_watched [OF F w(1), of x l] show ?thesis by (intro unit [of "bind_address F x l"]) auto
  next
    case (UnbindName x)
    with run a unbind_watched [OF F w(1), of x] show ?thesis by (intro unit [of "unbind_address F x"]) auto
  next
    case (WriteSecret x v)
    with run admitted execute_write [OF F w] show ?thesis by (intro secret) auto
  next
    case (ReadSecret x)
    with run admitted execute_read [OF F w] show ?thesis by (intro secret) auto
  next
    case (DeleteSecret x)
    with run admitted execute_delete [OF F w] show ?thesis by (intro secret) auto
  next
    case (RenameSecret x n)
    with run admitted execute_rename [OF F w] show ?thesis by (intro secret) auto
  next
    case (ListMetadata s)
    with Inr run admitted_scope [of s ManageNamespace] execute_list [OF F w] show ?thesis by (intro secret) auto
  qed
qed

text \<open>With the switches flipped between the reading of the namespace and the command.\<close>

theorem observed_declared:
  assumes w: "inv w" "up w" "inv (flip w)" "\<forall>b. ok b (flip w)" "mounts (flip w) = mounts w"
  shows "\<exists>obs outcome tw'. observe base64 W flip unflip (accepted_command acc) acc (t, w) = (Inr obs, tw') \<and>
    ob_outcome obs = Some outcome \<and> (outcome, ob_error obs) \<in> set (declared_branches (accepted_command acc))"
proof -
  from stack_obtain obtain F where F: "world_stack W = Inr F" "is_stack F" by blast
  let ?k = "accepted_namespace acc"
  let ?b = "map_option (\<lambda>m. \<lparr>ns_key = ?k, ns_mount = m\<rparr>) (mounts w ?k)"
  obtain r t' w' where run: "execute F acc (t, flip w) = (r, t', w')" by (cases "execute F acc (t, flip w)") auto
  have "map_option effective_mount ?b = mount_at (flip w) ?k"
    using w(5) by (cases "mounts w ?k") (auto simp: mount_at_def effective_mount_def)
  from executed [OF F(2) w(3,4) run this] have
    "declared acc (judge base64 (accepted_command acc) acc ?b (reached_since W t t') r)" .
  moreover have "observe base64 W flip unflip (accepted_command acc) acc (t, w) =
      (judge base64 (accepted_command acc) acc ?b (reached_since W t t') r, t', unflip w')"
    using F(1) run get_namespace [OF w(1,2), of ?k]
    by (simp add: observe_def config zoomE_apply bindE_apply)
  ultimately show ?thesis
    by (cases "judge base64 (accepted_command acc) acc ?b (reached_since W t t') r")
      (auto simp: declared_def split: option.splits)
qed

end

end
