(* ===== verification/Conformance_Answer.thy ===== *)
theory Conformance_Answer
  imports Conformance_Observe "HOL-Library.AList"
begin

text \<open>
  A command from its JSON to what is reported (\<open>answer\<close> of \<open>checks/conformance/src/storage.rs\<close>), where no
  outcome is forced: an actor other than the local user is not sent, the authorizer is asked on the raw text, the input goes through the port, and what
  the port accepts goes to the stack. A name with a segment that is too long is replaced by one of the
  same length, at most twice: once for the name, once for the new name.
\<close>

section \<open>The input\<close>

definition scope_fields :: "string \<Rightarrow> string list \<times> string list option" where
  "scope_fields command =
     (if command = ''AddNamespace'' \<or> command = ''RemoveNamespace'' \<or> command = ''SetMount'' then ([''namespace'', ''tenant''], None)
      else if command = ''ListMetadata'' then ([''scope'', ''tenant''], Some [''scope'', ''user''])
      else ([''address'', ''scope'', ''tenant''], Some [''address'', ''scope'', ''user'']))"

definition raw_resource :: "string \<Rightarrow> json \<Rightarrow> target_error + resource" where
  "raw_resource command v =
     (let (tenant, user) = scope_fields command in
      bindR (input_text v tenant) (\<lambda>tenant.
      case user of
        None \<Rightarrow> Inr (NamespaceRes tenant)
      | Some user \<Rightarrow> bindR (input_text v user) (\<lambda>user. Inr (ScopeRes tenant user))))"

definition cannot_arrange :: "string \<Rightarrow> target_error" where
  "cannot_arrange what = HarnessUnavailable ''arranging the forced outcome'' what"

fun json_put :: "string list \<Rightarrow> json \<Rightarrow> json \<Rightarrow> json option" where
  "json_put [key] x (JObject members) = Some (JObject (AList.update key x members))"
| "json_put (key # k # path) x (JObject members) =
     Option.bind (map_of members key) (\<lambda>v.
     map_option (\<lambda>v. JObject (AList.update key v members)) (json_put (k # path) x v))"
| "json_put _ _ _ = None"

definition input_set :: "json \<Rightarrow> string list \<Rightarrow> json \<Rightarrow> target_error + json" where
  "input_set v path x =
     (if path = [] then Inl (cannot_arrange ''an empty input path'')
      else ok_or (json_put path x v) (cannot_arrange (join CHR ''.'' path)))"

text \<open>Lengths are \<open>usize\<close>; the subtraction of naturals saturates as the code's does.\<close>

definition segmented :: "nat \<Rightarrow> string" where
  "segmented n =
     (let first = min (n - 2) 64;
          second = n - (first + 1)
      in replicate first CHR ''a'' @ ''/'' @ replicate second CHR ''a'')"

text \<open>The argument is the number of rounds; the code has two.\<close>

fun resegment ::
  "(string \<Rightarrow> bytes option) \<Rightarrow> string \<Rightarrow> nat \<Rightarrow> json \<Rightarrow> port_refusal + accepted \<Rightarrow> target_error + (port_refusal + accepted)" where
  "resegment base64 command 0 v parsed = Inr parsed"
| "resegment base64 command (Suc rounds) v parsed =
     (case parsed of
        Inl (RefuseAddress e) \<Rightarrow>
          if (ae_part e = Name \<or> ae_part e = NewName) \<and> ae_reason e = SegmentTooLong then
            let path = (if ae_part e = NewName then [''new_name''] else [''address'', ''name'']) in
            bindR (input_text v path) (\<lambda>t.
            bindR (input_set v path (JText (segmented (length t)))) (\<lambda>v.
            bindR (conformance_parse base64 command v) (\<lambda>parsed.
            resegment base64 command rounds v parsed)))
          else Inr parsed
      | _ \<Rightarrow> Inr parsed)"

section \<open>The answer\<close>

definition conformance_actor :: string where "conformance_actor = ''secrets.storage.LocalUser''"

definition check_actor :: "string option \<Rightarrow> target_error + unit" where
  "check_actor actor =
     (case actor of
        Some a \<Rightarrow>
          if a \<noteq> conformance_actor then
            Inl (HarnessUnsupported (''sending a command as `'' @ a @ ''`'') ''the specification declares the local user only'')
          else Inr ()
      | None \<Rightarrow> Inr ())"

definition conformance_answer ::
  "(string \<Rightarrow> bytes option) \<Rightarrow> (bytes \<Rightarrow> string) \<Rightarrow> 'w conformance_world \<Rightarrow> ('w \<Rightarrow> 'w) \<Rightarrow> ('w \<Rightarrow> 'w) \<Rightarrow> string option \<Rightarrow>
   string \<Rightarrow> json \<Rightarrow> (watch \<times> 'w, target_error, observed) io" where
  "conformance_answer decode encode W flip unflip actor command v =
     bindE (liftE (check_actor actor)) (\<lambda>_.
     bindE (liftE (raw_resource command v)) (\<lambda>resource.
     let admitted = conformance_decide resource command in
     bindE (liftE (conformance_parse decode command v)) (\<lambda>parsed.
     bindE (liftE (if admitted = Inr () then resegment decode command 2 v parsed else Inr parsed)) (\<lambda>parsed.
     case parsed of
       Inl refusal \<Rightarrow> retE
         (case admitted of
            Inl denial \<Rightarrow> refused (denial_outcome denial) Denied
          | Inr _ \<Rightarrow> \<lparr>ob_response = None, ob_outcome = refusal_branch command refusal,
              ob_error = declared_error (refusal_error refusal), ob_events = []\<rparr>)
     | Inr acc \<Rightarrow> observe encode W flip unflip command acc))))"

section \<open>What the port accepts is the command that was sent\<close>

lemma map_sum_eq:
  "map_sum f g r = Inr b \<longleftrightarrow> (\<exists>x. r = Inr x \<and> b = g x)" "map_sum f g r = Inl c \<longleftrightarrow> (\<exists>x. r = Inl x \<and> c = f x)"
  by (cases r; auto)+

lemma parse_command:
  "conformance_parse decode command v = Inr (Inr acc) \<Longrightarrow> accepted_command acc = command"
  unfolding conformance_parse_def
  by (auto simp: map_sum_eq sum.case_eq_if option.case_eq_if split: if_splits)

text \<open>The refusals of the port, for the commands on the secret or the binding of an address.\<close>

definition address_commands :: "string list" where
  "address_commands = [''Bind'', ''Write'', ''Read'', ''Delete'', ''Rename'']"

lemma parse_refusal:
  assumes "conformance_parse decode command v = Inr (Inl refusal)" "command \<in> set address_commands"
  shows "(\<exists>e. refusal = RefuseAddress e) \<or> refusal = RefuseValue TooLarge \<and> command = ''Write''"
  using assms unfolding conformance_parse_def address_commands_def
  by (auto simp: map_sum_eq map_err_eq_Inl secret_value_new_def split: if_splits)
    (auto simp: map_sum_eq map_err_eq_Inl secret_value_new_def split: if_splits sum.splits option.splits)+

lemma refusal_declared:
  assumes "conformance_parse decode command v = Inr (Inl refusal)" "command \<in> set address_commands"
  shows "\<exists>outcome. refusal_branch command refusal = Some outcome \<and>
    (outcome, declared_error (refusal_error refusal)) \<in> set (declared_branches command)"
proof -
  have e: "declared_error InvalidName = Some ''secrets.storage.InvalidName''" "declared_error TooLarge = Some ''secrets.storage.TooLarge''"
    by code_simp+
  from parse_refusal [OF assms] show ?thesis
  proof (elim disjE exE conjE)
    fix x assume r: "refusal = RefuseAddress x"
    have "\<exists>outcome. refusal_branch command refusal = Some outcome \<and>
        (outcome = ''name-too-long'' \<or> outcome = ''invalid-name'' \<or> outcome = ''new-name-too-long'' \<and> command = ''Rename'')"
      using assms(2) by (auto simp: r refusal_branch_def address_commands_def)
    moreover have "set name_refusals \<subseteq> set (declared_branches command)"
      using assms(2) by (auto simp: address_commands_def)
    ultimately show ?thesis by (auto simp: r storage_error_of_address_def name_refusals_def e)
  next
    assume "refusal = RefuseValue TooLarge" "command = ''Write''"
    then show ?thesis by (simp add: refusal_branch_def e)
  qed
qed

text \<open>
  For the other commands a refusal has a declared branch, or none: those of \<open>AddNamespace\<close> for the names of
  the namespace, and no other.
\<close>

lemma other_refusal_declared:
  assumes "refusal_branch command refusal = Some outcome" "command \<notin> set address_commands"
  shows "(outcome, declared_error (refusal_error refusal)) \<in> set (declared_branches command)"
proof -
  have e: "declared_error InvalidName = Some ''secrets.storage.InvalidName''" by code_simp
  from assms obtain x where r: "command = ''AddNamespace''" "refusal = RefuseAddress x"
    "outcome = ''name-too-long'' \<or> outcome = ''invalid-name''"
    by (cases refusal) (auto simp: refusal_branch_def address_commands_def Let_def split: if_splits)
  then show ?thesis by (auto simp: name_refusals_def storage_error_of_address_def e)
qed

text \<open>A denial is one the command declares: of the user only where the command has one.\<close>

lemma parse_known:
  "conformance_parse decode command v = Inr p \<Longrightarrow>
   command \<in> {''AddNamespace'', ''SetMount'', ''RemoveNamespace'', ''Bind'', ''Unbind'', ''Read'', ''Delete'', ''Write'', ''Rename'', ''ListMetadata''}"
  by (auto simp: conformance_parse_def split: if_splits)

lemma local_decide_denied:
  "local_decide r a = Inl d \<Longrightarrow> d = DeniedTenant \<or> (\<exists>t u. r = ScopeRes t u) \<and> d = DeniedUser"
  by (auto simp: local_decide_def split: resource.splits if_splits)

lemma conformance_decide_denied:
  assumes "conformance_decide r command = Inl d"
  shows "d = DeniedTenant \<or> (\<exists>t u. r = ScopeRes t u) \<and> d = DeniedUser"
  using assms unfolding conformance_decide_def
  by (auto simp: command_actions_def bindR_eq_Inl split: if_splits dest!: local_decide_denied)

lemma denial_declared_for:
  assumes "raw_resource command v0 = Inr r" "conformance_decide r command = Inl d" "conformance_parse decode command v = Inr p"
  shows "(denial_outcome d, Some ''secrets.storage.Denied'') \<in> set (declared_branches command)"
proof -
  have "command \<notin> {''AddNamespace'', ''SetMount'', ''RemoveNamespace''}" if "r = ScopeRes t u" for t u
    using assms(1) that
    by (auto simp: raw_resource_def scope_fields_def bindR_def split: sum.splits if_splits)
  with conformance_decide_denied [OF assms(2)] parse_known [OF assms(3)] show ?thesis
    by (auto simp: secret_refusals_def)
qed

text \<open>Whatever was replaced, what the rounds end with is what the port makes of some input.\<close>

lemma resegment_parse:
  "resegment decode command n v parsed = Inr r \<Longrightarrow> conformance_parse decode command v = Inr parsed \<Longrightarrow>
   \<exists>v'. conformance_parse decode command v' = Inr r"
proof (induction n arbitrary: v parsed)
  case (Suc n)
  show ?case
  proof (cases "resegment decode command (Suc n) v parsed = Inr parsed")
    case True
    with Suc.prems show ?thesis by auto
  next
    case False
    with Suc.prems obtain v' p where "conformance_parse decode command v' = Inr p" "resegment decode command n v' p = Inr r"
      by (auto simp: Let_def split: sum.splits port_refusal.splits if_splits)
    then show ?thesis using Suc.IH by blast
  qed
qed auto

end
