(* ===== verification/Conformance_World.thy ===== *)
theory Conformance_World
  imports Conformance_Watch Keychain
begin

text \<open>
  The world of one scenario (\<open>World\<close> of \<open>checks/conformance/src/storage.rs\<close>): the configuration store in
  memory, keychain backends over one credential store, and recording fakes. The custody service a
  scenario may mount as its remote backend runs against a database and is not modelled, so a scenario
  that names it has no world here.
\<close>

record 's conformance_state =
  cs_config :: mem_config
  cs_keychain :: "'s keychain_world"
  cs_fakes :: "backend_ref \<Rightarrow> recording"

type_synonym 's scenario_world = "'s conformance_state conformance_world"

definition conformance_config :: "'s conformance_state namespace_config" where
  "conformance_config = zoom_config cs_config (\<lambda>s w. w\<lparr>cs_config := s\<rparr>) mem_config_store"

definition keychain_inner ::
  "uuid_crate \<Rightarrow> ('s, 'e, 'x) credential_store \<Rightarrow> string \<Rightarrow> 's conformance_state storage" where
  "keychain_inner U store service =
     zoom_storage cs_keychain (\<lambda>s w. w\<lparr>cs_keychain := s\<rparr>) (keychain_storage (keychain_with_service U store service))"

definition fake_inner :: "mode \<Rightarrow> backend_ref \<Rightarrow> 's conformance_state storage" where
  "fake_inner m b =
     zoom_storage (\<lambda>w. cs_fakes w b) (\<lambda>s w. w\<lparr>cs_fakes := (cs_fakes w)(b := s)\<rparr>) (recording_storage m)"

section \<open>Mounting\<close>

definition world_insert :: "backend_ref \<Rightarrow> 'w storage \<Rightarrow> 'w conformance_world \<Rightarrow> 'w conformance_world" where
  "world_insert b inner W = W\<lparr>wo_mounted := bt_put b inner (wo_mounted W)\<rparr>"

definition insert_keychain ::
  "uuid_crate \<Rightarrow> ('s, 'e, 'x) credential_store \<Rightarrow> backend_ref \<Rightarrow> 's scenario_world \<Rightarrow> 's scenario_world" where
  "insert_keychain U store b W =
     (let service = (if is_default (br_label b) then default_service
                     else default_service @ ''.'' @ scope_str (br_label b))
      in world_insert b (keychain_inner U store service) W)"

definition world_open :: "uuid_crate \<Rightarrow> ('s, 'e, 'x) credential_store \<Rightarrow> 's scenario_world" where
  "world_open U store =
     insert_keychain U store default_mount \<lparr>wo_config = conformance_config, wo_mounted = [], wo_fakes = 0\<rparr>"

definition world_configure ::
  "uuid_crate \<Rightarrow> ('s, 'e, 'x) credential_store \<Rightarrow> backend_ref \<Rightarrow> 's scenario_world \<Rightarrow> 's scenario_world option" where
  "world_configure U store b W =
     (if bt_contains b (wo_mounted W) then Some W
      else case br_kind b of
          Keychain \<Rightarrow> Some (insert_keychain U store b W)
        | Remote \<Rightarrow> None
        | Onepassword \<Rightarrow> Some (world_insert b (fake_inner ReadOnlyBound b) W))"

definition insert_fake :: "bool \<Rightarrow> 's scenario_world \<Rightarrow> name_error + backend_ref \<times> 's scenario_world" where
  "insert_fake read_only W =
     (let n = wo_fakes W + 1 in
      bindR (scope_name_parse (''fixture-'' @ dec_nat (unat n))) (\<lambda>label.
      let (kind, m) = (if read_only then (Onepassword, ReadOnlyBound) else (Keychain, ReadWrite));
          b = \<lparr>br_kind = kind, br_label = label\<rparr>
      in Inr (b, world_insert b (fake_inner m b) (W\<lparr>wo_fakes := n\<rparr>))))"

text \<open>The worlds a scenario has, whatever its arrangement mounts.\<close>

inductive scenario :: "uuid_crate \<Rightarrow> ('s, 'e, 'x) credential_store \<Rightarrow> 's scenario_world \<Rightarrow> bool" for U store where
  scenario_open: "scenario U store (world_open U store)"
| scenario_configure: "scenario U store W \<Longrightarrow> world_configure U store b W = Some W' \<Longrightarrow> scenario U store W'"
| scenario_fake: "scenario U store W \<Longrightarrow> insert_fake read_only W = Inr (b, W') \<Longrightarrow> scenario U store W'"

section \<open>Switches\<close>

text \<open>
  \<open>arm\<close> is \<open>set_error\<close> of the mock credential store: the next call on the entry fails.
\<close>

datatype switch = ConfigDown | FakeDown backend_ref | KeychainEntry string address

fun world_flip :: "(string \<Rightarrow> string \<Rightarrow> 's \<Rightarrow> 's) \<Rightarrow> switch \<Rightarrow> 's conformance_state \<Rightarrow> 's conformance_state" where
  "world_flip arm ConfigDown w = w\<lparr>cs_config := (cs_config w)\<lparr>mc_unavailable := True\<rparr>\<rparr>"
| "world_flip arm (FakeDown b) w = w\<lparr>cs_fakes := (cs_fakes w)(b := set_unavailable True (cs_fakes w b))\<rparr>"
| "world_flip arm (KeychainEntry service a) w =
     w\<lparr>cs_keychain := (cs_keychain w)\<lparr>kw_store := arm service (entry_user a) (kw_store (cs_keychain w))\<rparr>\<rparr>"

fun world_unflip :: "switch \<Rightarrow> 's conformance_state \<Rightarrow> 's conformance_state" where
  "world_unflip ConfigDown w = w\<lparr>cs_config := (cs_config w)\<lparr>mc_unavailable := False\<rparr>\<rparr>"
| "world_unflip (FakeDown b) w = w\<lparr>cs_fakes := (cs_fakes w)(b := set_unavailable False (cs_fakes w b))\<rparr>"
| "world_unflip (KeychainEntry service a) w = w"

end
