(* ===== verification/Conformance_Properties.thy ===== *)
theory Conformance_Properties
  imports Conformance_Admin Conformance_Answer Conformance_World Keychain_Properties
begin

text \<open>
  The backends of a scenario are honest: each refuses only with what its operation of the port may
  answer, as long as what is stored is within the bound of a value. With it the observer's contract
  holds in every world of a scenario, whatever switches are flipped.
\<close>

section \<open>Which errors an operation answers\<close>

lemma answers_in_mono: "answers_in E I m \<Longrightarrow> E \<subseteq> E' \<Longrightarrow> (\<And>w. J w \<Longrightarrow> I w) \<Longrightarrow> answers_in E' J m"
  unfolding answers_in_def by blast

lemma answers_in_bind:
  assumes "answers_in E I m" "\<And>a w w'. I w \<Longrightarrow> m w = (Inr a, w') \<Longrightarrow> J a w'" "\<And>a. answers_in E (J a) (k a)"
  shows "answers_in E I (bindE m k)"
  using assms unfolding answers_in_def bindE_eq_Inl by blast

lemma answers_in_retE [simp]: "answers_in E I (retE a)"
  by (simp add: answers_in_def retE_def)

lemma answers_in_failE [simp]: "e \<in> E \<Longrightarrow> answers_in E I (failE e)"
  by (simp add: answers_in_def failE_def)

lemma answers_in_liftE: "(\<And>e. r = Inl e \<Longrightarrow> e \<in> E) \<Longrightarrow> answers_in E I (liftE r)"
  by (simp add: answers_in_def liftE_def)

lemma answers_in_zoom: "answers_in E I m \<Longrightarrow> answers_in E (\<lambda>w. I (g w)) (zoomE g p m)"
  unfolding answers_in_def zoomE_apply by (metis prod.collapse prod.inject)

lemma honest_zoom: "honest_backend S I \<Longrightarrow> honest_backend (zoom_storage g p S) (\<lambda>w. I (g w))"
  by (simp add: honest_backend_def answers_in_zoom) (simp add: zoom_storage_def answers_in_zoom)

lemma honest_mono: "honest_backend S I \<Longrightarrow> (\<And>w. J w \<Longrightarrow> I w) \<Longrightarrow> honest_backend S J"
  unfolding honest_backend_def by (meson answers_in_mono subset_refl)

section \<open>Recording fakes\<close>

definition fake_bounded :: "recording \<Rightarrow> bool" where
  "fake_bounded w \<longleftrightarrow>
     (\<forall>a h. map_of (rb_by_address w) a = Some h \<longrightarrow> wf_value (hd_value h)) \<and>
     (\<forall>l h. map_of (rb_by_locator w) l = Some h \<longrightarrow> wf_value (hd_value h))"

lemma enter_answers: "answers_in {Unavailable} I (enter c)"
  by (auto simp: answers_in_def enter_apply split: if_splits)

lemma enter_bounded: "fake_bounded w \<Longrightarrow> enter c w = (Inr a, w') \<Longrightarrow> fake_bounded w'"
  by (auto simp: enter_apply fake_bounded_def split: if_splits)

lemma recording_honest: "honest_backend (recording_storage m) fake_bounded"
proof -
  have e: "answers_in E fake_bounded (bindE (enter c) k)" if "Unavailable \<in> E" "\<And>a. answers_in E fake_bounded (k a)" for E c
    and k :: "unit \<Rightarrow> (recording, storage_error, 'x) io"
    by (rule answers_in_bind [where J = "\<lambda>_. fake_bounded"])
      (use that in \<open>auto intro: answers_in_mono [OF enter_answers] enter_bounded\<close>)
  have "answers_in {NotFound, Unavailable} fake_bounded (recording_read m t)" for t
    unfolding recording_read_def
    by (rule e, simp, cases m)
     (auto simp: answers_in_def bindE_apply liftE_def retE_def ok_or_def fake_bounded_def secret_value_new_def wf_value_def
        split: option.splits Option.bind_splits if_splits sum.splits,
      (metis leD)+)
  moreover have "answers_in {TooLarge, Unavailable} fake_bounded (recording_write ReadWrite t v)" for t v
    unfolding recording_write_def by (rule e) (auto simp: answers_in_def Let_def split: prod.splits)
  moreover have "answers_in {NotFound, Unavailable} fake_bounded (recording_delete ReadWrite t)" for t
    unfolding recording_delete_def by (rule e) (auto simp: answers_in_def Let_def ok_or_def split: prod.splits option.splits)
  moreover have "answers_in {NotFound, Conflict, Unavailable} fake_bounded (recording_rename ReadWrite t n)" for t n
    unfolding recording_rename_def by (rule e) (auto simp: answers_in_def Let_def split: prod.splits option.splits if_splits)
  moreover have "answers_in {Unavailable} fake_bounded (recording_list ReadWrite s)" for s
    unfolding recording_list_def by (rule e) (auto simp: answers_in_def)
  ultimately show ?thesis
    by (cases m) (simp_all add: honest_backend_def recording_storage_def all_capabilities_def)
qed

section \<open>Keychains\<close>

context keyring
begin

definition within :: "'s keychain_world \<Rightarrow> bool" where
  "within w \<longleftrightarrow> (\<forall>k blob. held (kw_store w) k = Some blob \<longrightarrow> length blob \<le> header_bytes + max_value_bytes)"

lemma blocking_answers: "Unavailable \<in> E \<Longrightarrow> answers_in E I m \<Longrightarrow> answers_in E I (keychain_blocking m)"
  by (auto simp: answers_in_def keychain_blocking_def)

lemma store_answers:
  assumes "\<And>s r s'. m s = (Inl r, s') \<Longrightarrow> keychain_failure r \<in> E"
  shows "answers_in E I (store_call m)"
  using assms by (auto simp: answers_in_def store_call_def on_store_def zoomE_apply map_errE_eq_Inl simp del: map_errE_apply)
    (metis prod.collapse)

lemma failure_cases: "keychain_failure r \<in> {NotFound, Unavailable}" "r \<noteq> NoEntry \<Longrightarrow> keychain_failure r = Unavailable"
  by (cases r; simp)+

lemma entry_answers: "answers_in {Unavailable} I (keychain_entry B a)"
  unfolding keychain_entry_def by (rule store_answers) (use build in \<open>force intro: failure_cases(2)\<close>)

lemma get_answers: "answers_in {NotFound, Unavailable} I (store_call (cr_get_secret (kb_store B) e))"
  by (rule store_answers) (use failure_cases in blast)

lemma delete_answers: "answers_in {NotFound, Unavailable} I (store_call (cr_delete_credential (kb_store B) e))"
  by (rule store_answers) (use failure_cases in blast)

lemma set_answers: "answers_in {Unavailable} I (store_call (cr_set_secret (kb_store B) e blob))"
  by (rule store_answers) (use set in \<open>force intro: failure_cases(2)\<close>)

lemma search_answers: "answers_in {Unavailable} I (store_call (cr_search (kb_store B) [(''service'', service)]))"
  by (rule store_answers) (use search in \<open>force intro: failure_cases(2)\<close>)

lemma exclusive_answers: "answers_in {Unavailable} I keychain_exclusive"
  by (auto simp: answers_in_def keychain_exclusive_def split: if_splits)

lemma stored_answers: "answers_in {Unavailable} I (stored B e)"
  by (auto simp: answers_in_def stored_def split: prod.splits sum.splits keyring_error.splits)

lemma drop_answers: "answers_in {NotFound, Unavailable} I (drop_source B a b)"
  using failure_cases(1) by (auto simp: answers_in_def drop_source_def split: prod.splits sum.splits)

lemmas call_answers = entry_answers set_answers search_answers exclusive_answers stored_answers

lemma unavailable_bind:
  "answers_in {Unavailable} (\<lambda>_. True) m \<Longrightarrow> Unavailable \<in> E \<Longrightarrow> (\<And>a. answers_in E (\<lambda>_. True) (k a)) \<Longrightarrow>
   answers_in E I (bindE m k)"
  by (rule answers_in_bind [where J = "\<lambda>_ _. True"]) (auto intro: answers_in_mono)

lemma store_call_held:
  "store_call m w = (Inr a, w') \<Longrightarrow> \<exists>s'. m (kw_store w) = (Inr a, s') \<and> kw_store w' = s'"
  by (auto simp: store_call_def on_store_def zoomE_apply map_errE_eq_Inr simp del: map_errE_apply)
    (metis prod.collapse)

lemma open_answers:
  "answers_in {NotFound, Unavailable} (\<lambda>_. length blob \<le> header_bytes + max_value_bytes)
     (bindE (liftE (open_blob U blob)) (\<lambda>(ver, v). bindE (liftE (secret_value_new v)) (\<lambda>v.
        retE \<lparr>rv_value = v, rv_version = Some ver\<rparr>)))"
  by (auto simp: answers_in_def open_blob_def liftE_def bindE_apply retE_def ok_or_def secret_value_new_def bindR_def header_bytes_def
      split: if_splits option.splits sum.splits)

lemma read_answers: "answers_in {NotFound, Unavailable} within (keychain_read B t)"
  unfolding keychain_read_def
proof (rule blocking_answers, simp, rule answers_in_bind [where J = "\<lambda>_. within"], goal_cases)
  case 1
  then show ?case by (rule answers_in_mono [OF entry_answers]) auto
next
  case (2 a w w')
  from store_call_held [OF 2(2) [unfolded keychain_entry_def]] build 2(1) show ?case
    by (fastforce simp: within_def)
next
  case (3 e)
  show ?case
  proof (rule answers_in_bind [where J = "\<lambda>blob _. length blob \<le> header_bytes + max_value_bytes", OF get_answers _ open_answers])
    fix a w w'
    assume w: "within w" and r: "store_call (cr_get_secret (kb_store B) e) w = (Inr a, w')"
    from store_call_held [OF r] get have "held (kw_store w) (key e) = Some a" by fastforce
    with w show "length a \<le> header_bytes + max_value_bytes" unfolding within_def by blast
  qed
qed

lemma write_answers: "answers_in {TooLarge, Unavailable} I (keychain_write B t v)"
  unfolding keychain_write_def
  by (intro blocking_answers unavailable_bind call_answers)
    (auto simp: seal_value_def draw_uuid_def answers_in_def [of "{Unavailable}"] bindE_apply retE_def [of "(_, _)"]
      intro!: unavailable_bind call_answers)

lemma keychain_delete_answers: "answers_in {NotFound, Unavailable} I (keychain_delete B t)"
  unfolding keychain_delete_def
  by (intro blocking_answers unavailable_bind call_answers delete_answers) simp_all

lemma rename_answers: "answers_in {NotFound, Conflict, Unavailable} I (keychain_rename B t n)"
proof -
  have g: "answers_in {NotFound, Conflict, Unavailable} J (store_call (cr_get_secret (kb_store B) e))"
    "answers_in {NotFound, Conflict, Unavailable} J (drop_source B e e')" for J e e'
    by (rule answers_in_mono [OF get_answers], auto) (rule answers_in_mono [OF drop_answers], auto)
  show ?thesis
    unfolding keychain_rename_def
    by (intro blocking_answers unavailable_bind call_answers answers_in_bind [where J = "\<lambda>_ _. True", OF g(1)])
      (auto intro: unavailable_bind call_answers g)
qed

lemma list_entries_answers: "answers_in {Unavailable} I (list_entries B s es listed)"
proof (induction es arbitrary: listed I)
  case (Cons e es)
  have "answers_in {Unavailable} J (list_entry B s e)" for J
    unfolding list_entry_def
    by (auto split: option.split intro!: unavailable_bind stored_answers)
      (auto simp: answers_in_def open_blob_def liftE_def bindE_apply retE_def ok_or_def bindR_def split: if_splits option.splits sum.splits)
  with Cons show ?case by (auto intro!: unavailable_bind split: option.split)
qed simp

lemma list_answers: "answers_in {Unavailable} I (keychain_list B s)"
  unfolding keychain_list_def
  by (intro blocking_answers unavailable_bind call_answers list_entries_answers) simp_all

lemma keychain_honest: "honest_backend (keychain_storage B) within"
  by (simp add: honest_backend_def keychain_storage_def read_answers write_answers keychain_delete_answers rename_answers list_answers
      all_capabilities_set)

end

section \<open>The worlds of a scenario\<close>

lemma keyring_service:
  "keyring (keychain_new U store) calm key held \<Longrightarrow> keyring (keychain_with_service U store service) calm key held"
  unfolding keyring_def keychain_new_def keychain_with_service_def keychain_backend.simps .

definition plain_backend :: "uuid_crate \<Rightarrow> ('s, 'e, 'x) credential_store \<Rightarrow> backend_ref \<Rightarrow> 's conformance_state storage \<Rightarrow> bool" where
  "plain_backend U store b S \<longleftrightarrow> (\<exists>service. S = keychain_inner U store service) \<or> (\<exists>m. S = fake_inner m b)"

definition plain_world :: "uuid_crate \<Rightarrow> ('s, 'e, 'x) credential_store \<Rightarrow> 's scenario_world \<Rightarrow> bool" where
  "plain_world U store W \<longleftrightarrow> wo_config W = conformance_config \<and> bt_wf (wo_mounted W) \<and>
    (\<forall>b S. map_of (wo_mounted W) b = Some S \<longrightarrow> plain_backend U store b S)"

lemma plain_insert: "plain_world U store W \<Longrightarrow> plain_backend U store b S \<Longrightarrow> plain_world U store (world_insert b S W)"
  by (simp add: plain_world_def world_insert_def)

lemma plain_keychain: "plain_world U store W \<Longrightarrow> plain_world U store (insert_keychain U store b W)"
  unfolding insert_keychain_def Let_def by (rule plain_insert) (auto simp: plain_backend_def)

lemma plain_fakes: "plain_world U store W \<Longrightarrow> plain_world U store (world_insert b (fake_inner m b) (W\<lparr>wo_fakes := n\<rparr>))"
  "plain_world U store W \<Longrightarrow> plain_world U store (world_insert b (fake_inner m b) W)"
  by (rule plain_insert; auto simp: plain_world_def plain_backend_def)+

lemma scenario_plain:
  assumes "scenario U store W"
  shows "plain_world U store W"
  using assms
proof (induction rule: scenario.induct)
  case scenario_open
  then show ?case unfolding world_open_def by (rule plain_keychain) (simp add: plain_world_def bt_wf_def)
next
  case (scenario_configure W b W')
  then show ?case
    by (auto simp: world_configure_def plain_keychain plain_fakes split: if_splits backend_kind.splits)
next
  case (scenario_fake W read_only b W')
  then show ?case
    by (auto simp: insert_fake_def Let_def bindR_def plain_fakes split: if_splits sum.splits)
qed

definition scenario_ok :: "('s \<Rightarrow> string \<times> string \<Rightarrow> bytes option) \<Rightarrow> 's conformance_state \<Rightarrow> bool" where
  "scenario_ok held w \<longleftrightarrow> mc_inv (cs_config w) \<and> (\<forall>b. fake_bounded (cs_fakes w b)) \<and>
     (\<forall>k blob. held (kw_store (cs_keychain w)) k = Some blob \<longrightarrow> length blob \<le> header_bytes + max_value_bytes)"

lemma scenario_conformance:
  assumes k: "keyring (keychain_new U store) calm key held" and W: "scenario U store W"
  shows "conformance conformance_config (\<lambda>w. mc_inv (cs_config w)) (\<lambda>w. mc_up (cs_config w)) (\<lambda>w. mc_mounts (cs_config w))
    (\<lambda>w. mc_bound (cs_config w)) (\<lambda>w. ((), cs_keychain w, cs_fakes w)) W (\<lambda>b w. scenario_ok held w)"
proof -
  note W = scenario_plain [OF W, unfolded plain_world_def plain_backend_def]
  have c: "config_contract conformance_config (\<lambda>w. mc_inv (cs_config w)) (\<lambda>w. mc_up (cs_config w)) (\<lambda>w. mc_mounts (cs_config w))
    (\<lambda>w. mc_bound (cs_config w)) (\<lambda>w. ((), cs_keychain w, cs_fakes w))"
    unfolding conformance_config_def
    by (rule zoom_config_contract [OF mc.config_contract_axioms, where other = "\<lambda>w. (cs_keychain w, cs_fakes w)"]) simp_all
  have h: "honest_backend S (\<lambda>w. mc_inv (cs_config w) \<and> scenario_ok held w)" if S: "map_of (wo_mounted W) b = Some S" for b S
  proof -
    have "honest_backend (keychain_inner U store service) (\<lambda>w. keyring.within held (cs_keychain w))" for service
      unfolding keychain_inner_def
      by (rule honest_zoom [OF keyring.keychain_honest [OF keyring_service [OF k]]])
    moreover have "honest_backend (fake_inner m b) (\<lambda>w. fake_bounded (cs_fakes w b))" for m
      unfolding fake_inner_def by (rule honest_zoom [OF recording_honest])
    ultimately obtain I where "honest_backend S I" "\<And>w. scenario_ok held w \<Longrightarrow> I w"
      using W S by (fastforce simp: scenario_ok_def keyring.within_def [OF k])
    then show ?thesis by (blast intro: honest_mono)
  qed
  have kept: "keeps S (\<lambda>w w'. mc_inv (cs_config w) \<longrightarrow>
      mc_inv (cs_config w') \<and> mc_up (cs_config w') = mc_up (cs_config w) \<and> mc_mounts (cs_config w') = mc_mounts (cs_config w))"
    if "map_of (wo_mounted W) b = Some S" for b S
  proof -
    from W that consider service where "S = keychain_inner U store service" | m where "S = fake_inner m b" by blast
    then show ?thesis by cases (simp_all add: keychain_inner_def fake_inner_def keeps_zoom)
  qed
  show ?thesis
    by (intro conformance.intro c conformance_axioms.intro h kept) (use W in blast)+
qed

text \<open>
  The documented behaviour of the mock store: an armed error is answered by a later call, and what is
  stored stays. So the switches leave the namespaces and what is stored alone.
\<close>

definition arms_only :: "('s \<Rightarrow> 'b) \<Rightarrow> (string \<Rightarrow> string \<Rightarrow> 's \<Rightarrow> 's) \<Rightarrow> bool" where
  "arms_only held arm \<longleftrightarrow> (\<forall>service user s. held (arm service user s) = held s)"

lemma flip_ok:
  assumes "arms_only held arm" "scenario_ok held w"
  shows "scenario_ok held (world_flip arm sw w)" "mc_mounts (cs_config (world_flip arm sw w)) = mc_mounts (cs_config w)"
  using assms by (cases sw; auto simp: arms_only_def scenario_ok_def mc_inv_def mc_mounts_def fake_bounded_def set_unavailable_def)+

lemma flips_ok:
  assumes "arms_only held arm" "scenario_ok held w"
  shows "scenario_ok held (fold (world_flip arm) sws w) \<and> mc_mounts (cs_config (fold (world_flip arm) sws w)) = mc_mounts (cs_config w)"
  using assms(2)
proof (induction sws arbitrary: w)
  case (Cons sw sws)
  note f = flip_ok [where held = held and arm = arm and w = w, OF assms(1) Cons.prems]
  with Cons.IH [OF f(1), of sw] show ?case by simp
qed simp

lemma scenario_observed:
  assumes "keyring (keychain_new U store) calm key held" "arms_only held arm"
    and "scenario U store W" "scenario_ok held w" "mc_up (cs_config w)"
  shows "\<exists>obs outcome tw'. observe encode W (fold (world_flip arm) sws) unflip (accepted_command acc) acc (t, w) = (Inr obs, tw') \<and>
    ob_outcome obs = Some outcome \<and> (outcome, ob_error obs) \<in> set (declared_branches (accepted_command acc))"
proof -
  note f = flips_ok [where sws = sws, OF assms(2,4)]
  then have i: "mc_inv (cs_config w)" "mc_inv (cs_config (fold (world_flip arm) sws w))"
    using assms(4) by (simp_all add: scenario_ok_def)
  show ?thesis
    by (rule conformance.observed_declared [OF scenario_conformance [OF assms(1,3)]]) (use i f assms(5) in simp_all)
qed

definition example_state :: "scripted conformance_state" where
  "example_state = \<lparr>cs_config = mem_local, cs_keychain = example_keychain_world [], cs_fakes = (\<lambda>_. recording_new)\<rparr>"

definition example_arm :: "string \<Rightarrow> string \<Rightarrow> scripted \<Rightarrow> scripted" where
  "example_arm service user s = s\<lparr>sp_fails := [True]\<rparr>"

lemma example_scenario:
  "keyring (keychain_new example_uuid_crate scripted_store) scripted_calm (\<lambda>e. e) (\<lambda>s. map_of (sp_blobs s))"
  "arms_only (\<lambda>s. map_of (sp_blobs s)) example_arm"
  "scenario_ok (\<lambda>s. map_of (sp_blobs s)) example_state" "mc_up (cs_config example_state)"
  using sk.keyring_axioms
  by (simp_all add: example_keychain_def example_arm_def arms_only_def scenario_ok_def example_state_def fake_bounded_def recording_new_def
      example_keychain_world_def)

section \<open>The properties\<close>

text \<open>
  C14: every command the port accepted, on the stack of any scenario and with any switches flipped, is
  observed in a branch that the specification declares for it, with the error the specification gives it.
\<close>

theorem every_answer_is_declared:
  assumes "keyring (keychain_new U store) calm key held" "arms_only held arm"
    and "scenario U store W" "scenario_ok held w" "mc_up (cs_config w)"
  shows "\<exists>obs outcome tw'. observe encode W (fold (world_flip arm) sws) unflip (accepted_command acc) acc (t, w) = (Inr obs, tw') \<and>
    ob_outcome obs = Some outcome \<and> (outcome, ob_error obs) \<in> set (declared_branches (accepted_command acc))"
  using assms by (rule scenario_observed)

theorem every_answer_is_declared_witness:
  "\<exists>obs outcome tw'. observe (\<lambda>_. []) (world_open example_uuid_crate scripted_store)
      (fold (world_flip example_arm) [KeychainEntry default_service keychain_address, ConfigDown]) (world_unflip ConfigDown)
      ''Read'' (ReadSecret keychain_address) (\<lparr>wa_backends = \<lambda>_. 0, wa_config = 0\<rparr>, example_state) = (Inr obs, tw') \<and>
    ob_outcome obs = Some outcome \<and> (outcome, ob_error obs) \<in> set (declared_branches ''Read'')"
  by (rule every_answer_is_declared [where acc = "ReadSecret keychain_address" and arm = example_arm, unfolded accepted_command.simps,
        OF example_scenario(1,2) scenario_open example_scenario(3,4)])

text \<open>
  C36: from the JSON of any command to what is reported: whether the authorizer denies it, the port refuses
  it or the stack answers it, the branch is one that the specification declares for that command, with its
  error; but for a refusal of the port that the command declares no branch for, which is reported with no
  branch. The commands that write, read, delete, rename or bind a secret have no such refusal: theirs is
  always a declared branch. (An \<open>Unbind\<close> of a name that is not one has: no branch is declared for it.)
\<close>

theorem every_input_is_answered:
  assumes "keyring (keychain_new U store) calm key held" "arms_only held arm"
    and "scenario U store W" "scenario_ok held w" "mc_up (cs_config w)"
    and "conformance_answer decode encode W (fold (world_flip arm) sws) unflip actor command v (t, w) = (Inr obs, tw')"
  shows "(\<exists>outcome. ob_outcome obs = Some outcome \<and> (outcome, ob_error obs) \<in> set (declared_branches command)) \<or>
    command \<notin> set address_commands \<and>
    (\<exists>refusal. refusal_branch command refusal = None \<and>
       obs = \<lparr>ob_response = None, ob_outcome = None, ob_error = declared_error (refusal_error refusal), ob_events = []\<rparr>)"
proof -
  let ?observe = "observe encode W (fold (world_flip arm) sws) unflip"
  from assms(6) obtain r p0 p where raw: "raw_resource command v = Inr r" and
    p: "conformance_parse decode command v = Inr p0" "(if conformance_decide r command = Inr () then resegment decode command 2 v p0 else Inr p0) = Inr p"
    and a: "(case p of Inl refusal \<Rightarrow> retE (case conformance_decide r command of
          Inl denial \<Rightarrow> refused (denial_outcome denial) Denied
        | Inr _ \<Rightarrow> \<lparr>ob_response = None, ob_outcome = refusal_branch command refusal,
            ob_error = declared_error (refusal_error refusal), ob_events = []\<rparr>)
      | Inr acc \<Rightarrow> ?observe command acc) (t, w) = (Inr obs, tw')"
    by (auto simp only: conformance_answer_def Let_def bindE_eq_Inr liftE_def prod.inject)
  from p resegment_parse obtain v' where v: "conformance_parse decode command v' = Inr p" by (fastforce split: if_splits)
  have denied: "declared_error Denied = Some ''secrets.storage.Denied''" by code_simp
  show ?thesis
  proof (cases p)
    case (Inl refusal)
    with v have n: "conformance_parse decode command v' = Inr (Inl refusal)" by simp
    show ?thesis
    proof (cases "conformance_decide r command")
      case (Inl d)
      from denial_declared_for [OF raw this n] show ?thesis
        using a \<open>p = Inl refusal\<close> Inl by (auto simp: retE_def refused_def denied)
    next
      case (Inr u)
      then have obs: "obs = \<lparr>ob_response = None, ob_outcome = refusal_branch command refusal,
          ob_error = declared_error (refusal_error refusal), ob_events = []\<rparr>"
        using a \<open>p = Inl refusal\<close> by (simp add: retE_def)
      show ?thesis
      proof (cases "command \<in> set address_commands")
        case True
        from refusal_declared [OF n this] show ?thesis by (auto simp: obs)
      next
        case False
        with other_refusal_declared [of command refusal] show ?thesis
          by (cases "refusal_branch command refusal") (auto simp: obs)
      qed
    qed
  next
    case (Inr acc)
    with v have "accepted_command acc = command" using parse_command by blast
    with scenario_observed [where encode = encode and sws = sws and unflip = unflip and acc = acc and t = t, OF assms(1-5)]
    show ?thesis using a Inr by auto
  qed
qed

definition example_input :: json where
  "example_input = JObject [(''address'', JObject
     [(''scope'', JObject [(''tenant'', JText ''default''), (''namespace'', JText ''default''), (''user'', JText ''default'')]),
      (''name'', JText ''a'')])]"

lemma example_parsed:
  "raw_resource ''Read'' example_input = Inr (ScopeRes ''default'' ''default'')"
  "conformance_decide (ScopeRes ''default'' ''default'') ''Read'' = Inr ()"
  "conformance_parse decode ''Read'' example_input = Inr (Inr (ReadSecret keychain_address))"
proof -
  have "input_address example_input = Inr (Inr keychain_address)" by code_simp
  then show "conformance_parse decode ''Read'' example_input = Inr (Inr (ReadSecret keychain_address))"
    by (simp add: conformance_parse_def)
qed code_simp+

theorem every_input_is_answered_witness:
  "\<exists>obs tw' outcome. conformance_answer (\<lambda>_. None) (\<lambda>_. []) (world_open example_uuid_crate scripted_store)
      (fold (world_flip example_arm) [KeychainEntry default_service keychain_address]) id
      (Some conformance_actor) ''Read'' example_input (\<lparr>wa_backends = \<lambda>_. 0, wa_config = 0\<rparr>, example_state) = (Inr obs, tw') \<and>
    ob_outcome obs = Some outcome \<and> (outcome, ob_error obs) \<in> set (declared_branches ''Read'')"
proof -
  let ?answer = "conformance_answer (\<lambda>_. None) (\<lambda>_. []) (world_open example_uuid_crate scripted_store)
      (fold (world_flip example_arm) [KeychainEntry default_service keychain_address]) id
      (Some conformance_actor) ''Read'' example_input (\<lparr>wa_backends = \<lambda>_. 0, wa_config = 0\<rparr>, example_state)"
  have "?answer = observe (\<lambda>_. []) (world_open example_uuid_crate scripted_store)
      (fold (world_flip example_arm) [KeychainEntry default_service keychain_address]) id ''Read'' (ReadSecret keychain_address)
      (\<lparr>wa_backends = \<lambda>_. 0, wa_config = 0\<rparr>, example_state)"
    unfolding conformance_answer_def by (simp add: check_actor_def example_parsed numeral_2_eq_2 Let_def)
  moreover obtain obs tw' where "observe (\<lambda>_. []) (world_open example_uuid_crate scripted_store)
      (fold (world_flip example_arm) [KeychainEntry default_service keychain_address]) id ''Read'' (ReadSecret keychain_address)
      (\<lparr>wa_backends = \<lambda>_. 0, wa_config = 0\<rparr>, example_state) = (Inr obs, tw')"
    using scenario_observed [where acc = "ReadSecret keychain_address" and arm = example_arm and encode = "\<lambda>_. []"
        and sws = "[KeychainEntry default_service keychain_address]" and unflip = id and t = "\<lparr>wa_backends = \<lambda>_. 0, wa_config = 0\<rparr>",
        unfolded accepted_command.simps, OF example_scenario(1,2) scenario_open example_scenario(3,4)] by blast
  ultimately have answered: "?answer = (Inr obs, tw')" by (rule trans)
  have "''Read'' \<in> set address_commands" by (simp add: address_commands_def)
  with every_input_is_answered [OF example_scenario(1,2) scenario_open example_scenario(3,4) answered] answered
  show ?thesis by blast
qed

text \<open>An \<open>Unbind\<close> of an empty name: the port refuses it, and the command declares no branch for that.\<close>

definition unnamed_input :: json where
  "unnamed_input = JObject [(''address'', JObject
     [(''scope'', JObject [(''tenant'', JText ''default''), (''namespace'', JText ''default''), (''user'', JText ''default'')]),
      (''name'', JText [])])]"

lemma unbind_undeclared:
  "\<exists>obs. conformance_answer decode encode W flip unflip None ''Unbind'' unnamed_input tw = (Inr obs, tw) \<and>
     ob_outcome obs = None \<and> ob_error obs = Some ''secrets.storage.InvalidName''"
proof -
  have "raw_resource ''Unbind'' unnamed_input = Inr (ScopeRes ''default'' ''default'')" by code_simp
  moreover have "conformance_decide (ScopeRes ''default'' ''default'') ''Unbind'' = Inr ()" by code_simp
  moreover have "input_address unnamed_input = Inr (Inl \<lparr>ae_part = Name, ae_reason = EmptySegment\<rparr>)" by code_simp
  then have "conformance_parse decode ''Unbind'' unnamed_input = Inr (Inl (RefuseAddress \<lparr>ae_part = Name, ae_reason = EmptySegment\<rparr>))"
    by (simp add: conformance_parse_def)
  moreover have "declared_error (refusal_error (RefuseAddress \<lparr>ae_part = Name, ae_reason = EmptySegment\<rparr>)) = Some ''secrets.storage.InvalidName''"
    by code_simp
  ultimately show ?thesis
    unfolding conformance_answer_def
    by (simp add: check_actor_def numeral_2_eq_2 Let_def refusal_branch_def retE_def del: refusal_error.simps)
qed

end
