(* ===== verification/Docs_Text.thy ===== *)
theory Docs_Text
  imports Http_Service Storage_Port
begin

text \<open>
  The pages of the documentation generator (\<open>crates/secrets-docs/src/main.rs\<close>): texts of the standard
  library, the raw admonitions, and the rewriting of what \<open>ess generate\<close> writes into pages of the site.
\<close>

section \<open>Texts\<close>

abbreviation newline :: char where "newline \<equiv> CHR 0x0A"

text \<open>\<open>str::find\<close> and \<open>str::contains\<close> of a text.\<close>

fun find_str :: "string \<Rightarrow> string \<Rightarrow> nat option" where
  "find_str p [] = (if p = [] then Some 0 else None)"
| "find_str p (x # s) = (if strip_prefix p (x # s) \<noteq> None then Some 0 else map_option Suc (find_str p s))"

definition contains_str :: "string \<Rightarrow> string \<Rightarrow> bool" where
  "contains_str p s \<longleftrightarrow> find_str p s \<noteq> None"

text \<open>\<open>str::replace\<close> of a text that is not empty: what was replaced is not looked at again.\<close>

function replace_str :: "string \<Rightarrow> string \<Rightarrow> string \<Rightarrow> string" where
  "replace_str p r [] = []"
| "replace_str p r (x # s) =
     (if p \<noteq> [] \<and> strip_prefix p (x # s) \<noteq> None then r @ replace_str p r (drop (length p) (x # s))
      else x # replace_str p r s)"
  by pat_completeness auto
termination
  by (relation "measure (\<lambda>(p, r, s). length s)") auto

definition replace_char :: "char \<Rightarrow> string \<Rightarrow> string \<Rightarrow> string" where
  "replace_char c r s = concat (map (\<lambda>x. if x = c then r else [x]) s)"

text \<open>\<open>str::lines\<close>: a last line without its newline keeps a carriage return.\<close>

definition strip_cr :: "string \<Rightarrow> string" where
  "strip_cr s = (if s \<noteq> [] \<and> last s = CHR 0x0D then butlast s else s)"

definition str_lines :: "string \<Rightarrow> string list" where
  "str_lines s =
     (let ls = split_on newline s
      in map strip_cr (butlast ls) @ (if last ls = [] then [] else [last ls]))"

text \<open>\<open>char::is_whitespace\<close> of the first character.\<close>

definition starts_white :: "string \<Rightarrow> bool" where
  "starts_white s \<longleftrightarrow> list_ex (\<lambda>x. take (length x) s = x) white_space"

section \<open>Raw admonitions\<close>

definition is_raw_admonition :: "string \<Rightarrow> bool" where
  "is_raw_admonition line =
     (case strip_prefix '':::'' line of
        None \<Rightarrow> False
      | Some rest \<Rightarrow>
          let kind = length (takeWhile is_ascii_lowercase rest);
              rest = drop kind rest;
              spaces = length (takeWhile (\<lambda>b. b = CHR '' '') rest)
          in kind > 0 \<and> spaces > 0 \<and> drop spaces rest \<noteq> [] \<and> \<not> starts_white (drop spaces rest))"

section \<open>Pages\<close>

datatype docs_error = Refused string | ModelRefused | Panicked | OsFailed

definition docs_header :: string where "docs_header = ''<!-- generated by secrets-docs, do not edit -->''"
definition mdx_header :: string where "mdx_header = ''{/* generated by secrets-docs, do not edit */}''"

definition strip_ess_banner :: "string \<Rightarrow> docs_error + string" where
  "strip_ess_banner page =
     bindR (ok_or (strip_prefix ''<!--'' page) (Refused ''ess page does not open with its provenance comment'')) (\<lambda>rest.
     bindR (ok_or (find_str ''-->'' rest) (Refused ''ess provenance comment is not closed'')) (\<lambda>end.
     Inr (dropWhile (\<lambda>c. c = newline) (drop (end + 3) rest))))"

definition title_and_summary :: "string \<Rightarrow> docs_error + string \<times> string" where
  "title_and_summary body =
     (let ls = str_lines body in
      bindR (ok_or (Option.bind (case ls of [] \<Rightarrow> None | l # _ \<Rightarrow> Some l) (strip_prefix ''# ''))
        (Refused ''ess page does not open with a level-one heading'')) (\<lambda>title.
      let title = trim title;
          summary = join CHR '' '' (takeWhile (\<lambda>l. trim l \<noteq> []) (dropWhile (\<lambda>l. trim l = []) (tl ls)))
      in if summary = [] then Inl (Refused (''ess page '' @ title @ '' has no summary'')) else Inr (title, summary)))"

definition yaml_string :: "string \<Rightarrow> string" where
  "yaml_string v =
     CHR 0x22 # replace_char CHR 0x22 [CHR 0x5C, CHR 0x22] (replace_char CHR 0x5C [CHR 0x5C, CHR 0x5C] v) @ [CHR 0x22]"

definition front_matter :: "string \<Rightarrow> string \<Rightarrow> string \<Rightarrow> string \<Rightarrow> string" where
  "front_matter title label description header =
     ''---'' @ newline # ''title: '' @ yaml_string title @ newline # ''sidebar_label: '' @ yaml_string label @ newline #
     ''description: '' @ yaml_string description @ newline # ''---'' @ [newline, newline] @ header @ [newline, newline]"

definition domain_page :: "string \<Rightarrow> docs_error + string \<times> string \<times> string" where
  "domain_page source =
     bindR (strip_ess_banner source) (\<lambda>body.
     bindR (title_and_summary body) (\<lambda>(title, summary).
     let body = replace_str ''[Back to the index](../index.md)'' ''[All domains](./index.mdx)'' body;
         body = replace_str ''](../crossings.md)'' ''](./crossings.md)'' body;
         body = replace_str ''`ess generate`'' ''`task docs-generate`'' body
     in if contains_str ''](../'' body then Inl (Refused (''ess page '' @ title @ '' links outside the generated domain pages''))
        else Inr (title, summary, front_matter (title @ '' domain'') title
          (''ESS reference for the '' @ title @ '' domain, generated from the specification.'') docs_header @ body)))"

definition crossings_page :: "string \<Rightarrow> docs_error + string" where
  "crossings_page source =
     bindR (strip_ess_banner source) (\<lambda>body.
     bindR (title_and_summary body) (\<lambda>(title, summary).
     let body = replace_str ''[Back to the index](index.md)'' ''[All domains](./index.mdx)'' body;
         body = replace_str ''`ess generate`'' ''`task docs-generate`'' body
     in if contains_str ''](../'' body \<or> contains_str ''](index.md)'' body
        then Inl (Refused (''ess page '' @ title @ '' links outside the generated pages''))
        else
          let description = (case find_str ''. '' summary of None \<Rightarrow> summary | Some n \<Rightarrow> take n summary) @ ''.''
          in Inr (front_matter title title description docs_header @ body)))"

record domain_entry =
  de_page :: string
  de_graph :: string
  de_title :: string
  de_summary :: string

text \<open>The index: an import per graph, the text of the page, then a section per domain.\<close>

definition index_text :: string where
  "index_text =
     ''Secrets is specified in ESS. This page and the domain pages below are generated from the '' @
     ''repository'' @ CHR 0x27 # ''s `spec/` directory by `secrets-docs`: the graphs from `ess specify compile`, the pages '' @
     ''from `ess generate --kind docs`. They change when the specification changes, and `task check` fails '' @
     ''if they fall behind it.'' @ [newline, newline] @
     ''`custody` is retrofitted from the shipped service and every declaration cites its source; a '' @
     ''conformance suite runs it against the real HTTP router and PostgreSQL store. `storage` is the model '' @
     ''of named, scoped secrets over several backends; `secrets-core` implements its storage port, and a '' @
     ''second suite runs that in process. No backend implements it yet.'' @ [newline]"

definition index_import :: "nat \<Rightarrow> domain_entry \<Rightarrow> string" where
  "index_import n d =
     ''import domainGraph'' @ dec_nat n @ '' from '' @ CHR 0x27 # ''@site/data/ess/'' @ de_graph d @ CHR 0x27 # '';'' @ [newline]"

definition index_section :: "nat \<Rightarrow> domain_entry \<Rightarrow> string" where
  "index_section n d =
     newline # ''## '' @ de_title d @ [newline, newline] @ de_summary d @ [newline, newline] @
     ''<DomainGraph data={domainGraph'' @ dec_nat n @ ''} title='' @ CHR 0x22 # de_title d @ CHR 0x22 # '' />'' @ [newline, newline] @
     ''[Read the '' @ de_title d @ '' domain in full](./'' @ de_page d @ '')'' @ [newline]"

definition index_page :: "domain_entry list \<Rightarrow> string" where
  "index_page domains =
     front_matter ''ESS specification'' ''ESS specification''
       ''The Secrets specification, domain by domain, generated from spec/ in the repository.'' mdx_header @
     concat (map (\<lambda>(n, d). index_import n d) (enumerate 0 domains)) @
     newline # ''# ESS specification'' @ [newline, newline] @ index_text @
     concat (map (\<lambda>(n, d). index_section n d) (enumerate 0 domains))"

section \<open>What the texts are\<close>

lemma strip_prefix_Some: "strip_prefix p s = Some r \<longleftrightarrow> s = p @ r"
  unfolding strip_prefix_def by (metis append_eq_conv_conj append_take_drop_id option.distinct(1) option.inject)

lemma strip_prefix_None: "strip_prefix p s = None \<longleftrightarrow> (\<forall>r. s \<noteq> p @ r)"
  using strip_prefix_Some [of p s] by (cases "strip_prefix p s") auto

lemma strip_prefix_append [simp]: "strip_prefix p (p @ r) = Some r"
  by (simp add: strip_prefix_Some)

text \<open>\<open>find\<close> gives the first position.\<close>

lemma find_str_Some: "find_str p s = Some n \<Longrightarrow> n \<le> length s \<and> (\<exists>r. drop n s = p @ r)"
proof (induction s arbitrary: n)
  case (Cons x s)
  then show ?case
    by (cases "strip_prefix p (x # s)") (auto simp: strip_prefix_Some split: if_splits)
qed (simp split: if_splits)

lemma find_str_None: "find_str p s = None \<longleftrightarrow> \<not> (\<exists>u v. s = u @ p @ v)"
proof (induction s)
  case (Cons x s)
  have "(\<exists>u v. x # s = u @ p @ v) \<longleftrightarrow> (\<exists>v. x # s = p @ v) \<or> (\<exists>u v. s = u @ p @ v)"
    by (metis append_Cons append_Nil list.exhaust list.inject)
  then show ?case
    using Cons by (simp add: strip_prefix_None)
qed simp

lemma find_str_first: "find_str p s = Some n \<Longrightarrow> k < n \<Longrightarrow> drop k s = p @ r \<Longrightarrow> False"
proof (induction s arbitrary: n k)
  case (Cons x s)
  show ?case
  proof (cases "strip_prefix p (x # s)")
    case None
    with Cons.prems obtain m where m: "find_str p s = Some m" "n = Suc m" by auto
    with None Cons.prems show ?thesis
      by (cases k) (auto simp: strip_prefix_def intro: Cons.IH)
  qed (use Cons.prems in auto)
qed (simp split: if_splits)

lemma contains_str_iff: "contains_str p s \<longleftrightarrow> (\<exists>u v. s = u @ p @ v)"
  using find_str_None [of p s] by (auto simp: contains_str_def)

end
