(* ===== verification/Docs_Graph.thy ===== *)
theory Docs_Graph
  imports Docs_Text
begin

text \<open>
  The domain graphs (\<open>crates/secrets-docs/src/graph.rs\<close>): documents made from the compiled model, a JSON
  value that \<open>ess\<close> prints. Indexing a value with a key that is not there gives \<open>null\<close>, as
  \<open>serde_json\<close> does.
\<close>

section \<open>JSON values\<close>

text \<open>A number is kept as its text.\<close>

datatype jvalue =
  VNull
| VBool bool
| VNumber string
| VString string
| VArray "jvalue list"
| VObject "(string \<times> jvalue) list"

fun vmember :: "jvalue \<Rightarrow> string \<Rightarrow> jvalue option" where
  "vmember (VObject members) key = map_of members key"
| "vmember _ key = None"

definition vget :: "jvalue \<Rightarrow> string \<Rightarrow> jvalue" where
  "vget v key = (case vmember v key of Some x \<Rightarrow> x | None \<Rightarrow> VNull)"

fun as_str :: "jvalue \<Rightarrow> string option" where
  "as_str (VString s) = Some s"
| "as_str _ = None"

fun as_array :: "jvalue \<Rightarrow> jvalue list option" where
  "as_array (VArray vs) = Some vs"
| "as_array _ = None"

fun as_object :: "jvalue \<Rightarrow> (string \<times> jvalue) list option" where
  "as_object (VObject members) = Some members"
| "as_object _ = None"

datatype model_error = NotAString string jvalue | UnsupportedReference jvalue | NoEntities string | NoDomains | ModelPanicked

section \<open>Types as the graph shows them\<close>

definition model_text :: "jvalue \<Rightarrow> string \<Rightarrow> model_error + string" where
  "model_text v key = ok_or (as_str (vget v key)) (NotAString key v)"

definition model_strings :: "jvalue \<Rightarrow> jvalue list" where
  "model_strings v = (case as_array v of None \<Rightarrow> [] | Some items \<Rightarrow> filter (\<lambda>item. as_str item \<noteq> None) items)"

definition short_name :: "string \<Rightarrow> string" where
  "short_name name = last (split_on CHR ''.'' name)"

definition ascii_upper :: "char \<Rightarrow> char" where
  "ascii_upper c = (if is_ascii_lowercase c then char_of (of_char c - 32 :: nat) else c)"

text \<open>
  \<open>wrapper[..1]\<close> panics where the text is empty or its first character has more than one byte.
\<close>

definition capitalized :: "string \<Rightarrow> model_error + string" where
  "capitalized kind =
     (case kind of
        [] \<Rightarrow> Inl ModelPanicked
      | c # cs \<Rightarrow> if (of_char c :: nat) \<ge> 128 then Inl ModelPanicked else Inr (ascii_upper c # cs))"

lemma bindR_cong [fundef_cong]: "r = r' \<Longrightarrow> (\<And>a. r' = Inr a \<Longrightarrow> k a = k' a) \<Longrightarrow> bindR r k = bindR r' k'"
  by (cases r') auto

lemma size_vmember: "vmember v key = Some x \<Longrightarrow> size x < size v"
proof (cases v)
  case (VObject members)
  moreover assume "vmember v key = Some x"
  ultimately have "(key, x) \<in> set members" by (auto dest: map_of_SomeD)
  then have "size x < size_list (size_prod (\<lambda>_. 0) size) members"
    by (induction members) auto
  with VObject show ?thesis by simp
qed auto

lemma size_vget: "model_text v k = Inr t \<Longrightarrow> size (vget v key) < size v"
proof -
  assume t: "model_text v k = Inr t"
  then obtain members where v: "v = VObject members"
    by (cases v) (auto simp: model_text_def vget_def ok_or_def)
  show ?thesis
  proof (cases "vmember v key")
    case None
    with v show ?thesis by (simp add: vget_def)
  next
    case (Some x)
    then show ?thesis by (simp add: vget_def size_vmember)
  qed
qed

function type_name :: "jvalue \<Rightarrow> model_error + string" where
  "type_name v =
     bindR (model_text v ''kind'') (\<lambda>kind.
     if kind = ''primitive'' then model_text v ''name''
     else if kind = ''declared'' then bindR (model_text v ''name'') (\<lambda>name. Inr (short_name name))
     else if kind = ''map'' then
       bindR (if as_str (vget v ''key'') = None then type_name (vget v ''key'') else model_text v ''key'') (\<lambda>key.
       bindR (type_name (vget v ''value'')) (\<lambda>t. Inr (''Map<'' @ key @ '', '' @ t @ ''>'')))
     else
       (case vmember v ''of'' of
          None \<Rightarrow> Inl (UnsupportedReference v)
        | Some inner \<Rightarrow> bindR (capitalized kind) (\<lambda>wrapper.
            bindR (type_name inner) (\<lambda>t. Inr (wrapper @ ''<'' @ t @ ''>'')))))"
  by pat_completeness auto
termination
  by (relation "measure size") (auto intro: size_vget size_vmember)

declare type_name.simps [simp del]

section \<open>Graphs\<close>

definition model_field :: "jvalue \<Rightarrow> model_error + jvalue" where
  "model_field v =
     bindR (model_text v ''name'') (\<lambda>name.
     bindR (type_name (vget v ''type_ref'')) (\<lambda>t.
     Inr (VObject [(''name'', VString name), (''type'', VString t)])))"

definition transition_json :: "jvalue \<Rightarrow> model_error + jvalue" where
  "transition_json t =
     bindR (model_text t ''name'') (\<lambda>name.
     bindR (model_text t ''to'') (\<lambda>to.
     Inr (VObject [(''name'', VString name), (''from'', VArray (model_strings (vget t ''from''))), (''to'', VString to)])))"

definition lifecycle :: "jvalue \<Rightarrow> model_error + jvalue" where
  "lifecycle v =
     bindR (model_text v ''initial'') (\<lambda>initial.
     let terminal = model_strings (vget v ''terminal'') in
     bindR (case as_array (vget v ''transitions'') of None \<Rightarrow> Inr [] | Some ts \<Rightarrow> try_map transition_json ts) (\<lambda>transitions.
     Inr (VObject ([(''initial'', VString initial), (''states'', VArray (model_strings (vget v ''states'')))] @
       (if terminal = [] then [] else [(''terminal'', VArray terminal)]) @
       (if transitions = [] then [] else [(''transitions'', VArray transitions)])))))"

definition graph_source :: string where
  "graph_source = ''generated by secrets-docs from spec/ (ess specify compile); do not edit''"

definition graph_header :: "jvalue \<Rightarrow> string \<Rightarrow> model_error + jvalue" where
  "graph_header model domain =
     (let naming = vget (vget (vget model ''domains'') domain) ''naming'' in
      bindR (model_text model ''system'') (\<lambda>system.
      Inr (VObject ([(''id'', VString domain)] @
        List.map_filter (\<lambda>key. map_option (\<lambda>s. (key, VString s)) (as_str (vget naming key))) [''display'', ''summary''] @
        [(''system'', VString system), (''source'', VString graph_source)]))))"

definition graph_entity :: "jvalue \<Rightarrow> string \<Rightarrow> model_error + jvalue" where
  "graph_entity model name =
     (let entity = vget (vget model ''entities'') name in
      bindR (model_field (vget entity ''identity'')) (\<lambda>identity.
      bindR (case as_array (vget entity ''fields'') of None \<Rightarrow> Inr [] | Some fs \<Rightarrow> try_map model_field fs) (\<lambda>fs.
      bindR (case as_object (vget entity ''lifecycle'') of
          None \<Rightarrow> Inr []
        | Some _ \<Rightarrow> bindR (lifecycle (vget entity ''lifecycle'')) (\<lambda>l. Inr [(''lifecycle'', l)])) (\<lambda>l.
      Inr (VObject ([(''id'', VString name), (''name'', VString (short_name name)), (''identity'', identity),
        (''fields'', VArray fs)] @ l))))))"

definition graph_relation :: "string \<Rightarrow> jvalue \<Rightarrow> model_error + jvalue" where
  "graph_relation name relation =
     bindR (model_text relation ''target'') (\<lambda>target.
     bindR (model_text relation ''name'') (\<lambda>n.
     bindR (model_text relation ''kind'') (\<lambda>kind.
     bindR (model_text relation ''cardinality'') (\<lambda>cardinality.
     Inr (VObject ([(''from'', VString name), (''to'', VString target), (''name'', VString n), (''kind'', VString kind),
       (''cardinality'', VString cardinality)] @
       (case as_str (vget relation ''via'') of None \<Rightarrow> [] | Some via \<Rightarrow> [(''via'', VString via)])))))))"

definition relations_of :: "jvalue \<Rightarrow> string \<Rightarrow> jvalue list" where
  "relations_of model name =
     (case as_array (vget (vget (vget model ''entities'') name) ''relations'') of None \<Rightarrow> [] | Some rs \<Rightarrow> rs)"

text \<open>The loop over the entities, in the order of their names.\<close>

fun graph_entities :: "jvalue \<Rightarrow> string list \<Rightarrow> model_error + jvalue list \<times> jvalue list" where
  "graph_entities model [] = Inr ([], [])"
| "graph_entities model (name # names) =
     bindR (graph_entity model name) (\<lambda>e.
     bindR (try_map (graph_relation name) (relations_of model name)) (\<lambda>rs.
     bindR (graph_entities model names) (\<lambda>(es, rest). Inr (e # es, rs @ rest))))"

definition entity_names :: "jvalue \<Rightarrow> string \<Rightarrow> model_error + string list" where
  "entity_names model domain =
     bindR (ok_or (as_array (vget (vget (vget model ''domains'') domain) ''entities'')) (NoEntities domain)) (\<lambda>items.
     Inr (sort (List.map_filter as_str items)))"

definition domain_graph :: "jvalue \<Rightarrow> string \<Rightarrow> model_error + jvalue" where
  "domain_graph model domain =
     bindR (graph_header model domain) (\<lambda>header.
     bindR (entity_names model domain) (\<lambda>names.
     bindR (graph_entities model names) (\<lambda>(entities, relations).
     Inr (VObject [(''format'', VString ''b10x-domain-graph/1''), (''domain'', header), (''entities'', VArray entities),
       (''relations'', VArray relations)]))))"

text \<open>The keys of an object are in order.\<close>

definition domain_graphs :: "jvalue \<Rightarrow> model_error + (string \<times> jvalue) list" where
  "domain_graphs model =
     bindR (ok_or (as_object (vget model ''domains'')) NoDomains) (\<lambda>domains.
     try_map (\<lambda>domain. bindR (domain_graph model domain) (\<lambda>g. Inr (domain, g))) (map fst (bt_from domains)))"

end
