(* ===== verification/Docs_Routes.thy ===== *)
theory Docs_Routes
  imports Docs_Graph "HOL-Library.While_Combinator" "HOL-Library.AList"
begin

text \<open>
  A tree of files, and what the documentation generator reads from one: the raw admonitions of the
  sources (\<open>crates/secrets-docs/src/main.rs\<close>) and the inventory of a built site
  (\<open>crates/secrets-docs/src/routes.rs\<close>).
\<close>

section \<open>Trees\<close>

text \<open>
  A file that cannot be read as text is \<open>FileNode None\<close>. A directory lists its entries in the order
  \<open>read_dir\<close> gives them, which is any.
\<close>

datatype tree = FileNode "string option" | DirNode "(string \<times> tree) list"

fun wf_tree :: "tree \<Rightarrow> bool" where
  "wf_tree (FileNode c) \<longleftrightarrow> True"
| "wf_tree (DirNode es) \<longleftrightarrow> distinct (map fst es) \<and> list_all (\<lambda>e. wf_tree (snd e)) es"

text \<open>\<open>Path::extension\<close> of a file name.\<close>

definition path_extension :: "string \<Rightarrow> string option" where
  "path_extension name =
     (let parts = split_on CHR ''.'' name
      in if length parts < 2 \<or> (length parts = 2 \<and> hd parts = []) then None else Some (last parts))"

fun try_fold :: "('a \<Rightarrow> 's \<Rightarrow> 'e + 's) \<Rightarrow> 'a list \<Rightarrow> 's \<Rightarrow> 'e + 's" where
  "try_fold f [] s = Inr s"
| "try_fold f (x # xs) s = bindR (f x s) (try_fold f xs)"

lemma try_map_cong [fundef_cong]: "xs = ys \<Longrightarrow> (\<And>x. x \<in> set ys \<Longrightarrow> f x = g x) \<Longrightarrow> try_map f xs = try_map g ys"
proof (induction xs arbitrary: ys)
  case (Cons x xs)
  then obtain zs where "ys = x # zs" "xs = zs" by auto
  with Cons show ?case by simp
qed simp

lemma try_fold_cong [fundef_cong]:
  "xs = ys \<Longrightarrow> s = s' \<Longrightarrow> (\<And>x s. x \<in> set ys \<Longrightarrow> f x s = g x s) \<Longrightarrow> try_fold f xs s = try_fold g ys s'"
proof (induction xs arbitrary: ys s s')
  case (Cons x xs)
  then obtain zs where z: "ys = x # zs" "xs = zs" by auto
  with Cons have "try_fold f xs = try_fold g zs" by (intro ext) auto
  with Cons.prems z show ?case by simp
qed simp

lemma size_entry: "(n, t) \<in> set es \<Longrightarrow> size t < Suc (size_list (size_prod (\<lambda>_. 0) size) es)"
  by (induction es) auto

section \<open>Raw admonitions of a directory\<close>

definition raw_lines :: "string \<Rightarrow> string \<Rightarrow> string list" where
  "raw_lines path text =
     map (\<lambda>(n, line). path @ '':'' @ dec_nat (n + 1)) (filter (\<lambda>(n, line). is_raw_admonition line) (enumerate 0 (str_lines text)))"

function raw_admonitions :: "string \<Rightarrow> tree \<Rightarrow> docs_error + string list" where
  "raw_admonitions dir (FileNode c) = Inl OsFailed"
| "raw_admonitions dir (DirNode es) =
     bindR (try_map (\<lambda>(name, t).
         let path = dir @ ''/'' @ name in
         case t of
           DirNode _ \<Rightarrow> raw_admonitions path t
         | FileNode c \<Rightarrow>
             if path_extension name \<in> {Some ''md'', Some ''mdx''} then bindR (ok_or c OsFailed) (\<lambda>text. Inr (raw_lines path text))
             else Inr [])
       (sort_key fst es)) (\<lambda>found. Inr (concat found))"
  by pat_completeness auto
termination
  by (relation "measure (\<lambda>(dir, t). size t)") (auto dest: size_entry)

section \<open>The ids of a page\<close>

definition is_redirect :: "string \<Rightarrow> bool" where
  "is_redirect html \<longleftrightarrow>
     contains_str (''http-equiv='' @ CHR 0x22 # ''refresh'' @ [CHR 0x22]) html \<or> contains_str ''http-equiv=refresh'' html \<or>
     contains_str ''<!-- b10x-trailing-slash-copy -->'' html"

fun until_white :: "string \<Rightarrow> string" where
  "until_white [] = []"
| "until_white (c # s) = (if c = CHR ''>'' \<or> starts_white (c # s) then [] else c # until_white s)"

definition id_value :: "string \<Rightarrow> string" where
  "id_value rest =
     (case rest of
        [] \<Rightarrow> []
      | quote # s \<Rightarrow>
          if quote = CHR 0x22 \<or> quote = CHR 0x27 then takeWhile (\<lambda>c. c \<noteq> quote) s else until_white rest)"

text \<open>The loop over what is left of the page, with the set of the values found; a set is a map to \<open>unit\<close>.\<close>

definition ids_more :: "string \<times> (string, unit) btree \<Rightarrow> bool" where
  "ids_more x \<longleftrightarrow> find_str '' id='' (fst x) \<noteq> None"

definition ids_step :: "string \<times> (string, unit) btree \<Rightarrow> string \<times> (string, unit) btree" where
  "ids_step x =
     (case find_str '' id='' (fst x) of
        None \<Rightarrow> x
      | Some at \<Rightarrow>
          let rest = drop (at + 4) (fst x); v = id_value rest
          in (rest, if v = [] then snd x else bt_put v () (snd x)))"

definition ids_loop :: "string \<Rightarrow> (string \<times> (string, unit) btree) option" where
  "ids_loop html = while_option ids_more ids_step (html, [])"

definition ids :: "string \<Rightarrow> string list" where
  "ids html = (case ids_loop html of Some (_, found) \<Rightarrow> map fst found | None \<Rightarrow> [])"

section \<open>The routes of a site\<close>

definition site_base :: string where "site_base = ''/secrets/''"

definition strip_suffix :: "string \<Rightarrow> string \<Rightarrow> string option" where
  "strip_suffix p s = map_option rev (strip_prefix (rev p) (rev s))"

definition route_of :: "string \<Rightarrow> string option" where
  "route_of relative =
     (if relative = ''404.html'' then None
      else case strip_suffix ''index.html'' relative of
          Some dir \<Rightarrow> Some (site_base @ dir)
        | None \<Rightarrow> map_option (\<lambda>page. site_base @ page @ ''/'') (strip_suffix ''.html'' relative))"

type_synonym inventory_map = "(string, string list) btree"

definition add_page :: "string \<Rightarrow> string option \<Rightarrow> inventory_map \<Rightarrow> docs_error + inventory_map" where
  "add_page path content out =
     (case route_of (replace_char CHR 0x5C ''/'' path) of
        None \<Rightarrow> Inr out
      | Some route \<Rightarrow>
          bindR (ok_or content OsFailed) (\<lambda>html.
          if is_redirect html then Inr out
          else
            let (old, out) = bt_insert route (ids html) out
            in if old \<noteq> None then Inl (Refused (''two built files answer '' @ route)) else Inr out))"

text \<open>\<open>dir\<close> is the path of the directory within the site, with a slash after each of its names.\<close>

function site_pages :: "string \<Rightarrow> tree \<Rightarrow> inventory_map \<Rightarrow> docs_error + inventory_map" where
  "site_pages dir (FileNode c) out = Inl OsFailed"
| "site_pages dir (DirNode es) out =
     try_fold (\<lambda>(name, t) out.
       case t of
         DirNode _ \<Rightarrow> site_pages (dir @ name @ ''/'') t out
       | FileNode c \<Rightarrow> add_page (dir @ name) c out)
     (sort_key fst es) out"
  by pat_completeness auto
termination
  by (relation "measure (\<lambda>(dir, t, out). size t)") (auto dest: size_entry)

text \<open>\<open>pretty\<close> is \<open>serde_json::to_string_pretty\<close>.\<close>

definition site_inventory :: "(jvalue \<Rightarrow> string) \<Rightarrow> tree \<Rightarrow> string \<Rightarrow> docs_error + string" where
  "site_inventory pretty site commit =
     bindR (site_pages [] site []) (\<lambda>found.
     if map_of found site_base = None then Inl (Refused ''the built site has no landing page'')
     else Inr (pretty (VObject
       [(''schema'', VString ''b10x-project-routes/v1''), (''repository'', VString ''secrets''), (''commit'', VString commit),
        (''baseUrl'', VString site_base),
        (''routes'', VArray (map (\<lambda>(path, anchors).
           VObject [(''path'', VString path), (''anchors'', VArray (map VString anchors))]) found))]) @ [newline]))"

end
