(* ===== verification/Docs_Main.thy ===== *)
theory Docs_Main
  imports Docs_Routes
begin

text \<open>
  The documentation generator (\<open>crates/secrets-docs/src/main.rs\<close>) over a tree of files: building what
  \<open>ess\<close> is the source of, writing it, checking it for drift, and binding a built site to its commit. A
  call that changes the tree may fail, as the script of the disk says. The program \<open>ess\<close> is a parameter:
  the model it compiles and the pages it writes.
\<close>

section \<open>The disk\<close>

record disk =
  dk_root :: tree
  dk_fails :: "bool list"
  dk_printed :: "string list"

type_synonym 'a disk_io = "(disk, docs_error, 'a) io"

fun tree_at :: "string list \<Rightarrow> tree \<Rightarrow> tree option" where
  "tree_at [] t = Some t"
| "tree_at (n # p) (DirNode es) = Option.bind (map_of es n) (tree_at p)"
| "tree_at (n # p) (FileNode c) = None"

text \<open>\<open>fs::write\<close>, \<open>fs::create_dir_all\<close> and \<open>fs::remove_dir_all\<close> where no call fails: \<open>None\<close> where the path does not allow it.\<close>

fun write_at :: "string list \<Rightarrow> string \<Rightarrow> tree \<Rightarrow> tree option" where
  "write_at [n] content (DirNode es) =
     (case map_of es n of
        Some (DirNode _) \<Rightarrow> None
      | _ \<Rightarrow> Some (DirNode (AList.update n (FileNode (Some content)) es)))"
| "write_at (n # m # p) content (DirNode es) =
     Option.bind (map_of es n) (\<lambda>t. map_option (\<lambda>t. DirNode (AList.update n t es)) (write_at (m # p) content t))"
| "write_at _ content t = None"

fun make_dirs :: "string list \<Rightarrow> tree \<Rightarrow> tree option" where
  "make_dirs [] (DirNode es) = Some (DirNode es)"
| "make_dirs (n # p) (DirNode es) =
     map_option (\<lambda>t. DirNode (AList.update n t es)) (make_dirs p (case map_of es n of None \<Rightarrow> DirNode [] | Some t \<Rightarrow> t))"
| "make_dirs _ (FileNode c) = None"

fun remove_at :: "string list \<Rightarrow> tree \<Rightarrow> tree option" where
  "remove_at [n] (DirNode es) =
     (case map_of es n of Some (DirNode _) \<Rightarrow> Some (DirNode (AList.delete n es)) | _ \<Rightarrow> None)"
| "remove_at (n # m # p) (DirNode es) =
     Option.bind (map_of es n) (\<lambda>t. map_option (\<lambda>t. DirNode (AList.update n t es)) (remove_at (m # p) t))"
| "remove_at _ t = None"

text \<open>A call fails where the script says so, leaving the tree, and otherwise where the tree does not allow it.\<close>

definition disk_call :: "(tree \<Rightarrow> tree option) \<Rightarrow> unit disk_io" where
  "disk_call f d =
     (let d' = d\<lparr>dk_fails := tl (dk_fails d)\<rparr> in
      if dk_fails d \<noteq> [] \<and> hd (dk_fails d) then (Inl OsFailed, d')
      else case f (dk_root d) of None \<Rightarrow> (Inl OsFailed, d') | Some t \<Rightarrow> (Inr (), d'\<lparr>dk_root := t\<rparr>))"

definition look_at :: "string list \<Rightarrow> tree option disk_io" where
  "look_at p d = (Inr (tree_at p (dk_root d)), d)"

definition print_line :: "string \<Rightarrow> unit disk_io" where
  "print_line line d = (Inr (), d\<lparr>dk_printed := dk_printed d @ [line]\<rparr>)"

section \<open>The pages from what \<open>ess\<close> writes\<close>

text \<open>
  What \<open>ess\<close> does: the compiled model, and the files of \<open>docs/domains\<close> with the page of the crossings, if
  there is one, each with its content where it can be read.
\<close>

record ess_program =
  ep_model :: "docs_error + jvalue"
  ep_domains :: "docs_error + (string \<times> string option) list"
  ep_crossings :: "string option option"

type_synonym pages = "(string, string) btree"
type_synonym outputs = "(string, pages) btree"

definition ess_reference :: string where "ess_reference = ''website/docs/reference/ess''"
definition ess_data :: string where "ess_data = ''website/data/ess''"
definition docs_dir :: string where "docs_dir = ''website/docs''"

fun docs_error_of_model :: "model_error \<Rightarrow> docs_error" where
  "docs_error_of_model ModelPanicked = Panicked"
| "docs_error_of_model _ = ModelRefused"

definition graph_pages :: "(jvalue \<Rightarrow> string) \<Rightarrow> jvalue \<Rightarrow> docs_error + pages" where
  "graph_pages pretty model =
     bindR (map_err docs_error_of_model (domain_graphs model)) (\<lambda>graphs.
     Inr (bt_from (map (\<lambda>(domain, g).
       (replace_char CHR ''.'' ''-'' domain @ ''.domain-graph.json'', pretty g @ [newline])) graphs)))"

definition add_domain :: "pages \<Rightarrow> string \<times> string option \<Rightarrow> domain_entry list \<times> pages \<Rightarrow> docs_error + domain_entry list \<times> pages" where
  "add_domain data file done =
     (let (name, content) = file; (index, pages) = done in
      case strip_suffix ''.md'' name of
        None \<Rightarrow> Inr (index, pages)
      | Some stem \<Rightarrow>
          let graph = stem @ ''.domain-graph.json'' in
          if map_of data graph = None then Inl (Refused (''ess page '' @ name @ '' has no domain in the compiled model''))
          else bindR (ok_or content OsFailed) (\<lambda>source.
            bindR (domain_page source) (\<lambda>(title, summary, page).
            Inr (index @ [\<lparr>de_page = name, de_graph = graph, de_title = title, de_summary = summary\<rparr>], bt_put name page pages))))"

definition ess_pages :: "ess_program \<Rightarrow> pages \<Rightarrow> docs_error + pages" where
  "ess_pages ess data =
     bindR (ep_domains ess) (\<lambda>files.
     bindR (try_fold (add_domain data) (sort_key fst files) ([], [])) (\<lambda>(index, pages).
     if index = [] then Inl (Refused ''ess generated no domain pages'')
     else if length index \<noteq> length data then
       Inl (Refused (''ess generated '' @ dec_nat (length index) @ '' domain pages for '' @ dec_nat (length data) @ '' domains''))
     else
       let pages = bt_put ''index.mdx'' (index_page index) pages in
       case ep_crossings ess of
         None \<Rightarrow> Inr pages
       | Some crossings \<Rightarrow>
           bindR (ok_or crossings OsFailed) (\<lambda>source.
           bindR (crossings_page source) (\<lambda>page. Inr (bt_put ''crossings.md'' page pages)))))"

definition ess_outputs :: "(jvalue \<Rightarrow> string) \<Rightarrow> ess_program \<Rightarrow> docs_error + outputs" where
  "ess_outputs pretty ess =
     bindR (ep_model ess) (\<lambda>model.
     bindR (graph_pages pretty model) (\<lambda>data.
     bindR (ess_pages ess data) (\<lambda>pages.
     Inr (bt_from [(ess_reference, pages), (ess_data, data)]))))"

section \<open>Drift\<close>

fun read_entry :: "string \<times> tree \<Rightarrow> pages \<Rightarrow> docs_error + pages" where
  "read_entry (name, FileNode (Some content)) actual = Inr (bt_put name content actual)"
| "read_entry (name, t) actual = Inl OsFailed"

definition directory_pages :: "tree option \<Rightarrow> docs_error + pages" where
  "directory_pages dir =
     (case dir of
        None \<Rightarrow> Inr []
      | Some (FileNode c) \<Rightarrow> Inl OsFailed
      | Some (DirNode es) \<Rightarrow> try_fold read_entry es [])"

definition drift :: "pages \<Rightarrow> tree option \<Rightarrow> docs_error + string list" where
  "drift expected dir =
     bindR (directory_pages dir) (\<lambda>actual.
     Inr (concat (map (\<lambda>(name, content).
         case map_of actual name of
           None \<Rightarrow> [''missing '' @ name]
         | Some found \<Rightarrow> if found \<noteq> content then [''stale or edited '' @ name] else []) expected) @
       map (\<lambda>name. ''not generated '' @ name) (filter (\<lambda>name. map_of expected name = None) (map fst actual))))"

section \<open>The commands\<close>

fun join_text :: "string \<Rightarrow> string list \<Rightarrow> string" where
  "join_text sep [] = []"
| "join_text sep [p] = p"
| "join_text sep (p # q # ps) = p @ sep @ join_text sep (q # ps)"

definition path_of :: "string \<Rightarrow> string list" where
  "path_of relative = split_on CHR ''/'' relative"

definition check_output :: "string \<times> pages \<Rightarrow> unit disk_io" where
  "check_output output =
     (let (relative, files) = output in
      bindE (look_at (path_of relative)) (\<lambda>dir.
      bindE (liftE (drift files dir)) (\<lambda>problems.
      if problems \<noteq> [] then
        failE (Refused (relative @ '' has drifted ('' @ join_text '', '' problems @ ''); run `task docs-generate`''))
      else bindE (print_line (relative @ '': '' @ dec_nat (length files) @ '' generated files current'')) (\<lambda>_.
        if relative = ess_reference then
          bindE (look_at (path_of docs_dir)) (\<lambda>docs.
          bindE (liftE (bindR (ok_or docs OsFailed) (raw_admonitions docs_dir))) (\<lambda>raw.
          if raw \<noteq> [] then failE (Refused (''raw admonition titles (write `:::kind[Title]`): '' @ join_text '', '' raw))
          else print_line (docs_dir @ '': no raw admonition titles'')))
        else retE ()))))"

definition write_output :: "string \<times> pages \<Rightarrow> unit disk_io" where
  "write_output output =
     (let (relative, files) = output; dir = path_of relative in
      bindE (look_at dir) (\<lambda>found.
      bindE (if found \<noteq> None then disk_call (remove_at dir) else retE ()) (\<lambda>_.
      bindE (disk_call (make_dirs dir)) (\<lambda>_.
      bindE (for_each (\<lambda>(name, content). disk_call (write_at (dir @ [name]) content)) files) (\<lambda>_.
      print_line (relative @ '': wrote '' @ dec_nat (length files) @ '' files''))))))"

definition docs_generate :: "(jvalue \<Rightarrow> string) \<Rightarrow> ess_program \<Rightarrow> bool \<Rightarrow> unit disk_io" where
  "docs_generate pretty ess check =
     bindE (liftE (ess_outputs pretty ess)) (\<lambda>outputs.
     for_each (if check then check_output else write_output) outputs)"

definition is_hex :: "char \<Rightarrow> bool" where
  "is_hex c \<longleftrightarrow> is_ascii_digit c \<or> c \<in> set ''abcdefABCDEF''"

definition site_manifest :: "string \<Rightarrow> docs_error + string" where
  "site_manifest commit =
     (let q = (\<lambda>s. CHR 0x22 # s @ [CHR 0x22]); line = (\<lambda>key v. ''  '' @ q key @ '': '' @ q v) in
      if length commit = 40 \<and> list_all is_hex commit \<and> commit \<noteq> replicate 40 CHR ''0'' then
        Inr (''{'' @ newline # line ''baseUrl'' site_base @ '','' @ newline # line ''commit'' commit @ '','' @ newline #
          line ''repository'' ''secrets'' @ '','' @ newline # line ''schema'' ''b10x-project-site/v1'' @ newline # ''}'')
      else Inl (Refused ''commit must be a nonzero full Git revision''))"

text \<open>The tree is the built site.\<close>

definition write_provenance :: "(jvalue \<Rightarrow> string) \<Rightarrow> string \<Rightarrow> string \<Rightarrow> unit disk_io" where
  "write_provenance pretty site_path commit =
     bindE (liftE (site_manifest commit)) (\<lambda>manifest.
     bindE (look_at [''index.html'']) (\<lambda>index.
     bindE (case index of Some (FileNode c) \<Rightarrow> retE () | _ \<Rightarrow> failE (Refused (site_path @ '' holds no built site''))) (\<lambda>_.
     bindE (look_at []) (\<lambda>site.
     bindE (liftE (bindR (ok_or site OsFailed) (\<lambda>site. site_inventory pretty site commit))) (\<lambda>inventory.
     bindE (disk_call (make_dirs [''.well-known''])) (\<lambda>_.
     bindE (disk_call (write_at [''.well-known'', ''b10x-site.json''] manifest)) (\<lambda>_.
     bindE (disk_call (write_at [''.well-known'', ''b10x-routes.json''] inventory)) (\<lambda>_.
     disk_call (write_at [''.nojekyll''] [])))))))))"

text \<open>The command line was parsed by another crate; \<open>Generate\<close> runs at the root, \<open>Provenance\<close> at the site.\<close>

datatype docs_action = Generate bool | Provenance string string

fun docs_main :: "(jvalue \<Rightarrow> string) \<Rightarrow> ess_program \<Rightarrow> docs_action \<Rightarrow> unit disk_io" where
  "docs_main pretty ess (Generate check) = docs_generate pretty ess check"
| "docs_main pretty ess (Provenance site commit) =
     bindE (write_provenance pretty site commit) (\<lambda>_. print_line (site @ '': bound to '' @ commit))"

end
