(* ===== verification/Docs_Lemmas.thy ===== *)
theory Docs_Lemmas
  imports Docs_Main
begin

text \<open>
  What the documentation generator's texts, loops and trees do: the lemmas its properties rest on.
\<close>

section \<open>Raw admonitions are a regular language\<close>

text \<open>A run that is followed by a character outside of it is the longest run.\<close>

lemma longest_run: "list_all P k \<Longrightarrow> r = [] \<or> \<not> P (hd r) \<Longrightarrow> takeWhile P (k @ r) = k"
  by (cases r) (auto simp: list_all_iff takeWhile_append2)

lemma white_space_blank: "\<not> starts_white (CHR '' '' # s) \<Longrightarrow> False"
  by (simp add: starts_white_def white_space_def)

lemma raw_admonition_iff:
  "is_raw_admonition line \<longleftrightarrow> (\<exists>kind spaces rest. line = '':::'' @ kind @ spaces @ rest \<and>
     kind \<noteq> [] \<and> list_all is_ascii_lowercase kind \<and> spaces \<noteq> [] \<and> list_all (\<lambda>c. c = CHR '' '') spaces \<and>
     rest \<noteq> [] \<and> \<not> starts_white rest)"
proof
  assume r: "is_raw_admonition line"
  then obtain s where s: "line = '':::'' @ s"
    by (auto simp: is_raw_admonition_def strip_prefix_Some split: option.splits)
  let ?k = "takeWhile is_ascii_lowercase s" and ?t = "dropWhile is_ascii_lowercase s"
  let ?b = "takeWhile (\<lambda>c. c = CHR '' '') ?t" and ?u = "dropWhile (\<lambda>c. c = CHR '' '') ?t"
  have "?k \<noteq> [] \<and> ?b \<noteq> [] \<and> ?u \<noteq> [] \<and> \<not> starts_white ?u"
    using r unfolding s is_raw_admonition_def Let_def strip_prefix_append option.case dropWhile_eq_drop [symmetric] length_greater_0_conv .
  moreover have "line = '':::'' @ ?k @ ?b @ ?u" by (simp add: s)
  moreover have "list_all is_ascii_lowercase ?k" "list_all (\<lambda>c. c = CHR '' '') ?b"
    by (auto simp: list_all_iff dest: set_takeWhileD)
  ultimately show "\<exists>kind spaces rest. line = '':::'' @ kind @ spaces @ rest \<and>
     kind \<noteq> [] \<and> list_all is_ascii_lowercase kind \<and> spaces \<noteq> [] \<and> list_all (\<lambda>c. c = CHR '' '') spaces \<and>
     rest \<noteq> [] \<and> \<not> starts_white rest"
    by (intro exI [of _ ?k] exI [of _ ?b] exI [of _ ?u] conjI) simp_all
next
  assume "\<exists>kind spaces rest. line = '':::'' @ kind @ spaces @ rest \<and>
     kind \<noteq> [] \<and> list_all is_ascii_lowercase kind \<and> spaces \<noteq> [] \<and> list_all (\<lambda>c. c = CHR '' '') spaces \<and>
     rest \<noteq> [] \<and> \<not> starts_white rest"
  then obtain kind spaces rest where l: "line = '':::'' @ kind @ spaces @ rest" and k: "kind \<noteq> []" "list_all is_ascii_lowercase kind"
    and b: "spaces \<noteq> []" "list_all (\<lambda>c. c = CHR '' '') spaces" and u: "rest \<noteq> []" "\<not> starts_white rest" by blast
  have "hd spaces = CHR '' ''" using b by (cases spaces) auto
  with b have k': "takeWhile is_ascii_lowercase (kind @ spaces @ rest) = kind"
    by (intro longest_run k) (simp add: is_ascii_lowercase_def)
  have "hd rest \<noteq> CHR '' ''" using u white_space_blank by (cases rest) auto
  then have b': "takeWhile (\<lambda>c. c = CHR '' '') (spaces @ rest) = spaces"
    by (intro longest_run b) simp
  show "is_raw_admonition line"
    unfolding l is_raw_admonition_def strip_prefix_append option.case Let_def k' using b' k b u by simp
qed

section \<open>Quoted text\<close>

text \<open>A double-quoted scalar of YAML, up to its closing quote; the escapes are those of the generator.\<close>

fun yaml_scalar :: "string \<Rightarrow> (string \<times> string) option" where
  "yaml_scalar [] = None"
| "yaml_scalar (c # s) =
     (if c = CHR 0x22 then Some ([], s)
      else if c = CHR 0x5C then
        (case s of x # s' \<Rightarrow> map_option (apfst ((#) x)) (yaml_scalar s') | [] \<Rightarrow> None)
      else map_option (apfst ((#) c)) (yaml_scalar s))"

lemma replace_char_simps [simp]: "replace_char c r [] = []" "replace_char c r (x # s) = (if x = c then r else [x]) @ replace_char c r s"
  by (simp_all add: replace_char_def)

lemma replace_char_append [simp]: "replace_char c r (s @ t) = replace_char c r s @ replace_char c r t"
  by (simp add: replace_char_def)

lemma yaml_scalar_quoted: "yaml_scalar (tl (yaml_string v) @ rest) = Some (v, rest)"
proof -
  have "yaml_scalar (replace_char CHR 0x22 [CHR 0x5C, CHR 0x22] (replace_char CHR 0x5C [CHR 0x5C, CHR 0x5C] v) @ CHR 0x22 # rest) =
    Some (v, rest)" by (induction v) auto
  then show ?thesis by (simp add: yaml_string_def)
qed

section \<open>The loop over the ids of a page\<close>

definition page_ids :: "string \<Rightarrow> string set" where
  "page_ids s = {v. v \<noteq> [] \<and> (\<exists>u w. s = u @ '' id='' @ w \<and> v = id_value w)}"

lemma page_ids_none: "find_str '' id='' s = None \<Longrightarrow> page_ids s = {}"
  unfolding find_str_None page_ids_def by blast

text \<open>The text does not overlap itself, so every other place where it stands is after the first.\<close>

lemma page_ids_next:
  assumes n: "find_str '' id='' s = Some n"
  shows "page_ids s = (if id_value (drop (n + 4) s) = [] then {} else {id_value (drop (n + 4) s)}) \<union> page_ids (drop (n + 4) s)"
proof -
  from find_str_Some [OF n] obtain w where w: "n \<le> length s" "drop n s = '' id='' @ w" by blast
  then have s: "s = take n s @ '' id='' @ w" by (metis append_take_drop_id)
  have "drop (n + 4) s = drop 4 (drop n s)" by (simp add: add.commute)
  then have d: "drop (n + 4) s = w" using w(2) by simp
  have later: "u = take n s \<and> w' = w \<or> (\<exists>u'. w = u' @ '' id='' @ w')" if s': "s = u @ '' id='' @ w'" for u w'
  proof -
    have "\<not> length u < n" using find_str_first [OF n, of "length u" w'] s' by auto
    moreover define p where "p = take n s"
    moreover have "p @ '' id='' @ w = u @ '' id='' @ w'" unfolding p_def by (rule trans [OF s [symmetric] s'])
    moreover have "length p = n" using w(1) by (simp add: p_def)
    ultimately obtain v where v: "u = take n s @ v" "'' id='' @ w = v @ '' id='' @ w'"
      unfolding append_eq_append_conv2 [of p] by fastforce
    show ?thesis
    proof (cases "length v < 4")
      case True
      then have "v \<in> {[], '' '', '' i'', '' id''}"
        using v(2) by (cases v; cases "tl v"; cases "tl (tl v)"; cases "tl (tl (tl v))") auto
      with v show ?thesis by auto
    next
      case False
      from arg_cong [OF v(2), of "take 4"] False have "take 4 v = '' id=''" by simp
      then have "v = '' id='' @ drop 4 v" by (metis append_take_drop_id)
      then have "'' id='' @ w = '' id='' @ drop 4 v @ '' id='' @ w'" using v(2) by (metis append_assoc)
      then show ?thesis by auto
    qed
  qed
  show ?thesis
    unfolding d
  proof (intro equalityI subsetI)
    fix x assume "x \<in> page_ids s"
    then obtain u w' where x: "x \<noteq> []" "s = u @ '' id='' @ w'" "x = id_value w'" unfolding page_ids_def by blast
    from later [OF x(2)] consider "w' = w" | u' where "w = u' @ '' id='' @ w'" by blast
    then show "x \<in> (if id_value w = [] then {} else {id_value w}) \<union> page_ids w"
    proof cases
      case 1
      with x show ?thesis by simp
    next
      case 2
      with x(1,3) have "x \<in> page_ids w" unfolding page_ids_def by blast
      then show ?thesis by simp
    qed
  next
    fix x assume "x \<in> (if id_value w = [] then {} else {id_value w}) \<union> page_ids w"
    then show "x \<in> page_ids s"
    proof
      assume "x \<in> (if id_value w = [] then {} else {id_value w})"
      then have "x \<noteq> [] \<and> x = id_value w" by (auto split: if_splits)
      with s show ?thesis unfolding page_ids_def by blast
    next
      assume "x \<in> page_ids w"
      then obtain u w' where x: "x \<noteq> []" "w = u @ '' id='' @ w'" "x = id_value w'" by (auto simp: page_ids_def)
      have "s = (take n s @ '' id='' @ u) @ '' id='' @ w'" using s x(2) by (metis append_assoc)
      with x show ?thesis unfolding page_ids_def by blast
    qed
  qed
qed

lemma bt_put_keys: "set (map fst (bt_put k v m)) = insert k (set (map fst m))"
  by (induction m) auto

lemma ids_loop_ends:
  "\<exists>rest found. ids_loop html = Some (rest, found) \<and> bt_wf found \<and> set (map fst found) = page_ids html"
proof -
  let ?I = "\<lambda>x. bt_wf (snd x) \<and> set (map fst (snd x)) \<union> page_ids (fst x) = page_ids html"
  have keep: "?I (ids_step x) \<and> length (fst (ids_step x)) < length (fst x)" if "?I x" "ids_more x" for x
  proof -
    from that(2) obtain n where n: "find_str '' id='' (fst x) = Some n" by (auto simp: ids_more_def)
    from find_str_Some [OF n] obtain w where w: "n \<le> length (fst x)" "drop n (fst x) = '' id='' @ w" by blast
    from arg_cong [OF w(2), of length] have l: "n + 4 \<le> length (fst x)" using w(1) by simp
    from that(1) have i: "bt_wf (snd x)" "set (map fst (snd x)) \<union> page_ids (fst x) = page_ids html" by auto
    let ?v = "id_value (drop (n + 4) (fst x))"
    have e: "ids_step x = (drop (n + 4) (fst x), if ?v = [] then snd x else bt_put ?v () (snd x))"
      by (simp add: ids_step_def n Let_def)
    have "set (map fst (snd (ids_step x))) \<union> page_ids (fst (ids_step x)) = set (map fst (snd x)) \<union> page_ids (fst x)"
      unfolding e page_ids_next [OF n] by (simp add: bt_put_keys del: set_map)
    with i l show ?thesis by (simp add: e)
  qed
  have "\<exists>x. ids_loop html = Some x"
    unfolding ids_loop_def
    by (rule measure_while_option_Some [where P = ?I and f = "\<lambda>x. length (fst x)"]) (use keep in auto)
  then obtain rest found where l: "while_option ids_more ids_step (html, []) = Some (rest, found)" by (auto simp: ids_loop_def)
  have "?I (rest, found)"
    by (rule while_option_rule [where P = ?I, OF _ l]) (use keep in \<open>auto simp: bt_wf_def\<close>)
  moreover have "page_ids rest = {}"
    using while_option_stop [OF l] by (simp add: ids_more_def page_ids_none)
  ultimately show ?thesis using l by (auto simp: ids_loop_def)
qed

lemma ids_set: "set (ids html) = page_ids html" "sorted (ids html)" "distinct (ids html)"
proof -
  from ids_loop_ends [of html] obtain rest found where
    l: "ids_loop html = Some (rest, found)" "bt_wf found" "set (map fst found) = page_ids html" by blast
  then have "ids html = map fst found" by (simp add: ids_def)
  with l show "set (ids html) = page_ids html" "sorted (ids html)" "distinct (ids html)"
    by (simp_all add: bt_wf_def strict_sorted_iff del: set_map)
qed

section \<open>The pages of a site\<close>

text \<open>
  What the inventory of a built site lists, stated without the order in which its directories are read:
  the pages that \<open>in_site\<close> finds, under their routes.
\<close>

inductive in_site :: "string \<Rightarrow> tree \<Rightarrow> string \<Rightarrow> string option \<Rightarrow> bool" where
  in_file: "(name, FileNode c) \<in> set es \<Longrightarrow> in_site dir (DirNode es) (dir @ name) c"
| in_directory: "(name, DirNode fs) \<in> set es \<Longrightarrow> in_site (dir @ name @ ''/'') (DirNode fs) path c \<Longrightarrow> in_site dir (DirNode es) path c"

inductive_cases in_file_cases: "in_site dir (FileNode c) path content"

lemma in_site_iff:
  "in_site dir (DirNode es) path content \<longleftrightarrow>
     (\<exists>(name, t) \<in> set es. case t of
        FileNode c \<Rightarrow> path = dir @ name \<and> content = c
      | DirNode fs \<Rightarrow> in_site (dir @ name @ ''/'') (DirNode fs) path content)"
  by (subst in_site.simps) (force split: tree.splits)

text \<open>The page a file is, if it is one.\<close>

definition page_route :: "string \<Rightarrow> string option" where
  "page_route path = route_of (replace_char CHR 0x5C ''/'' path)"

definition lists_page :: "string \<Rightarrow> string option \<Rightarrow> string \<Rightarrow> string list \<Rightarrow> bool" where
  "lists_page path content route anchors \<longleftrightarrow>
     page_route path = Some route \<and> (\<exists>html. content = Some html \<and> \<not> is_redirect html \<and> anchors = ids html)"

definition site_lists :: "string \<Rightarrow> tree \<Rightarrow> string \<Rightarrow> string list \<Rightarrow> bool" where
  "site_lists dir t route anchors \<longleftrightarrow> (\<exists>path content. in_site dir t path content \<and> lists_page path content route anchors)"

definition adds :: "(string \<Rightarrow> string list \<Rightarrow> bool) \<Rightarrow> inventory_map \<Rightarrow> inventory_map \<Rightarrow> bool" where
  "adds E m m' \<longleftrightarrow> (bt_wf m \<longrightarrow> bt_wf m' \<and> (\<forall>r v. map_of m' r = Some v \<longleftrightarrow> map_of m r = Some v \<or> E r v))"

lemma add_page_adds: "add_page path content m = Inr m' \<Longrightarrow> adds (lists_page path content) m m'"
  by (auto simp: adds_def add_page_def lists_page_def page_route_def bt_insert_def ok_or_def split: option.splits if_splits)

lemma try_fold_adds:
  assumes "\<And>x m m'. x \<in> set xs \<Longrightarrow> f x m = Inr m' \<Longrightarrow> adds (E x) m m'"
  shows "try_fold f xs m = Inr m' \<Longrightarrow> adds (\<lambda>r v. \<exists>x \<in> set xs. E x r v) m m'"
  using assms
proof (induction xs arbitrary: m)
  case Nil
  then show ?case by (simp add: adds_def)
next
  case (Cons x xs)
  from Cons.prems(1) obtain m1 where m1: "f x m = Inr m1" "try_fold f xs m1 = Inr m'" by auto
  have "adds (E x) m m1" using Cons.prems(2) m1(1) by simp
  moreover have "adds (\<lambda>r v. \<exists>x \<in> set xs. E x r v) m1 m'"
    by (rule Cons.IH [OF m1(2)]) (use Cons.prems(2) in simp)
  ultimately show ?case by (auto simp: adds_def)
qed

lemma site_lists_entries:
  "(\<lambda>r v. \<exists>x \<in> set es. (\<lambda>(name, t) r v. case t of
      FileNode c \<Rightarrow> lists_page (dir @ name) c r v | DirNode fs \<Rightarrow> site_lists (dir @ name @ ''/'') (DirNode fs) r v) x r v) =
   site_lists dir (DirNode es)"
proof (intro ext)
  fix r v
  let ?in = "\<lambda>x path content. case x of (name, t) \<Rightarrow> (case t of
      FileNode c \<Rightarrow> path = dir @ name \<and> content = c | DirNode fs \<Rightarrow> in_site (dir @ name @ ''/'') (DirNode fs) path content)"
  have "site_lists dir (DirNode es) r v \<longleftrightarrow> (\<exists>x \<in> set es. \<exists>path content. ?in x path content \<and> lists_page path content r v)"
    unfolding site_lists_def in_site_iff [of dir es] by blast
  also have "\<dots> \<longleftrightarrow> (\<exists>x \<in> set es. (\<lambda>(name, t) r v. case t of
      FileNode c \<Rightarrow> lists_page (dir @ name) c r v | DirNode fs \<Rightarrow> site_lists (dir @ name @ ''/'') (DirNode fs) r v) x r v)"
  proof (rule bex_cong [OF refl])
    fix x :: "string \<times> tree"
    obtain name t where x: "x = (name, t)" by (cases x)
    show "(\<exists>path content. ?in x path content \<and> lists_page path content r v) \<longleftrightarrow> (\<lambda>(name, t) r v. case t of
        FileNode c \<Rightarrow> lists_page (dir @ name) c r v | DirNode fs \<Rightarrow> site_lists (dir @ name @ ''/'') (DirNode fs) r v) x r v"
      by (cases t) (simp_all add: x site_lists_def)
  qed
  finally show "(\<exists>x \<in> set es. (\<lambda>(name, t) r v. case t of
      FileNode c \<Rightarrow> lists_page (dir @ name) c r v | DirNode fs \<Rightarrow> site_lists (dir @ name @ ''/'') (DirNode fs) r v) x r v) =
    site_lists dir (DirNode es) r v" by simp
qed

lemma site_pages_adds: "site_pages dir t m = Inr m' \<Longrightarrow> adds (site_lists dir t) m m'"
proof (induction dir t m arbitrary: m' rule: site_pages.induct)
  case (2 dir es m m')
  have run: "try_fold (\<lambda>(name, t) m. case t of DirNode _ \<Rightarrow> site_pages (dir @ name @ ''/'') t m | FileNode c \<Rightarrow> add_page (dir @ name) c m)
    (sort_key fst es) m = Inr m'"
    using "2.prems" unfolding site_pages.simps .
  let ?f = "\<lambda>(name, t) m. case t of DirNode _ \<Rightarrow> site_pages (dir @ name @ ''/'') t m | FileNode c \<Rightarrow> add_page (dir @ name) c m"
  let ?E = "\<lambda>(name, t) r v. case t of
      FileNode c \<Rightarrow> lists_page (dir @ name) c r v | DirNode fs \<Rightarrow> site_lists (dir @ name @ ''/'') (DirNode fs) r v"
  have "adds (?E x) m1 m2" if "x \<in> set (sort_key fst es)" "?f x m1 = Inr m2" for x m1 m2
  proof -
    obtain name t where x: "x = (name, t)" by (cases x)
    show ?thesis
    proof (cases t)
      case (FileNode c)
      with x that show ?thesis by (simp add: add_page_adds)
    next
      case (DirNode fs)
      with x that "2.IH" [OF that(1) x [symmetric], of fs] show ?thesis by simp
    qed
  qed
  then have "adds (\<lambda>r v. \<exists>x \<in> set (sort_key fst es). ?E x r v) m m'"
    by (rule try_fold_adds [OF _ run])
  then show ?case by (simp only: site_lists_entries set_sort)
qed simp

section \<open>A tree after its calls, and drift\<close>

text \<open>
  What the documentation generator's calls do to a tree of files, and the check for drift: it passes
  exactly on the pages that were generated.
\<close>

section \<open>Paths that do not meet\<close>

fun apart :: "string list \<Rightarrow> string list \<Rightarrow> bool" where
  "apart (a # p) (b # q) \<longleftrightarrow> a \<noteq> b \<or> apart p q"
| "apart _ _ \<longleftrightarrow> False"

lemma apart_empty: "apart p q \<Longrightarrow> tree_at q (DirNode []) = None"
  by (cases q; cases p) auto

lemma apart_sym: "apart p q \<Longrightarrow> apart q p"
  by (induction p q rule: apart.induct) auto

section \<open>Calls on a tree\<close>

fun dir_set :: "string list \<Rightarrow> tree \<Rightarrow> tree \<Rightarrow> tree" where
  "dir_set [] s t = s"
| "dir_set (n # p) s (DirNode es) = DirNode (AList.update n (dir_set p s (the (map_of es n))) es)"
| "dir_set (n # p) s (FileNode c) = FileNode c"

lemma at_dir_set: "tree_at p t = Some x \<Longrightarrow> tree_at p (dir_set p s t) = Some s"
  by (induction p t rule: tree_at.induct) (auto simp: update_conv' split: Option.bind_splits)

lemma at_dir_set_apart: "tree_at p t = Some x \<Longrightarrow> apart p q \<Longrightarrow> tree_at q (dir_set p s t) = tree_at q t"
proof (induction p t arbitrary: q rule: tree_at.induct)
  case (2 n p es)
  then obtain u where u: "map_of es n = Some u" "tree_at p u = Some x" by (auto split: Option.bind_splits)
  from 2(3) obtain b q' where q: "q = b # q'" by (cases q) auto
  show ?case using 2 u q by (auto simp: update_conv')
qed auto

lemma write_at_Cons:
  "q \<noteq> [] \<Longrightarrow> write_at (m # q) content (DirNode es) =
     Option.bind (map_of es m) (\<lambda>t. map_option (\<lambda>t. DirNode (AList.update m t es)) (write_at q content t))"
  by (cases q) auto

lemma write_at_dir:
  "tree_at p t = Some (DirNode es) \<Longrightarrow> \<forall>x. map_of es n \<noteq> Some (DirNode x) \<Longrightarrow>
   write_at (p @ [n]) content t = Some (dir_set p (DirNode (AList.update n (FileNode (Some content)) es)) t)"
proof (induction p t rule: tree_at.induct)
  case (1 t)
  then show ?case by (auto split: option.splits tree.splits)
next
  case (2 m p es')
  then show ?case by (auto simp: write_at_Cons split: Option.bind_splits)
qed auto

lemma make_dirs_at:
  "make_dirs p t = Some t' \<Longrightarrow>
   (tree_at p t = None \<longrightarrow> tree_at p t' = Some (DirNode [])) \<and> (\<forall>q. apart p q \<longrightarrow> tree_at q t' = tree_at q t)"
proof (induction p t arbitrary: t' rule: make_dirs.induct)
  case (2 n p es)
  let ?t = "case map_of es n of None \<Rightarrow> DirNode [] | Some t \<Rightarrow> t"
  from 2(2) obtain u where u: "make_dirs p ?t = Some u" "t' = DirNode (AList.update n u es)" by auto
  note ih = 2(1) [OF u(1)]
  show ?case
  proof (intro conjI impI allI)
    assume none: "tree_at (n # p) (DirNode es) = None"
    show "tree_at (n # p) t' = Some (DirNode [])"
    proof (cases "map_of es n")
      case None
      with u ih show ?thesis by (cases p) (auto simp: update_conv')
    next
      case (Some x)
      with u ih none show ?thesis by (auto simp: update_conv')
    qed
  next
    fix q assume a: "apart (n # p) q"
    then obtain b q' where q: "q = b # q'" by (cases q) auto
    show "tree_at q t' = tree_at q (DirNode es)"
    proof (cases "map_of es n")
      case None
      with u ih a q show ?thesis by (auto simp: update_conv' apart_empty)
    next
      case (Some x)
      with u ih a q show ?thesis by (auto simp: update_conv')
    qed
  qed
qed auto

lemma remove_at_Cons:
  "q \<noteq> [] \<Longrightarrow> remove_at (m # q) (DirNode es) =
     Option.bind (map_of es m) (\<lambda>t. map_option (\<lambda>t. DirNode (AList.update m t es)) (remove_at q t))"
  by (cases q) auto

lemma remove_at_at:
  "remove_at p t = Some t' \<Longrightarrow> tree_at p t' = None \<and> (\<forall>q. apart p q \<longrightarrow> tree_at q t' = tree_at q t)"
proof (induction p t arbitrary: t' rule: tree_at.induct)
  case (2 n p es)
  show ?case
  proof (cases "p = []")
    case True
    with 2(2) have t: "t' = DirNode (AList.delete n es)" by (auto split: option.splits tree.splits)
    have "tree_at q t' = tree_at q (DirNode es)" if "apart (n # p) q" for q
      using that True by (cases q) (auto simp: t delete_conv')
    with t True show ?thesis by (simp add: delete_conv')
  next
    case False
    with 2(2) obtain x u where u: "map_of es n = Some x" "remove_at p x = Some u" "t' = DirNode (AList.update n u es)"
      by (auto simp: remove_at_Cons split: Option.bind_splits)
    from 2(1) [OF u(1,2)] have ih: "tree_at p u = None" "\<forall>q. apart p q \<longrightarrow> tree_at q u = tree_at q x" by auto
    have "tree_at q t' = tree_at q (DirNode es)" if "apart (n # p) q" for q
      using that ih(2) u by (cases q) (auto simp: update_conv')
    with ih(1) u show ?thesis by (simp add: update_conv')
  qed
qed auto

section \<open>Writing a directory\<close>

lemma disk_call_done:
  "disk_call f d = (Inr (), d') \<longleftrightarrow>
     (dk_fails d = [] \<or> \<not> hd (dk_fails d)) \<and>
     (\<exists>t. f (dk_root d) = Some t \<and> d' = d\<lparr>dk_fails := tl (dk_fails d), dk_root := t\<rparr>)"
  by (auto simp: disk_call_def Let_def split: option.splits)

lemma update_fresh: "n \<notin> fst ` set es \<Longrightarrow> AList.update n x es = es @ [(n, x)]"
  by (induction es) auto

definition file_entries :: "pages \<Rightarrow> (string \<times> tree) list" where
  "file_entries files = map (\<lambda>(n, c). (n, FileNode (Some c))) files"

lemma written:
  assumes "for_each (\<lambda>(name, content). disk_call (write_at (p @ [name]) content)) files d = (Inr (), d')"
    and "tree_at p (dk_root d) = Some (DirNode es)" "distinct (map fst es @ map fst files)"
  shows "tree_at p (dk_root d') = Some (DirNode (es @ file_entries files)) \<and>
    (\<forall>q. apart p q \<longrightarrow> tree_at q (dk_root d') = tree_at q (dk_root d))"
  using assms
proof (induction files arbitrary: es d)
  case Nil
  then show ?case by (simp add: file_entries_def retE_def)
next
  case (Cons f files)
  obtain n c where f: "f = (n, c)" by (cases f)
  from Cons.prems(1) f obtain d1 where d1: "disk_call (write_at (p @ [n]) c) d = (Inr (), d1)"
    and rest: "for_each (\<lambda>(name, content). disk_call (write_at (p @ [name]) content)) files d1 = (Inr (), d')"
    by (auto simp: bindE_eq_Inr)
  have fresh: "n \<notin> fst ` set es" using Cons.prems(3) f by auto
  then have "\<forall>x. map_of es n \<noteq> Some (DirNode x)" by (force dest: map_of_SomeD)
  from write_at_dir [OF Cons.prems(2) this, of c] d1 have
    r: "dk_root d1 = dir_set p (DirNode (es @ [(n, FileNode (Some c))])) (dk_root d)"
    by (auto simp: disk_call_done update_fresh [OF fresh])
  have "tree_at p (dk_root d1) = Some (DirNode (es @ [(n, FileNode (Some c))]))"
    unfolding r by (rule at_dir_set [OF Cons.prems(2)])
  moreover have "distinct (map fst (es @ [(n, FileNode (Some c))]) @ map fst files)" using Cons.prems(3) f by auto
  ultimately have "tree_at p (dk_root d') = Some (DirNode ((es @ [(n, FileNode (Some c))]) @ file_entries files)) \<and>
    (\<forall>q. apart p q \<longrightarrow> tree_at q (dk_root d') = tree_at q (dk_root d1))" by (rule Cons.IH [OF rest])
  moreover have "tree_at q (dk_root d1) = tree_at q (dk_root d)" if "apart p q" for q
    unfolding r by (rule at_dir_set_apart [OF Cons.prems(2) that])
  ultimately show ?case by (simp add: f file_entries_def)
qed

lemma output_written:
  assumes run: "write_output (relative, files) d = (Inr (), d')" and files: "bt_wf files"
  shows "tree_at (path_of relative) (dk_root d') = Some (DirNode (file_entries files)) \<and>
    (\<forall>q. apart (path_of relative) q \<longrightarrow> tree_at q (dk_root d') = tree_at q (dk_root d))"
proof -
  let ?p = "path_of relative"
  from run obtain d1 d2 d3 where
    d1: "(if tree_at ?p (dk_root d) \<noteq> None then disk_call (remove_at ?p) else retE ()) d = (Inr (), d1)"
    and d2: "disk_call (make_dirs ?p) d1 = (Inr (), d2)"
    and d3: "for_each (\<lambda>(name, content). disk_call (write_at (?p @ [name]) content)) files d2 = (Inr (), d3)"
    and d4: "d' = d3\<lparr>dk_printed := dk_printed d3 @ [relative @ '': wrote '' @ dec_nat (length files) @ '' files'']\<rparr>"
    by (auto simp: write_output_def Let_def bindE_eq_Inr look_at_def print_line_def)
  have one: "tree_at ?p (dk_root d1) = None \<and> (\<forall>q. apart ?p q \<longrightarrow> tree_at q (dk_root d1) = tree_at q (dk_root d))"
    using d1 remove_at_at [of ?p "dk_root d"] by (auto simp: disk_call_done retE_def split: if_splits)
  have two: "tree_at ?p (dk_root d2) = Some (DirNode []) \<and> (\<forall>q. apart ?p q \<longrightarrow> tree_at q (dk_root d2) = tree_at q (dk_root d1))"
    using d2 make_dirs_at [of ?p "dk_root d1"] one by (auto simp: disk_call_done)
  from written [OF d3, of "[]"] two bt_wf_distinct [OF files] have
    "tree_at ?p (dk_root d3) = Some (DirNode (file_entries files)) \<and>
     (\<forall>q. apart ?p q \<longrightarrow> tree_at q (dk_root d3) = tree_at q (dk_root d2))" by simp
  with one two d4 show ?thesis by simp
qed

section \<open>Drift\<close>

lemma read_entries:
  "try_fold read_entry (file_entries files) m = Inr (foldl (\<lambda>m e. bt_put (fst e) (snd e) m) m files)"
  by (induction files arbitrary: m) (auto simp: file_entries_def)

lemma read_entries_wf: "try_fold read_entry es m = Inr actual \<Longrightarrow> bt_wf m \<Longrightarrow> bt_wf actual"
proof (induction es arbitrary: m)
  case (Cons e es)
  then obtain name content where "e = (name, FileNode (Some content))" by (cases "(e, m)" rule: read_entry.cases) auto
  with Cons show ?case by simp
qed simp

lemma directory_read: "bt_wf files \<Longrightarrow> directory_pages (Some (DirNode (file_entries files))) = Inr files"
  using bt_from_self [of files] by (simp add: directory_pages_def read_entries bt_from_def)

lemma directory_wf: "directory_pages dir = Inr actual \<Longrightarrow> bt_wf actual"
  by (auto simp: directory_pages_def dest: read_entries_wf split: option.splits tree.splits)

text \<open>No problem is found exactly when the pages read are the expected ones.\<close>

lemma drift_none:
  assumes "bt_wf expected"
  shows "drift expected dir = Inr [] \<longleftrightarrow> directory_pages dir = Inr expected"
proof (cases "directory_pages dir")
  case (Inr actual)
  have "drift expected dir = Inr [] \<longleftrightarrow>
      (\<forall>(name, content) \<in> set expected. map_of actual name = Some content) \<and> (\<forall>name \<in> fst ` set actual. map_of expected name \<noteq> None)"
    by (auto simp: drift_def Inr filter_empty_conv split: option.splits if_splits)
  also have "\<dots> \<longleftrightarrow>
      (\<forall>name content. map_of expected name = Some content \<longrightarrow> map_of actual name = Some content) \<and>
      (\<forall>name. map_of actual name \<noteq> None \<longrightarrow> map_of expected name \<noteq> None)"
    using bt_mem_iff [OF assms] by (simp only: bt_keys_map_of [symmetric] Ball_def split_paired_All split_conv)
  also have "\<dots> \<longleftrightarrow> map_of actual = map_of expected"
    unfolding fun_eq_iff by (metis option.exhaust option.distinct(1))
  also have "\<dots> \<longleftrightarrow> actual = expected"
    using bt_eqI [OF directory_wf [OF Inr] assms] by auto
  finally show ?thesis using Inr by simp
qed (simp add: drift_def)

section \<open>Generating\<close>

lemma ess_pages_wf: "ess_pages ess data = Inr pages \<Longrightarrow> bt_wf pages"
proof -
  have step: "try_fold (add_domain data) files (index, m) = Inr (index', m') \<Longrightarrow> bt_wf m \<Longrightarrow> bt_wf m'" for files index m index' m'
  proof (induction files arbitrary: index m)
    case (Cons f files)
    then obtain index1 m1 where f: "add_domain data f (index, m) = Inr (index1, m1)" "try_fold (add_domain data) files (index1, m1) = Inr (index', m')"
      by auto
    then have "bt_wf m1" using Cons.prems(2) by (auto simp: add_domain_def Let_def split: prod.splits option.splits if_splits)
    with f(2) show ?case by (rule Cons.IH)
  qed auto
  show "ess_pages ess data = Inr pages \<Longrightarrow> bt_wf pages"
    by (auto simp: ess_pages_def Let_def dest!: step split: if_splits option.splits)
qed

lemma outputs_shape:
  assumes "ess_outputs pretty ess = Inr outputs"
  shows "\<exists>data pages. outputs = [(ess_data, data), (ess_reference, pages)] \<and> bt_wf data \<and> bt_wf pages"
proof -
  from assms obtain data pages where o: "outputs = bt_from [(ess_reference, pages), (ess_data, data)]"
    and d: "\<exists>model. graph_pages pretty model = Inr data" and p: "ess_pages ess data = Inr pages"
    by (auto simp: ess_outputs_def)
  have "ess_data < ess_reference" by code_simp
  then have "outputs = [(ess_data, data), (ess_reference, pages)]"
    by (simp add: o bt_from_def)
  moreover have "bt_wf data" using d by (auto simp: graph_pages_def)
  ultimately show ?thesis using ess_pages_wf [OF p] by blast
qed

lemma outputs_apart: "apart (path_of ess_data) (path_of ess_reference)"
  by code_simp

lemma generated:
  assumes "docs_generate pretty ess False d = (Inr (), d')"
  shows "\<exists>outputs. ess_outputs pretty ess = Inr outputs \<and>
    (\<forall>(relative, files) \<in> set outputs. bt_wf files \<and> tree_at (path_of relative) (dk_root d') = Some (DirNode (file_entries files)))"
proof -
  from assms obtain outputs where o: "ess_outputs pretty ess = Inr outputs" and w: "for_each write_output outputs d = (Inr (), d')"
    by (auto simp: docs_generate_def bindE_eq_Inr liftE_def)
  from outputs_shape [OF o] obtain data pages where s: "outputs = [(ess_data, data), (ess_reference, pages)]"
    and wf: "bt_wf data" "bt_wf pages" by blast
  from w s obtain d1 where d1: "write_output (ess_data, data) d = (Inr (), d1)" "write_output (ess_reference, pages) d1 = (Inr (), d')"
    by (auto simp: bindE_eq_Inr retE_def)
  from output_written [OF d1(1) wf(1)] output_written [OF d1(2) wf(2)] apart_sym [OF outputs_apart] o s wf
  show ?thesis by auto
qed

section \<open>Two corners\<close>

text \<open>The description of a page whose summary is one sentence, with its full stop, gets a second full stop.\<close>

lemma crossings_second_stop:
  "case crossings_page (''<!-- x -->'' @ newline # ''# A'' @ [newline, newline] @ ''B.'' @ [newline]) of
     Inr page \<Rightarrow> contains_str (''description: '' @ CHR 0x22 # ''B..'' @ [CHR 0x22]) page | Inl _ \<Rightarrow> False"
  by code_simp

text \<open>A reference with an empty kind ends the program where any other kind is refused or shown.\<close>

lemma empty_kind_panics: "type_name (VObject [(''kind'', VString []), (''of'', t)]) = Inl ModelPanicked"
  by (simp add: type_name.simps [of "VObject _"] model_text_def vget_def ok_or_def capitalized_def)

end
