(* ===== verification/Docs_Properties.thy ===== *)
theory Docs_Properties
  imports Docs_Lemmas
begin

text \<open>
  What the documentation generator promises: what it generated is what its check accepts, the loop over
  the ids of a page ends with exactly the ids, and the inventory lists exactly the pages of a site.
\<close>

text \<open>
  C33: after a generation in which no call failed, each directory holds exactly the generated pages, and
  the check for drift passes on a directory exactly when the pages in it are those.
\<close>

theorem generated_is_current:
  assumes "docs_generate pretty ess False d = (Inr (), d')"
  shows "\<exists>outputs. ess_outputs pretty ess = Inr outputs \<and>
    (\<forall>(relative, files) \<in> set outputs.
       directory_pages (tree_at (path_of relative) (dk_root d')) = Inr files \<and>
       (\<forall>dir. drift files dir = Inr [] \<longleftrightarrow> directory_pages dir = Inr files))"
  using generated [OF assms] directory_read drift_none by fastforce

definition example_ess :: ess_program where
  "example_ess =
     \<lparr>ep_model = Inr (VObject [(''domains'', VObject [(''a'', VObject [(''entities'', VArray [])])]), (''system'', VString ''s'')]),
      ep_domains = Inr [(''a.md'', Some (''<!-- x -->'' @ newline # ''# A'' @ [newline, newline] @ ''B.'' @ [newline]))],
      ep_crossings = None\<rparr>"

definition example_disk :: disk where
  "example_disk = \<lparr>dk_root = DirNode [(''website'', DirNode [(''data'', DirNode [(''ess'', DirNode [(''old'', FileNode None)])])])],
     dk_fails = [], dk_printed = []\<rparr>"

lemma example_generated: "fst (docs_generate (\<lambda>_. ''{}'') example_ess False example_disk) = Inr ()"
  by code_simp

theorem generated_is_current_witness:
  "\<exists>outputs. ess_outputs (\<lambda>_. ''{}'') example_ess = Inr outputs \<and>
    (\<forall>(relative, files) \<in> set outputs.
       directory_pages (tree_at (path_of relative) (dk_root (snd (docs_generate (\<lambda>_. ''{}'') example_ess False example_disk)))) = Inr files \<and>
       (\<forall>dir. drift files dir = Inr [] \<longleftrightarrow> directory_pages dir = Inr files))"
  by (rule generated_is_current) (use example_generated in \<open>simp add: prod_eq_iff\<close>)

text \<open>
  C34: the loop over the ids of a page ends, whatever the page, and what it found is every value that is
  not empty of an \<open>id\<close> attribute: what stands after a place where \<open> id=\<close> stands.
\<close>

theorem ids_loop_terminates:
  "\<exists>rest found. ids_loop html = Some (rest, found) \<and> ids html = map fst found \<and> sorted (map fst found) \<and>
     set (map fst found) = {v. v \<noteq> [] \<and> (\<exists>u w. html = u @ '' id='' @ w \<and> v = id_value w)}"
proof -
  from ids_loop_ends [of html] obtain rest found where
    l: "ids_loop html = Some (rest, found)" "set (map fst found) = page_ids html" by blast
  then have "ids html = map fst found" by (simp add: ids_def)
  with l ids_set(2) [of html] show ?thesis unfolding page_ids_def by metis
qed

text \<open>
  C35: an inventory lists a route with its anchors exactly when a file of the site, in whatever directory,
  is a page that answers it and is not a redirect; the anchors are the ids of that page.
\<close>

theorem routes_are_pages:
  assumes "site_pages [] site [] = Inr found"
  shows "map_of found route = Some anchors \<longleftrightarrow>
    (\<exists>path html. in_site [] site path (Some html) \<and> page_route path = Some route \<and> \<not> is_redirect html \<and> anchors = ids html)"
  using site_pages_adds [OF assms] by (auto simp: adds_def site_lists_def lists_page_def)

definition example_site :: tree where
  "example_site = DirNode
     [(''index.html'', FileNode (Some (''<main id='' @ CHR 0x22 # ''top'' @ CHR 0x22 # ''>''))),
      (''docs'', DirNode [(''a.html'', FileNode (Some ''<p id=x>''))])]"

lemma site_pages_example: "case site_pages [] example_site [] of Inr found \<Rightarrow> found = [(''/secrets/'', [''top'']), (''/secrets/docs/a/'', [''x''])] | Inl _ \<Rightarrow> False"
  by code_simp

theorem routes_are_pages_witness:
  "\<exists>found. site_pages [] example_site [] = Inr found \<and>
    (map_of found ''/secrets/docs/a/'' = Some [''x''] \<longleftrightarrow>
      (\<exists>path html. in_site [] example_site path (Some html) \<and> page_route path = Some ''/secrets/docs/a/'' \<and> \<not> is_redirect html \<and>
        [''x''] = ids html))"
proof -
  obtain found where "site_pages [] example_site [] = Inr found"
    using site_pages_example by (auto split: sum.splits)
  with routes_are_pages show ?thesis by blast
qed

end
