(* ===== verification/Spec2Isabelle.thy ===== *)
theory Spec2Isabelle
  imports Federation_Stack Deployment_Properties File_Properties Keychain_Properties Cli_Examples Conformance_Properties Docs_Properties
begin

text \<open>
  A model of the secrets repository: a port for named secrets with an authorizer and several backends
  behind it, the custody service that keeps sealed secrets in PostgreSQL, and the program
  \<open>secretsctl\<close> in front of both. Every definition is a translation of the Rust code under \<open>crates/\<close> and \<open>checks/\<close>;
  other crates' code is an argument of the definitions that use it, and what is relied on of it is a
  named predicate or a locale.

  \<^bold>\<open>How the parts interact.\<close>
  A local command of \<open>secretsctl\<close> decides on the caller's scope, opens the configuration file and the
  backends it names, and calls the storage port: authorizer, then mount routing, then the one backend
  that the namespace is mounted on. Backends are the operating system's keychain, the custody service
  over HTTP, and the recording backend of the tests. The custody service takes a request through its
  routes, asks an authority who the caller is, checks tenant and action, and calls the custody store,
  which seals every version under the active key and keeps it in tables, one transaction per operation.

  \<^bold>\<open>Conventions.\<close>
  \<open>Result\<close> is a sum with the error on the left, \<open>?\<close> is \<open>bindR\<close>. An effect is a function \<open>('w, 'e, 'a) io\<close>
  from a world to an answer and the next world, composed with \<open>bindE\<close> (\<open>Prelude\<close>). A trait is a record
  of its methods; an implementation is such a record over its own world. \<open>BTreeMap\<close> is an association
  list in order (\<open>Ordered_Map\<close>); the orders Rust derives are instances of \<open>linorder\<close>
  (\<open>Storage_Orders\<close>, \<open>Custody\<close>). Texts are lists of characters standing for the bytes of their UTF-8
  form, so every length is in bytes. Machine integers are words of their width.

  \<^bold>\<open>Where each part is.\<close>
  \<^item> \<open>crates/secrets-core/src/storage.rs\<close>: \<open>Storage_Port\<close> (codes, names, addresses, targets, values,
    capabilities, the trait), \<open>Storage_Orders\<close>, \<open>Storage_Names\<close> (the grammar of names and what the
    parsers accept), \<open>Storage_Contract\<close> (\<open>storage_spec\<close>, the abstract map of named values).
  \<^item> \<open>crates/secrets-core/src/authorize.rs\<close>: \<open>Authorize\<close>; \<open>storage/testing.rs\<close>: \<open>Recording\<close>.
  \<^item> \<open>crates/secrets-federation\<close>: \<open>Namespace_Config\<close> (the trait, the store in memory, the locale
    \<open>config_contract\<close>), \<open>Federation\<close> (resolution, administration, the port over the mounts),
    \<open>Federation_Contract\<close> (the locale \<open>federation\<close>), \<open>Federation_Stack\<close> (its interpretation on a
    world of recording backends, and the properties).
  \<^item> \<open>crates/secrets-federation/src/file.rs\<close>: \<open>File_Config\<close> (the document, system calls, the atomic
    replacement), \<open>File_Document\<close>, \<open>File_Contract\<close>, \<open>File_Properties\<close>.
  \<^item> \<open>crates/secrets-core/src/lib.rs\<close>: \<open>Custody\<close>, with \<open>Custody_Contract\<close> (\<open>custody_spec\<close>, a vault, the
    prepared batches and the audit log) and \<open>Countable_Custody\<close>.
  \<^item> \<open>crates/secrets-crypto\<close>: \<open>Crypto\<close>, over \<open>Byte_Codec\<close> (big-endian numbers).
  \<^item> \<open>crates/secrets-postgres\<close> and its migrations: \<open>Postgres\<close> (the tables, statements with their
    constraints, transactions), \<open>Postgres_Store\<close> (the operations and the rotation); the simulation of
    \<open>custody_spec\<close> in \<open>Postgres_Frame\<close>, \<open>Postgres_Shows\<close>, \<open>Postgres_Steps\<close>, \<open>Postgres_Refines\<close>,
    \<open>Postgres_Batches\<close>, \<open>Postgres_Contract\<close>, \<open>Postgres_Commit\<close>; \<open>Postgres_Atomic\<close> (all or nothing),
    \<open>Postgres_Properties\<close>, \<open>Postgres_Rotation\<close>, \<open>Postgres_Disclosure\<close>, \<open>Example_Revocation\<close>.
  \<^item> \<open>crates/secrets-auth\<close>: \<open>Authority\<close>; \<open>crates/secrets-http\<close>: \<open>Http_Service\<close>, \<open>Http_Guard\<close>;
    \<open>crates/secrets-client\<close>: \<open>Custody_Client\<close>; \<open>crates/secrets-app\<close>: \<open>Custody_App\<close>;
    \<open>crates/secrets-remote\<close>: \<open>Remote_Backend\<close>. The locale \<open>custody_service\<close> (\<open>Custody_Service\<close>,
    \<open>Service_Contract\<close>, \<open>User_Safety\<close>, \<open>Client_Contract\<close>) and its extension \<open>remote_service\<close>
    (\<open>Remote_Contract\<close>, \<open>Remote_Refines\<close>, \<open>Remote_Simulation\<close>) compose them over any store that keeps
    the custody contract; \<open>Deployment\<close> interprets both on the store over PostgreSQL, and
    \<open>Deployment_Properties\<close> states what follows.
  \<^item> \<open>crates/secrets-keychain\<close>: \<open>Keychain\<close>, with \<open>Keychain_Store\<close> (the locale \<open>keyring\<close>, what is relied
    on of a credential store), \<open>Keychain_Methods\<close> and \<open>Keychain_Properties\<close>.
  \<^item> \<open>crates/secretsctl\<close>: \<open>Cli_Files\<close> (\<open>value.rs\<close>, \<open>out.rs\<close>), \<open>Cli_Net\<close> and \<open>Cli_Backends\<close> (\<open>backends.rs\<close>),
    \<open>Cli_Commands\<close> (\<open>local.rs\<close>), \<open>Cli_Main\<close> (\<open>main.rs\<close>); the proofs in \<open>Cli_Output\<close>, \<open>Cli_Opening\<close>,
    \<open>Cli_Blind\<close>, \<open>Cli_Stack\<close>, \<open>Cli_Answers\<close>, \<open>Cli_Properties\<close>, and in
    \<open>Cli_Examples\<close> a configuration with a keychain and a remote, and the stack the program opens over the
    configuration file and the keychain.
  \<^item> \<open>checks/conformance/src/storage.rs\<close>, and the branches that \<open>spec/domains/storage.yaml\<close> declares:
    \<open>Conformance_Watch\<close> (the counted stack), \<open>Conformance_Observe\<close> (the commands through the port and the
    branch read off an answer), \<open>Conformance_World\<close> (the stacks of a scenario and its switches),
    \<open>Conformance_Answer\<close> (from the JSON of a command to its report), with the locale \<open>conformance\<close> in
    \<open>Conformance_Contract\<close>, and \<open>Conformance_Admin\<close> and \<open>Conformance_Properties\<close>.
  \<^item> \<open>crates/secrets-docs\<close>, the documentation generator: \<open>Docs_Text\<close> (texts, pages, the index), \<open>Docs_Graph\<close>
    (\<open>graph.rs\<close>), \<open>Docs_Routes\<close> (trees of files, raw admonitions, \<open>routes.rs\<close>), \<open>Docs_Main\<close> (generation, drift,
    provenance); the proofs in \<open>Docs_Lemmas\<close> and \<open>Docs_Properties\<close>.

  \<^bold>\<open>What the lemmas show.\<close>
  \<^item> Refinement: the store over PostgreSQL answers every request as \<open>custody_spec\<close> allows, the keychain
    and the remote backend every request as \<open>storage_spec\<close> allows, and the stack of authorizer,
    routing and backends implements one map of named values. Each is a simulation, request by request,
    with an abstraction from the world to the specification's state.
  \<^item> Safety: what an answer may depend on (a caller's grant, the mounted backend, never a value that is
    printed), who may change what (tenant, owner), and that a file is seen whole or not at all,
    whichever calls fail.
  \<^item> Sealing: what is sealed opens to itself, and only for the reference, version, disclosure and
    transaction it was sealed for.
  \<^item> Errors: a refused request leaves no trace in secrets, versions or events, but where the store cannot
    tell whether a change was made; a keychain's rename loses no value unless the store fails a deletion it
    has made; the exit codes and refusals are the declared ones.
  \<^item> Text: the parsers accept the documented grammar, and what is printed is read back.
  \<^item> Conformance: the observer reports every command of a scenario in a branch the specification declares,
    with the error declared for it, whatever switches are flipped.
  \<^item> Documentation: what is generated is what the check for drift accepts, and nothing else; the routes of
    a site are its pages, with every id in them.

  \<^bold>\<open>Bounds and fuel.\<close>
  Opening a file follows symbolic links with fuel 41: the system allows 40 links, and running out is
  its error for a loop, not an artefact of the model. The loop over the ids of a page is \<open>while_option\<close>,
  and \<open>ids_loop_terminates\<close> shows that it ends. Every other loop is a recursion over its list or tree.
  The bound of a value is 1048576 bytes, of a name 128, of a segment 64, as the code has them. Versions,
  counters and lengths are kept as words or bounded where the code keeps them so, and a theorem that
  needs a number not to wrap says so.

  \<^bold>\<open>What is a parameter.\<close>
  AES-GCM, the system's entropy, JSON, base64, TOML, URLs, HTTP, the credential store, UUIDs and clocks are
  arguments. Their laws are documented behaviour: a sealed text opens under the same key, nonce and
  associated data and under no other; a rendered document parses to itself; a credential store reads back
  what it wrote, and one of its changes that fails may have been made or not. Every property with such a
  hypothesis has a witness with the parameter instantiated.

  \<^bold>\<open>Not modelled.\<close>
  Row locks and transactions that run at the same time (each operation of the store is one sequence of
  statements, any of which may fail); connecting to a database and migrating it, beyond the order of
  calls in \<open>main\<close>; request ids, tracing and metrics; the texts of the served documents; wiping of
  memory; a loss of power; the native credential stores and the feature \<open>test-hooks\<close>; the parser of the
  command line. The order
  of a listing is not relied on where the code leaves it open.
  Of the conformance checks, how a forced outcome is arranged, the custody service a scenario starts as its
  remote backend and the views are not modelled, nor are the suites of \<open>cli.rs\<close>, \<open>custody.rs\<close>,
  \<open>target.rs\<close> and \<open>main.rs\<close>, which run the built programs against containers and a database and compare what
  these print. The program \<open>ess\<close> is a parameter of the documentation generator, as is the text of a JSON
  value; a file name that is not text is not in its tree, and a call that fails leaves the tree as it was.
\<close>

end
